(* ===== verification/Prelude.thy ===== *)
theory Prelude
  imports Complex_Main "HOL-Library.AList" "HOL-Library.Char_ord" "HOL-Library.List_Lexorder"
begin

text \<open>
  Shared vocabulary of the development: exceptions as sums and their sequencing, database
  tables as association lists with SQL's insert, upsert and delete, the JSON values the
  services exchange, and the list facts the component theories use. Nothing here models
  code of the repository by itself except where a definition says so; the component
  theories import it.
\<close>

named_theorems table_simps \<open>lookups after the table operations\<close>
named_theorems inv_intros \<open>preservation lemmas for table invariants\<close>

section \<open>Exceptions as values\<close>

text \<open>
  A Python block that can raise is a value of type \<open>'e + 'a\<close>; \<open>Inl\<close> is the exception.
  \<open>sbind\<close> runs the rest of the block only when the first part returned.
\<close>

definition sbind :: "'e + 'a \<Rightarrow> ('a \<Rightarrow> 'e + 'b) \<Rightarrow> 'e + 'b" where
  "sbind x f = (case x of Inl e \<Rightarrow> Inl e | Inr a \<Rightarrow> f a)"

text \<open>
  A database transaction: on an exception every write of the block is rolled back, otherwise
  the new state is committed.
\<close>

definition run_tx :: "('s \<Rightarrow> 'e + 'a \<times> 's) \<Rightarrow> 's \<Rightarrow> ('e + 'a) \<times> 's" where
  "run_tx f s = (case f s of Inl e \<Rightarrow> (Inl e, s) | Inr (a, s') \<Rightarrow> (Inr a, s'))"

lemma sbind_Inl [simp]: "sbind (Inl e) f = Inl e"
  by (simp add: sbind_def)

lemma sbind_Inr [simp]: "sbind (Inr a) f = f a"
  by (simp add: sbind_def)

lemma sbind_eq_Inr: "sbind x f = Inr b \<longleftrightarrow> (\<exists>a. x = Inr a \<and> f a = Inr b)"
  by (cases x) auto

lemma sbind_eq_InrE:
  assumes "sbind x f = Inr b"
  obtains a where "x = Inr a" and "f a = Inr b"
  using assms by (auto simp: sbind_eq_Inr)

lemma sbind_assoc: "sbind (sbind x f) g = sbind x (\<lambda>a. sbind (f a) g)"
  by (cases x) auto

section \<open>Tables\<close>

text \<open>
  A SQL table with a primary key is an association list in row order. \<open>tget\<close> selects by key,
  \<open>tput\<close> is INSERT ... ON CONFLICT DO UPDATE, \<open>tdel\<close> is DELETE; a plain INSERT
  (\<open>tinsert\<close>) of a key that is present violates the primary key and gives None.
\<close>

type_synonym ('k, 'v) table = "('k \<times> 'v) list"

definition tget :: "('k, 'v) table \<Rightarrow> 'k \<Rightarrow> 'v option" where
  "tget t k = map_of t k"

definition tkeys :: "('k, 'v) table \<Rightarrow> 'k list" where
  "tkeys t = map fst t"

definition tput :: "'k \<Rightarrow> 'v \<Rightarrow> ('k, 'v) table \<Rightarrow> ('k, 'v) table" where
  "tput k v t = AList.update k v t"

definition tdel :: "'k \<Rightarrow> ('k, 'v) table \<Rightarrow> ('k, 'v) table" where
  "tdel k t = AList.delete k t"

definition tinsert :: "'k \<Rightarrow> 'v \<Rightarrow> ('k, 'v) table \<Rightarrow> ('k, 'v) table option" where
  "tinsert k v t = (if k \<in> set (tkeys t) then None else Some (t @ [(k, v)]))"

definition twf :: "('k, 'v) table \<Rightarrow> bool" where
  "twf t \<longleftrightarrow> distinct (tkeys t)"

text \<open>SELECT ... ORDER BY key.\<close>

definition tsorted :: "('k::linorder, 'v) table \<Rightarrow> ('k \<times> 'v) list" where
  "tsorted t = sort_key fst t"

text \<open>The contract every component relies on when it reads a table it wrote.\<close>

locale keyed_table =
  fixes lookup :: "'t \<Rightarrow> 'k \<Rightarrow> 'v option"
    and upsert :: "'k \<Rightarrow> 'v \<Rightarrow> 't \<Rightarrow> 't"
    and remove :: "'k \<Rightarrow> 't \<Rightarrow> 't"
    and wf :: "'t \<Rightarrow> bool"
  assumes lookup_upsert: "lookup (upsert k v t) = (lookup t)(k \<mapsto> v)"
    and lookup_remove: "lookup (remove k t) = (lookup t)(k := None)"
    and wf_upsert: "wf t \<Longrightarrow> wf (upsert k v t)"
    and wf_remove: "wf t \<Longrightarrow> wf (remove k t)"
begin

lemma lookup_upsert_same: "lookup (upsert k v t) k = Some v"
  by (simp add: lookup_upsert)

lemma lookup_upsert_other: "k \<noteq> k' \<Longrightarrow> lookup (upsert k v t) k' = lookup t k'"
  by (simp add: lookup_upsert)

lemma lookup_remove_same: "lookup (remove k t) k = None"
  by (simp add: lookup_remove)

lemma dom_upsert: "dom (lookup (upsert k v t)) = insert k (dom (lookup t))"
  by (simp add: lookup_upsert)

lemma upsert_pred:
  assumes "\<And>k' w. lookup t k' = Some w \<Longrightarrow> P k' w" and "P k v"
    and "lookup (upsert k v t) k' = Some w"
  shows "P k' w"
  using assms by (auto simp: lookup_upsert split: if_splits)

end

interpretation tbl: keyed_table tget tput tdel twf
  by unfold_locales
    (auto simp: tget_def tput_def tdel_def twf_def tkeys_def update_conv' delete_conv'
      distinct_update distinct_delete)

lemma tget_tput [simp, table_simps]: "tget (tput k v t) k' = (if k' = k then Some v else tget t k')"
  by (simp add: tbl.lookup_upsert)

lemma tget_tdel [simp, table_simps]: "tget (tdel k t) k' = (if k' = k then None else tget t k')"
  by (simp add: tbl.lookup_remove)

lemma tget_Nil [simp]: "tget [] k = None"
  by (simp add: tget_def)

lemma twf_Nil [simp]: "twf []"
  by (simp add: twf_def tkeys_def)

lemma tkeys_Nil [simp]: "tkeys [] = []"
  by (simp add: tkeys_def)

lemma tget_None_iff: "tget t k = None \<longleftrightarrow> k \<notin> set (tkeys t)"
  by (auto simp: tget_def tkeys_def map_of_eq_None_iff)

lemma tget_Some_keys: "tget t k = Some v \<Longrightarrow> k \<in> set (tkeys t)"
  by (metis option.distinct(1) tget_None_iff)

lemma tget_Some_in: "tget t k = Some v \<Longrightarrow> (k, v) \<in> set t"
  by (simp add: tget_def map_of_SomeD)

lemma twf_tget: "twf t \<Longrightarrow> tget t k = Some v \<longleftrightarrow> (k, v) \<in> set t"
  by (auto simp: tget_def twf_def tkeys_def)

lemma set_tkeys_tput [simp]: "set (tkeys (tput k v t)) = insert k (set (tkeys t))"
  by (simp add: tkeys_def tput_def dom_update)

lemma twf_tput [simp, inv_intros]: "twf t \<Longrightarrow> twf (tput k v t)"
  by (rule tbl.wf_upsert)

lemma twf_tdel [simp, inv_intros]: "twf t \<Longrightarrow> twf (tdel k t)"
  by (rule tbl.wf_remove)

lemma tinsert_Some_iff:
  "tinsert k v t = Some t' \<longleftrightarrow> tget t k = None \<and> t' = t @ [(k, v)]"
  by (auto simp: tinsert_def tget_None_iff)

lemma tinsert_None_iff: "tinsert k v t = None \<longleftrightarrow> tget t k \<noteq> None"
  by (auto simp: tinsert_def tget_None_iff)

lemma tget_append_single [simp]:
  "tget (t @ [(k, v)]) k' = (case tget t k' of None \<Rightarrow> if k' = k then Some v else None | Some w \<Rightarrow> Some w)"
  by (auto simp: tget_def map_add_def split: option.splits)

lemma tget_append_fresh:
  "tget t k = None \<Longrightarrow> tget (t @ [(k, v)]) k' = (if k' = k then Some v else tget t k')"
  by (auto split: option.splits)

lemma tkeys_append [simp]: "tkeys (s @ t) = tkeys s @ tkeys t"
  by (simp add: tkeys_def)

lemma tkeys_Cons [simp]: "tkeys ((k, v) # t) = k # tkeys t"
  by (simp add: tkeys_def)

lemma twf_append_single: "twf t \<Longrightarrow> tget t k = None \<Longrightarrow> twf (t @ [(k, v)])"
  by (simp add: twf_def tget_None_iff)

lemma tput_present_keys: "tget t k \<noteq> None \<Longrightarrow> tkeys (tput k v t) = tkeys t"
  by (auto simp: tget_None_iff tkeys_def tput_def update_keys)

lemma tput_absent: "tget t k = None \<Longrightarrow> tput k v t = t @ [(k, v)]"
proof (induction t)
  case (Cons p t)
  then show ?case by (cases p) (auto simp: tput_def tget_def split: if_splits)
qed (simp add: tput_def)

lemma tput_tput [simp]: "tput k v (tput k w t) = tput k v t"
  by (induction t) (auto simp: tput_def)

lemma set_tsorted [simp]: "set (tsorted t) = set t"
  by (simp add: tsorted_def)

section \<open>Counting rows\<close>

definition tcount :: "('v \<Rightarrow> bool) \<Rightarrow> ('k, 'v) table \<Rightarrow> nat" where
  "tcount P t = length (filter (P \<circ> snd) t)"

lemma tcount_Nil [simp]: "tcount P [] = 0"
  by (simp add: tcount_def)

lemma tcount_append [simp]: "tcount P (s @ t) = tcount P s + tcount P t"
  by (simp add: tcount_def)

lemma tcount_single [simp]: "tcount P [(k, v)] = (if P v then 1 else 0)"
  by (simp add: tcount_def)

lemma tcount_tput_present:
  assumes "twf t" and "tget t k = Some old"
  shows "tcount P (tput k v t) + (if P old then 1 else 0) = tcount P t + (if P v then 1 else 0)"
  using assms
proof (induction t)
  case (Cons p t)
  obtain k' v' where p: "p = (k', v')" by (cases p)
  show ?case
  proof (cases "k' = k")
    case True
    with Cons.prems p have "old = v'" and "k \<notin> set (tkeys t)"
      by (auto simp: tget_def twf_def tkeys_def)
    then show ?thesis using p True by (auto simp: tcount_def tput_def)
  next
    case False
    with Cons p have "tcount P (tput k v t) + (if P old then 1 else 0) = tcount P t + (if P v then 1 else 0)"
      by (auto simp: tget_def twf_def tkeys_def)
    then show ?thesis using p False by (auto simp: tcount_def tput_def split: if_splits)
  qed
qed simp

lemma tcount_tput_absent:
  "tget t k = None \<Longrightarrow> tcount P (tput k v t) = tcount P t + (if P v then 1 else 0)"
  by (simp add: tput_absent)

lemma tcount_mono: "(\<And>v. P v \<Longrightarrow> Q v) \<Longrightarrow> tcount P t \<le> tcount Q t"
  by (induction t) (auto simp: tcount_def)

section \<open>Text\<close>

text \<open>\<open>str(n)\<close> of a natural number, and \<open>sep.join(parts)\<close>.\<close>

function show_nat :: "nat \<Rightarrow> string" where
  "show_nat n = (if n < 10 then [char_of (48 + n)] else show_nat (n div 10) @ [char_of (48 + n mod 10)])"
  by pat_completeness auto
termination by (relation "measure id") auto

declare show_nat.simps [simp del]

fun join_with :: "string \<Rightarrow> string list \<Rightarrow> string" where
  "join_with sep [] = []"
| "join_with sep [x] = x"
| "join_with sep (x # y # ys) = x @ sep @ join_with sep (y # ys)"

text \<open>\<open>str.isspace\<close> on one character, and \<open>value.split("/")\<close>.\<close>

definition py_space :: "char \<Rightarrow> bool" where
  "py_space c \<longleftrightarrow> (let n = of_char c :: nat in 9 \<le> n \<and> n \<le> 13 \<or> 28 \<le> n \<and> n \<le> 32 \<or> n = 133 \<or> n = 160)"

fun split_slash :: "string \<Rightarrow> string list" where
  "split_slash [] = [[]]"
| "split_slash (c # cs) = (if c = CHR ''/'' then [] # split_slash cs
     else case split_slash cs of [] \<Rightarrow> [[c]] | w # ws \<Rightarrow> (c # w) # ws)"

section \<open>JSON values\<close>

text \<open>
  JSON as Python's decoder gives it: integers are unbounded, a float is a finite double, held
  by its exact rational value. Objects keep their key order.
\<close>

datatype json =
    JNull
  | JBool bool
  | JInt int
  | JFloat rat
  | JStr string
  | JList "json list"
  | JObj "(string \<times> json) list"

text \<open>\<open>value.get(key)\<close> of an object; a later duplicate of a key never occurs in a decoded object.\<close>

fun jget :: "json \<Rightarrow> string \<Rightarrow> json option" where
  "jget (JObj kvs) k = map_of kvs k"
| "jget _ k = None"

section \<open>Clock and identity draws\<close>

text \<open>
  One call of \<open>now()\<close> and one call of \<open>identity(prefix)\<close>: the timestamp read and the 32 hex
  digits \<open>uuid4\<close> drew. They are arguments of the operations that make the calls.
\<close>

record draw =
  d_uuid :: string
  d_now :: string

definition identity :: "string \<Rightarrow> string \<Rightarrow> string" where
  "identity prefix uuid = prefix @ uuid"

lemma identity_inject [simp]: "identity p u = identity p u' \<longleftrightarrow> u = u'"
  by (simp add: identity_def)

end
