(* ===== verification/Service_Errors.thy ===== *)
theory Service_Errors
  imports Prelude
begin

text \<open>
  The typed errors every service replies with (\<open>v2/packages/messaging\<close>, \<open>messaging/errors.py\<close>). The codes
  of the enumeration come first; the runtime contract's, which the code keeps as strings, follow.
\<close>

section \<open>Service errors\<close>

datatype error_code =
    INVALID_ARGUMENT | NOT_FOUND | PERMISSION_DENIED | INVALID_STATE | VERSION_CONFLICT
  | COMMAND_ID_CONFLICT | UNSUPPORTED_CAPABILITY | DEADLINE_EXCEEDED | UNAVAILABLE
  | CAUSAL_PATH_TOO_LONG | STALE_APPROVAL | INVALID_CURSOR | PROVIDER_ERROR | INTERNAL
  | IDENTITY_MISMATCH | STALE_RUNTIME | ATTEMPT_CONFLICT | SESSION_BUSY | UNSUPPORTED_EXECUTOR
  | EVENT_GAP | EVENT_CONFLICT

record svc_error =
  se_code :: error_code
  se_message :: string
  se_retryable :: bool
  se_details :: "(string \<times> json) list option"

definition retryable_by_default :: "error_code list" where
  "retryable_by_default = [UNAVAILABLE]"

definition service_error :: "error_code \<Rightarrow> string \<Rightarrow> (string \<times> json) list option \<Rightarrow> svc_error" where
  "service_error code message details = \<lparr>se_code = code, se_message = message,
     se_retryable = code \<in> set retryable_by_default, se_details = details\<rparr>"

definition invalid_argument :: "(string \<times> string) list \<Rightarrow> svc_error" where
  "invalid_argument violations = service_error INVALID_ARGUMENT
     (join_with ''; '' (map (\<lambda>(f, d). f @ '': '' @ d) violations))
     (Some [(''violations'', JList (map (\<lambda>(f, d). JObj [(''field'', JStr f), (''description'', JStr d)]) violations))])"

fun code_name :: "error_code \<Rightarrow> string" where
  "code_name INVALID_ARGUMENT = ''INVALID_ARGUMENT''"
| "code_name NOT_FOUND = ''NOT_FOUND''"
| "code_name PERMISSION_DENIED = ''PERMISSION_DENIED''"
| "code_name INVALID_STATE = ''INVALID_STATE''"
| "code_name VERSION_CONFLICT = ''VERSION_CONFLICT''"
| "code_name COMMAND_ID_CONFLICT = ''COMMAND_ID_CONFLICT''"
| "code_name UNSUPPORTED_CAPABILITY = ''UNSUPPORTED_CAPABILITY''"
| "code_name DEADLINE_EXCEEDED = ''DEADLINE_EXCEEDED''"
| "code_name UNAVAILABLE = ''UNAVAILABLE''"
| "code_name CAUSAL_PATH_TOO_LONG = ''CAUSAL_PATH_TOO_LONG''"
| "code_name STALE_APPROVAL = ''STALE_APPROVAL''"
| "code_name INVALID_CURSOR = ''INVALID_CURSOR''"
| "code_name PROVIDER_ERROR = ''PROVIDER_ERROR''"
| "code_name INTERNAL = ''INTERNAL''"
| "code_name IDENTITY_MISMATCH = ''IDENTITY_MISMATCH''"
| "code_name STALE_RUNTIME = ''STALE_RUNTIME''"
| "code_name ATTEMPT_CONFLICT = ''ATTEMPT_CONFLICT''"
| "code_name SESSION_BUSY = ''SESSION_BUSY''"
| "code_name UNSUPPORTED_EXECUTOR = ''UNSUPPORTED_EXECUTOR''"
| "code_name EVENT_GAP = ''EVENT_GAP''"
| "code_name EVENT_CONFLICT = ''EVENT_CONFLICT''"

text \<open>\<open>to_dict\<close>.\<close>

definition error_json :: "svc_error \<Rightarrow> json" where
  "error_json e = JObj ([(''code'', JStr (code_name (se_code e))), (''message'', JStr (se_message e)),
     (''retryable'', JBool (se_retryable e))]
     @ (case se_details e of None \<Rightarrow> [] | Some d \<Rightarrow> [(''details'', JObj d)]))"

end
