(* ===== verification/Runtime_Wire.thy ===== *)
theory Runtime_Wire
  imports Service_Errors
begin

text \<open>
  The internal contract between the virtual control plane and a workspace daemon
  (\<open>v2/packages/contracts\<close>, \<open>contracts/runtime.py\<close>, and the message schemas it loads):
  runtime and attempt bindings, execute, cancel and steer commands, their acknowledgements,
  the ordered updates a daemon sends back, and the identity checks of an exchange.
  Both sides of the protocol import these types, so a message is one value that one side
  journals and the other projects.
\<close>

section \<open>Identities\<close>

record runtime_target =
  workspace_id :: string
  runtime_id :: string
  runtime_generation :: nat

record attempt_target = runtime_target +
  session_id :: string
  attempt_id :: string

record cause =
  cause_operation_id :: string
  cause_command_id :: string
  causal_path :: "string list"

record execution =
  exec_command_id :: string
  exec_cause :: cause

section \<open>Commands\<close>

record agent =
  runner :: string
  agent_model :: "string option"
  settings :: "(string \<times> json) list"

datatype session_mode = ModeNew | ModeContinue

record task_context =
  working_directory :: string
  instruction_files :: "string list"
  references :: "json list"

record execute_payload =
  ep_agent :: agent
  ep_task :: json
  ep_session_mode :: session_mode
  ep_context :: task_context

text \<open>The \<open>kind\<close>, \<open>cause\<close> and \<open>payload\<close> fields of a command, one constructor per kind.\<close>

datatype command_body =
    Execute execute_payload
  | Cancel cause "string option"
  | Steer cause string

record runtime_command =
  command_id :: string
  target :: attempt_target
  execution_of :: execution
  body :: command_body

fun is_execute :: "command_body \<Rightarrow> bool" where
  "is_execute (Execute _) = True"
| "is_execute _ = False"

fun is_cancel :: "command_body \<Rightarrow> bool" where
  "is_cancel (Cancel _ _) = True"
| "is_cancel _ = False"

text \<open>The states of an attempt, as inspect reports them.\<close>

datatype attempt_state =
    SRecorded | SLaunching | SRunning | SCancelling | SCompleted | SFailed | SCancelled

section \<open>Errors and acknowledgements\<close>

record rt_error =
  rt_code :: error_code
  rt_message :: string
  rt_retryable :: bool

text \<open>\<open>RETRYABLE_CODES\<close> and \<open>error(code, message)\<close>.\<close>

definition retryable_codes :: "error_code list" where
  "retryable_codes = [UNAVAILABLE, EVENT_GAP]"

definition error :: "error_code \<Rightarrow> string \<Rightarrow> rt_error" where
  "error c m = \<lparr>rt_code = c, rt_message = m, rt_retryable = c \<in> set retryable_codes\<rparr>"

datatype ack_status = Accepted | Rejected

record command_ack =
  ack_command_id :: string
  ack_target :: attempt_target
  ack_status :: ack_status
  ack_error :: "rt_error option"

section \<open>Updates\<close>

datatype exec_termination = NeverStarted | Exited | Killed

record ready_payload =
  rp_executors :: "string list"
  rp_steering_executors :: "string list"
  rp_max_concurrent_attempts :: nat
  rp_progress_kinds :: "string list"
  rp_journal_id :: string

record usage_delta =
  ud_usage :: "(string \<times> json) list"
  ud_period_start :: string
  ud_period_end :: string

datatype progress =
    Conversation string string string \<comment> \<open>\<open>message_id\<close>, \<open>role\<close>, \<open>text\<close>\<close>
  | Usage usage_delta
  | Artifact json

fun progress_kind :: "progress \<Rightarrow> string" where
  "progress_kind (Conversation _ _ _) = ''conversation''"
| "progress_kind (Usage _) = ''usage''"
| "progress_kind (Artifact _) = ''artifact''"

text \<open>The \<open>payload\<close> of an update together with its \<open>kind\<close>.\<close>

record attempt_result =
  summary :: "string option"
  result_rest :: "(string \<times> json) list" \<comment> \<open>the optional fields other than \<open>summary\<close>\<close>

datatype update_body =
    Ready ready_payload
  | Started
  | Progress progress
  | Completed attempt_result
  | Failed rt_error string \<comment> \<open>\<open>error\<close> and \<open>reason\<close>\<close>
  | Cancelled "string option"
  | SteeringApplied string cause
  | SteeringFailed string cause rt_error "(string \<times> json) list" \<comment> \<open>the error and its \<open>details\<close>\<close>

datatype update_target = RuntimeTarget runtime_target | AttemptTarget attempt_target

record update =
  u_event_id :: string
  u_body :: update_body
  u_target :: update_target
  u_boot_id :: string
  u_sequence :: nat
  u_occurred_at :: string
  u_execution :: "execution option"
  u_attempt_sequence :: "nat option"
  u_termination :: "exec_termination option"
  u_cancel :: "(string \<times> cause) option" \<comment> \<open>\<open>cancel_command_id\<close> and \<open>cause\<close>\<close>

datatype update_status = Committed | URejected

record update_ack =
  ua_event_id :: string
  ua_target :: runtime_target
  ua_sequence :: nat
  ua_status :: update_status
  ua_error :: "rt_error option"
  ua_expected_sequence :: "nat option"

definition runtime_part :: "attempt_target \<Rightarrow> runtime_target" where
  "runtime_part t = \<lparr>workspace_id = workspace_id t, runtime_id = runtime_id t,
     runtime_generation = runtime_generation t\<rparr>"

fun update_runtime :: "update_target \<Rightarrow> runtime_target" where
  "update_runtime (RuntimeTarget t) = t"
| "update_runtime (AttemptTarget t) = runtime_part t"

section \<open>Timestamps\<close>

text \<open>
  \<open>timestamp_key\<close>: the seconds and the fraction padded to nine digits, so that comparing the
  pair compares the instants.
\<close>

definition removesuffix :: "string \<Rightarrow> string \<Rightarrow> string" where
  "removesuffix s x = (if x \<noteq> [] \<and> length x \<le> length s \<and> drop (length s - length x) s = x
     then take (length s - length x) s else s)"

definition partition_dot :: "string \<Rightarrow> string \<times> string" where
  "partition_dot s = (takeWhile (\<lambda>c. c \<noteq> CHR ''.'') s, drop 1 (dropWhile (\<lambda>c. c \<noteq> CHR ''.'') s))"

definition ljust :: "string \<Rightarrow> nat \<Rightarrow> char \<Rightarrow> string" where
  "ljust s n c = s @ replicate (n - length s) c"

definition timestamp_key :: "string \<Rightarrow> string \<times> string" where
  "timestamp_key v = (case partition_dot (removesuffix v ''Z'') of
     (seconds, fraction) \<Rightarrow> (seconds, ljust fraction 9 (CHR ''0'')))"

definition key_less :: "string \<times> string \<Rightarrow> string \<times> string \<Rightarrow> bool" where
  "key_less a b \<longleftrightarrow> fst a < fst b \<or> fst a = fst b \<and> snd a < snd b"

section \<open>Depth of a message\<close>

text \<open>
  \<open>_too_deep\<close>: brackets outside string literals are counted. \<open>strip_strings\<close> is
  \<open>_STRING.sub("", text)\<close> for the pattern of a double-quoted string: an opening quote
  with no closing quote is left in place, as is everything after it that does not start another
  match.
\<close>

fun string_end :: "string \<Rightarrow> string option" where
  "string_end [] = None"
| "string_end (c # cs) =
     (if c = CHR 0x22 then Some cs
      else if c = CHR 0x5C then
        (case cs of [] \<Rightarrow> None | d # ds \<Rightarrow> if d = CHR 0x0A then None else string_end ds)
      else string_end cs)"

lemma string_end_length: "string_end s = Some r \<Longrightarrow> length r < length s"
  by (induction s rule: string_end.induct) (auto split: if_splits list.splits)

function strip_strings :: "string \<Rightarrow> string" where
  "strip_strings [] = []"
| "strip_strings (c # cs) =
     (if c = CHR 0x22 then
        (case string_end cs of Some rest \<Rightarrow> strip_strings rest | None \<Rightarrow> c # strip_strings cs)
      else c # strip_strings cs)"
  by pat_completeness auto
termination
  by (relation "measure length") (auto dest: string_end_length)

definition max_json_depth :: int where "max_json_depth = 256"

fun depth_exceeds :: "int \<Rightarrow> string \<Rightarrow> bool" where
  "depth_exceeds d [] = False"
| "depth_exceeds d (c # cs) =
     (if c \<in> {CHR ''['', CHR 0x7B} then (if d + 1 > max_json_depth then True else depth_exceeds (d + 1) cs)
      else if c \<in> {CHR '']'', CHR 0x7D} then
        (if d - 1 > max_json_depth then True else depth_exceeds (d - 1) cs)
      else depth_exceeds d cs)"

definition count_char :: "char \<Rightarrow> string \<Rightarrow> nat" where
  "count_char c s = length (filter (\<lambda>d. d = c) s)"

definition too_deep :: "string \<Rightarrow> bool" where
  "too_deep text =
     (if int (count_char (CHR ''['') text + count_char (CHR 0x7B) text) \<le> max_json_depth then False
      else depth_exceeds 0 (strip_strings text))"

section \<open>Messages\<close>

text \<open>
  \<open>validate_message\<close>: the checks a schema cannot express, in the order of the code. JSON-schema
  validation is a third-party library's; its first error, if any, is the argument \<open>schema\<close> and
  ends the check. A schema-valid cause has a causal path with at least one entry.
\<close>

definition subject_for :: "string \<Rightarrow> string \<Rightarrow> string \<Rightarrow> string" where
  "subject_for service rid action = ''oe.internal.v1.'' @ service @ ''.runtimes.'' @ rid @ ''.'' @ action"

definition subject_errors :: "string \<Rightarrow> string list \<Rightarrow> string list" where
  "subject_errors subject expected =
     (if subject \<notin> set expected then [''Subject does not match message kind and runtime identity''] else [])"

definition path_ends :: "cause \<Rightarrow> bool" where
  "path_ends c \<longleftrightarrow> causal_path c \<noteq> [] \<and> last (causal_path c) = cause_command_id c"

definition cause_errors :: "cause option \<Rightarrow> string list" where
  "cause_errors c = (case c of None \<Rightarrow> []
     | Some x \<Rightarrow> if path_ends x then [] else [''Cause path must end with its public command ID''])"

definition path_error :: "string \<Rightarrow> bool" where
  "path_error v \<longleftrightarrow> (v \<noteq> [] \<and> hd v = CHR ''/'') \<or> ''..'' \<in> set (split_slash v) \<or> CHR 0x5C \<in> set v
     \<or> CHR 0x00 \<in> set v \<or> CHR '':'' \<in> set v"

definition context_errors :: "task_context \<Rightarrow> string list" where
  "context_errors c = List.map_filter
     (\<lambda>v. if path_error v then Some ''Context paths must stay relative to the workspace'' else None)
     (working_directory c # instruction_files c)"

fun command_action :: "command_body \<Rightarrow> string" where
  "command_action (Execute _) = ''execute''"
| "command_action (Cancel _ _) = ''cancel''"
| "command_action (Steer _ _) = ''steer''"

fun command_cause :: "command_body \<Rightarrow> cause option" where
  "command_cause (Execute _) = None"
| "command_cause (Cancel c _) = Some c"
| "command_cause (Steer c _) = Some c"

definition validate_command :: "string option \<Rightarrow> string \<Rightarrow> runtime_command \<Rightarrow> string list" where
  "validate_command schema subject c = (case schema of Some e \<Rightarrow> [e] | None \<Rightarrow>
     subject_errors subject [subject_for ''runtime'' (runtime_id (target c)) (command_action (body c))]
     @ cause_errors (command_cause (body c)) @ cause_errors (Some (exec_cause (execution_of c)))
     @ (if is_execute (body c) \<and> exec_command_id (execution_of c) \<noteq> command_id c
        then [''Execute identity must equal its command ID''] else [])
     @ (if \<not> is_execute (body c) \<and> exec_command_id (execution_of c) = command_id c
        then [''Control command needs a distinct command ID''] else [])
     @ (case body c of Execute p \<Rightarrow> context_errors (ep_context p) | _ \<Rightarrow> []))"

definition validate_command_ack :: "string option \<Rightarrow> string \<Rightarrow> command_ack \<Rightarrow> string list" where
  "validate_command_ack schema subject r = (case schema of Some e \<Rightarrow> [e] | None \<Rightarrow>
     subject_errors subject (map (subject_for ''runtime'' (runtime_id (ack_target r))) [''execute'', ''cancel'', ''steer'']))"

fun update_attempt :: "update_target \<Rightarrow> attempt_target option" where
  "update_attempt (RuntimeTarget t) = None"
| "update_attempt (AttemptTarget t) = Some t"

definition progress_errors :: "update_target \<Rightarrow> progress \<Rightarrow> string list" where
  "progress_errors t p = (case p of
     Artifact a \<Rightarrow>
       (case update_attempt t of None \<Rightarrow> []
        | Some x \<Rightarrow>
            (if jget a ''workspace_id'' \<noteq> Some (JStr (workspace_id x))
             then [''Artifact workspace_id differs from attempt binding''] else [])
            @ (if jget a ''attempt_id'' \<noteq> Some (JStr (attempt_id x))
               then [''Artifact attempt_id differs from attempt binding''] else []))
   | Usage u \<Rightarrow> (if key_less (timestamp_key (ud_period_end u)) (timestamp_key (ud_period_start u))
                 then [''Usage period ends before it starts''] else [])
   | Conversation _ _ _ \<Rightarrow> [])"

definition validate_update :: "string option \<Rightarrow> string \<Rightarrow> update \<Rightarrow> string list" where
  "validate_update schema subject u = (case schema of Some e \<Rightarrow> [e] | None \<Rightarrow>
     subject_errors subject [subject_for ''vcp'' (runtime_id (update_runtime (u_target u))) ''updates'']
     @ cause_errors (map_option snd (u_cancel u)) @ cause_errors (map_option exec_cause (u_execution u))
     @ (case u_body u of Progress p \<Rightarrow> progress_errors (u_target u) p | _ \<Rightarrow> []))"

definition validate_update_ack :: "string option \<Rightarrow> string \<Rightarrow> update_ack \<Rightarrow> string list" where
  "validate_update_ack schema subject a = (case schema of Some e \<Rightarrow> [e] | None \<Rightarrow>
     subject_errors subject [subject_for ''vcp'' (runtime_id (ua_target a)) ''updates'']
     @ (if (case ua_expected_sequence a of None \<Rightarrow> 0 | Some n \<Rightarrow> n) \<ge> ua_sequence a
        then [''Gap must request an earlier sequence''] else []))"

definition binding_errors :: "'a runtime_target_scheme \<Rightarrow> runtime_target \<Rightarrow> string list" where
  "binding_errors t b =
     (if workspace_id t \<noteq> workspace_id b then [''Binding mismatch: workspace_id''] else [])
     @ (if runtime_id t \<noteq> runtime_id b then [''Binding mismatch: runtime_id''] else [])
     @ (if runtime_generation t \<noteq> runtime_generation b then [''Binding mismatch: runtime_generation''] else [])"

record attempt_snapshot =
  as_attempt_id :: string
  as_known :: "(attempt_target \<times> execution \<times> attempt_state \<times> nat) option"

record inspect_result =
  ir_boot_id :: string
  ir_ready :: bool
  ir_last_event_sequence :: nat
  ir_attempts :: "attempt_snapshot list"

definition snapshot_errors :: "runtime_target \<Rightarrow> nat \<Rightarrow> attempt_snapshot \<Rightarrow> string list" where
  "snapshot_errors b high a = (case as_known a of None \<Rightarrow> []
     | Some (t, ex, state, last_event) \<Rightarrow>
         (if as_attempt_id a \<noteq> attempt_id t then [''Snapshot attempt identity mismatch''] else [])
         @ (if binding_errors t b \<noteq> [] then [''Snapshot runtime binding mismatch''] else [])
         @ (if path_ends (exec_cause ex) then [] else [''Snapshot cause path must end with its public command ID''])
         @ (if last_event > high then [''Snapshot exceeds journal high-water sequence''] else []))"

fun snapshots_errors :: "runtime_target \<Rightarrow> nat \<Rightarrow> string list \<Rightarrow> attempt_snapshot list \<Rightarrow> string list" where
  "snapshots_errors b high seen [] = []"
| "snapshots_errors b high seen (a # as) =
     (if as_attempt_id a \<in> set seen then [''Duplicate attempt snapshot''] else [])
     @ snapshot_errors b high a @ snapshots_errors b high (as_attempt_id a # seen) as"

definition validate_inspect_response ::
  "string option \<Rightarrow> string \<Rightarrow> runtime_target \<Rightarrow> (rt_error + inspect_result) \<Rightarrow> string list" where
  "validate_inspect_response schema subject t r = (case schema of Some e \<Rightarrow> [e] | None \<Rightarrow>
     subject_errors subject [subject_for ''runtime'' (runtime_id t) ''inspect'']
     @ (case r of Inl e \<Rightarrow> [] | Inr x \<Rightarrow> snapshots_errors t (ir_last_event_sequence x) [] (ir_attempts x)))"

section \<open>Exchanges\<close>

text \<open>\<open>validate_exchange\<close>: both messages are valid and the reply echoes the request.\<close>

definition exchange_command ::
  "string option \<Rightarrow> string option \<Rightarrow> string \<Rightarrow> runtime_command \<Rightarrow> command_ack \<Rightarrow> string list" where
  "exchange_command schema reply_schema subject request reply =
     (let errors = validate_command schema subject request @ validate_command_ack reply_schema subject reply in
      if errors \<noteq> [] then errors
      else (if command_id request \<noteq> ack_command_id reply then [''Reply identity differs from request''] else [])
         @ (if ack_target reply \<noteq> target request then [''Reply binding differs from request''] else []))"

definition exchange_update ::
  "string option \<Rightarrow> string option \<Rightarrow> string \<Rightarrow> update \<Rightarrow> update_ack \<Rightarrow> string list" where
  "exchange_update schema reply_schema subject request reply =
     (let errors = validate_update schema subject request @ validate_update_ack reply_schema subject reply in
      if errors \<noteq> [] then errors
      else (if u_event_id request \<noteq> ua_event_id reply then [''Reply identity differs from request''] else [])
         @ (if ua_target reply \<noteq> update_runtime (u_target request) then [''Reply binding differs from request''] else [])
         @ (if u_sequence request \<noteq> ua_sequence reply then [''Reply sequence differs from update''] else []))"

definition exchange_inspect ::
  "string option \<Rightarrow> string option \<Rightarrow> string \<Rightarrow> string \<times> runtime_target \<times> string list
   \<Rightarrow> string \<times> runtime_target \<times> (rt_error + inspect_result) \<Rightarrow> string list" where
  "exchange_inspect schema reply_schema subject request reply =
     (case (request, reply) of ((rid, t, aids), (rid', t', r)) \<Rightarrow>
      (let errors = (case schema of Some e \<Rightarrow> [e]
                     | None \<Rightarrow> subject_errors subject [subject_for ''runtime'' (runtime_id t) ''inspect''])
                    @ validate_inspect_response reply_schema subject t' r in
       if errors \<noteq> [] then errors
       else (if rid \<noteq> rid' then [''Reply identity differs from request''] else [])
          @ (if t' \<noteq> t then [''Reply binding differs from request''] else [])
          @ (case r of Inl e \<Rightarrow> []
             | Inr x \<Rightarrow> if set aids \<noteq> set (map as_attempt_id (ir_attempts x))
                        then [''Inspect must return exactly the requested attempts''] else [])))"

section \<open>Facts\<close>

lemma error_simps [simp]:
  "rt_code (error c m) = c" "rt_message (error c m) = m"
  "rt_retryable (error c m) \<longleftrightarrow> c = UNAVAILABLE \<or> c = EVENT_GAP"
  by (auto simp: error_def retryable_codes_def)

end
