(* ===== verification/Daemon_Store.thy ===== *)
theory Daemon_Store
  imports Runtime_Wire
begin

text \<open>
  The workspace daemon's SQLite journal (\<open>v2/services/workspace_daemon/store.py\<close>): its five
  tables with their primary keys, foreign keys, unique and check constraints, and every method
  of its \<open>Transaction\<close>. Foreign keys are enforced (the connection turns them on), so a
  write that breaks one raises IntegrityError. The theory ends with the laws the journal relies on:
  what a lookup returns after a write, and the integrity of the database under every method.
\<close>

section \<open>Tables\<close>

datatype refusal = REBOUND | EMPTY | UNFENCED

datatype journal_exn =
    IntegrityError
  | UnsendableUpdate
  | PyValueError
  | PyKeyError
  | PyTypeError
  | RecoveryRefused refusal

definition TERMINAL :: "attempt_state list" where
  "TERMINAL = [SCompleted, SFailed, SCancelled]"

abbreviation terminal :: "attempt_state \<Rightarrow> bool" where
  "terminal s \<equiv> s \<in> set TERMINAL"

record handle =
  handle_kind :: json
  handle_settings :: "(string \<times> json) list"
  steering :: "(string \<times> string) list" \<comment> \<open>\<open>command_id\<close> and \<open>message\<close>\<close>

record blocked =
  blocked_code :: error_code
  blocked_sequence :: nat
  blocked_event_id :: string

record runtime_row =
  rr_target :: runtime_target
  rr_journal_id :: string
  rr_sequence :: nat
  rr_ready :: bool
  rr_ready_sequence :: "nat option"
  rr_blocked :: "blocked option"

record command_row =
  cr_digest :: string
  cr_command :: runtime_command
  cr_status :: ack_status
  cr_error_code :: "error_code option"
  cr_error_message :: "string option"

record session_row =
  sr_command_id :: string
  sr_executor_session_id :: "string option"
  sr_executor_resumable :: bool

record attempt_row =
  ar_session_id :: "string option"
  ar_command_id :: string
  ar_cancel_command_id :: "string option"
  ar_state :: attempt_state
  ar_launch_count :: nat
  ar_attempt_sequence :: nat
  ar_last_event_sequence :: nat
  ar_executor_handle :: "handle option"

record update_row =
  ur_event_id :: string
  ur_attempt_id :: "string option"
  ur_wire :: update
  ur_acknowledged :: bool

record journal_db =
  journal_runtime :: "runtime_row option"
  journal_commands :: "(string, command_row) table"
  journal_sessions :: "(string, session_row) table"
  journal_attempts :: "(string, attempt_row) table"
  journal_updates :: "(nat, update_row) table"

definition empty_journal :: journal_db where
  "empty_journal = \<lparr>journal_runtime = None, journal_commands = [], journal_sessions = [],
     journal_attempts = [], journal_updates = []\<rparr>"

text \<open>The dictionaries \<open>_attempt\<close> and \<open>session\<close> build from the joined rows.\<close>

record attempt =
  at_command :: runtime_command
  at_state :: attempt_state
  at_launch_count :: nat
  at_attempt_sequence :: nat
  at_last_event_sequence :: nat
  at_executor_handle :: "handle option"
  at_cancel :: "runtime_command option"

record session_view =
  sv_agent :: agent
  sv_active_attempt :: "string option"
  sv_executor_session_id :: "string option"
  sv_executor_resumable :: bool

section \<open>Transaction methods\<close>

definition tx_runtime :: "journal_db \<Rightarrow> runtime_row option" where
  "tx_runtime db = journal_runtime db"

definition update_ref :: "journal_db \<Rightarrow> nat option \<Rightarrow> bool" where
  "update_ref db r = (case r of None \<Rightarrow> True | Some n \<Rightarrow> tget (journal_updates db) n \<noteq> None)"

definition save_runtime :: "runtime_row \<Rightarrow> journal_db \<Rightarrow> journal_exn + journal_db" where
  "save_runtime meta db =
     (if update_ref db (rr_ready_sequence meta)
         \<and> update_ref db (map_option blocked_sequence (rr_blocked meta))
      then Inr (db\<lparr>journal_runtime := Some meta\<rparr>) else Inl IntegrityError)"

definition active_row :: "attempt_row \<Rightarrow> bool" where
  "active_row r \<longleftrightarrow> \<not> terminal (ar_state r)"

definition active_attempts :: "journal_db \<Rightarrow> nat" where
  "active_attempts db = tcount active_row (journal_attempts db)"

definition receipt :: "string \<Rightarrow> journal_db \<Rightarrow> (string \<times> command_ack) option" where
  "receipt cid db =
     (case tget (journal_commands db) cid of
        None \<Rightarrow> None
      | Some row \<Rightarrow> Some (cr_digest row,
          \<lparr>ack_command_id = cid, ack_target = target (cr_command row), ack_status = cr_status row,
           ack_error = (case cr_error_code row of None \<Rightarrow> None
             | Some c \<Rightarrow> Some (error c (case cr_error_message row of None \<Rightarrow> [] | Some m \<Rightarrow> m)))\<rparr>))"

definition remember :: "runtime_command \<Rightarrow> string \<Rightarrow> command_ack \<Rightarrow> journal_db \<Rightarrow> journal_exn + journal_db" where
  "remember command digest response db =
     (let row = \<lparr>cr_digest = digest, cr_command = command, cr_status = ack_status response,
                 cr_error_code = map_option rt_code (ack_error response),
                 cr_error_message = map_option rt_message (ack_error response)\<rparr>
      in if (cr_status row = Accepted) = (cr_error_code row = None)
         then (case tinsert (command_id command) row (journal_commands db) of
                 None \<Rightarrow> Inl IntegrityError
               | Some t \<Rightarrow> Inr (db\<lparr>journal_commands := t\<rparr>))
         else Inl IntegrityError)"

definition active_for_session :: "string \<Rightarrow> attempt_row \<Rightarrow> bool" where
  "active_for_session sid r \<longleftrightarrow> ar_session_id r = Some sid \<and> active_row r"

definition active_attempt_of :: "string \<Rightarrow> journal_db \<Rightarrow> string option" where
  "active_attempt_of sid db =
     map_option fst (List.find (\<lambda>(k, r). active_for_session sid r) (journal_attempts db))"

definition tx_session :: "string \<Rightarrow> journal_db \<Rightarrow> journal_exn + session_view option" where
  "tx_session sid db =
     (case tget (journal_sessions db) sid of
        None \<Rightarrow> Inr None
      | Some row \<Rightarrow>
          (case tget (journal_commands db) (sr_command_id row) of
             None \<Rightarrow> Inr None
           | Some c \<Rightarrow>
               (case body (cr_command c) of
                  Execute p \<Rightarrow> Inr (Some \<lparr>sv_agent = ep_agent p, sv_active_attempt = active_attempt_of sid db,
                    sv_executor_session_id = sr_executor_session_id row,
                    sv_executor_resumable = sr_executor_resumable row\<rparr>)
                | _ \<Rightarrow> Inl PyKeyError)))"

definition open_session :: "string \<Rightarrow> string \<Rightarrow> journal_db \<Rightarrow> journal_exn + journal_db" where
  "open_session sid cid db =
     (if tget (journal_commands db) cid = None then Inl IntegrityError
      else case tinsert sid \<lparr>sr_command_id = cid, sr_executor_session_id = None,
                             sr_executor_resumable = False\<rparr> (journal_sessions db) of
             None \<Rightarrow> Inl IntegrityError
           | Some t \<Rightarrow> Inr (db\<lparr>journal_sessions := t\<rparr>))"

definition save_executor_session :: "string \<Rightarrow> string \<Rightarrow> bool \<Rightarrow> journal_db \<Rightarrow> journal_db" where
  "save_executor_session sid esid resumable db =
     (case tget (journal_sessions db) sid of
        None \<Rightarrow> db
      | Some row \<Rightarrow> db\<lparr>journal_sessions := tput sid
          (row\<lparr>sr_executor_session_id := Some esid, sr_executor_resumable := resumable\<rparr>)
          (journal_sessions db)\<rparr>)"

text \<open>\<open>_ATTEMPT\<close>: an inner join with the command, an outer join with the winning cancel.\<close>

definition join_attempt :: "journal_db \<Rightarrow> attempt_row \<Rightarrow> attempt option" where
  "join_attempt db r =
     (case tget (journal_commands db) (ar_command_id r) of
        None \<Rightarrow> None
      | Some c \<Rightarrow> Some
          \<lparr>at_command = cr_command c, at_state = ar_state r, at_launch_count = ar_launch_count r,
           at_attempt_sequence = ar_attempt_sequence r, at_last_event_sequence = ar_last_event_sequence r,
           at_executor_handle = ar_executor_handle r,
           at_cancel = (case ar_cancel_command_id r of None \<Rightarrow> None
             | Some cid \<Rightarrow> map_option cr_command (tget (journal_commands db) cid))\<rparr>)"

definition tx_attempt :: "string \<Rightarrow> journal_db \<Rightarrow> attempt option" where
  "tx_attempt aid db = Option.bind (tget (journal_attempts db) aid) (join_attempt db)"

definition tx_attempts :: "journal_db \<Rightarrow> attempt list" where
  "tx_attempts db = List.map_filter (\<lambda>(k, r). join_attempt db r) (tsorted (journal_attempts db))"

definition attempt_ids :: "attempt_state list \<Rightarrow> journal_db \<Rightarrow> string list" where
  "attempt_ids states db =
     map fst (filter (\<lambda>(k, r). ar_state r \<in> set states) (tsorted (journal_attempts db)))"

text \<open>
  The partial unique index \<open>ux_journal_attempts_active_session\<close>: no other unfinished attempt
  has this session.
\<close>

definition session_free :: "string \<Rightarrow> attempt_row \<Rightarrow> journal_db \<Rightarrow> bool" where
  "session_free aid r db =
     (case ar_session_id r of
        None \<Rightarrow> True
      | Some sid \<Rightarrow> \<not> active_row r
          \<or> (\<forall>(k, r') \<in> set (journal_attempts db). k \<noteq> aid \<longrightarrow> \<not> active_for_session sid r'))"

definition command_ref :: "journal_db \<Rightarrow> string option \<Rightarrow> bool" where
  "command_ref db r = (case r of None \<Rightarrow> True | Some c \<Rightarrow> tget (journal_commands db) c \<noteq> None)"

definition save_attempt :: "attempt \<Rightarrow> journal_db \<Rightarrow> journal_exn + journal_db" where
  "save_attempt a db =
     (let command = at_command a;
          aid = attempt_id (target command);
          cancel = map_option command_id (at_cancel a)
      in case tget (journal_attempts db) aid of
           Some old \<Rightarrow>
             (let row = old\<lparr>ar_cancel_command_id := cancel, ar_state := at_state a,
                    ar_launch_count := at_launch_count a, ar_attempt_sequence := at_attempt_sequence a,
                    ar_last_event_sequence := at_last_event_sequence a,
                    ar_executor_handle := at_executor_handle a\<rparr>
              in if command_ref db cancel \<and> session_free aid row db
                 then Inr (db\<lparr>journal_attempts := tput aid row (journal_attempts db)\<rparr>)
                 else Inl IntegrityError)
         | None \<Rightarrow>
             (let row = \<lparr>ar_session_id = (if is_cancel (body command) then None
                                          else Some (session_id (target command))),
                    ar_command_id = command_id command, ar_cancel_command_id = cancel,
                    ar_state = at_state a, ar_launch_count = at_launch_count a,
                    ar_attempt_sequence = at_attempt_sequence a,
                    ar_last_event_sequence = at_last_event_sequence a,
                    ar_executor_handle = at_executor_handle a\<rparr>
              in if command_ref db cancel \<and> command_ref db (Some (command_id command))
                    \<and> (ar_session_id row = None
                        \<or> tget (journal_sessions db) (session_id (target command)) \<noteq> None)
                    \<and> (\<forall>(k, r) \<in> set (journal_attempts db). ar_command_id r \<noteq> command_id command)
                    \<and> session_free aid row db
                 then Inr (db\<lparr>journal_attempts := tput aid row (journal_attempts db)\<rparr>)
                 else Inl IntegrityError))"

definition append_update :: "nat \<Rightarrow> string \<Rightarrow> update \<Rightarrow> string option \<Rightarrow> journal_db \<Rightarrow> journal_exn + journal_db" where
  "append_update sequence event_id wire aid db =
     (if (\<forall>(n, r) \<in> set (journal_updates db). ur_event_id r \<noteq> event_id)
         \<and> (case aid of None \<Rightarrow> True | Some a \<Rightarrow> tget (journal_attempts db) a \<noteq> None)
      then (case tinsert sequence \<lparr>ur_event_id = event_id, ur_attempt_id = aid, ur_wire = wire,
                                   ur_acknowledged = False\<rparr> (journal_updates db) of
              None \<Rightarrow> Inl IntegrityError
            | Some t \<Rightarrow> Inr (db\<lparr>journal_updates := t\<rparr>))
      else Inl IntegrityError)"

definition pending_rows :: "journal_db \<Rightarrow> (nat \<times> update_row) list" where
  "pending_rows db = filter (\<lambda>(n, r). \<not> ur_acknowledged r) (tsorted (journal_updates db))"

definition oldest_pending :: "journal_db \<Rightarrow> (nat \<times> update) option" where
  "oldest_pending db = (case pending_rows db of [] \<Rightarrow> None | (n, r) # _ \<Rightarrow> Some (n, ur_wire r))"

definition pending_updates :: "journal_db \<Rightarrow> nat" where
  "pending_updates db = tcount (\<lambda>r. \<not> ur_acknowledged r) (journal_updates db)"

definition has_update :: "nat \<Rightarrow> journal_db \<Rightarrow> bool" where
  "has_update sequence db \<longleftrightarrow> tget (journal_updates db) sequence \<noteq> None"

definition acknowledge :: "nat \<Rightarrow> journal_db \<Rightarrow> journal_db" where
  "acknowledge sequence db = db\<lparr>journal_updates :=
     map (\<lambda>(n, r). (n, if n = sequence then r\<lparr>ur_acknowledged := True\<rparr> else r)) (journal_updates db)\<rparr>"

definition replay_from :: "nat \<Rightarrow> journal_db \<Rightarrow> journal_db" where
  "replay_from sequence db = db\<lparr>journal_updates :=
     map (\<lambda>(n, r). (n, if n \<ge> sequence then r\<lparr>ur_acknowledged := False\<rparr> else r)) (journal_updates db)\<rparr>"

section \<open>Laws of the methods\<close>

lemma terminal_iff [simp]:
  "terminal s \<longleftrightarrow> s = SCompleted \<or> s = SFailed \<or> s = SCancelled"
  by (auto simp: TERMINAL_def)

text \<open>
  The reply rebuilt from the columns is the reply that was remembered, provided its error carries
  the \<open>retryable\<close> flag its code implies (as every error the journal makes does).
\<close>

definition ack_canonical :: "command_ack \<Rightarrow> bool" where
  "ack_canonical r \<longleftrightarrow> (case ack_error r of None \<Rightarrow> True | Some e \<Rightarrow> e = error (rt_code e) (rt_message e))"

lemma remember_receipt:
  assumes "remember c d r db = Inr db'" and "ack_canonical r"
    and "ack_command_id r = command_id c" and "ack_target r = target c"
  shows "receipt (command_id c) db' = Some (d, r)"
  using assms
  by (cases r) (auto simp: remember_def receipt_def ack_canonical_def Let_def tinsert_Some_iff
      split: if_splits option.splits)

lemma remember_fresh: "remember c d r db = Inr db' \<Longrightarrow> receipt (command_id c) db = None"
  by (auto simp: remember_def receipt_def Let_def tinsert_Some_iff split: if_splits option.splits)

lemma receipt_cong: "journal_commands db = journal_commands db' \<Longrightarrow> receipt cid db = receipt cid db'"
  by (simp add: receipt_def)

lemma save_runtime_simps:
  assumes "save_runtime m db = Inr db'"
  shows "journal_runtime db' = Some m" "journal_commands db' = journal_commands db"
    "journal_sessions db' = journal_sessions db" "journal_attempts db' = journal_attempts db"
    "journal_updates db' = journal_updates db"
  using assms by (auto simp: save_runtime_def split: if_splits)

lemma remember_simps:
  assumes "remember c d r db = Inr db'"
  shows "journal_runtime db' = journal_runtime db" "journal_sessions db' = journal_sessions db"
    "journal_attempts db' = journal_attempts db" "journal_updates db' = journal_updates db"
    "tget (journal_commands db) (command_id c) = None"
    "journal_commands db' = journal_commands db @ [(command_id c,
       \<lparr>cr_digest = d, cr_command = c, cr_status = ack_status r,
        cr_error_code = map_option rt_code (ack_error r),
        cr_error_message = map_option rt_message (ack_error r)\<rparr>)]"
  using assms
  by (auto simp: remember_def Let_def tinsert_Some_iff split: if_splits option.splits)

lemma open_session_simps:
  assumes "open_session sid cid db = Inr db'"
  shows "journal_runtime db' = journal_runtime db" "journal_commands db' = journal_commands db"
    "journal_attempts db' = journal_attempts db" "journal_updates db' = journal_updates db"
    "tget (journal_sessions db) sid = None"
    "journal_sessions db' = journal_sessions db @ [(sid, \<lparr>sr_command_id = cid,
       sr_executor_session_id = None, sr_executor_resumable = False\<rparr>)]"
  using assms by (auto simp: open_session_def tinsert_Some_iff split: if_splits option.splits)

lemma save_attempt_simps:
  assumes "save_attempt a db = Inr db'"
  shows "journal_runtime db' = journal_runtime db" "journal_commands db' = journal_commands db"
    "journal_sessions db' = journal_sessions db" "journal_updates db' = journal_updates db"
  using assms by (auto simp: save_attempt_def Let_def split: if_splits option.splits)

lemma append_update_simps:
  assumes "append_update n e w aid db = Inr db'"
  shows "journal_runtime db' = journal_runtime db" "journal_commands db' = journal_commands db"
    "journal_sessions db' = journal_sessions db" "journal_attempts db' = journal_attempts db"
    "tget (journal_updates db) n = None"
    "journal_updates db' = journal_updates db @ [(n, \<lparr>ur_event_id = e, ur_attempt_id = aid,
       ur_wire = w, ur_acknowledged = False\<rparr>)]"
  using assms by (auto simp: append_update_def tinsert_Some_iff split: if_splits option.splits)

lemmas store_simps = save_runtime_simps remember_simps open_session_simps save_attempt_simps
  append_update_simps

section \<open>Attempts as a map\<close>

text \<open>
  Integrity of the journal: keys are unique, a command row is keyed by its own command, and every
  attempt row joins with the command that owns it, is keyed by that command's attempt, carries its
  session, and finds its winning cancel.
\<close>

definition attempt_row_ok :: "journal_db \<Rightarrow> string \<Rightarrow> attempt_row \<Rightarrow> bool" where
  "attempt_row_ok db aid r \<longleftrightarrow>
     (\<exists>a. join_attempt db r = Some a \<and> attempt_id (target (at_command a)) = aid
        \<and> (ar_cancel_command_id r \<noteq> None \<longrightarrow> at_cancel a \<noteq> None)
        \<and> ar_session_id r = (if is_cancel (body (at_command a)) then None
                             else Some (session_id (target (at_command a)))))"

definition store_wf :: "journal_db \<Rightarrow> bool" where
  "store_wf db \<longleftrightarrow> twf (journal_commands db) \<and> twf (journal_sessions db) \<and> twf (journal_attempts db)
     \<and> (\<forall>(k, c) \<in> set (journal_commands db). command_id (cr_command c) = k)
     \<and> (\<forall>(aid, r) \<in> set (journal_attempts db). attempt_row_ok db aid r)"

text \<open>The cancel an attempt names is the one the journal remembers under its ID.\<close>

definition cancel_stored :: "journal_db \<Rightarrow> attempt \<Rightarrow> bool" where
  "cancel_stored db a \<longleftrightarrow> (case at_cancel a of None \<Rightarrow> True
     | Some c \<Rightarrow> map_option cr_command (tget (journal_commands db) (command_id c)) = Some c)"

lemma store_wfD:
  assumes "store_wf db"
  shows "twf (journal_commands db)" "twf (journal_sessions db)" "twf (journal_attempts db)"
    "tget (journal_commands db) k = Some c \<Longrightarrow> command_id (cr_command c) = k"
    "tget (journal_attempts db) aid = Some r \<Longrightarrow> attempt_row_ok db aid r"
  using assms by (auto simp: store_wf_def twf_tget)

lemma store_wf_empty: "store_wf empty_journal"
  by (simp add: store_wf_def empty_journal_def)

lemma tx_attempt_row:
  assumes "tx_attempt aid db = Some a"
  obtains r where "tget (journal_attempts db) aid = Some r" and "join_attempt db r = Some a"
  using assms by (auto simp: tx_attempt_def bind_eq_Some_conv)

lemma tx_attempt_id:
  assumes "store_wf db" and "tx_attempt aid db = Some a"
  shows "attempt_id (target (at_command a)) = aid"
proof -
  obtain r where "tget (journal_attempts db) aid = Some r" "join_attempt db r = Some a"
    using assms(2) by (rule tx_attempt_row)
  then show ?thesis
    using store_wfD(5)[OF assms(1), of aid r] by (auto simp: attempt_row_ok_def)
qed

lemma tx_attempt_None_iff:
  "store_wf db \<Longrightarrow> tx_attempt aid db = None \<longleftrightarrow> tget (journal_attempts db) aid = None"
  using store_wfD(5)[of db aid]
  by (cases "tget (journal_attempts db) aid") (auto simp: tx_attempt_def attempt_row_ok_def)

lemma join_attempt_fields:
  assumes "join_attempt db r = Some a"
  shows "at_state a = ar_state r" "at_launch_count a = ar_launch_count r"
    "at_attempt_sequence a = ar_attempt_sequence r" "at_last_event_sequence a = ar_last_event_sequence r"
    "at_executor_handle a = ar_executor_handle r"
    "\<exists>c. tget (journal_commands db) (ar_command_id r) = Some c \<and> at_command a = cr_command c"
  using assms by (auto simp: join_attempt_def split: option.splits)

lemma tx_attempt_cancel_stored:
  assumes "store_wf db" and "tx_attempt aid db = Some a"
  shows "cancel_stored db a"
proof -
  obtain r where r: "tget (journal_attempts db) aid = Some r" "join_attempt db r = Some a"
    using assms(2) by (rule tx_attempt_row)
  then show ?thesis
    using store_wfD(4)[OF assms(1)]
    by (auto simp: join_attempt_def cancel_stored_def split: option.splits)
qed

lemma tx_attempt_command_stored:
  assumes "store_wf db" and "tx_attempt aid db = Some a"
  shows "\<exists>c. tget (journal_commands db) (command_id (at_command a)) = Some c \<and> cr_command c = at_command a"
proof -
  obtain r where "tget (journal_attempts db) aid = Some r" "join_attempt db r = Some a"
    using assms(2) by (rule tx_attempt_row)
  then obtain c where "tget (journal_commands db) (ar_command_id r) = Some c" "at_command a = cr_command c"
    using join_attempt_fields(6) by blast
  moreover from this have "command_id (cr_command c) = ar_command_id r"
    using store_wfD(4)[OF assms(1)] by blast
  ultimately show ?thesis by auto
qed

text \<open>The row \<open>save_attempt\<close> leaves for an attempt that is already journaled.\<close>

definition row_update :: "attempt \<Rightarrow> attempt_row \<Rightarrow> attempt_row" where
  "row_update a old = old\<lparr>ar_cancel_command_id := map_option command_id (at_cancel a), ar_state := at_state a,
     ar_launch_count := at_launch_count a, ar_attempt_sequence := at_attempt_sequence a,
     ar_last_event_sequence := at_last_event_sequence a, ar_executor_handle := at_executor_handle a\<rparr>"

lemma row_update_simps [simp]:
  "ar_session_id (row_update a r) = ar_session_id r" "ar_command_id (row_update a r) = ar_command_id r"
  "ar_state (row_update a r) = at_state a" "ar_launch_count (row_update a r) = at_launch_count a"
  "ar_cancel_command_id (row_update a r) = map_option command_id (at_cancel a)"
  "ar_attempt_sequence (row_update a r) = at_attempt_sequence a"
  "ar_last_event_sequence (row_update a r) = at_last_event_sequence a"
  "ar_executor_handle (row_update a r) = at_executor_handle a"
  by (simp_all add: row_update_def)

lemma active_row_update [simp]: "active_row (row_update a r) \<longleftrightarrow> \<not> terminal (at_state a)"
  by (simp add: active_row_def)

lemma save_attempt_present:
  assumes "tget (journal_attempts db) (attempt_id (target (at_command a))) = Some old"
  shows "save_attempt a db =
     (if command_ref db (map_option command_id (at_cancel a))
         \<and> session_free (attempt_id (target (at_command a))) (row_update a old) db
      then Inr (db\<lparr>journal_attempts := tput (attempt_id (target (at_command a))) (row_update a old)
                    (journal_attempts db)\<rparr>)
      else Inl IntegrityError)"
  using assms by (simp add: save_attempt_def row_update_def Let_def)

lemma join_row_update:
  assumes "join_attempt db old = Some a0" and "at_command a = at_command a0" and "cancel_stored db a"
  shows "join_attempt db (row_update a old) = Some a"
  using assms
  by (cases a) (auto simp: join_attempt_def cancel_stored_def split: option.splits)

lemma join_attempt_commands:
  "journal_commands db = journal_commands db' \<Longrightarrow> join_attempt db = join_attempt db'"
  by (rule ext) (simp add: join_attempt_def split: option.split)

lemma attempt_row_ok_commands:
  "journal_commands db = journal_commands db' \<Longrightarrow> attempt_row_ok db = attempt_row_ok db'"
  using join_attempt_commands[of db db'] by (simp add: attempt_row_ok_def fun_eq_iff)

lemma tx_attempt_cong:
  "journal_commands db = journal_commands db' \<Longrightarrow> journal_attempts db = journal_attempts db' \<Longrightarrow>
   tx_attempt aid db = tx_attempt aid db'"
  using join_attempt_commands[of db db'] by (simp add: tx_attempt_def)

lemma store_wf_cong:
  assumes "store_wf db" and "journal_commands db' = journal_commands db"
    and "journal_sessions db' = journal_sessions db" and "journal_attempts db' = journal_attempts db"
  shows "store_wf db'"
  using assms attempt_row_ok_commands[OF assms(2)] by (simp add: store_wf_def)

lemma store_wf_put:
  assumes wf: "store_wf db" and ok: "attempt_row_ok db aid r"
  shows "store_wf (db\<lparr>journal_attempts := tput aid r (journal_attempts db)\<rparr>)" (is "store_wf ?db")
proof -
  have eq: "attempt_row_ok ?db = attempt_row_ok db" by (rule attempt_row_ok_commands) simp
  have t: "twf (tput aid r (journal_attempts db))" using store_wfD(3)[OF wf] by simp
  have "attempt_row_ok db k x" if "(k, x) \<in> set (tput aid r (journal_attempts db))" for k x
    using that ok store_wfD(5)[OF wf] unfolding twf_tget[OF t, symmetric] by (auto split: if_splits)
  then show ?thesis using wf t eq by (auto simp: store_wf_def)
qed

text \<open>What a lookup returns after \<open>save_attempt\<close> of a journaled attempt.\<close>

lemma save_attempt_updates:
  assumes wf: "store_wf db" and old: "tx_attempt aid db = Some a0"
    and cmd: "at_command a = at_command a0" and st: "cancel_stored db a"
    and save: "save_attempt a db = Inr db'"
  shows "store_wf db'" and "tx_attempt aid' db' = (if aid' = aid then Some a else tx_attempt aid' db)"
    and "\<exists>r. tget (journal_attempts db) aid = Some r
           \<and> db' = db\<lparr>journal_attempts := tput aid (row_update a r) (journal_attempts db)\<rparr>"
proof -
  obtain r where r: "tget (journal_attempts db) aid = Some r" "join_attempt db r = Some a0"
    using old by (rule tx_attempt_row)
  have aid: "attempt_id (target (at_command a)) = aid"
    using tx_attempt_id[OF wf old] cmd by simp
  have db': "db' = db\<lparr>journal_attempts := tput aid (row_update a r) (journal_attempts db)\<rparr>"
    using save save_attempt_present[of db a r] r(1) aid by (simp split: if_splits)
  have jr: "join_attempt db (row_update a r) = Some a"
    by (rule join_row_update[OF r(2) cmd st])
  have "attempt_row_ok db aid (row_update a r)"
    using store_wfD(5)[OF wf r(1)] r(2) cmd jr aid by (auto simp: attempt_row_ok_def)
  then show "store_wf db'" unfolding db' by (rule store_wf_put[OF wf])
  have j: "join_attempt db' = join_attempt db" by (rule join_attempt_commands) (simp add: db')
  show "tx_attempt aid' db' = (if aid' = aid then Some a else tx_attempt aid' db)"
    using jr j by (simp add: tx_attempt_def db')
  show "\<exists>r. tget (journal_attempts db) aid = Some r
           \<and> db' = db\<lparr>journal_attempts := tput aid (row_update a r) (journal_attempts db)\<rparr>"
    using r(1) db' by blast
qed

text \<open>And of one that is not journaled yet, whose command is remembered.\<close>

definition new_row :: "attempt \<Rightarrow> attempt_row" where
  "new_row a = \<lparr>ar_session_id = (if is_cancel (body (at_command a)) then None
                                else Some (session_id (target (at_command a)))),
     ar_command_id = command_id (at_command a), ar_cancel_command_id = map_option command_id (at_cancel a),
     ar_state = at_state a, ar_launch_count = at_launch_count a, ar_attempt_sequence = at_attempt_sequence a,
     ar_last_event_sequence = at_last_event_sequence a, ar_executor_handle = at_executor_handle a\<rparr>"

lemma active_new_row [simp]: "active_row (new_row a) \<longleftrightarrow> \<not> terminal (at_state a)"
  by (simp add: active_row_def new_row_def)

lemma save_attempt_absent:
  assumes "tget (journal_attempts db) (attempt_id (target (at_command a))) = None"
    and "save_attempt a db = Inr db'"
  shows "db' = db\<lparr>journal_attempts := tput (attempt_id (target (at_command a))) (new_row a) (journal_attempts db)\<rparr>"
    and "session_free (attempt_id (target (at_command a))) (new_row a) db"
    and "command_ref db (Some (command_id (at_command a)))"
    and "\<not> is_cancel (body (at_command a)) \<Longrightarrow> tget (journal_sessions db) (session_id (target (at_command a))) \<noteq> None"
  using assms by (auto simp: save_attempt_def new_row_def Let_def split: if_splits)

lemma save_attempt_creates:
  assumes wf: "store_wf db" and absent: "tx_attempt aid db = None"
    and aid: "attempt_id (target (at_command a)) = aid"
    and cmd: "map_option cr_command (tget (journal_commands db) (command_id (at_command a))) = Some (at_command a)"
    and st: "cancel_stored db a" and save: "save_attempt a db = Inr db'"
  shows "store_wf db'" and "tx_attempt aid' db' = (if aid' = aid then Some a else tx_attempt aid' db)"
    and "tget (journal_attempts db) aid = None"
    and "db' = db\<lparr>journal_attempts := tput aid (new_row a) (journal_attempts db)\<rparr>"
proof -
  show none: "tget (journal_attempts db) aid = None" using absent tx_attempt_None_iff[OF wf] by blast
  show db': "db' = db\<lparr>journal_attempts := tput aid (new_row a) (journal_attempts db)\<rparr>"
    using save_attempt_absent(1)[OF _ save] none aid by simp
  have jr: "join_attempt db (new_row a) = Some a"
    using cmd st by (cases a) (auto simp: join_attempt_def new_row_def cancel_stored_def split: option.splits)
  then have "attempt_row_ok db aid (new_row a)"
    using aid by (auto simp: attempt_row_ok_def new_row_def)
  then show "store_wf db'" unfolding db' by (rule store_wf_put[OF wf])
  have j: "join_attempt db' = join_attempt db" by (rule join_attempt_commands) (simp add: db')
  show "tx_attempt aid' db' = (if aid' = aid then Some a else tx_attempt aid' db)"
    using jr j by (simp add: tx_attempt_def db')
qed

text \<open>Remembering a command changes no attempt.\<close>

lemma remember_attempts:
  assumes wf: "store_wf db" and rem: "remember c d r db = Inr db'"
  shows "store_wf db'" and "tx_attempt aid db' = tx_attempt aid db"
    and "map_option cr_command (tget (journal_commands db') k)
         = (if k = command_id c then Some c else map_option cr_command (tget (journal_commands db) k))"
proof -
  have fresh: "tget (journal_commands db) (command_id c) = None" using remember_simps(5)[OF rem] .
  have cmds: "tget (journal_commands db') k = (if k = command_id c then
      Some \<lparr>cr_digest = d, cr_command = c, cr_status = ack_status r,
        cr_error_code = map_option rt_code (ack_error r), cr_error_message = map_option rt_message (ack_error r)\<rparr>
      else tget (journal_commands db) k)" for k
    unfolding remember_simps(6)[OF rem] by (rule tget_append_fresh[OF fresh])
  show "map_option cr_command (tget (journal_commands db') k)
         = (if k = command_id c then Some c else map_option cr_command (tget (journal_commands db) k))"
    by (simp add: cmds)
  have join: "join_attempt db' row = join_attempt db row" if "attempt_row_ok db k row" for k row
    using that fresh by (auto simp: attempt_row_ok_def join_attempt_def cmds split: option.splits if_splits)
  have ok: "attempt_row_ok db' k row" if "attempt_row_ok db k row" for k row
    using that join[OF that] by (simp add: attempt_row_ok_def)
  have "twf (journal_commands db')"
    unfolding remember_simps(6)[OF rem] by (rule twf_append_single[OF store_wfD(1)[OF wf] fresh])
  moreover have "\<forall>(k, x) \<in> set (journal_commands db'). command_id (cr_command x) = k"
    using wf unfolding remember_simps(6)[OF rem] by (auto simp: store_wf_def)
  ultimately show "store_wf db'"
    using wf ok by (auto simp: store_wf_def remember_simps[OF rem])
  show "tx_attempt aid db' = tx_attempt aid db"
    using join store_wfD(5)[OF wf]
    by (cases "tget (journal_attempts db) aid") (auto simp: tx_attempt_def remember_simps[OF rem])
qed

end
