(* ===== verification/Daemon_Journal.thy ===== *)
theory Daemon_Journal
  imports Daemon_Store
begin

text \<open>
  The workspace daemon's journal (\<open>v2/services/workspace_daemon/journal.py\<close>): durable reception
  of execute, cancel and steer, the ordered update stream, terminal records and restart recovery,
  each as the body of one transaction. Executors, the filesystem below the workspace root, the
  wire validator and SHA-256 are not code of this repository's daemon; they are fields of the
  configuration record.
\<close>

section \<open>Configuration\<close>

record executor_info =
  progress_kinds :: "string list"
  conversational :: bool
  steering_support :: bool
  validates :: "execute_payload \<Rightarrow> bool" \<comment> \<open>\<open>validate\<close> did not raise\<close>

datatype digest_input = DCommand string runtime_command | DMessages "(string \<times> string) list"

record journal_cfg =
  binding :: runtime_target
  executors :: "(string, executor_info) table"
  max_concurrent_attempts :: nat
  max_pending_updates :: nat
  established :: bool
  boot_id :: string
  inside :: "string \<Rightarrow> bool \<Rightarrow> bool" \<comment> \<open>the path exists under the root and is a directory (or a file)\<close>
  digest :: "digest_input \<Rightarrow> string"
  sendable :: "update \<Rightarrow> bool" \<comment> \<open>\<open>validate_wire_message\<close> found no error\<close>

definition INTERRUPTED :: "attempt_state list" where
  "INTERRUPTED = [SLaunching, SRunning, SCancelling]"

datatype outcome = OutCompleted attempt_result | OutFailed rt_error string | OutCancelled "string option"

fun outcome_state :: "outcome \<Rightarrow> attempt_state" where
  "outcome_state (OutCompleted _) = SCompleted"
| "outcome_state (OutFailed _ _) = SFailed"
| "outcome_state (OutCancelled _) = SCancelled"

fun outcome_body :: "outcome \<Rightarrow> update_body" where
  "outcome_body (OutCompleted r) = Completed r"
| "outcome_body (OutFailed e r) = Failed e r"
| "outcome_body (OutCancelled r) = Cancelled r"

section \<open>Binding checks\<close>

definition subject_of :: "string \<Rightarrow> string \<Rightarrow> string" where
  "subject_of = subject_for ''runtime''"

definition mismatch :: "runtime_target \<Rightarrow> string \<Rightarrow> 'a runtime_target_scheme \<Rightarrow> string \<Rightarrow> rt_error option" where
  "mismatch b subject t action =
     (if subject \<noteq> subject_of (runtime_id b) action
         \<or> workspace_id t \<noteq> workspace_id b \<or> runtime_id t \<noteq> runtime_id b
      then Some (error IDENTITY_MISMATCH ''command is not for this runtime'')
      else if runtime_generation t \<noteq> runtime_generation b
      then Some (error STALE_RUNTIME ''runtime generation is not authorized'')
      else None)"

text \<open>\<open>context.resolve\<close> of \<open>workspace_daemon/context.py\<close>, over the filesystem predicate.\<close>

definition resolve_context :: "journal_cfg \<Rightarrow> task_context \<Rightarrow> bool" where
  "resolve_context cfg c \<longleftrightarrow> references c = [] \<and> inside cfg (working_directory c) True
     \<and> (\<forall>f \<in> set (instruction_files c). inside cfg f False)"

section \<open>Ordered updates\<close>

definition cancel_ref :: "runtime_command option \<Rightarrow> journal_exn + (string \<times> cause) option" where
  "cancel_ref c = (case c of None \<Rightarrow> Inr None
     | Some cmd \<Rightarrow> (case body cmd of Cancel cs _ \<Rightarrow> Inr (Some (command_id cmd, cs))
                    | Steer cs _ \<Rightarrow> Inr (Some (command_id cmd, cs))
                    | Execute _ \<Rightarrow> Inl PyKeyError))"

definition append ::
  "journal_cfg \<Rightarrow> draw \<Rightarrow> update_body \<Rightarrow> attempt option \<Rightarrow> exec_termination option
   \<Rightarrow> runtime_command option \<Rightarrow> journal_db \<Rightarrow> journal_exn + nat \<times> attempt option \<times> journal_db" where
  "append cfg d b att term cancel db =
     (case tx_runtime db of
        None \<Rightarrow> Inl PyTypeError
      | Some meta \<Rightarrow>
          (let n = rr_sequence meta + 1;
               att' = map_option (\<lambda>a. a\<lparr>at_attempt_sequence := at_attempt_sequence a + 1,
                                       at_last_event_sequence := n\<rparr>) att
           in sbind (cancel_ref cancel) (\<lambda>cref.
                let message = \<lparr>u_event_id = identity ''rte_'' (d_uuid d), u_body = b,
                      u_target = (case att of None \<Rightarrow> RuntimeTarget (binding cfg)
                                  | Some a \<Rightarrow> AttemptTarget (target (at_command a))),
                      u_boot_id = boot_id cfg, u_sequence = n, u_occurred_at = d_now d,
                      u_execution = map_option (execution_of \<circ> at_command) att',
                      u_attempt_sequence = map_option at_attempt_sequence att',
                      u_termination = term, u_cancel = cref\<rparr>
                in if \<not> sendable cfg message then Inl UnsendableUpdate
                   else sbind (append_update n (u_event_id message) message
                                (map_option (attempt_id \<circ> target \<circ> at_command) att) db)
                     (\<lambda>db1. sbind (save_runtime (meta\<lparr>rr_sequence := n\<rparr>) db1)
                       (\<lambda>db2. Inr (n, att', db2))))))"

text \<open>The summary a completed fake attempt reports after it was steered.\<close>

definition join_messages :: "(string \<times> string) list \<Rightarrow> string" where
  "join_messages ms = concat (map (\<lambda>(c, m). CHR 0x0A # m) ms)"

definition summary_limit :: nat where "summary_limit = 65536"

definition steered_summary :: "journal_cfg \<Rightarrow> (string \<times> string) list \<Rightarrow> string \<Rightarrow> string" where
  "steered_summary cfg ms s =
     (let full = s @ join_messages ms in
      if length full > summary_limit
      then (let suffix = CHR 0x0A # ''[steering sha256:'' @ digest cfg (DMessages ms) @ '']''
            in take (summary_limit - length suffix) full @ suffix)
      else full)"

definition command_runner :: "command_body \<Rightarrow> journal_exn + string" where
  "command_runner b = (case b of Execute p \<Rightarrow> Inr (runner (ep_agent p)) | _ \<Rightarrow> Inl PyKeyError)"

definition steered_outcome :: "journal_cfg \<Rightarrow> attempt \<Rightarrow> outcome \<Rightarrow> journal_exn + outcome" where
  "steered_outcome cfg a out =
     (case out of
        OutCompleted r \<Rightarrow> sbind (command_runner (body (at_command a))) (\<lambda>rn.
          let ms = (case at_executor_handle a of None \<Rightarrow> [] | Some h \<Rightarrow> steering h)
          in if rn = ''fake'' \<and> ms \<noteq> []
             then (case summary r of None \<Rightarrow> Inl PyKeyError
                   | Some s \<Rightarrow> Inr (OutCompleted (r\<lparr>summary := Some (steered_summary cfg ms s)\<rparr>)))
             else Inr out)
      | _ \<Rightarrow> Inr out)"

text \<open>A journaled cancel decides the outcome.\<close>

definition cancel_outcome :: "runtime_command \<Rightarrow> journal_exn + outcome" where
  "cancel_outcome c = (case body c of Cancel _ reason \<Rightarrow> Inr (OutCancelled reason) | _ \<Rightarrow> Inl UnsendableUpdate)"

definition finish ::
  "journal_cfg \<Rightarrow> draw \<Rightarrow> attempt \<Rightarrow> outcome \<Rightarrow> exec_termination \<Rightarrow> journal_db \<Rightarrow> journal_exn + journal_db" where
  "finish cfg d a out term db =
     (if terminal (at_state a) then Inr db
      else sbind (case at_cancel a of None \<Rightarrow> Inr out | Some c \<Rightarrow> cancel_outcome c) (\<lambda>out1.
        sbind (steered_outcome cfg a out1) (\<lambda>out2.
          sbind (append cfg d (outcome_body out2) (Some (a\<lparr>at_state := outcome_state out2\<rparr>))
                   (Some term) (at_cancel a) db)
            (\<lambda>(n, a', db1). case a' of None \<Rightarrow> Inl PyTypeError | Some a2 \<Rightarrow> save_attempt a2 db1))))"

definition finish_read ::
  "journal_cfg \<Rightarrow> draw \<Rightarrow> string \<Rightarrow> outcome \<Rightarrow> exec_termination \<Rightarrow> journal_db \<Rightarrow> journal_exn + journal_db" where
  "finish_read cfg d aid out term db =
     (case tx_attempt aid db of None \<Rightarrow> Inl PyTypeError | Some a \<Rightarrow> finish cfg d a out term db)"

section \<open>Progress\<close>

text \<open>
  The backpressure loop returns only when the outbox has room; \<open>progress_admitted\<close> is its exit
  condition, \<open>progress\<close> the transaction after it.
\<close>

definition progress_admitted :: "journal_cfg \<Rightarrow> journal_db \<Rightarrow> bool" where
  "progress_admitted cfg db \<longleftrightarrow> pending_updates db < max_pending_updates cfg"

definition progress :: "journal_cfg \<Rightarrow> draw \<Rightarrow> string \<Rightarrow> progress \<Rightarrow> journal_db \<Rightarrow> journal_exn + unit \<times> journal_db" where
  "progress cfg d aid p db =
     (case tx_attempt aid db of
        None \<Rightarrow> Inl PyTypeError
      | Some a \<Rightarrow> sbind (command_runner (body (at_command a))) (\<lambda>rn.
          case tget (executors cfg) rn of
            None \<Rightarrow> Inl PyKeyError
          | Some ex \<Rightarrow>
              if at_state a \<notin> {SRunning, SCancelling} \<or> progress_kind p \<notin> set (progress_kinds ex)
              then Inl PyValueError
              else sbind (append cfg d (Progress p) (Some a) None None db)
                (\<lambda>(n, a', db1). case a' of None \<Rightarrow> Inl PyTypeError
                   | Some a2 \<Rightarrow> sbind (save_attempt a2 db1) (\<lambda>db2. Inr ((), db2)))))"

section \<open>Execute\<close>

definition accepted_ack :: "runtime_command \<Rightarrow> command_ack" where
  "accepted_ack c = \<lparr>ack_command_id = command_id c, ack_target = target c, ack_status = Accepted, ack_error = None\<rparr>"

definition rejected_ack :: "runtime_command \<Rightarrow> rt_error \<Rightarrow> command_ack" where
  "rejected_ack c e = \<lparr>ack_command_id = command_id c, ack_target = target c, ack_status = Rejected, ack_error = Some e\<rparr>"

definition truthy :: "string option \<Rightarrow> bool" where
  "truthy s \<longleftrightarrow> (case s of None \<Rightarrow> False | Some x \<Rightarrow> x \<noteq> [])"

definition execute_detail ::
  "journal_cfg \<Rightarrow> execute_payload \<Rightarrow> attempt option \<Rightarrow> session_view option \<Rightarrow> rt_error option" where
  "execute_detail cfg p existing session =
     (case tget (executors cfg) (runner (ep_agent p)) of
        None \<Rightarrow> if existing \<noteq> None then Some (error ATTEMPT_CONFLICT ''attempt is owned by another execute command'')
                else Some (error UNSUPPORTED_EXECUTOR ''executor is not configured'')
      | Some ex \<Rightarrow>
          if existing \<noteq> None then Some (error ATTEMPT_CONFLICT ''attempt is owned by another execute command'')
          else if (case session of None \<Rightarrow> False | Some s \<Rightarrow> truthy (sv_active_attempt s))
          then Some (error SESSION_BUSY ''session has an active attempt'')
          else if (ep_session_mode p = ModeContinue) \<noteq> (session \<noteq> None)
                  \<or> (case session of None \<Rightarrow> False | Some s \<Rightarrow> sv_agent s \<noteq> ep_agent p)
          then Some (error INVALID_ARGUMENT ''session mapping does not match this execution'')
          else if (case session of None \<Rightarrow> False
                   | Some s \<Rightarrow> conversational ex \<and> \<not> (truthy (sv_executor_session_id s) \<and> sv_executor_resumable s))
          then Some (error INVALID_ARGUMENT ''the session's executor conversation cannot be resumed'')
          else if \<not> (resolve_context cfg (ep_context p) \<and> validates ex p)
          then Some (error INVALID_ARGUMENT ''invalid or unavailable executor context'')
          else None)"

text \<open>A cancel that arrived first and left a tombstone for this exact binding.\<close>

definition is_tombstone_for :: "runtime_command \<Rightarrow> attempt \<Rightarrow> bool" where
  "is_tombstone_for c a \<longleftrightarrow> is_cancel (body (at_command a)) \<and> target (at_command a) = target c
     \<and> execution_of (at_command a) = execution_of c"

definition new_attempt :: "runtime_command \<Rightarrow> attempt" where
  "new_attempt c = \<lparr>at_command = c, at_state = SRecorded, at_launch_count = 0, at_attempt_sequence = 0,
     at_last_event_sequence = 0, at_executor_handle = None, at_cancel = None\<rparr>"

definition ensure_session :: "session_view option \<Rightarrow> runtime_command \<Rightarrow> journal_db \<Rightarrow> journal_exn + journal_db" where
  "ensure_session session c db =
     (if session = None then open_session (session_id (target c)) (command_id c) db else Inr db)"

definition execute_tx ::
  "journal_cfg \<Rightarrow> string \<Rightarrow> runtime_command \<Rightarrow> journal_db \<Rightarrow> journal_exn + command_ack \<times> journal_db" where
  "execute_tx cfg subject c db =
     (let fingerprint = digest cfg (DCommand subject c) in
      case receipt (command_id c) db of
        Some (d, previous) \<Rightarrow>
          if d = fingerprint then Inr (previous, db)
          else Inr (rejected_ack c (error COMMAND_ID_CONFLICT ''command identity changed''), db)
      | None \<Rightarrow>
          if (case tx_attempt (attempt_id (target c)) db of None \<Rightarrow> False | Some a \<Rightarrow> is_tombstone_for c a)
          then sbind (remember c fingerprint (accepted_ack c) db) (\<lambda>db1. Inr (accepted_ack c, db1))
          else case tx_runtime db of
            None \<Rightarrow> Inl PyTypeError
          | Some meta \<Rightarrow>
              if \<not> rr_ready meta \<or> rr_blocked meta \<noteq> None
              then Inr (rejected_ack c (error UNAVAILABLE ''runtime readiness is not committed''), db)
              else case body c of
                Execute p \<Rightarrow>
                  sbind (tx_session (session_id (target c)) db) (\<lambda>session.
                    let detail = execute_detail cfg p (tx_attempt (attempt_id (target c)) db) session in
                    if detail = None \<and> active_attempts db \<ge> max_concurrent_attempts cfg
                    then Inr (rejected_ack c (error UNAVAILABLE ''runtime is at capacity''), db)
                    else case detail of
                      Some e \<Rightarrow> sbind (remember c fingerprint (rejected_ack c e) db)
                                  (\<lambda>db1. Inr (rejected_ack c e, db1))
                    | None \<Rightarrow>
                        sbind (remember c fingerprint (accepted_ack c) db) (\<lambda>db1.
                          sbind (ensure_session session c db1) (\<lambda>db2.
                            sbind (save_attempt (new_attempt c) db2) (\<lambda>db3. Inr (accepted_ack c, db3)))))
              | _ \<Rightarrow> Inl PyKeyError)"

definition execute ::
  "journal_cfg \<Rightarrow> string \<Rightarrow> runtime_command \<Rightarrow> journal_db \<Rightarrow> (journal_exn + command_ack) \<times> journal_db" where
  "execute cfg subject c db =
     (case mismatch (binding cfg) subject (target c) ''execute'' of
        Some e \<Rightarrow> (Inr (rejected_ack c e), db)
      | None \<Rightarrow> run_tx (execute_tx cfg subject c) db)"

section \<open>Cancel\<close>

definition cancel_conflict :: "runtime_command \<Rightarrow> (string \<times> command_ack) option \<Rightarrow> attempt option \<Rightarrow> bool" where
  "cancel_conflict c ex att \<longleftrightarrow>
     (case ex of None \<Rightarrow> False | Some (_, r) \<Rightarrow> ack_target r \<noteq> target c)
     \<or> (case att of None \<Rightarrow> False
        | Some a \<Rightarrow> target (at_command a) \<noteq> target c \<or> execution_of (at_command a) \<noteq> execution_of c)"

definition cancel_record ::
  "journal_cfg \<Rightarrow> draw \<Rightarrow> runtime_command \<Rightarrow> attempt \<Rightarrow> journal_db \<Rightarrow> journal_exn + journal_db" where
  "cancel_record cfg d c a db =
     (if terminal (at_state a) \<or> at_cancel a \<noteq> None then Inr db
      else let a1 = a\<lparr>at_cancel := Some c\<rparr> in
        sbind (save_attempt a1 db) (\<lambda>db1.
          if at_state a1 = SRecorded
          then sbind (cancel_outcome c) (\<lambda>out. finish cfg d a1 out NeverStarted db1)
          else save_attempt (a1\<lparr>at_state := SCancelling\<rparr>) db1))"

definition cancel_tx ::
  "journal_cfg \<Rightarrow> draw \<Rightarrow> string \<Rightarrow> runtime_command \<Rightarrow> journal_db \<Rightarrow> journal_exn + command_ack \<times> journal_db" where
  "cancel_tx cfg d subject c db =
     (let fingerprint = digest cfg (DCommand subject c) in
      case receipt (command_id c) db of
        Some (dg, previous) \<Rightarrow>
          if dg = fingerprint then Inr (previous, db)
          else Inr (rejected_ack c (error COMMAND_ID_CONFLICT ''command identity changed''), db)
      | None \<Rightarrow>
          (let ex = receipt (exec_command_id (execution_of c)) db;
               att = tx_attempt (attempt_id (target c)) db;
               response = (if cancel_conflict c ex att
                           then rejected_ack c (error ATTEMPT_CONFLICT ''cancel names another execution'')
                           else accepted_ack c)
           in sbind (remember c fingerprint response db) (\<lambda>db1.
                if ack_status response = Rejected
                   \<or> (case ex of None \<Rightarrow> False | Some (_, r) \<Rightarrow> ack_status r = Rejected)
                then Inr (response, db1)
                else sbind (cancel_record cfg d c (case att of None \<Rightarrow> new_attempt c | Some a \<Rightarrow> a) db1)
                       (\<lambda>db2. Inr (response, db2)))))"

definition cancel ::
  "journal_cfg \<Rightarrow> draw \<Rightarrow> string \<Rightarrow> runtime_command \<Rightarrow> journal_db \<Rightarrow> (journal_exn + command_ack) \<times> journal_db" where
  "cancel cfg d subject c db =
     (case mismatch (binding cfg) subject (target c) ''cancel'' of
        Some e \<Rightarrow> (Inr (rejected_ack c e), db)
      | None \<Rightarrow> run_tx (cancel_tx cfg d subject c) db)"

section \<open>Steer\<close>

definition steer_detail :: "journal_cfg \<Rightarrow> runtime_command \<Rightarrow> attempt option \<Rightarrow> journal_exn + rt_error option" where
  "steer_detail cfg c att =
     (case att of
        None \<Rightarrow> Inr (Some (error ATTEMPT_CONFLICT ''steering names another execution''))
      | Some a \<Rightarrow>
          if target (at_command a) \<noteq> target c \<or> execution_of (at_command a) \<noteq> execution_of c
          then Inr (Some (error ATTEMPT_CONFLICT ''steering names another execution''))
          else sbind (command_runner (body (at_command a))) (\<lambda>rn.
            if rn \<noteq> ''fake'' \<or> \<not> (case tget (executors cfg) rn of None \<Rightarrow> False | Some ex \<Rightarrow> steering_support ex)
            then Inr (Some (error UNSUPPORTED_CAPABILITY ''executor does not support steering''))
            else Inr None))"

text \<open>\<open>FakeExecutor.apply_steering\<close>: the only effect is on the attempt's own handle.\<close>

definition apply_steering :: "handle \<Rightarrow> string \<Rightarrow> string \<Rightarrow> handle" where
  "apply_steering h cid message = h\<lparr>steering := steering h @ [(cid, message)]\<rparr>"

fun state_name :: "attempt_state \<Rightarrow> string" where
  "state_name SRecorded = ''recorded''"
| "state_name SLaunching = ''launching''"
| "state_name SRunning = ''running''"
| "state_name SCancelling = ''cancelling''"
| "state_name SCompleted = ''completed''"
| "state_name SFailed = ''failed''"
| "state_name SCancelled = ''cancelled''"

definition steer_outcome ::
  "runtime_command \<Rightarrow> cause \<Rightarrow> string \<Rightarrow> attempt \<Rightarrow> journal_exn + attempt \<times> update_body" where
  "steer_outcome c cs message a =
     (if at_state a \<noteq> SRunning
      then Inr (a, SteeringFailed (command_id c) cs
             \<lparr>rt_code = INVALID_STATE, rt_message = ''attempt is no longer running'', rt_retryable = False\<rparr>
             [(''resource_type'', JStr ''attempt''), (''resource_id'', JStr (attempt_id (target c))),
              (''current_state'', JStr (state_name (at_state a))), (''allowed_states'', JList [JStr ''running''])])
      else case at_executor_handle a of
             None \<Rightarrow> Inl PyTypeError
           | Some h \<Rightarrow> Inr (a\<lparr>at_executor_handle := Some (apply_steering h (command_id c) message)\<rparr>,
                           SteeringApplied (command_id c) cs))"

definition steer_apply ::
  "journal_cfg \<Rightarrow> draw \<Rightarrow> runtime_command \<Rightarrow> attempt \<Rightarrow> journal_db \<Rightarrow> journal_exn + journal_db" where
  "steer_apply cfg d c a db =
     (case body c of
        Steer cs message \<Rightarrow>
          sbind (steer_outcome c cs message a) (\<lambda>(a1, b).
            sbind (append cfg d b (Some a1) None None db) (\<lambda>(n, a2, db1).
              case a2 of None \<Rightarrow> Inl PyTypeError | Some a3 \<Rightarrow> save_attempt a3 db1))
      | _ \<Rightarrow> Inl PyKeyError)"

definition steer_tx ::
  "journal_cfg \<Rightarrow> draw \<Rightarrow> string \<Rightarrow> runtime_command \<Rightarrow> journal_db \<Rightarrow> journal_exn + command_ack \<times> journal_db" where
  "steer_tx cfg d subject c db =
     (let fingerprint = digest cfg (DCommand subject c) in
      case receipt (command_id c) db of
        Some (dg, previous) \<Rightarrow>
          if dg = fingerprint then Inr (previous, db)
          else Inr (rejected_ack c (error COMMAND_ID_CONFLICT ''command identity changed''), db)
      | None \<Rightarrow>
          (let att = tx_attempt (attempt_id (target c)) db in
           sbind (steer_detail cfg c att) (\<lambda>detail.
             case detail of
               Some e \<Rightarrow> sbind (remember c fingerprint (rejected_ack c e) db) (\<lambda>db1. Inr (rejected_ack c e, db1))
             | None \<Rightarrow>
                 sbind (remember c fingerprint (accepted_ack c) db) (\<lambda>db1.
                   case att of None \<Rightarrow> Inl PyTypeError
                   | Some a \<Rightarrow> sbind (steer_apply cfg d c a db1) (\<lambda>db2. Inr (accepted_ack c, db2))))))"

definition steer ::
  "journal_cfg \<Rightarrow> draw \<Rightarrow> string \<Rightarrow> runtime_command \<Rightarrow> journal_db \<Rightarrow> (journal_exn + command_ack) \<times> journal_db" where
  "steer cfg d subject c db =
     (case mismatch (binding cfg) subject (target c) ''steer'' of
        Some e \<Rightarrow> (Inr (rejected_ack c e), db)
      | None \<Rightarrow> run_tx (steer_tx cfg d subject c) db)"

section \<open>Inspect\<close>

definition snapshot_of :: "journal_db \<Rightarrow> string \<Rightarrow> attempt_snapshot" where
  "snapshot_of db aid = \<lparr>as_attempt_id = aid, as_known = map_option (\<lambda>a. (target (at_command a),
     execution_of (at_command a), at_state a, at_last_event_sequence a)) (tx_attempt aid db)\<rparr>"

definition inspect ::
  "journal_cfg \<Rightarrow> string \<Rightarrow> runtime_target \<Rightarrow> string list \<Rightarrow> journal_db \<Rightarrow> journal_exn + (rt_error + inspect_result)" where
  "inspect cfg subject t aids db =
     (case mismatch (binding cfg) subject t ''inspect'' of
        Some e \<Rightarrow> Inr (Inl e)
      | None \<Rightarrow>
          (case tx_runtime db of
             None \<Rightarrow> Inl PyTypeError
           | Some meta \<Rightarrow> Inr (Inr \<lparr>ir_boot_id = boot_id cfg, ir_ready = rr_ready meta \<and> rr_blocked meta = None,
               ir_last_event_sequence = rr_sequence meta, ir_attempts = map (snapshot_of db) aids\<rparr>)))"

section \<open>Recovery\<close>

definition recover_begin :: "journal_cfg \<Rightarrow> string \<Rightarrow> journal_db \<Rightarrow> journal_exn + (runtime_row \<times> attempt list) \<times> journal_db" where
  "recover_begin cfg uuid db =
     sbind (case tx_runtime db of
              None \<Rightarrow> if established cfg then Inl (RecoveryRefused EMPTY)
                      else Inr \<lparr>rr_target = binding cfg, rr_journal_id = identity ''journal_'' uuid,
                        rr_sequence = 0, rr_ready = False, rr_ready_sequence = None, rr_blocked = None\<rparr>
            | Some meta \<Rightarrow> Inr meta)
       (\<lambda>meta. if rr_target meta \<noteq> binding cfg then Inl (RecoveryRefused REBOUND)
          else let meta' = meta\<lparr>rr_ready := False\<rparr> in
            sbind (save_runtime meta' db) (\<lambda>db1. Inr ((meta', tx_attempts db1), db1)))"

datatype decision = FencedCancelled | FencedFailed | LaunchOnce | ReplayOnly

definition executor_lost :: outcome where
  "executor_lost = OutFailed \<lparr>rt_code = PROVIDER_ERROR,
     rt_message = ''Interrupted executor was fenced after daemon restart'', rt_retryable = False\<rparr> ''executor_lost''"

text \<open>One pass of the loop over the attempts; \<open>fenced\<close> is what the executor's \<open>fence\<close> returned.\<close>

definition recover_attempt ::
  "journal_cfg \<Rightarrow> draw \<Rightarrow> bool \<Rightarrow> attempt \<Rightarrow> journal_db \<Rightarrow> journal_exn + decision \<times> journal_db" where
  "recover_attempt cfg d fenced a db =
     (if at_state a \<in> set INTERRUPTED
      then sbind (command_runner (body (at_command a))) (\<lambda>rn.
        if tget (executors cfg) rn = None \<or> \<not> fenced then Inl (RecoveryRefused UNFENCED)
        else sbind (finish_read cfg d (attempt_id (target (at_command a))) executor_lost Killed db)
               (\<lambda>db1. Inr (if at_cancel a \<noteq> None then FencedCancelled else FencedFailed, db1)))
      else if at_state a = SRecorded then Inr (LaunchOnce, db)
      else Inr (ReplayOnly, db))"

record evidence_item =
  ei_command_id :: string
  ei_attempt_id :: string
  ei_runtime_generation :: nat
  ei_journal_id :: string
  ei_journal_sequence :: nat
  ei_state :: attempt_state
  ei_launch_count :: nat
  ei_decision :: decision

datatype evidence = EAttempt evidence_item | EBlocked string blocked

definition evidence_for :: "runtime_row \<Rightarrow> attempt \<Rightarrow> decision \<Rightarrow> evidence" where
  "evidence_for meta a dec = EAttempt \<lparr>ei_command_id = command_id (at_command a),
     ei_attempt_id = attempt_id (target (at_command a)),
     ei_runtime_generation = runtime_generation (target (at_command a)), ei_journal_id = rr_journal_id meta,
     ei_journal_sequence = rr_sequence meta, ei_state = at_state a, ei_launch_count = at_launch_count a,
     ei_decision = dec\<rparr>"

fun recover_loop ::
  "journal_cfg \<Rightarrow> (nat \<Rightarrow> draw) \<Rightarrow> (attempt \<Rightarrow> bool) \<Rightarrow> runtime_row \<Rightarrow> nat \<Rightarrow> attempt list \<Rightarrow> journal_db
   \<Rightarrow> journal_exn + evidence list \<times> journal_db" where
  "recover_loop cfg ds fence meta i [] db = Inr ([], db)"
| "recover_loop cfg ds fence meta i (a # as) db =
     sbind (recover_attempt cfg (ds i) (fence a) a db) (\<lambda>(dec, db1).
       sbind (recover_loop cfg ds fence meta (i + 1) as db1) (\<lambda>(evidence, db2).
         Inr (evidence_for meta a dec # evidence, db2)))"

definition ready_body :: "journal_cfg \<Rightarrow> string \<Rightarrow> update_body" where
  "ready_body cfg jid = Ready \<lparr>rp_executors = sort (tkeys (executors cfg)),
     rp_steering_executors = filter (\<lambda>n. n = ''fake'' \<and>
        (case tget (executors cfg) n of None \<Rightarrow> False | Some ex \<Rightarrow> steering_support ex)) (sort (tkeys (executors cfg))),
     rp_max_concurrent_attempts = max_concurrent_attempts cfg,
     rp_progress_kinds = sort (remdups (concat (map (progress_kinds \<circ> snd) (executors cfg)))),
     rp_journal_id = jid\<rparr>"

definition recover_ready :: "journal_cfg \<Rightarrow> draw \<Rightarrow> journal_db \<Rightarrow> journal_exn + evidence list \<times> journal_db" where
  "recover_ready cfg d db =
     (case tx_runtime db of
        None \<Rightarrow> Inl PyTypeError
      | Some meta \<Rightarrow>
          sbind (append cfg d (ready_body cfg (rr_journal_id meta)) None None None db) (\<lambda>(n, _, db1).
            case tx_runtime db1 of
              None \<Rightarrow> Inl PyTypeError
            | Some meta1 \<Rightarrow> sbind (save_runtime (meta1\<lparr>rr_ready_sequence := Some n\<rparr>) db1) (\<lambda>db2.
                Inr (case rr_blocked meta of None \<Rightarrow> [] | Some b \<Rightarrow> [EBlocked (rr_journal_id meta) b], db2))))"

text \<open>
  The whole of \<open>recover\<close> when nothing interrupts it. Its transactions are separate; a crash or a
  refusal between them keeps what was committed, as the step relation of the daemon says.
\<close>

definition recover ::
  "journal_cfg \<Rightarrow> string \<Rightarrow> (nat \<Rightarrow> draw) \<Rightarrow> (attempt \<Rightarrow> bool) \<Rightarrow> journal_db
   \<Rightarrow> journal_exn + evidence list \<times> journal_db" where
  "recover cfg uuid ds fence db =
     sbind (recover_begin cfg uuid db) (\<lambda>((meta, as), db1).
       sbind (recover_loop cfg ds fence meta 1 as db1) (\<lambda>(evidence, db2).
         sbind (recover_ready cfg (ds 0) db2) (\<lambda>(blocked, db3). Inr (evidence @ blocked, db3))))"

end
