(* ===== verification/Daemon_Worker.thy ===== *)
theory Daemon_Worker
  imports Daemon_Journal
begin

text \<open>
  The workspace daemon's two workers over the journal: \<open>ExecutionWorker\<close>
  (\<open>workspace_daemon/executor.py\<close>), which launches each recorded attempt and fences the ones
  whose outcome is uncertain, and \<open>UpdateOutbox\<close> (\<open>workspace_daemon/outbox.py\<close>), which sends the
  oldest unacknowledged update. The executor's own answers (its plan, whether a launch failed,
  how the work ended, whether a fence was confirmed) are arguments. The theory ends with the
  daemon as a labelled step relation: command reception, the worker's transactions, delivery,
  crashes and recovery in any order the daemon allows.
\<close>

section \<open>Execution worker\<close>

text \<open>
  \<open>_run\<close> is three transactions with the executor's launch and wait between them. The first
  commits the launch intent; None means that the attempt is no longer recorded.
\<close>

definition run_claim ::
  "journal_cfg \<Rightarrow> handle \<Rightarrow> string \<Rightarrow> journal_db \<Rightarrow> journal_exn + handle option \<times> journal_db" where
  "run_claim cfg plan aid db =
     (case tx_attempt aid db of
        None \<Rightarrow> Inr (None, db)
      | Some a \<Rightarrow>
          if at_state a \<noteq> SRecorded then Inr (None, db)
          else sbind (command_runner (body (at_command a))) (\<lambda>rn.
            if tget (executors cfg) rn = None then Inl PyKeyError
            else sbind (tx_session (session_id (target (at_command a))) db) (\<lambda>session.
              sbind (save_attempt (a\<lparr>at_state := SLaunching, at_launch_count := at_launch_count a + 1,
                                    at_executor_handle := Some plan\<rparr>) db)
                (\<lambda>db1. Inr (Some plan, db1)))))"

definition launch_failed :: outcome where
  "launch_failed = OutFailed \<lparr>rt_code = PROVIDER_ERROR, rt_message = ''Executor failed to launch'',
     rt_retryable = False\<rparr> ''launch_failed''"

definition run_launch_failed ::
  "journal_cfg \<Rightarrow> draw \<Rightarrow> exec_termination \<Rightarrow> string \<Rightarrow> journal_db \<Rightarrow> journal_exn + journal_db" where
  "run_launch_failed cfg d term aid db = finish_read cfg d aid launch_failed term db"

definition save_conversation :: "string \<Rightarrow> (string \<times> bool) option \<Rightarrow> journal_db \<Rightarrow> journal_db" where
  "save_conversation sid conv db =
     (case conv of None \<Rightarrow> db | Some (esid, resumable) \<Rightarrow> save_executor_session sid esid resumable db)"

definition run_started ::
  "journal_cfg \<Rightarrow> draw \<Rightarrow> handle \<Rightarrow> (string \<times> bool) option \<Rightarrow> string \<Rightarrow> journal_db
   \<Rightarrow> journal_exn + journal_db" where
  "run_started cfg d h conv aid db =
     (case tx_attempt aid db of
        None \<Rightarrow> Inl PyTypeError
      | Some a \<Rightarrow>
          (let a1 = a\<lparr>at_state := (if at_state a = SLaunching then SRunning else at_state a),
                      at_executor_handle := Some h\<rparr>;
               db1 = save_conversation (session_id (target (at_command a))) conv db
           in sbind (append cfg d Started (Some a1) None None db1)
                (\<lambda>(n, a2, db2). case a2 of None \<Rightarrow> Inl PyTypeError | Some a3 \<Rightarrow> save_attempt a3 db2)))"

definition run_finished ::
  "journal_cfg \<Rightarrow> draw \<Rightarrow> outcome \<Rightarrow> exec_termination \<Rightarrow> string \<Rightarrow> journal_db \<Rightarrow> journal_exn + journal_db" where
  "run_finished cfg d out term aid db = finish_read cfg d aid out term db"

definition outcome_uncertain :: outcome where
  "outcome_uncertain = OutFailed \<lparr>rt_code = PROVIDER_ERROR,
     rt_message = ''Executor outcome was uncertain; it was fenced'', rt_retryable = False\<rparr> ''executor_lost''"

text \<open>
  \<open>_resolve\<close>: an interrupted attempt that no task owns is recorded lost once its executor confirmed
  the fence; otherwise nothing is written and it stays owned. True means that it was fenced.
\<close>

definition resolve ::
  "journal_cfg \<Rightarrow> draw \<Rightarrow> bool \<Rightarrow> string \<Rightarrow> journal_db \<Rightarrow> journal_exn + bool \<times> journal_db" where
  "resolve cfg d fenced aid db =
     (case tx_attempt aid db of
        None \<Rightarrow> Inr (False, db)
      | Some a \<Rightarrow>
          if at_state a \<notin> set INTERRUPTED then Inr (False, db)
          else sbind (command_runner (body (at_command a))) (\<lambda>rn.
            if tget (executors cfg) rn = None \<or> \<not> fenced then Inr (False, db)
            else sbind (finish_read cfg d aid outcome_uncertain Killed db) (\<lambda>db1. Inr (True, db1))))"

text \<open>
  \<open>run_once\<close>: the cancelling attempts whose live launch is to be stopped, the recorded ones to
  launch and the orphans to fence, given the tasks, the launches and the stops in progress and the
  backoff that is due.
\<close>

record due_work =
  to_stop :: "string list"
  to_launch :: "string list"
  to_fence :: "string list"

definition run_once ::
  "string list \<Rightarrow> string list \<Rightarrow> string list \<Rightarrow> (string \<Rightarrow> bool) \<Rightarrow> journal_db \<Rightarrow> due_work" where
  "run_once tasks launches stopping due db =
     (let recorded = attempt_ids [SRecorded] db;
          launched = filter (\<lambda>a. a \<notin> set tasks) recorded
      in \<lparr>to_stop = filter (\<lambda>a. a \<in> set tasks \<and> a \<in> set launches \<and> a \<notin> set stopping)
             (attempt_ids [SCancelling] db),
          to_launch = launched,
          to_fence = filter (\<lambda>a. a \<notin> set tasks \<and> a \<notin> set launched \<and> due a) (attempt_ids INTERRUPTED db)\<rparr>)"

section \<open>Update outbox\<close>

text \<open>The transaction of \<open>UpdateOutbox.run_once\<close> after a verified acknowledgement; True when committed.\<close>

definition outbox_settle :: "nat \<Rightarrow> update_ack \<Rightarrow> journal_db \<Rightarrow> journal_exn + bool \<times> journal_db" where
  "outbox_settle sequence ack db =
     (case tx_runtime db of
        None \<Rightarrow> Inl PyTypeError
      | Some meta \<Rightarrow>
          if ua_status ack = Committed
          then (let db1 = acknowledge sequence db;
                    meta1 = (if rr_ready_sequence meta = Some sequence then meta\<lparr>rr_ready := True\<rparr> else meta)
                in sbind (save_runtime meta1 db1) (\<lambda>db2. Inr (True, db2)))
          else (case ua_error ack of
                  None \<Rightarrow> Inl PyKeyError
                | Some e \<Rightarrow>
                    if rt_code e = EVENT_GAP \<and> (case ua_expected_sequence ack of None \<Rightarrow> False | Some n \<Rightarrow> has_update n db)
                    then sbind (save_runtime meta
                           (replay_from (case ua_expected_sequence ack of None \<Rightarrow> 0 | Some n \<Rightarrow> n) db))
                           (\<lambda>db2. Inr (False, db2))
                    else if \<not> rt_retryable e \<or> rt_code e = EVENT_GAP
                    then sbind (save_runtime (meta\<lparr>rr_ready := False, rr_blocked := Some \<lparr>blocked_code = rt_code e,
                             blocked_sequence = sequence, blocked_event_id = ua_event_id ack\<rparr>\<rparr>) db)
                           (\<lambda>db2. Inr (False, db2))
                    else sbind (save_runtime meta db) (\<lambda>db2. Inr (False, db2))))"

text \<open>What the outbox sends next: nothing while the runtime is blocked.\<close>

definition outbox_next :: "journal_db \<Rightarrow> (nat \<times> update) option" where
  "outbox_next db = (case tx_runtime db of
     None \<Rightarrow> None | Some meta \<Rightarrow> if rr_blocked meta \<noteq> None then None else oldest_pending db)"

section \<open>The daemon as a step relation\<close>

datatype task_phase = PLaunch handle | PWait handle

datatype boot_phase = Down | Recovering "attempt list" | Up

record daemon =
  d_db :: journal_db
  d_tasks :: "(string, task_phase) table"
  d_boot :: boot_phase
  d_sent :: "(nat \<times> update) option"

datatype label = LLaunch string | LOther

definition initial_daemon :: daemon where
  "initial_daemon = \<lparr>d_db = empty_journal, d_tasks = [], d_boot = Down, d_sent = None\<rparr>"

inductive daemon_step :: "journal_cfg \<Rightarrow> daemon \<Rightarrow> label \<Rightarrow> daemon \<Rightarrow> bool" for cfg where
  boot: "d_boot s = Down \<Longrightarrow> recover_begin cfg u (d_db s) = Inr ((m, as), db) \<Longrightarrow>
     daemon_step cfg s LOther (s\<lparr>d_db := db, d_tasks := [], d_boot := Recovering as\<rparr>)"
| fence: "d_boot s = Recovering (a # as) \<Longrightarrow> recover_attempt cfg d fenced a (d_db s) = Inr (dec, db) \<Longrightarrow>
     daemon_step cfg s LOther (s\<lparr>d_db := db, d_boot := Recovering as\<rparr>)"
| serve: "d_boot s = Recovering [] \<Longrightarrow> recover_ready cfg d (d_db s) = Inr (x, db) \<Longrightarrow>
     daemon_step cfg s LOther (s\<lparr>d_db := db, d_boot := Up\<rparr>)"
| crash: "daemon_step cfg s LOther (s\<lparr>d_tasks := [], d_boot := Down, d_sent := None\<rparr>)"
| recv_execute: "d_boot s = Up \<Longrightarrow> is_execute (body c) \<Longrightarrow> execute cfg subject c (d_db s) = (r, db) \<Longrightarrow>
     daemon_step cfg s LOther (s\<lparr>d_db := db\<rparr>)"
| recv_cancel: "d_boot s = Up \<Longrightarrow> is_cancel (body c) \<Longrightarrow> cancel cfg d subject c (d_db s) = (r, db) \<Longrightarrow>
     daemon_step cfg s LOther (s\<lparr>d_db := db\<rparr>)"
| recv_steer: "d_boot s = Up \<Longrightarrow> \<not> is_execute (body c) \<Longrightarrow> \<not> is_cancel (body c) \<Longrightarrow>
     steer cfg d subject c (d_db s) = (r, db) \<Longrightarrow> daemon_step cfg s LOther (s\<lparr>d_db := db\<rparr>)"
| launch: "d_boot s = Up \<Longrightarrow> tget (d_tasks s) aid = None \<Longrightarrow> run_claim cfg plan aid (d_db s) = Inr (Some h, db) \<Longrightarrow>
     daemon_step cfg s (LLaunch aid) (s\<lparr>d_db := db, d_tasks := tput aid (PLaunch h) (d_tasks s)\<rparr>)"
| launch_fails: "d_boot s = Up \<Longrightarrow> tget (d_tasks s) aid = Some (PLaunch h) \<Longrightarrow>
     run_launch_failed cfg d term aid (d_db s) = Inr db \<Longrightarrow>
     daemon_step cfg s LOther (s\<lparr>d_db := db, d_tasks := tdel aid (d_tasks s)\<rparr>)"
| start: "d_boot s = Up \<Longrightarrow> tget (d_tasks s) aid = Some (PLaunch h) \<Longrightarrow>
     run_started cfg d h conv aid (d_db s) = Inr db \<Longrightarrow>
     daemon_step cfg s LOther (s\<lparr>d_db := db, d_tasks := tput aid (PWait h) (d_tasks s)\<rparr>)"
| report: "d_boot s = Up \<Longrightarrow> tget (d_tasks s) aid = Some (PWait h) \<Longrightarrow> progress_admitted cfg (d_db s) \<Longrightarrow>
     progress cfg d aid p (d_db s) = Inr ((), db) \<Longrightarrow> daemon_step cfg s LOther (s\<lparr>d_db := db\<rparr>)"
| finished: "d_boot s = Up \<Longrightarrow> tget (d_tasks s) aid = Some (PWait h) \<Longrightarrow>
     outcome_state out \<in> {SCompleted, SFailed} \<Longrightarrow>
     run_finished cfg d out term aid (d_db s) = Inr db \<Longrightarrow>
     daemon_step cfg s LOther (s\<lparr>d_db := db, d_tasks := tdel aid (d_tasks s)\<rparr>)"
| task_lost: "d_boot s = Up \<Longrightarrow> daemon_step cfg s LOther (s\<lparr>d_tasks := tdel aid (d_tasks s)\<rparr>)"
| fence_orphan: "d_boot s = Up \<Longrightarrow> tget (d_tasks s) aid = None \<Longrightarrow>
     resolve cfg d fenced aid (d_db s) = Inr (x, db) \<Longrightarrow> daemon_step cfg s LOther (s\<lparr>d_db := db\<rparr>)"
| send: "d_boot s = Up \<Longrightarrow> d_sent s = None \<Longrightarrow> outbox_next (d_db s) = Some (n, wire) \<Longrightarrow>
     daemon_step cfg s LOther (s\<lparr>d_sent := Some (n, wire)\<rparr>)"
| send_fails: "daemon_step cfg s LOther (s\<lparr>d_sent := None\<rparr>)"
| deliver: "d_boot s = Up \<Longrightarrow> d_sent s = Some (n, wire) \<Longrightarrow>
     exchange_update None None (subject_for ''vcp'' (runtime_id (binding cfg)) ''updates'') wire ack = [] \<Longrightarrow> outbox_settle n ack (d_db s) = Inr (x, db) \<Longrightarrow>
     daemon_step cfg s LOther (s\<lparr>d_db := db, d_sent := None\<rparr>)"

inductive daemon_run :: "journal_cfg \<Rightarrow> label list \<Rightarrow> daemon \<Rightarrow> bool" for cfg where
  run_init: "daemon_run cfg [] initial_daemon"
| run_step: "daemon_run cfg ls s \<Longrightarrow> daemon_step cfg s l t \<Longrightarrow> daemon_run cfg (ls @ [l]) t"

end
