(* ===== verification/Daemon_Invariants.thy ===== *)
theory Daemon_Invariants
  imports Daemon_Worker
begin

text \<open>
  What every transaction of the daemon does to the journal, seen through two views: the map of
  attempts \<open>tx_attempt\<close> gives, and each attempt's own stream of updates. A transaction either
  leaves both views alone or moves one attempt along its state machine and appends the matching
  updates; the invariants of the whole daemon follow from that alone.
\<close>

section \<open>Well-formed attempts and their transitions\<close>

definition attempt_ok :: "attempt \<Rightarrow> bool" where
  "attempt_ok a \<longleftrightarrow>
     (is_execute (body (at_command a)) \<or> is_cancel (body (at_command a)))
     \<and> (\<forall>c. at_cancel a = Some c \<longrightarrow> is_cancel (body c))
     \<and> (case at_state a of
          SRecorded \<Rightarrow> is_execute (body (at_command a)) \<and> at_launch_count a = 0 \<and> at_cancel a = None
        | SLaunching \<Rightarrow> is_execute (body (at_command a)) \<and> at_launch_count a = 1 \<and> at_cancel a = None
        | SRunning \<Rightarrow> is_execute (body (at_command a)) \<and> at_launch_count a = 1 \<and> at_cancel a = None
                      \<and> at_executor_handle a \<noteq> None
        | SCancelling \<Rightarrow> is_execute (body (at_command a)) \<and> at_launch_count a = 1 \<and> at_cancel a \<noteq> None
        | SCompleted \<Rightarrow> is_execute (body (at_command a)) \<and> at_launch_count a = 1 \<and> at_cancel a = None
        | SFailed \<Rightarrow> is_execute (body (at_command a)) \<and> at_launch_count a = 1 \<and> at_cancel a = None
        | SCancelled \<Rightarrow> at_cancel a \<noteq> None
            \<and> at_launch_count a \<le> (if is_execute (body (at_command a)) then 1 else 0))"

text \<open>The state machine of an attempt, from not journaled (None) to a terminal state.\<close>

inductive attempt_next :: "attempt_state option \<Rightarrow> attempt_state \<Rightarrow> bool" where
  "attempt_next None SRecorded"
| "attempt_next None SCancelled"
| "attempt_next (Some SRecorded) SLaunching"
| "attempt_next (Some SRecorded) SCancelled"
| "attempt_next (Some SLaunching) SRunning"
| "attempt_next (Some SLaunching) SFailed"
| "attempt_next (Some SLaunching) SCancelling"
| "attempt_next (Some SRunning) SCompleted"
| "attempt_next (Some SRunning) SFailed"
| "attempt_next (Some SRunning) SCancelling"
| "attempt_next (Some SCancelling) SCancelled"
| "attempt_next (Some s) s"

fun body_state :: "update_body \<Rightarrow> attempt_state option" where
  "body_state (Completed _) = Some SCompleted"
| "body_state (Failed _ _) = Some SFailed"
| "body_state (Cancelled _) = Some SCancelled"
| "body_state _ = None"

definition attempt_seq :: "attempt option \<Rightarrow> nat" where
  "attempt_seq a = (case a of None \<Rightarrow> 0 | Some x \<Rightarrow> at_attempt_sequence x)"

definition launches :: "attempt option \<Rightarrow> nat" where
  "launches a = (case a of None \<Rightarrow> 0 | Some x \<Rightarrow> at_launch_count x)"

definition terminal_events :: "update list \<Rightarrow> attempt_state list" where
  "terminal_events us = List.map_filter (body_state \<circ> u_body) us"

definition started_events :: "update list \<Rightarrow> nat" where
  "started_events us = length (filter (\<lambda>u. u_body u = Started) us)"

definition ended :: "attempt option \<Rightarrow> bool" where
  "ended a = (case a of None \<Rightarrow> False | Some x \<Rightarrow> terminal (at_state x))"

text \<open>A legal change of one attempt together with the updates appended for it.\<close>

definition good_change :: "attempt option \<Rightarrow> attempt \<Rightarrow> update list \<Rightarrow> bool" where
  "good_change old new evs \<longleftrightarrow>
     attempt_ok new \<and> attempt_next (map_option at_state old) (at_state new)
     \<and> (\<forall>x. old = Some x \<longrightarrow> at_command new = at_command x
           \<and> (\<forall>c. at_cancel x = Some c \<longrightarrow> at_cancel new = Some c))
     \<and> map u_attempt_sequence evs = map Some [Suc (attempt_seq old)..<Suc (at_attempt_sequence new)]
     \<and> attempt_seq old \<le> at_attempt_sequence new
     \<and> terminal_events evs = (if terminal (at_state new) \<and> \<not> ended old then [at_state new] else [])"

section \<open>Views\<close>

definition att_stream :: "string \<Rightarrow> journal_db \<Rightarrow> update list" where
  "att_stream aid db = map (ur_wire \<circ> snd) (filter (\<lambda>(n, r). ur_attempt_id r = Some aid) (journal_updates db))"

definition evolves :: "journal_db \<Rightarrow> journal_db \<Rightarrow> string \<Rightarrow> attempt \<Rightarrow> update list \<Rightarrow> bool" where
  "evolves db db' aid new evs \<longleftrightarrow> store_wf db'
     \<and> (\<forall>k. tx_attempt k db' = (if k = aid then Some new else tx_attempt k db))
     \<and> (\<forall>k. att_stream k db' = att_stream k db @ (if k = aid then evs else []))"

definition frame :: "journal_db \<Rightarrow> journal_db \<Rightarrow> bool" where
  "frame db db' \<longleftrightarrow> store_wf db' \<and> (\<forall>k. tx_attempt k db' = tx_attempt k db)
     \<and> (\<forall>k. att_stream k db' = att_stream k db)"

definition stream_ok :: "journal_db \<Rightarrow> bool" where
  "stream_ok db \<longleftrightarrow>
     (case journal_runtime db of None \<Rightarrow> journal_updates db = []
      | Some m \<Rightarrow> tkeys (journal_updates db) = [1..<Suc (rr_sequence m)])
     \<and> (\<forall>(n, r) \<in> set (journal_updates db). u_sequence (ur_wire r) = n \<and> ur_event_id r = u_event_id (ur_wire r))"

definition active_set :: "journal_db \<Rightarrow> string set" where
  "active_set db = {aid. \<exists>a. tx_attempt aid db = Some a \<and> \<not> terminal (at_state a)}"

definition session_unique :: "journal_db \<Rightarrow> bool" where
  "session_unique db \<longleftrightarrow> (\<forall>k k' a a'. tx_attempt k db = Some a \<longrightarrow> tx_attempt k' db = Some a' \<longrightarrow>
     \<not> terminal (at_state a) \<longrightarrow> \<not> terminal (at_state a') \<longrightarrow>
     session_id (target (at_command a)) = session_id (target (at_command a')) \<longrightarrow> k = k')"

definition stream_of_attempt_ok :: "attempt option \<Rightarrow> update list \<Rightarrow> bool" where
  "stream_of_attempt_ok a us \<longleftrightarrow>
     map u_attempt_sequence us = map Some [1..<Suc (attempt_seq a)]
     \<and> terminal_events us = (case a of None \<Rightarrow> [] | Some x \<Rightarrow> if terminal (at_state x) then [at_state x] else [])"

definition journal_inv :: "journal_cfg \<Rightarrow> journal_db \<Rightarrow> bool" where
  "journal_inv cfg db \<longleftrightarrow> store_wf db \<and> stream_ok db
     \<and> (\<forall>k a. tx_attempt k db = Some a \<longrightarrow> attempt_ok a)
     \<and> session_unique db
     \<and> card (active_set db) \<le> max_concurrent_attempts cfg
     \<and> (\<forall>k. stream_of_attempt_ok (tx_attempt k db) (att_stream k db))"

section \<open>Counting active attempts\<close>

lemma active_set_rows:
  assumes "store_wf db"
  shows "active_set db = fst ` set (filter (active_row \<circ> snd) (journal_attempts db))"
proof -
  have "(\<exists>a. tx_attempt k db = Some a \<and> \<not> terminal (at_state a))
      \<longleftrightarrow> (\<exists>r. tget (journal_attempts db) k = Some r \<and> active_row r)" for k
  proof -
    have "\<exists>a. join_attempt db r = Some a \<and> at_state a = ar_state r" if "tget (journal_attempts db) k = Some r" for r
      using store_wfD(5)[OF assms that] join_attempt_fields(1) by (auto simp: attempt_row_ok_def)
    then show ?thesis
      by (auto simp: tx_attempt_def active_row_def bind_eq_Some_conv dest: join_attempt_fields(1))
  qed
  then show ?thesis
    using store_wfD(3)[OF assms] by (force simp: active_set_def twf_tget image_iff)
qed

lemma finite_active_set [simp]: "store_wf db \<Longrightarrow> finite (active_set db)"
  by (simp add: active_set_rows)

lemma active_attempts_card: "store_wf db \<Longrightarrow> active_attempts db = card (active_set db)"
proof -
  assume wf: "store_wf db"
  have "distinct (map fst (filter (active_row \<circ> snd) (journal_attempts db)))"
    using store_wfD(3)[OF wf] by (auto simp: twf_def tkeys_def distinct_map_filter)
  then show ?thesis
    unfolding active_attempts_def tcount_def active_set_rows[OF wf]
    by (metis distinct_card length_map set_map)
qed

section \<open>From one change to the invariant\<close>

lemma active_set_evolves:
  assumes "evolves db db' aid new evs"
  shows "active_set db' = (if terminal (at_state new) then active_set db - {aid} else insert aid (active_set db))"
  using assms by (auto simp: evolves_def active_set_def split: if_splits)

lemma attempt_next_active:
  "attempt_next (Some s) t \<Longrightarrow> \<not> terminal t \<Longrightarrow> \<not> terminal s"
  by (auto elim: attempt_next.cases)

lemma attempt_next_terminal: "attempt_next (Some s) t \<Longrightarrow> terminal s \<Longrightarrow> t = s"
  by (auto elim: attempt_next.cases)

lemma terminal_events_append: "terminal_events (us @ vs) = terminal_events us @ terminal_events vs"
  by (simp add: terminal_events_def map_filter_def)

lemma started_events_append [simp]: "started_events (us @ vs) = started_events us + started_events vs"
  by (simp add: started_events_def)

lemma stream_change:
  assumes "stream_of_attempt_ok old us" and "good_change old new evs"
  shows "stream_of_attempt_ok (Some new) (us @ evs)"
proof -
  have "[1..<Suc (attempt_seq old)] @ [Suc (attempt_seq old)..<Suc (at_attempt_sequence new)]
      = [1..<Suc (at_attempt_sequence new)]"
    using assms(2) upt_add_eq_append[of 1 "Suc (attempt_seq old)" "at_attempt_sequence new - attempt_seq old"]
    by (simp add: good_change_def del: upt_Suc)
  moreover have "terminal_events us @ terminal_events evs
      = (if terminal (at_state new) then [at_state new] else [])"
  proof (cases old)
    case None
    with assms show ?thesis by (auto simp: stream_of_attempt_ok_def good_change_def ended_def)
  next
    case (Some o')
    with assms attempt_next_terminal[of "at_state o'" "at_state new"] show ?thesis
      by (auto simp: stream_of_attempt_ok_def good_change_def ended_def)
  qed
  moreover have "map u_attempt_sequence (us @ evs)
      = map Some ([1..<Suc (attempt_seq old)] @ [Suc (attempt_seq old)..<Suc (at_attempt_sequence new)])"
    using assms unfolding stream_of_attempt_ok_def good_change_def by (simp only: map_append)
  ultimately show ?thesis
    unfolding stream_of_attempt_ok_def terminal_events_append by (simp add: attempt_seq_def del: upt_Suc)
qed

lemma journal_inv_evolves:
  assumes inv: "journal_inv cfg db" and ev: "evolves db db' aid new evs"
    and good: "good_change (tx_attempt aid db) new evs" and st: "stream_ok db'"
    and fresh: "tx_attempt aid db = None \<Longrightarrow> \<not> terminal (at_state new) \<Longrightarrow>
      card (active_set db) < max_concurrent_attempts cfg
      \<and> (\<forall>k a. tx_attempt k db = Some a \<longrightarrow> \<not> terminal (at_state a) \<longrightarrow>
           session_id (target (at_command a)) \<noteq> session_id (target (at_command new)))"
  shows "journal_inv cfg db'"
proof -
  have view: "tx_attempt k db' = (if k = aid then Some new else tx_attempt k db)" for k
    using ev by (simp add: evolves_def)
  have wf: "store_wf db" "store_wf db'" using inv ev by (simp_all add: journal_inv_def evolves_def)
  have old: "\<not> terminal (at_state o') \<and> at_command new = at_command o'"
    if "tx_attempt aid db = Some o'" "\<not> terminal (at_state new)" for o'
    using that good attempt_next_active[of "at_state o'" "at_state new"] by (auto simp: good_change_def)
  have uniq: "session_unique db" using inv by (simp add: journal_inv_def)
  have other: "k = aid" if a: "tx_attempt k db = Some a" "\<not> terminal (at_state a)" "\<not> terminal (at_state new)"
      "session_id (target (at_command a)) = session_id (target (at_command new))" for k a
  proof (cases "tx_attempt aid db")
    case None
    with fresh a show ?thesis by auto
  next
    case (Some o')
    with old[OF Some a(3)] a uniq show ?thesis unfolding session_unique_def by metis
  qed
  have "session_unique db'"
    using uniq other unfolding session_unique_def view by (auto split: if_splits; metis)
  moreover have "card (active_set db') \<le> max_concurrent_attempts cfg"
  proof (cases "aid \<in> active_set db \<or> terminal (at_state new)")
    case True
    then have "active_set db' \<subseteq> active_set db" using active_set_evolves[OF ev] by auto
    then have "card (active_set db') \<le> card (active_set db)" by (rule card_mono[OF finite_active_set[OF wf(1)]])
    then show ?thesis using inv by (simp add: journal_inv_def)
  next
    case False
    then have "tx_attempt aid db = None"
      using old by (cases "tx_attempt aid db") (auto simp: active_set_def)
    then show ?thesis
      using fresh False active_set_evolves[OF ev] finite_active_set[OF wf(1)] by simp
  qed
  moreover have "stream_of_attempt_ok (tx_attempt k db') (att_stream k db')" for k
    using inv good ev stream_change[of "tx_attempt aid db" "att_stream aid db" new evs]
    by (auto simp: view journal_inv_def evolves_def)
  ultimately show ?thesis
    using inv wf st good by (auto simp: journal_inv_def view good_change_def)
qed

lemma journal_inv_frame:
  assumes "journal_inv cfg db" and "frame db db'" and "stream_ok db'"
  shows "journal_inv cfg db'"
  using assms by (simp add: journal_inv_def frame_def active_set_def session_unique_def)

section \<open>Effects of the journal's primitives\<close>

definition bump :: "nat \<Rightarrow> attempt \<Rightarrow> attempt" where
  "bump n = (\<lambda>a. a\<lparr>at_attempt_sequence := at_attempt_sequence a + 1, at_last_event_sequence := n\<rparr>)"

lemma bump_simps [simp]:
  "at_command (bump n a) = at_command a" "at_state (bump n a) = at_state a"
  "at_launch_count (bump n a) = at_launch_count a" "at_cancel (bump n a) = at_cancel a"
  "at_executor_handle (bump n a) = at_executor_handle a"
  "at_attempt_sequence (bump n a) = Suc (at_attempt_sequence a)"
  by (simp_all add: bump_def)

lemma append_effect:
  assumes "append cfg d b att term cc db = Inr (n, att', db')"
  obtains meta msg where
    "journal_runtime db = Some meta" "n = rr_sequence meta + 1" "att' = map_option (bump n) att"
    "journal_runtime db' = Some (meta\<lparr>rr_sequence := n\<rparr>)"
    "journal_updates db' = journal_updates db @ [(n, \<lparr>ur_event_id = u_event_id msg,
       ur_attempt_id = map_option (attempt_id \<circ> target \<circ> at_command) att, ur_wire = msg, ur_acknowledged = False\<rparr>)]"
    "u_body msg = b" "u_sequence msg = n" "u_attempt_sequence msg = map_option at_attempt_sequence att'"
    "journal_commands db' = journal_commands db" "journal_sessions db' = journal_sessions db"
    "journal_attempts db' = journal_attempts db"
proof -
  obtain meta where meta: "journal_runtime db = Some meta"
    using assms by (auto simp: append_def tx_runtime_def split: option.splits)
  obtain cref where cref: "cancel_ref cc = Inr cref"
    using assms meta by (auto simp: append_def tx_runtime_def Let_def sbind_eq_Inr)
  define msg where "msg = \<lparr>u_event_id = identity ''rte_'' (d_uuid d), u_body = b,
      u_target = (case att of None \<Rightarrow> RuntimeTarget (binding cfg) | Some a \<Rightarrow> AttemptTarget (target (at_command a))),
      u_boot_id = boot_id cfg, u_sequence = rr_sequence meta + 1, u_occurred_at = d_now d,
      u_execution = map_option (execution_of \<circ> at_command) (map_option (bump (rr_sequence meta + 1)) att),
      u_attempt_sequence = map_option at_attempt_sequence (map_option (bump (rr_sequence meta + 1)) att),
      u_termination = term, u_cancel = cref\<rparr>"
  obtain db1 where db1: "append_update (rr_sequence meta + 1) (u_event_id msg) msg
        (map_option (attempt_id \<circ> target \<circ> at_command) att) db = Inr db1"
      "save_runtime (meta\<lparr>rr_sequence := rr_sequence meta + 1\<rparr>) db1 = Inr db'"
      "n = rr_sequence meta + 1" "att' = map_option (bump n) att"
    using assms
    by (auto simp: append_def tx_runtime_def Let_def meta cref msg_def bump_def sbind_eq_Inr split: if_splits)
  show ?thesis
    by (rule that[of meta msg])
      (use db1 meta append_update_simps[OF db1(1)] save_runtime_simps[OF db1(2)] in \<open>simp_all add: msg_def\<close>)
qed

lemma append_stream_ok:
  assumes "stream_ok db" and "append cfg d b att term cc db = Inr (n, att', db')"
  shows "stream_ok db'"
proof -
  obtain meta msg where "journal_runtime db = Some meta" "n = rr_sequence meta + 1"
    "journal_runtime db' = Some (meta\<lparr>rr_sequence := n\<rparr>)"
    "journal_updates db' = journal_updates db @ [(n, \<lparr>ur_event_id = u_event_id msg,
       ur_attempt_id = map_option (attempt_id \<circ> target \<circ> at_command) att, ur_wire = msg, ur_acknowledged = False\<rparr>)]"
    "u_sequence msg = n"
    by (rule append_effect[OF assms(2)])
  then show ?thesis using assms(1) by (auto simp: stream_ok_def)
qed

lemma stream_ok_cong:
  "stream_ok db \<Longrightarrow> journal_runtime db' = journal_runtime db \<Longrightarrow> journal_updates db' = journal_updates db \<Longrightarrow> stream_ok db'"
  by (cases "journal_runtime db") (simp_all add: stream_ok_def)

lemma att_stream_cong: "journal_updates db' = journal_updates db \<Longrightarrow> att_stream k db' = att_stream k db"
  by (simp add: att_stream_def)

lemma save_evolves:
  assumes "store_wf db" and "tx_attempt aid db = Some a0" and "at_command a = at_command a0"
    and "cancel_stored db a" and "save_attempt a db = Inr db'"
  shows "evolves db db' aid a []"
  using save_attempt_updates(1,2)[OF assms] save_attempt_simps(4)[OF assms(5)]
  by (simp add: evolves_def att_stream_def)

lemma create_evolves:
  assumes "store_wf db" and "tx_attempt aid db = None" and "attempt_id (target (at_command a)) = aid"
    and "map_option cr_command (tget (journal_commands db) (command_id (at_command a))) = Some (at_command a)"
    and "cancel_stored db a" and "save_attempt a db = Inr db'"
  shows "evolves db db' aid a []"
  using save_attempt_creates(1,2)[OF assms] save_attempt_simps(4)[OF assms(6)]
  by (simp add: evolves_def att_stream_def)

lemma evolves_trans:
  "evolves db db1 aid x evs \<Longrightarrow> evolves db1 db2 aid y evs' \<Longrightarrow> evolves db db2 aid y (evs @ evs')"
  by (auto simp: evolves_def)

lemma frame_evolves: "frame db db1 \<Longrightarrow> evolves db1 db2 aid y evs \<Longrightarrow> evolves db db2 aid y evs"
  by (auto simp: evolves_def frame_def)

lemma append_save_evolves:
  assumes wf: "store_wf db" and old: "tx_attempt aid db = Some a0" and cmd: "at_command a = at_command a0"
    and st: "cancel_stored db a"
    and app: "append cfg d b (Some a) term cc db = Inr (n, Some a2, db1)" and save: "save_attempt a2 db1 = Inr db'"
  shows "\<exists>msg. evolves db db' aid (bump n a) [msg] \<and> u_body msg = b
           \<and> u_attempt_sequence msg = Some (Suc (at_attempt_sequence a))"
proof -
  obtain meta msg where m: "Some a2 = map_option (bump n) (Some a)"
    "journal_updates db1 = journal_updates db @ [(n, \<lparr>ur_event_id = u_event_id msg,
       ur_attempt_id = map_option (attempt_id \<circ> target \<circ> at_command) (Some a), ur_wire = msg, ur_acknowledged = False\<rparr>)]"
    "u_body msg = b" "u_attempt_sequence msg = map_option at_attempt_sequence (Some a2)"
    "journal_commands db1 = journal_commands db" "journal_sessions db1 = journal_sessions db"
    "journal_attempts db1 = journal_attempts db"
    by (rule append_effect[OF app])
  have a2: "a2 = bump n a" using m(1) by simp
  have aid: "attempt_id (target (at_command a)) = aid" using tx_attempt_id[OF wf old] cmd by simp
  have wf1: "store_wf db1" by (rule store_wf_cong[OF wf m(5-7)])
  have old1: "tx_attempt aid db1 = Some a0" using old tx_attempt_cong[OF m(5,7)] by simp
  have "cancel_stored db1 a2" using st a2 m(5) by (simp add: cancel_stored_def split: option.splits)
  then have ev: "evolves db1 db' aid a2 []" using save_evolves[OF wf1 old1 _ _ save] cmd a2 by simp
  have "att_stream k db1 = att_stream k db @ (if k = aid then [msg] else [])" for k
    using aid by (simp add: att_stream_def m(2))
  moreover have "tx_attempt k db1 = tx_attempt k db" for k by (rule tx_attempt_cong[OF m(5,7)])
  ultimately have "evolves db db' aid a2 [msg]" using ev by (simp add: evolves_def)
  then show ?thesis using m a2 by auto
qed

lemma append_save_stream_ok:
  assumes "stream_ok db" and "append cfg d b att term cc db = Inr (n, a2, db1)" and "save_attempt a db1 = Inr db'"
  shows "stream_ok db'"
  using append_stream_ok[OF assms(1,2)] save_attempt_simps[OF assms(3)] by (blast intro: stream_ok_cong)

lemma outcome_body_state [simp]: "body_state (outcome_body out) = Some (outcome_state out)"
  by (cases out) auto

lemma steered_outcome_state: "steered_outcome cfg a out = Inr out' \<Longrightarrow> outcome_state out' = outcome_state out"
  by (cases out) (auto simp: steered_outcome_def sbind_eq_Inr Let_def split: if_splits option.splits)

lemma finish_terminal: "terminal (at_state a) \<Longrightarrow> finish cfg d a out term db = Inr db"
  by (simp add: finish_def)

lemma finish_evolves:
  assumes wf: "store_wf db" and old: "tx_attempt aid db = Some a0" and cmd: "at_command a = at_command a0"
    and st: "cancel_stored db a" and active: "\<not> terminal (at_state a)" and sok: "stream_ok db"
    and fin: "finish cfg d a out term db = Inr db'"
  shows "\<exists>n s msg. evolves db db' aid (bump n (a\<lparr>at_state := s\<rparr>)) [msg] \<and> body_state (u_body msg) = Some s
           \<and> u_attempt_sequence msg = Some (Suc (at_attempt_sequence a)) \<and> stream_ok db'
           \<and> s = (if at_cancel a = None then outcome_state out else SCancelled)"
proof -
  from fin active obtain out1 out2 n a2 db1 where o:
      "(case at_cancel a of None \<Rightarrow> Inr out | Some c \<Rightarrow> cancel_outcome c) = Inr out1"
      "steered_outcome cfg a out1 = Inr out2"
      "append cfg d (outcome_body out2) (Some (a\<lparr>at_state := outcome_state out2\<rparr>)) (Some term) (at_cancel a) db
         = Inr (n, Some a2, db1)" "save_attempt a2 db1 = Inr db'"
    by (auto simp: finish_def sbind_eq_Inr split: option.splits)
  have s: "outcome_state out2 = (if at_cancel a = None then outcome_state out else SCancelled)"
    using o(1) steered_outcome_state[OF o(2)]
    by (auto simp: cancel_outcome_def split: option.splits command_body.splits)
  have "cancel_stored db (a\<lparr>at_state := outcome_state out2\<rparr>)" using st by (simp add: cancel_stored_def)
  then obtain msg where "evolves db db' aid (bump n (a\<lparr>at_state := outcome_state out2\<rparr>)) [msg]"
      "u_body msg = outcome_body out2" "u_attempt_sequence msg = Some (Suc (at_attempt_sequence a))"
    using append_save_evolves[OF wf old _ _ o(3,4)] cmd by auto
  then show ?thesis using s append_save_stream_ok[OF sok o(3,4)] by fastforce
qed

end
