(* ===== verification/Daemon_Safety.thy ===== *)
theory Daemon_Safety
  imports Daemon_Invariants
begin

text \<open>
  Every transaction of the daemon is a legal move: it launches or starts at most the attempt it is
  about, moves at most one attempt along its state machine, and appends exactly the updates that
  the move reports. The invariants of reachable daemons, and the properties about launching,
  cancellation, capacity and the update stream, are read off the moves.
\<close>

section \<open>Moves\<close>

datatype act = ANone | ALaunch string | AStart string

text \<open>One attempt moves, with the updates that report it; a new attempt needs room and a free session.\<close>

definition legal_move :: "journal_cfg \<Rightarrow> act \<Rightarrow> journal_db \<Rightarrow> string \<Rightarrow> attempt \<Rightarrow> update list \<Rightarrow> bool" where
  "legal_move cfg act db aid new evs \<longleftrightarrow> good_change (tx_attempt aid db) new evs
     \<and> at_launch_count new = launches (tx_attempt aid db) + (if act = ALaunch aid then 1 else 0)
     \<and> started_events evs = (if act = AStart aid then 1 else 0)
     \<and> act \<in> {ANone, ALaunch aid, AStart aid}
     \<and> (tx_attempt aid db = None \<longrightarrow> \<not> terminal (at_state new) \<longrightarrow>
         card (active_set db) < max_concurrent_attempts cfg
         \<and> (\<forall>k a. tx_attempt k db = Some a \<longrightarrow> \<not> terminal (at_state a) \<longrightarrow>
              session_id (target (at_command a)) \<noteq> session_id (target (at_command new))))"

definition moved :: "journal_cfg \<Rightarrow> act \<Rightarrow> journal_db \<Rightarrow> journal_db \<Rightarrow> bool" where
  "moved cfg act db db' \<longleftrightarrow> stream_ok db'
     \<and> (frame db db' \<and> act = ANone
        \<or> (\<exists>aid new evs. evolves db db' aid new evs \<and> legal_move cfg act db aid new evs))"

lemma moved_frame: "stream_ok db' \<Longrightarrow> frame db db' \<Longrightarrow> moved cfg ANone db db'"
  by (simp add: moved_def)

lemma moved_refl: "journal_inv cfg db \<Longrightarrow> moved cfg ANone db db"
  by (simp add: moved_def frame_def journal_inv_def)

lemma journal_inv_moved:
  assumes "journal_inv cfg db" and "moved cfg act db db'"
  shows "journal_inv cfg db'"
  using assms journal_inv_frame journal_inv_evolves unfolding moved_def legal_move_def by meson

lemma journal_invD:
  assumes "journal_inv cfg db"
  shows "store_wf db" "stream_ok db" "tx_attempt k db = Some a \<Longrightarrow> attempt_ok a"
    "stream_of_attempt_ok (tx_attempt k db) (att_stream k db)" "session_unique db"
    "card (active_set db) \<le> max_concurrent_attempts cfg"
  using assms by (auto simp: journal_inv_def)

text \<open>A move that only touches an attempt that is journaled already.\<close>

lemma moved_existing:
  assumes "tx_attempt aid db = Some a" and "evolves db db' aid new evs" and "stream_ok db'"
    and "attempt_ok new" and "attempt_next (Some (at_state a)) (at_state new)"
    and "at_command new = at_command a" and "\<And>c. at_cancel a = Some c \<Longrightarrow> at_cancel new = Some c"
    and "map u_attempt_sequence evs = map Some [Suc (at_attempt_sequence a)..<Suc (at_attempt_sequence new)]"
    and "at_attempt_sequence a \<le> at_attempt_sequence new"
    and "terminal_events evs = (if terminal (at_state new) \<and> \<not> terminal (at_state a) then [at_state new] else [])"
    and "at_launch_count new = at_launch_count a + (if act = ALaunch aid then 1 else 0)"
    and "started_events evs = (if act = AStart aid then 1 else 0)"
    and "act \<in> {ANone, ALaunch aid, AStart aid}"
  shows "moved cfg act db db'"
  unfolding moved_def using assms
  by (intro conjI disjI2 exI[of _ aid] exI[of _ new] exI[of _ evs])
    (auto simp: legal_move_def good_change_def attempt_seq_def launches_def ended_def)

definition only_changes :: "string \<Rightarrow> journal_db \<Rightarrow> journal_db \<Rightarrow> bool" where
  "only_changes aid db db' \<longleftrightarrow> (\<forall>k. k \<noteq> aid \<longrightarrow> tx_attempt k db' = tx_attempt k db \<and> att_stream k db' = att_stream k db)"

lemma evolves_only: "evolves db db' aid new evs \<Longrightarrow> only_changes aid db db'"
  by (simp add: evolves_def only_changes_def)

lemma frame_only: "frame db db' \<Longrightarrow> only_changes aid db db'"
  by (simp add: frame_def only_changes_def)

lemma terminal_events_single [simp]:
  "terminal_events [msg] = (case body_state (u_body msg) of None \<Rightarrow> [] | Some s \<Rightarrow> [s])"
  "terminal_events [] = []"
  by (auto simp: terminal_events_def map_filter_def split: option.splits)

lemma started_events_single [simp]:
  "started_events [msg] = (if u_body msg = Started then 1 else 0)" "started_events [] = 0"
  by (auto simp: started_events_def)

lemma moved_cases:
  assumes "moved cfg act db db'"
  obtains (frame) "frame db db'" "act = ANone"
    | (evolve) aid new evs where "evolves db db' aid new evs" "legal_move cfg act db aid new evs"
  using assms by (auto simp: moved_def)

lemma moved_counts:
  assumes "moved cfg act db db'"
  shows "started_events (att_stream k db') = started_events (att_stream k db) + (if act = AStart k then 1 else 0)
    \<and> launches (tx_attempt k db') = launches (tx_attempt k db) + (if act = ALaunch k then 1 else 0)"
  using assms
proof (cases rule: moved_cases)
  case frame
  then show ?thesis by (simp add: frame_def)
next
  case (evolve aid new evs)
  have some: "launches (Some new) = at_launch_count new" by (simp add: launches_def)
  show ?thesis
  proof (cases "k = aid")
    case True
    with evolve some show ?thesis by (auto simp: legal_move_def evolves_def)
  next
    case False
    with evolve show ?thesis by (auto simp: legal_move_def evolves_def)
  qed
qed

lemmas moved_started = moved_counts[THEN conjunct1] and moved_launches = moved_counts[THEN conjunct2]

lemma moved_only: "moved cfg (ALaunch aid) db db' \<or> moved cfg (AStart aid) db db' \<Longrightarrow> only_changes aid db db'"
  by (auto simp: moved_def legal_move_def evolves_def only_changes_def)

lemma body_state_Some_not_started: "body_state b = Some s \<Longrightarrow> b \<noteq> Started"
  by (cases b) auto

section \<open>Terminal records\<close>

text \<open>Which attempts the daemon ends, and how: a cancel always decides.\<close>

lemma finish_moved:
  assumes inv: "journal_inv cfg db" and a: "tx_attempt aid db = Some a"
    and legal: "at_cancel a = None \<Longrightarrow> attempt_next (Some (at_state a)) (outcome_state out)"
    and interrupted: "at_state a \<in> {SLaunching, SRunning, SCancelling}"
    and fin: "finish cfg d a out term db = Inr db'"
  shows "moved cfg ANone db db'" and "\<exists>a'. tx_attempt aid db' = Some a' \<and> terminal (at_state a')"
    and "only_changes aid db db'"
proof -
  note wf = journal_invD(1)[OF inv] and sok = journal_invD(2)[OF inv] and ok = journal_invD(3)[OF inv a]
  have active: "\<not> terminal (at_state a)" using interrupted by auto
  obtain n s msg where e: "evolves db db' aid (bump n (a\<lparr>at_state := s\<rparr>)) [msg]"
      "body_state (u_body msg) = Some s" "u_attempt_sequence msg = Some (Suc (at_attempt_sequence a))" "stream_ok db'"
      "s = (if at_cancel a = None then outcome_state out else SCancelled)"
    using finish_evolves[OF wf a refl tx_attempt_cancel_stored[OF wf a] active sok fin] by blast
  have nxt: "attempt_next (Some (at_state a)) s"
    using e(5) legal ok interrupted
    by (auto simp: attempt_ok_def intro: attempt_next.intros split: attempt_state.splits if_splits)
  have "terminal (outcome_state out)" by (cases out) auto
  then have trm: "terminal s" using e(5) by simp
  have "attempt_ok (bump n (a\<lparr>at_state := s\<rparr>))"
    using ok interrupted e(5) nxt trm
    by (auto simp: attempt_ok_def split: attempt_state.splits if_splits elim: attempt_next.cases)
  with e nxt trm active body_state_Some_not_started[OF e(2)] show "moved cfg ANone db db'"
    by (intro moved_existing[OF a e(1)]) auto
  show "\<exists>a'. tx_attempt aid db' = Some a' \<and> terminal (at_state a')"
    using e(1) trm by (simp add: evolves_def)
  show "only_changes aid db db'" by (rule evolves_only[OF e(1)])
qed

lemma finish_read_moved:
  assumes "journal_inv cfg db" and "tx_attempt aid db = Some a"
    and "at_cancel a = None \<Longrightarrow> attempt_next (Some (at_state a)) (outcome_state out)"
    and "at_state a \<in> {SLaunching, SRunning, SCancelling}"
    and "finish_read cfg d aid out term db = Inr db'"
  shows "moved cfg ANone db db'" and "\<exists>a'. tx_attempt aid db' = Some a' \<and> terminal (at_state a')"
    and "only_changes aid db db'"
  using finish_moved[OF assms(1-4)] assms(2,5) by (simp_all add: finish_read_def)

section \<open>Worker transactions\<close>

lemma lost_legal:
  assumes "attempt_ok a" and "at_state a \<in> {SLaunching, SRunning, SCancelling}" and "at_cancel a = None"
  shows "attempt_next (Some (at_state a)) SFailed"
  using assms by (auto simp: attempt_ok_def intro: attempt_next.intros split: attempt_state.splits)

lemma INTERRUPTED_iff: "s \<in> set INTERRUPTED \<longleftrightarrow> s \<in> {SLaunching, SRunning, SCancelling}"
  by (auto simp: INTERRUPTED_def)

lemma run_claim_moved:
  assumes inv: "journal_inv cfg db" and claim: "run_claim cfg plan aid db = Inr (Some h, db')"
  shows "moved cfg (ALaunch aid) db db'"
    and "\<exists>a'. tx_attempt aid db' = Some a' \<and> at_state a' = SLaunching \<and> started_events (att_stream aid db') = started_events (att_stream aid db)"
    and "\<exists>a. tx_attempt aid db = Some a \<and> at_state a = SRecorded"
proof -
  note wf = journal_invD(1)[OF inv]
  obtain a where a: "tx_attempt aid db = Some a" "at_state a = SRecorded"
    and save: "save_attempt (a\<lparr>at_state := SLaunching, at_launch_count := at_launch_count a + 1,
                  at_executor_handle := Some plan\<rparr>) db = Inr db'"
    using claim by (auto simp: run_claim_def sbind_eq_Inr split: option.splits if_splits)
  let ?n = "a\<lparr>at_state := SLaunching, at_launch_count := at_launch_count a + 1, at_executor_handle := Some plan\<rparr>"
  have ok: "attempt_ok a" by (rule journal_invD(3)[OF inv a(1)])
  have st: "cancel_stored db ?n" using tx_attempt_cancel_stored[OF wf a(1)] by (simp add: cancel_stored_def)
  have ev: "evolves db db' aid ?n []" using save_evolves[OF wf a(1) _ st save] by simp
  have sok: "stream_ok db'" using journal_invD(2)[OF inv] save_attempt_simps[OF save] by (blast intro: stream_ok_cong)
  show "moved cfg (ALaunch aid) db db'"
    using ok a by (intro moved_existing[OF a(1) ev sok])
      (auto simp: attempt_ok_def intro: attempt_next.intros)
  show "\<exists>a'. tx_attempt aid db' = Some a' \<and> at_state a' = SLaunching
      \<and> started_events (att_stream aid db') = started_events (att_stream aid db)"
    using ev by (simp add: evolves_def)
  show "\<exists>a. tx_attempt aid db = Some a \<and> at_state a = SRecorded" using a by blast
qed

lemma save_conversation_frame:
  assumes "store_wf db"
  shows "frame db (save_conversation sid conv db)" "journal_runtime (save_conversation sid conv db) = journal_runtime db"
    "journal_updates (save_conversation sid conv db) = journal_updates db"
    "journal_commands (save_conversation sid conv db) = journal_commands db"
proof -
  let ?db = "save_conversation sid conv db"
  have eq: "journal_commands ?db = journal_commands db" "journal_attempts ?db = journal_attempts db"
      "journal_runtime ?db = journal_runtime db" "journal_updates ?db = journal_updates db"
    by (auto simp: save_conversation_def save_executor_session_def split: option.splits)
  have s: "twf (journal_sessions ?db)"
    using store_wfD(2)[OF assms]
    by (auto simp: save_conversation_def save_executor_session_def split: option.splits)
  have "store_wf ?db"
    using assms s attempt_row_ok_commands[OF eq(1)] by (simp add: store_wf_def eq)
  then show "frame db ?db"
    using tx_attempt_cong[OF eq(1,2)] att_stream_cong[OF eq(4)] by (simp add: frame_def)
qed (auto simp: save_conversation_def save_executor_session_def split: option.splits)

lemma run_started_moved:
  assumes inv: "journal_inv cfg db" and a: "tx_attempt aid db = Some a"
    and phase: "at_state a \<in> {SLaunching, SCancelling}"
    and run: "run_started cfg d h conv aid db = Inr db'"
  shows "moved cfg (AStart aid) db db'"
    and "\<exists>a'. tx_attempt aid db' = Some a' \<and> at_state a' \<in> {SRunning, SCancelling}"
proof -
  note wf = journal_invD(1)[OF inv] and ok = journal_invD(3)[OF inv a]
  let ?a1 = "a\<lparr>at_state := (if at_state a = SLaunching then SRunning else at_state a), at_executor_handle := Some h\<rparr>"
  let ?db1 = "save_conversation (session_id (target (at_command a))) conv db"
  note sc = save_conversation_frame[OF wf, of "session_id (target (at_command a))" conv]
  from run a obtain n a2 db2 where
      app: "append cfg d Started (Some ?a1) None None ?db1 = Inr (n, Some a2, db2)" and save: "save_attempt a2 db2 = Inr db'"
    by (auto simp: run_started_def Let_def sbind_eq_Inr split: option.splits)
  have a1: "tx_attempt aid ?db1 = Some a" and wf1: "store_wf ?db1" using sc(1) a by (simp_all add: frame_def)
  have st: "cancel_stored ?db1 ?a1"
    using tx_attempt_cancel_stored[OF wf a] sc(4) by (simp add: cancel_stored_def split: option.splits)
  obtain msg where ev: "evolves ?db1 db' aid (bump n ?a1) [msg]" "u_body msg = Started"
      "u_attempt_sequence msg = Some (Suc (at_attempt_sequence a))"
    using append_save_evolves[OF wf1 a1 _ st app save] by auto
  have sok: "stream_ok db'"
    using append_save_stream_ok[OF _ app save] stream_ok_cong[OF journal_invD(2)[OF inv] sc(2,3)] by blast
  have ev': "evolves db db' aid (bump n ?a1) [msg]" by (rule frame_evolves[OF sc(1) ev(1)])
  show "moved cfg (AStart aid) db db'"
    using ok phase ev(2,3) by (intro moved_existing[OF a ev' sok])
      (auto simp: attempt_ok_def intro: attempt_next.intros)
  show "\<exists>a'. tx_attempt aid db' = Some a' \<and> at_state a' \<in> {SRunning, SCancelling}"
    using ev' phase by (auto simp: evolves_def)
qed

text \<open>An update that reports on an attempt without changing its state.\<close>

lemma report_moved:
  assumes inv: "journal_inv cfg db" and a: "tx_attempt aid db = Some a"
    and cmd: "at_command a1 = at_command a" "at_state a1 = at_state a" "at_cancel a1 = at_cancel a"
      "at_launch_count a1 = at_launch_count a" "at_attempt_sequence a1 = at_attempt_sequence a"
      "at_executor_handle a \<noteq> None \<Longrightarrow> at_executor_handle a1 \<noteq> None"
    and app: "append cfg d b (Some a1) term cc db = Inr (n, Some a2, db1)" and save: "save_attempt a2 db1 = Inr db'"
    and b: "body_state b = None" "b \<noteq> Started"
  shows "moved cfg ANone db db'" and "\<exists>a'. tx_attempt aid db' = Some a' \<and> at_state a' = at_state a"
    and "\<forall>k. k \<noteq> aid \<longrightarrow> tx_attempt k db' = tx_attempt k db"
    and "started_events (att_stream k db') = started_events (att_stream k db)"
proof -
  note wf = journal_invD(1)[OF inv] and ok = journal_invD(3)[OF inv a]
  have st: "cancel_stored db a1"
    using tx_attempt_cancel_stored[OF wf a] cmd(3) by (simp add: cancel_stored_def)
  obtain msg where ev: "evolves db db' aid (bump n a1) [msg]" "u_body msg = b"
      "u_attempt_sequence msg = Some (Suc (at_attempt_sequence a))"
    using append_save_evolves[OF wf a cmd(1) st app save] cmd(5) by auto
  have sok: "stream_ok db'" by (rule append_save_stream_ok[OF journal_invD(2)[OF inv] app save])
  have "attempt_ok (bump n a1)"
    using ok cmd by (auto simp: attempt_ok_def split: attempt_state.splits)
  then show "moved cfg ANone db db'"
    using cmd ev(2,3) b by (intro moved_existing[OF a ev(1) sok]) (auto intro: attempt_next.intros)
  show "\<exists>a'. tx_attempt aid db' = Some a' \<and> at_state a' = at_state a" "\<forall>k. k \<noteq> aid \<longrightarrow> tx_attempt k db' = tx_attempt k db"
    using ev(1) cmd by (simp_all add: evolves_def)
  show "started_events (att_stream k db') = started_events (att_stream k db)"
    using ev b by (simp add: evolves_def)
qed

section \<open>Command reception\<close>

lemma remember_frame:
  assumes "store_wf db" and "remember c d r db = Inr db'"
  shows "frame db db'"
  using remember_attempts(1,2)[OF assms] att_stream_cong[OF remember_simps(4)[OF assms(2)]]
  by (simp add: frame_def)

lemma remember_stream_ok: "stream_ok db \<Longrightarrow> remember c d r db = Inr db' \<Longrightarrow> stream_ok db'"
  using remember_simps(1,4) stream_ok_cong by metis

lemma open_session_frame:
  assumes wf: "store_wf db" and op: "open_session sid cid db = Inr db'"
  shows "frame db db'" and "stream_ok db \<Longrightarrow> stream_ok db'"
proof -
  note eq = open_session_simps[OF op]
  have "twf (journal_sessions db')"
    unfolding eq(6) by (rule twf_append_single[OF store_wfD(2)[OF wf] eq(5)])
  then have "store_wf db'"
    using wf attempt_row_ok_commands[OF eq(2)] by (simp add: store_wf_def eq(2,3))
  then show "frame db db'"
    using tx_attempt_cong[OF eq(2,3)] att_stream_cong[OF eq(4)] by (simp add: frame_def)
  show "stream_ok db \<Longrightarrow> stream_ok db'" using eq(1,4) by (blast intro: stream_ok_cong)
qed

lemma frame_trans: "frame db db1 \<Longrightarrow> frame db1 db2 \<Longrightarrow> frame db db2"
  by (simp add: frame_def)

definition keeps_owned :: "journal_db \<Rightarrow> journal_db \<Rightarrow> bool" where
  "keeps_owned db db' \<longleftrightarrow> (\<forall>k a. tx_attempt k db = Some a \<longrightarrow> at_state a \<in> set INTERRUPTED \<longrightarrow>
     (\<exists>a'. tx_attempt k db' = Some a' \<and> at_state a' \<in> {at_state a, SCancelling}))"

lemma keeps_owned_frame: "frame db db' \<Longrightarrow> keeps_owned db db'"
  by (simp add: keeps_owned_def frame_def)

lemma keeps_owned_evolves:
  "evolves db db' aid new evs \<Longrightarrow>
   (\<And>a. tx_attempt aid db = Some a \<Longrightarrow> at_state a \<in> set INTERRUPTED \<Longrightarrow> at_state new \<in> {at_state a, SCancelling})
   \<Longrightarrow> keeps_owned db db'"
  by (auto simp: keeps_owned_def evolves_def)

lemma active_row_of_attempt:
  assumes wf: "store_wf db" and a: "tx_attempt k db = Some a" "\<not> terminal (at_state a)" "attempt_ok a"
  shows "\<exists>r. (k, r) \<in> set (journal_attempts db) \<and> active_for_session (session_id (target (at_command a))) r"
proof -
  obtain r where r: "tget (journal_attempts db) k = Some r" "join_attempt db r = Some a"
    using a(1) by (rule tx_attempt_row)
  have "\<not> is_cancel (body (at_command a))"
    using a(2,3) by (cases "body (at_command a)") (auto simp: attempt_ok_def split: attempt_state.splits)
  then have "ar_session_id r = Some (session_id (target (at_command a)))"
    using store_wfD(5)[OF wf r(1)] r(2) by (simp add: attempt_row_ok_def)
  moreover have "active_row r" using a(2) join_attempt_fields(1)[OF r(2)] by (simp add: active_row_def)
  ultimately show ?thesis using r(1) store_wfD(3)[OF wf] by (auto simp: active_for_session_def twf_tget)
qed

lemma execute_accept_moved:
  assumes inv: "journal_inv cfg db" and ex: "is_execute (body c)"
    and none: "tx_attempt (attempt_id (target c)) db = None"
    and room: "active_attempts db < max_concurrent_attempts cfg"
    and rem: "remember c fp (accepted_ack c) db = Inr db1"
    and opn: "ensure_session session c db1 = Inr db2"
    and save: "save_attempt (new_attempt c) db2 = Inr db3"
  shows "moved cfg ANone db db3" and "keeps_owned db db3"
proof -
  note wf = journal_invD(1)[OF inv]
  let ?aid = "attempt_id (target c)"
  have f1: "frame db db1" and s1: "stream_ok db1"
    using remember_frame[OF wf rem] remember_stream_ok[OF journal_invD(2)[OF inv] rem] by auto
  have wf1: "store_wf db1" using f1 by (simp add: frame_def)
  have cmds: "journal_commands db2 = journal_commands db1"
    using opn open_session_simps(2) by (auto simp: ensure_session_def split: if_splits)
  have f2: "frame db db2" and s2: "stream_ok db2"
    using opn open_session_frame[OF wf1] f1 s1
    by (auto simp: ensure_session_def split: if_splits intro: frame_trans)
  have wf2: "store_wf db2" and none2: "tx_attempt ?aid db2 = None" using f2 none by (simp_all add: frame_def)
  have "map_option cr_command (tget (journal_commands db2) (command_id c)) = Some c"
    using remember_attempts(3)[OF wf rem, of "command_id c"] cmds by simp
  then have ev2: "evolves db2 db3 ?aid (new_attempt c) []"
    using create_evolves[OF wf2 none2 _ _ _ save] by (simp add: new_attempt_def cancel_stored_def)
  then have ev: "evolves db db3 ?aid (new_attempt c) []" by (rule frame_evolves[OF f2])
  have sok: "stream_ok db3" using s2 save_attempt_simps[OF save] by (blast intro: stream_ok_cong)
  have free: "session_free ?aid (new_row (new_attempt c)) db2"
    using save_attempt_absent(2)[OF _ save] none2 tx_attempt_None_iff[OF wf2] by (simp add: new_attempt_def)
  have "session_id (target (at_command a)) \<noteq> session_id (target c)"
    if a: "tx_attempt k db = Some a" "\<not> terminal (at_state a)" for k a
  proof
    assume eq: "session_id (target (at_command a)) = session_id (target c)"
    have a2: "tx_attempt k db2 = Some a" using a(1) f2 by (simp add: frame_def)
    obtain r where r: "(k, r) \<in> set (journal_attempts db2)" "active_for_session (session_id (target c)) r"
      using active_row_of_attempt[OF wf2 a2 a(2) journal_invD(3)[OF inv a(1)]] eq by auto
    have "k \<noteq> ?aid" using a(1) none by auto
    then show False using free r ex
      by (cases "body c") (auto simp: session_free_def new_row_def new_attempt_def active_row_def)
  qed
  moreover have "card (active_set db) < max_concurrent_attempts cfg"
    using room active_attempts_card[OF wf] by simp
  moreover have "good_change None (new_attempt c) []"
    using ex by (auto simp: good_change_def attempt_ok_def new_attempt_def attempt_seq_def ended_def intro: attempt_next.intros)
  ultimately show "moved cfg ANone db db3"
    unfolding moved_def using sok ev none
    by (intro conjI disjI2 exI[of _ ?aid] exI[of _ "new_attempt c"] exI[of _ "[]"])
      (auto simp: legal_move_def launches_def new_attempt_def)
  show "keeps_owned db db3" by (rule keeps_owned_evolves[OF ev]) (use none in auto)
qed

lemma execute_tx_moved:
  assumes inv: "journal_inv cfg db" and ex: "is_execute (body c)"
    and run: "execute_tx cfg subject c db = Inr (r, db')"
  shows "moved cfg ANone db db' \<and> keeps_owned db db'"
proof -
  note wf = journal_invD(1)[OF inv]
  have same: ?thesis if "db' = db"
    using that moved_refl[OF inv] keeps_owned_frame wf by (simp add: frame_def)
  have rem: ?thesis if "remember c fp ack db = Inr db'" for fp ack
    using remember_frame[OF wf that] remember_stream_ok[OF journal_invD(2)[OF inv] that]
    by (simp add: moved_frame keeps_owned_frame)
  show ?thesis
  proof (cases "receipt (command_id c) db")
    case (Some x)
    then show ?thesis using run same by (auto simp: execute_tx_def Let_def split: if_splits prod.splits)
  next
    case None
    obtain p where p: "body c = Execute p" using ex by (cases "body c") auto
    from run None p consider (same) "db' = db" | (rem) fp ack where "remember c fp ack db = Inr db'"
      | (new) session db1 db2 where "execute_detail cfg p (tx_attempt (attempt_id (target c)) db) session = None"
          "active_attempts db < max_concurrent_attempts cfg"
          "remember c (digest cfg (DCommand subject c)) (accepted_ack c) db = Inr db1"
          "ensure_session session c db1 = Inr db2"
          "save_attempt (new_attempt c) db2 = Inr db'"
      by (auto simp: execute_tx_def Let_def sbind_eq_Inr not_le split: if_splits option.splits prod.splits)
    then show ?thesis
    proof cases
      case new
      then have "tx_attempt (attempt_id (target c)) db = None"
        by (auto simp: execute_detail_def split: option.splits if_splits)
      then show ?thesis using execute_accept_moved[OF inv ex _ new(2-5)] by blast
    qed (use same rem in blast)+
  qed
qed

lemma cancel_outcome_state: "cancel_outcome c = Inr out \<Longrightarrow> outcome_state out = SCancelled"
  by (auto simp: cancel_outcome_def split: command_body.splits)

text \<open>
  A cancel that wins: the attempt in the journal (or the new tombstone) takes the cancel and either
  ends \<open>never_started\<close> or becomes cancelling.
\<close>

lemma cancel_win_ended:
  assumes base: "frame db db0" and inv: "journal_inv cfg db" and s0: "stream_ok db0"
    and save: "evolves db0 db1 aid a1 []" and s1: "stream_ok db1" and st: "cancel_stored db1 a1"
    and shape: "at_state a1 = SRecorded" "at_cancel a1 = Some c" "is_cancel (body c)" "at_launch_count a1 = 0"
      "at_attempt_sequence a1 = attempt_seq (tx_attempt aid db)"
      "is_execute (body (at_command a1)) \<or> is_cancel (body (at_command a1))"
      "tx_attempt aid db = None \<or> (\<exists>a. tx_attempt aid db = Some a \<and> at_state a = SRecorded
         \<and> at_command a1 = at_command a \<and> at_cancel a = None \<and> at_launch_count a = 0)"
    and fin: "finish cfg d a1 out NeverStarted db1 = Inr db2"
  shows "moved cfg ANone db db2 \<and> keeps_owned db db2"
proof -
  have wf1: "store_wf db1" and old1: "tx_attempt aid db1 = Some a1" using save by (simp_all add: evolves_def)
  obtain n s msg where e: "evolves db1 db2 aid (bump n (a1\<lparr>at_state := s\<rparr>)) [msg]"
      "body_state (u_body msg) = Some s" "u_attempt_sequence msg = Some (Suc (at_attempt_sequence a1))" "stream_ok db2"
      "s = SCancelled"
    using finish_evolves[OF wf1 old1 refl st _ s1 fin] shape by auto
  have ev: "evolves db db2 aid (bump n (a1\<lparr>at_state := s\<rparr>)) [msg]"
    using frame_evolves[OF base evolves_trans[OF save e(1)]] by simp
  have "good_change (tx_attempt aid db) (bump n (a1\<lparr>at_state := s\<rparr>)) [msg]"
    using shape e(2,3,5) by (auto simp: good_change_def attempt_ok_def ended_def attempt_seq_def intro: attempt_next.intros)
  moreover have "launches (tx_attempt aid db) = 0" using shape(7) by (auto simp: launches_def)
  ultimately have "moved cfg ANone db db2"
    unfolding moved_def using e ev shape body_state_Some_not_started[OF e(2)]
    by (intro conjI disjI2 exI[of _ aid] exI[of _ "bump n (a1\<lparr>at_state := s\<rparr>)"] exI[of _ "[msg]"])
      (auto simp: legal_move_def)
  moreover have "keeps_owned db db2"
    by (rule keeps_owned_evolves[OF ev]) (use shape(7) in \<open>auto simp: INTERRUPTED_def\<close>)
  ultimately show ?thesis by blast
qed

lemma cancel_record_moved:
  assumes inv: "journal_inv cfg db" and base: "frame db db0" and s0: "stream_ok db0"
    and cmds: "map_option cr_command (tget (journal_commands db0) (command_id c)) = Some c"
    and c: "is_cancel (body c)"
    and a: "a = (case tx_attempt (attempt_id (target c)) db of None \<Rightarrow> new_attempt c | Some x \<Rightarrow> x)"
    and rec: "cancel_record cfg d c a db0 = Inr db2"
  shows "moved cfg ANone db db2 \<and> keeps_owned db db2"
proof (cases "terminal (at_state a) \<or> at_cancel a \<noteq> None")
  case True
  then have "db2 = db0" using rec by (simp add: cancel_record_def)
  then show ?thesis using base s0 by (simp add: moved_frame keeps_owned_frame)
next
  case False
  let ?aid = "attempt_id (target c)" and ?a1 = "a\<lparr>at_cancel := Some c\<rparr>"
  have wf0: "store_wf db0" and view0: "tx_attempt k db0 = tx_attempt k db" for k using base by (simp_all add: frame_def)
  from rec False obtain db1 where save: "save_attempt ?a1 db0 = Inr db1"
    and rest: "(if at_state a = SRecorded then sbind (cancel_outcome c) (\<lambda>out. finish cfg d ?a1 out NeverStarted db1)
                else save_attempt (?a1\<lparr>at_state := SCancelling\<rparr>) db1) = Inr db2"
    by (auto simp: cancel_record_def Let_def sbind_eq_Inr)
  have st0: "cancel_stored db0 ?a1" using cmds by (simp add: cancel_stored_def)
  have ev: "evolves db0 db1 ?aid ?a1 []"
  proof (cases "tx_attempt ?aid db")
    case None
    then show ?thesis
      using create_evolves[OF wf0 _ _ _ st0 save] view0 a cmds by (simp add: new_attempt_def)
  next
    case (Some x)
    then show ?thesis using save_evolves[OF wf0 _ _ st0 save, of ?aid x] view0 a by simp
  qed
  have s1: "stream_ok db1" using s0 save_attempt_simps[OF save] by (blast intro: stream_ok_cong)
  have st1: "cancel_stored db1 ?a1" using st0 save_attempt_simps(2)[OF save] by (simp add: cancel_stored_def)
  show ?thesis
  proof (cases "at_state a = SRecorded")
    case True
    with rest obtain out where fin: "finish cfg d ?a1 out NeverStarted db1 = Inr db2" by (auto simp: sbind_eq_Inr)
    have "attempt_ok x" if "tx_attempt ?aid db = Some x" for x using journal_invD(3)[OF inv that] .
    with a True c False show ?thesis
      by (intro cancel_win_ended[OF base inv s0 ev s1 st1 _ _ c _ _ _ _ fin])
        (auto simp: attempt_seq_def attempt_ok_def new_attempt_def split: option.splits)
  next
    case active: False
    then obtain x where x: "tx_attempt ?aid db = Some x" "a = x" using a by (auto simp: new_attempt_def split: option.splits)
    have ok: "attempt_ok x" by (rule journal_invD(3)[OF inv x(1)])
    let ?a2 = "?a1\<lparr>at_state := SCancelling\<rparr>"
    have save2: "save_attempt ?a2 db1 = Inr db2" using rest active by simp
    have wf1: "store_wf db1" and old1: "tx_attempt ?aid db1 = Some ?a1" using ev by (simp_all add: evolves_def)
    have st2: "cancel_stored db1 ?a2" using st1 by (simp add: cancel_stored_def)
    have ev2: "evolves db db2 ?aid ?a2 []"
      using frame_evolves[OF base evolves_trans[OF ev save_evolves[OF wf1 old1 _ st2 save2]]] by simp
    have sok: "stream_ok db2" using s1 save_attempt_simps[OF save2] by (blast intro: stream_ok_cong)
    have "moved cfg ANone db db2"
      using ok x active False c
      by (intro moved_existing[OF x(1) ev2 sok])
        (auto simp: attempt_ok_def intro: attempt_next.intros split: attempt_state.splits)
    moreover have "keeps_owned db db2" by (rule keeps_owned_evolves[OF ev2]) simp
    ultimately show ?thesis by blast
  qed
qed

lemma cancel_tx_moved:
  assumes inv: "journal_inv cfg db" and c: "is_cancel (body c)"
    and run: "cancel_tx cfg d subject c db = Inr (r, db')"
  shows "moved cfg ANone db db' \<and> keeps_owned db db'"
proof (cases "receipt (command_id c) db")
  case (Some x)
  then have "db' = db" using run by (auto simp: cancel_tx_def Let_def split: if_splits prod.splits)
  then show ?thesis using moved_refl[OF inv] keeps_owned_frame journal_invD(1)[OF inv] by (simp add: frame_def)
next
  case None
  note wf = journal_invD(1)[OF inv]
  let ?a = "case tx_attempt (attempt_id (target c)) db of None \<Rightarrow> new_attempt c | Some x \<Rightarrow> x"
  from run None obtain ack db1 where
      rem: "remember c (digest cfg (DCommand subject c)) ack db = Inr db1"
      and rest: "db' = db1 \<or> cancel_record cfg d c ?a db1 = Inr db'"
    by (auto simp: cancel_tx_def Let_def sbind_eq_Inr split: if_splits)
  have f: "frame db db1" and s: "stream_ok db1"
    using remember_frame[OF wf rem] remember_stream_ok[OF journal_invD(2)[OF inv] rem] by auto
  have cm: "map_option cr_command (tget (journal_commands db1) (command_id c)) = Some c"
    using remember_attempts(3)[OF wf rem, of "command_id c"] by simp
  from rest show ?thesis
  proof
    assume "db' = db1"
    then show ?thesis using f s by (simp add: moved_frame keeps_owned_frame)
  next
    assume "cancel_record cfg d c ?a db1 = Inr db'"
    then show ?thesis by (rule cancel_record_moved[OF inv f s cm c refl])
  qed
qed

lemma moved_frame_left:
  assumes f: "frame db db0" and m: "moved cfg act db0 db'"
  shows "moved cfg act db db'"
proof -
  have view: "tx_attempt k db0 = tx_attempt k db" for k using f by (simp add: frame_def)
  have "legal_move cfg act db0 = legal_move cfg act db"
    by (intro ext) (simp add: legal_move_def active_set_def view)
  then show ?thesis
    using m frame_trans[OF f] frame_evolves[OF f] unfolding moved_def by metis
qed

lemma steer_tx_moved:
  assumes inv: "journal_inv cfg db" and run: "steer_tx cfg d subject c db = Inr (r, db')"
  shows "moved cfg ANone db db' \<and> keeps_owned db db'"
proof (cases "receipt (command_id c) db")
  case (Some x)
  then have "db' = db" using run by (auto simp: steer_tx_def Let_def split: if_splits prod.splits)
  then show ?thesis using moved_refl[OF inv] keeps_owned_frame journal_invD(1)[OF inv] by (simp add: frame_def)
next
  case None
  note wf = journal_invD(1)[OF inv]
  let ?aid = "attempt_id (target c)"
  from run None consider (rem) fp ack where "remember c fp ack db = Inr db'"
    | (steer) fp db1 a where "remember c fp (accepted_ack c) db = Inr db1" "tx_attempt ?aid db = Some a"
        "steer_apply cfg d c a db1 = Inr db'"
    by (auto simp: steer_tx_def Let_def sbind_eq_Inr split: if_splits option.splits prod.splits)
  then show ?thesis
  proof cases
    case rem
    then show ?thesis
      using remember_frame[OF wf rem] remember_stream_ok[OF journal_invD(2)[OF inv] rem]
      by (simp add: moved_frame keeps_owned_frame)
  next
    case steer
    obtain cs message a1 b n a2 db2 where so: "steer_outcome c cs message a = Inr (a1, b)"
        "append cfg d b (Some a1) None None db1 = Inr (n, Some a2, db2)" "save_attempt a2 db2 = Inr db'"
      using steer(3)
      by (auto simp: steer_apply_def sbind_eq_Inr split: option.splits prod.splits command_body.splits)
    have f: "frame db db1" and s: "stream_ok db1"
      using remember_frame[OF wf steer(1)] remember_stream_ok[OF journal_invD(2)[OF inv] steer(1)] by auto
    have inv1: "journal_inv cfg db1" by (rule journal_inv_frame[OF inv f s])
    have a: "tx_attempt ?aid db1 = Some a" using f steer(2) by (simp add: frame_def)
    have b: "body_state b = None" "b \<noteq> Started" and same: "at_command a1 = at_command a" "at_state a1 = at_state a"
        "at_cancel a1 = at_cancel a" "at_launch_count a1 = at_launch_count a"
        "at_attempt_sequence a1 = at_attempt_sequence a"
        "at_executor_handle a \<noteq> None \<Longrightarrow> at_executor_handle a1 \<noteq> None"
      using so(1) by (auto simp: steer_outcome_def split: if_splits option.splits)
    note rm = report_moved[OF inv1 a same so(2,3) b]
    have "keeps_owned db db'"
      using f a rm(2,3) unfolding keeps_owned_def frame_def by (metis insertCI option.inject)
    then show ?thesis using moved_frame_left[OF f rm(1)] by blast
  qed
qed

section \<open>Progress, fencing and recovery\<close>

lemma progress_moved:
  assumes inv: "journal_inv cfg db" and run: "progress cfg d aid p db = Inr ((), db')"
  shows "moved cfg ANone db db' \<and> keeps_owned db db'"
proof -
  from run obtain a n a2 db1 where p: "tx_attempt aid db = Some a"
      "append cfg d (Progress p) (Some a) None None db = Inr (n, Some a2, db1)" "save_attempt a2 db1 = Inr db'"
    by (auto simp: progress_def sbind_eq_Inr split: option.splits if_splits)
  note rm = report_moved[OF inv p(1) refl refl refl refl refl _ p(2,3)]
  have "moved cfg ANone db db'" by (rule rm(1)) auto
  moreover have "keeps_owned db db'"
  proof -
    have "\<exists>a'. tx_attempt aid db' = Some a' \<and> at_state a' = at_state a"
        "\<forall>k. k \<noteq> aid \<longrightarrow> tx_attempt k db' = tx_attempt k db"
      by (rule rm(2); simp) (rule rm(3); simp)
    then show ?thesis unfolding keeps_owned_def using p(1) by (metis insertCI option.inject)
  qed
  ultimately show ?thesis by blast
qed

text \<open>Recording an attempt lost: legal for every attempt that is not waiting to be launched.\<close>

lemma finish_lost_moved:
  assumes inv: "journal_inv cfg db" and a: "tx_attempt aid db = Some a" "at_state a \<noteq> SRecorded"
    and out: "outcome_state out = SFailed" and fin: "finish_read cfg d aid out term db = Inr db'"
  shows "moved cfg ANone db db'" and "only_changes aid db db'"
    and "\<exists>a'. tx_attempt aid db' = Some a' \<and> terminal (at_state a')"
proof -
  have "(moved cfg ANone db db' \<and> only_changes aid db db') \<and> (\<exists>a'. tx_attempt aid db' = Some a' \<and> terminal (at_state a'))"
  proof (cases "terminal (at_state a)")
    case True
    then have "db' = db" using fin a by (simp add: finish_read_def finish_terminal)
    then show ?thesis using moved_refl[OF inv] a True by (simp add: only_changes_def)
  next
    case False
    then have s: "at_state a \<in> {SLaunching, SRunning, SCancelling}"
      using a(2) by (cases "at_state a") auto
    show ?thesis
      using finish_read_moved[OF inv a(1) _ s fin] lost_legal[OF journal_invD(3)[OF inv a(1)] s] out by auto
  qed
  then show "moved cfg ANone db db'" "only_changes aid db db'"
    "\<exists>a'. tx_attempt aid db' = Some a' \<and> terminal (at_state a')" by auto
qed

lemma lost_states [simp]:
  "outcome_state executor_lost = SFailed" "outcome_state outcome_uncertain = SFailed" "outcome_state launch_failed = SFailed"
  by (simp_all add: executor_lost_def outcome_uncertain_def launch_failed_def)

lemma resolve_moved:
  assumes inv: "journal_inv cfg db" and run: "resolve cfg d fenced aid db = Inr (x, db')"
  shows "moved cfg ANone db db'" and "only_changes aid db db'"
proof -
  from run consider "db' = db" | a where "tx_attempt aid db = Some a" "at_state a \<in> set INTERRUPTED"
      "finish_read cfg d aid outcome_uncertain Killed db = Inr db'"
    by (auto simp: resolve_def sbind_eq_Inr split: option.splits if_splits)
  then have "moved cfg ANone db db' \<and> only_changes aid db db'"
  proof cases
    case 1
    then show ?thesis using moved_refl[OF inv] by (simp add: only_changes_def)
  next
    case (2 a)
    then show ?thesis using finish_lost_moved(1,2)[OF inv 2(1) _ _ 2(3)] by (auto simp: INTERRUPTED_def)
  qed
  then show "moved cfg ANone db db'" "only_changes aid db db'" by auto
qed

lemma save_runtime_frame:
  assumes wf: "store_wf db" and sv: "save_runtime m db = Inr db'"
  shows "frame db db'"
proof -
  note eq = save_runtime_simps[OF sv]
  show ?thesis
    using store_wf_cong[OF wf eq(2-4)] tx_attempt_cong[OF eq(2,4)] att_stream_cong[OF eq(5)]
    by (simp add: frame_def)
qed

lemma save_runtime_stream_ok:
  assumes "stream_ok db" and "save_runtime m db = Inr db'"
    and "\<And>m0. journal_runtime db = Some m0 \<Longrightarrow> rr_sequence m = rr_sequence m0"
    and "journal_runtime db = None \<Longrightarrow> rr_sequence m = 0"
  shows "stream_ok db'"
  using assms(1,3,4) save_runtime_simps[OF assms(2)]
  by (cases "journal_runtime db") (auto simp: stream_ok_def)

lemma recover_begin_moved:
  assumes inv: "journal_inv cfg db" and run: "recover_begin cfg u db = Inr ((m, as), db')"
  shows "moved cfg ANone db db'" and "as = tx_attempts db'" and "frame db db'"
proof -
  from run obtain m0 where m0: "save_runtime m0 db = Inr db'" "as = tx_attempts db'"
      "rr_sequence m0 = (case tx_runtime db of None \<Rightarrow> 0 | Some x \<Rightarrow> rr_sequence x)"
    by (auto simp: recover_begin_def Let_def sbind_eq_Inr split: option.splits if_splits)
  have "stream_ok db'"
    by (rule save_runtime_stream_ok[OF journal_invD(2)[OF inv] m0(1)])
      (use m0(3) in \<open>auto simp: tx_runtime_def\<close>)
  moreover show f: "frame db db'" by (rule save_runtime_frame[OF journal_invD(1)[OF inv] m0(1)])
  ultimately show "moved cfg ANone db db'" by (simp add: moved_frame)
  show "as = tx_attempts db'" by (rule m0(2))
qed

lemma tx_attempts_current:
  assumes "store_wf db" and "a \<in> set (tx_attempts db)"
  shows "tx_attempt (attempt_id (target (at_command a))) db = Some a"
proof -
  obtain k r where "(k, r) \<in> set (journal_attempts db)" and j: "join_attempt db r = Some a"
    using assms(2) by (auto simp: tx_attempts_def map_filter_def)
  then have r: "tget (journal_attempts db) k = Some r" using store_wfD(3)[OF assms(1)] by (simp add: twf_tget)
  then have "attempt_id (target (at_command a)) = k"
    using store_wfD(5)[OF assms(1) r] j by (auto simp: attempt_row_ok_def)
  then show ?thesis using r j by (simp add: tx_attempt_def)
qed

text \<open>A snapshot read when recovery began still describes an attempt that can be fenced.\<close>

definition snapshot_ok :: "journal_db \<Rightarrow> attempt \<Rightarrow> bool" where
  "snapshot_ok db a \<longleftrightarrow> (\<exists>a'. tx_attempt (attempt_id (target (at_command a))) db = Some a'
     \<and> (at_state a \<in> set INTERRUPTED \<longrightarrow> at_state a' \<noteq> SRecorded))"

lemma recover_attempt_moved:
  assumes inv: "journal_inv cfg db" and snap: "snapshot_ok db a"
    and run: "recover_attempt cfg d fenced a db = Inr (dec, db')"
  shows "moved cfg ANone db db'" and "only_changes (attempt_id (target (at_command a))) db db'"
    and "at_state a \<in> set INTERRUPTED \<Longrightarrow>
         \<exists>a'. tx_attempt (attempt_id (target (at_command a))) db' = Some a' \<and> terminal (at_state a')"
    and "at_state a \<notin> set INTERRUPTED \<Longrightarrow> db' = db"
proof -
  let ?aid = "attempt_id (target (at_command a))"
  obtain a' where a': "tx_attempt ?aid db = Some a'" "at_state a \<in> set INTERRUPTED \<Longrightarrow> at_state a' \<noteq> SRecorded"
    using snap by (auto simp: snapshot_ok_def)
  from run consider (same) "db' = db" "at_state a \<notin> set INTERRUPTED"
    | (fence) "at_state a \<in> set INTERRUPTED" "finish_read cfg d ?aid executor_lost Killed db = Inr db'"
    by (auto simp: recover_attempt_def sbind_eq_Inr split: if_splits)
  then have "moved cfg ANone db db' \<and> only_changes ?aid db db'
      \<and> (at_state a \<in> set INTERRUPTED \<longrightarrow> (\<exists>a'. tx_attempt ?aid db' = Some a' \<and> terminal (at_state a')))
      \<and> (at_state a \<notin> set INTERRUPTED \<longrightarrow> db' = db)"
  proof cases
    case same
    then show ?thesis using moved_refl[OF inv] by (simp add: only_changes_def)
  next
    case fence
    then show ?thesis using finish_lost_moved[OF inv a'(1) a'(2)[OF fence(1)] _ fence(2)] by simp
  qed
  then show "moved cfg ANone db db'" "only_changes ?aid db db'"
    "at_state a \<in> set INTERRUPTED \<Longrightarrow> \<exists>a'. tx_attempt ?aid db' = Some a' \<and> terminal (at_state a')"
    "at_state a \<notin> set INTERRUPTED \<Longrightarrow> db' = db" by auto
qed

lemma recover_ready_moved:
  assumes inv: "journal_inv cfg db" and run: "recover_ready cfg d db = Inr (x, db')"
  shows "moved cfg ANone db db'" and "frame db db'"
proof -
  from run obtain b n att m1 db1 where app: "append cfg d b None None None db = Inr (n, att, db1)"
      and m1: "journal_runtime db1 = Some m1" and sv: "save_runtime (m1\<lparr>rr_ready_sequence := Some n\<rparr>) db1 = Inr db'"
    by (auto simp: recover_ready_def sbind_eq_Inr tx_runtime_def split: option.splits)
  obtain meta msg where e0: "journal_runtime db = Some meta" "n = rr_sequence meta + 1" "att = map_option (bump n) (None :: attempt option)"
      "journal_runtime db1 = Some (meta\<lparr>rr_sequence := n\<rparr>)"
    and e: "journal_updates db1 = journal_updates db @ [(n, \<lparr>ur_event_id = u_event_id msg,
       ur_attempt_id = map_option (attempt_id \<circ> target \<circ> at_command) (None :: attempt option), ur_wire = msg, ur_acknowledged = False\<rparr>)]"
    and "u_body msg = b" "u_sequence msg = n" "u_attempt_sequence msg = map_option at_attempt_sequence att"
    and e': "journal_commands db1 = journal_commands db" "journal_sessions db1 = journal_sessions db"
      "journal_attempts db1 = journal_attempts db"
    by (rule append_effect[OF app])
  have "frame db db1"
    using store_wf_cong[OF journal_invD(1)[OF inv] e'] tx_attempt_cong[OF e'(1,3)]
    by (simp add: frame_def att_stream_def e)
  moreover have s1: "stream_ok db1" by (rule append_stream_ok[OF journal_invD(2)[OF inv] app])
  ultimately show f: "frame db db'"
    using frame_trans save_runtime_frame[OF _ sv] by (auto simp: frame_def)
  have "stream_ok db'" by (rule save_runtime_stream_ok[OF s1 sv]) (use m1 in auto)
  then show "moved cfg ANone db db'" using f by (simp add: moved_frame)
qed

section \<open>Delivery\<close>

lemma mark_wires:
  "map (ur_wire \<circ> snd) (filter (\<lambda>(n, r). ur_attempt_id r = Some k)
       (map (\<lambda>(n, r). (n, if P n then r\<lparr>ur_acknowledged := b\<rparr> else r)) us))
   = map (ur_wire \<circ> snd) (filter (\<lambda>(n, r). ur_attempt_id r = Some k) us)"
  by (induction us) (auto split: if_splits)

lemma mark_updates_frame:
  assumes wf: "store_wf db" and sok: "stream_ok db"
    and eq: "db' = db\<lparr>journal_updates := map (\<lambda>(n, r). (n, if P n then r\<lparr>ur_acknowledged := b\<rparr> else r)) (journal_updates db)\<rparr>"
  shows "frame db db'" and "stream_ok db'"
proof -
  have "store_wf db'" using store_wf_cong[OF wf, of db'] eq by simp
  moreover have "tx_attempt k db' = tx_attempt k db" for k by (rule tx_attempt_cong) (simp_all add: eq)
  moreover have "att_stream k db' = att_stream k db" for k
    by (simp add: att_stream_def eq mark_wires)
  ultimately show "frame db db'" by (simp add: frame_def)
  have keys: "tkeys (journal_updates db') = tkeys (journal_updates db)"
    by (auto simp: tkeys_def eq case_prod_beta)
  show "stream_ok db'"
    using sok keys by (cases "journal_runtime db") (auto simp: stream_ok_def eq split: if_splits)
qed

lemma outbox_settle_moved:
  assumes inv: "journal_inv cfg db" and run: "outbox_settle n ack db = Inr (x, db')"
  shows "moved cfg ANone db db'" and "frame db db'"
proof -
  note wf = journal_invD(1)[OF inv] and sok = journal_invD(2)[OF inv]
  have ackf: "frame db (acknowledge n db)" "stream_ok (acknowledge n db)"
    and repf: "frame db (replay_from k db)" "stream_ok (replay_from k db)" for k
    using mark_updates_frame[OF wf sok, of "acknowledge n db" "\<lambda>m. m = n" True]
      mark_updates_frame[OF wf sok, of "replay_from k db" "\<lambda>m. m \<ge> k" False]
    by (simp_all add: acknowledge_def replay_from_def)
  have run_acknowledge: "journal_runtime (acknowledge n db) = journal_runtime db"
    "journal_runtime (replay_from k db) = journal_runtime db" for k
    by (simp_all add: acknowledge_def replay_from_def)
  have refl: "frame db db" using wf by (simp add: frame_def)
  obtain m0 where m0: "journal_runtime db = Some m0"
    using run by (auto simp: outbox_settle_def tx_runtime_def split: option.splits)
  obtain m db1 where db1: "db1 = db \<or> db1 = acknowledge n db \<or> (\<exists>k. db1 = replay_from k db)"
      and m: "rr_sequence m = rr_sequence m0" "save_runtime m db1 = Inr db'"
  proof (cases "ua_status ack = Committed")
    case True
    then show ?thesis
      using run m0 that[of "acknowledge n db" "if rr_ready_sequence m0 = Some n then m0\<lparr>rr_ready := True\<rparr> else m0"]
      by (auto simp: outbox_settle_def tx_runtime_def Let_def sbind_eq_Inr)
  next
    case False
    then consider k where "save_runtime m0 (replay_from k db) = Inr db'"
      | bl where "save_runtime (m0\<lparr>rr_ready := False, rr_blocked := bl\<rparr>) db = Inr db'"
      | "save_runtime m0 db = Inr db'"
      using run m0 by (auto simp: outbox_settle_def tx_runtime_def sbind_eq_Inr split: option.splits if_splits)
    then show ?thesis
    proof cases
      case 1
      then show ?thesis using that[of "replay_from k db" m0] by blast
    next
      case 2
      then show ?thesis using that[of db "m0\<lparr>rr_ready := False, rr_blocked := bl\<rparr>"] by simp
    next
      case 3
      then show ?thesis using that[of db m0] by simp
    qed
  qed
  have f1: "frame db db1" "stream_ok db1" "journal_runtime db1 = Some m0"
    using db1 ackf repf refl sok m0 run_acknowledge by auto
  show f: "frame db db'"
    by (rule frame_trans[OF f1(1) save_runtime_frame[OF _ m(2)]]) (use f1(1) in \<open>simp add: frame_def\<close>)
  have "stream_ok db'" by (rule save_runtime_stream_ok[OF f1(2) m(2)]) (use m f1 in auto)
  then show "moved cfg ANone db db'" using f by (simp add: moved_frame)
qed

end
