(* ===== verification/Daemon_Reachable.thy ===== *)
theory Daemon_Reachable
  imports Daemon_Safety
begin

text \<open>
  The invariant of every daemon the step relation reaches, by rule induction over
  \<open>daemon_run\<close>: the journal is well formed, the launches of the run are the launch counts of
  the journal, every live task owns an attempt in a state that fits its phase, and a recovery
  in progress still has snapshots it may fence. The properties of the daemon as a whole follow.
\<close>

section \<open>What a move does to one attempt\<close>

lemma moved_view:
  assumes "moved cfg act db db'"
  shows "tx_attempt k db' = tx_attempt k db \<or> (\<exists>new. tx_attempt k db' = Some new
    \<and> attempt_next (map_option at_state (tx_attempt k db)) (at_state new)
    \<and> (\<forall>x. tx_attempt k db = Some x \<longrightarrow> at_command new = at_command x
          \<and> (\<forall>c. at_cancel x = Some c \<longrightarrow> at_cancel new = Some c)))"
  using assms
proof (cases rule: moved_cases)
  case frame
  then show ?thesis by (simp add: frame_def)
next
  case (evolve aid new evs)
  then show ?thesis by (cases "k = aid") (auto simp: legal_move_def good_change_def evolves_def)
qed

lemma moved_stream: "moved cfg act db db' \<Longrightarrow> \<exists>evs. att_stream k db' = att_stream k db @ evs"
  by (erule moved_cases) (auto simp: frame_def evolves_def)

lemma attempt_next_early:
  "attempt_next (Some s) SRecorded \<Longrightarrow> s = SRecorded"
  "attempt_next (Some s) SLaunching \<Longrightarrow> s \<in> {SRecorded, SLaunching}"
  by (auto elim: attempt_next.cases)

section \<open>Attempts that have not started\<close>

definition unstarted :: "attempt option \<Rightarrow> bool" where
  "unstarted a \<longleftrightarrow> (case a of None \<Rightarrow> True | Some x \<Rightarrow> at_state x \<in> {SRecorded, SLaunching})"

definition started_ok :: "journal_db \<Rightarrow> bool" where
  "started_ok db \<longleftrightarrow> (\<forall>k. started_events (att_stream k db) \<le> (if unstarted (tx_attempt k db) then 0 else 1))"

lemma unstarted_back:
  assumes "moved cfg act db db'" and "unstarted (tx_attempt k db')"
  shows "unstarted (tx_attempt k db)"
  using moved_view[OF assms(1), of k] assms(2)
  by (auto simp: unstarted_def split: option.splits dest: attempt_next_early)

lemma started_ok_moved:
  assumes "started_ok db" and m: "moved cfg act db db'"
    and st: "\<And>k. act = AStart k \<Longrightarrow> started_events (att_stream k db) = 0 \<and> \<not> unstarted (tx_attempt k db')"
  shows "started_ok db'"
  unfolding started_ok_def
proof
  fix k
  have le: "started_events (att_stream k db) \<le> (if unstarted (tx_attempt k db) then 0 else 1)"
    using assms(1) by (simp add: started_ok_def)
  show "started_events (att_stream k db') \<le> (if unstarted (tx_attempt k db') then 0 else 1)"
    using le st[of k] unstarted_back[OF m, of k] moved_started[OF m, of k]
    by (cases "act = AStart k") (auto split: if_splits)
qed

section \<open>Live tasks and recovery snapshots\<close>

definition task_ok :: "journal_db \<Rightarrow> string \<Rightarrow> task_phase \<Rightarrow> bool" where
  "task_ok db aid p \<longleftrightarrow> (\<exists>a. tx_attempt aid db = Some a \<and>
     (case p of PLaunch _ \<Rightarrow> at_state a \<in> {SLaunching, SCancelling} \<and> started_events (att_stream aid db) = 0
      | PWait _ \<Rightarrow> at_state a \<in> {SRunning, SCancelling}))"

lemma task_ok_owned:
  assumes "task_ok db aid p" and "moved cfg ANone db db' \<and> keeps_owned db db'"
  shows "task_ok db' aid p"
proof -
  obtain a where a: "tx_attempt aid db = Some a" "at_state a \<in> set INTERRUPTED"
    using assms(1) by (cases p) (auto simp: task_ok_def INTERRUPTED_def)
  then obtain a' where "tx_attempt aid db' = Some a'" "at_state a' \<in> {at_state a, SCancelling}"
    using assms(2) unfolding keeps_owned_def by blast
  then show ?thesis
    using assms a moved_started[of cfg ANone db db' aid] by (cases p) (auto simp: task_ok_def)
qed

lemma task_ok_only:
  "task_ok db aid p \<Longrightarrow> only_changes k db db' \<Longrightarrow> aid \<noteq> k \<Longrightarrow> task_ok db' aid p"
  by (cases p) (simp_all add: task_ok_def only_changes_def)

definition tasks_ok :: "daemon \<Rightarrow> bool" where
  "tasks_ok s \<longleftrightarrow> (\<forall>aid p. tget (d_tasks s) aid = Some p \<longrightarrow> task_ok (d_db s) aid p)"

lemma snapshot_ok_moved:
  assumes "moved cfg act db db'" and "snapshot_ok db a"
  shows "snapshot_ok db' a"
proof -
  let ?aid = "attempt_id (target (at_command a))"
  obtain x where x: "tx_attempt ?aid db = Some x" "at_state a \<in> set INTERRUPTED \<longrightarrow> at_state x \<noteq> SRecorded"
    using assms(2) by (auto simp: snapshot_ok_def)
  then show ?thesis
    using moved_view[OF assms(1), of ?aid] attempt_next_early(1) by (fastforce simp: snapshot_ok_def)
qed

definition boot_ok :: "daemon \<Rightarrow> bool" where
  "boot_ok s \<longleftrightarrow> (case d_boot s of Up \<Rightarrow> True | Down \<Rightarrow> d_tasks s = []
     | Recovering as \<Rightarrow> d_tasks s = [] \<and> (\<forall>a \<in> set as. snapshot_ok (d_db s) a))"

definition launch_counts :: "label list \<Rightarrow> journal_db \<Rightarrow> bool" where
  "launch_counts ls db \<longleftrightarrow> (\<forall>aid. count_list ls (LLaunch aid) = launches (tx_attempt aid db))"

definition daemon_inv :: "journal_cfg \<Rightarrow> label list \<Rightarrow> daemon \<Rightarrow> bool" where
  "daemon_inv cfg ls s \<longleftrightarrow> journal_inv cfg (d_db s) \<and> launch_counts ls (d_db s) \<and> started_ok (d_db s)
     \<and> tasks_ok s \<and> boot_ok s"

text \<open>The label that records a move: only the worker's claim of an attempt launches it.\<close>

definition label_of :: "act \<Rightarrow> label" where
  "label_of act = (case act of ALaunch aid \<Rightarrow> LLaunch aid | _ \<Rightarrow> LOther)"

lemma daemon_inv_moved:
  assumes "daemon_inv cfg ls s" and m: "moved cfg act (d_db s) db'"
    and "\<And>k. act = AStart k \<Longrightarrow> started_events (att_stream k (d_db s)) = 0 \<and> \<not> unstarted (tx_attempt k db')"
    and "d_db t = db'" and "l = label_of act" and "tasks_ok t" and "boot_ok t"
  shows "daemon_inv cfg (ls @ [l]) t"
proof -
  have "launch_counts (ls @ [l]) db'"
    using assms(1,5) moved_launches[OF m]
    by (auto simp: daemon_inv_def launch_counts_def label_of_def split: act.splits)
  then show ?thesis
    using assms journal_inv_moved[OF _ m] started_ok_moved[OF _ m] by (simp add: daemon_inv_def)
qed

section \<open>The invariant is kept by every step\<close>

lemma execute_moved:
  assumes "journal_inv cfg db" and "is_execute (body c)" and "execute cfg subject c db = (r, db')"
  shows "moved cfg ANone db db' \<and> keeps_owned db db'"
proof -
  from assms(3) consider "db' = db" | x where "execute_tx cfg subject c db = Inr (x, db')"
    by (auto simp: execute_def run_tx_def split: option.splits sum.splits)
  then show ?thesis
    using execute_tx_moved[OF assms(1,2)] moved_refl[OF assms(1)] by cases (auto simp: keeps_owned_def)
qed

lemma cancel_moved:
  assumes "journal_inv cfg db" and "is_cancel (body c)" and "cancel cfg d subject c db = (r, db')"
  shows "moved cfg ANone db db' \<and> keeps_owned db db'"
proof -
  from assms(3) consider "db' = db" | x where "cancel_tx cfg d subject c db = Inr (x, db')"
    by (auto simp: cancel_def run_tx_def split: option.splits sum.splits)
  then show ?thesis
    using cancel_tx_moved[OF assms(1,2)] moved_refl[OF assms(1)] by cases (auto simp: keeps_owned_def)
qed

lemma steer_moved:
  assumes "journal_inv cfg db" and "steer cfg d subject c db = (r, db')"
  shows "moved cfg ANone db db' \<and> keeps_owned db db'"
proof -
  from assms(2) consider "db' = db" | x where "steer_tx cfg d subject c db = Inr (x, db')"
    by (auto simp: steer_def run_tx_def split: option.splits sum.splits)
  then show ?thesis
    using steer_tx_moved[OF assms(1)] moved_refl[OF assms(1)] by cases (auto simp: keeps_owned_def)
qed

text \<open>Steps that serve: the tasks stay, and none of them loses its attempt.\<close>

lemma daemon_inv_serving:
  assumes inv: "daemon_inv cfg ls s" and up: "d_boot s = Up"
    and m: "moved cfg ANone (d_db s) db' \<and> keeps_owned (d_db s) db'"
    and t: "d_db t = db'" "d_tasks t = d_tasks s" "d_boot t = Up"
  shows "daemon_inv cfg (ls @ [LOther]) t"
proof (rule daemon_inv_moved[OF inv m[THEN conjunct1] _ t(1)])
  show "tasks_ok t"
    using inv t task_ok_owned[OF _ m] by (auto simp: tasks_ok_def daemon_inv_def)
  show "boot_ok t" using t by (simp add: boot_ok_def)
qed (simp_all add: label_of_def)

text \<open>Steps of the task of one attempt: the other tasks are not affected.\<close>

lemma daemon_inv_task:
  assumes inv: "daemon_inv cfg ls s" and up: "d_boot s = Up"
    and m: "moved cfg act (d_db s) db'" and only: "only_changes aid (d_db s) db'"
    and st: "\<And>k. act = AStart k \<Longrightarrow> started_events (att_stream k (d_db s)) = 0 \<and> \<not> unstarted (tx_attempt k db')"
    and t: "d_db t = db'" "d_boot t = Up" "l = label_of act"
    and other: "\<And>k. k \<noteq> aid \<Longrightarrow> tget (d_tasks t) k = tget (d_tasks s) k"
    and own: "\<And>p. tget (d_tasks t) aid = Some p \<Longrightarrow> task_ok db' aid p"
  shows "daemon_inv cfg (ls @ [l]) t"
proof (rule daemon_inv_moved[OF inv m _ t(1,3)])
  show "tasks_ok t"
    unfolding tasks_ok_def t(1)
  proof (intro allI impI)
    fix k p
    assume p: "tget (d_tasks t) k = Some p"
    show "task_ok db' k p"
    proof (cases "k = aid")
      case True
      then show ?thesis using own p by simp
    next
      case False
      then have "task_ok (d_db s) k p" using inv p other by (simp add: daemon_inv_def tasks_ok_def)
      then show ?thesis by (rule task_ok_only[OF _ only False])
    qed
  qed
  show "boot_ok t" using t by (simp add: boot_ok_def)
qed (use st in auto)


lemma claim_inv:
  assumes inv: "daemon_inv cfg ls s" and up: "d_boot s = Up"
    and run: "run_claim cfg plan aid (d_db s) = Inr (Some h, db)"
  shows "daemon_inv cfg (ls @ [LLaunch aid]) (s\<lparr>d_db := db, d_tasks := tput aid (PLaunch h) (d_tasks s)\<rparr>)"
proof -
  have j: "journal_inv cfg (d_db s)" and so: "started_ok (d_db s)" using inv by (simp_all add: daemon_inv_def)
  note rc = run_claim_moved[OF j run]
  obtain a where a: "tx_attempt aid (d_db s) = Some a" "at_state a = SRecorded" using rc(3) by blast
  have "unstarted (tx_attempt aid (d_db s))" using a by (simp add: unstarted_def)
  then have z: "started_events (att_stream aid (d_db s)) = 0" using so unfolding started_ok_def by (metis le_zero_eq)
  show ?thesis
    by (rule daemon_inv_task[OF inv up rc(1) moved_only])
      (use rc z up in \<open>auto simp: label_of_def task_ok_def\<close>)
qed

lemma ended_inv:
  assumes inv: "daemon_inv cfg ls s" and up: "d_boot s = Up" and task: "tget (d_tasks s) aid = Some p"
    and a: "tx_attempt aid (d_db s) = Some a" "at_state a \<in> {SLaunching, SRunning, SCancelling}"
    and out: "at_cancel a = None \<Longrightarrow> attempt_next (Some (at_state a)) (outcome_state out)"
    and run: "finish_read cfg d aid out term (d_db s) = Inr db"
  shows "daemon_inv cfg (ls @ [LOther]) (s\<lparr>d_db := db, d_tasks := tdel aid (d_tasks s)\<rparr>)"
proof -
  have j: "journal_inv cfg (d_db s)" using inv by (simp add: daemon_inv_def)
  note fm = finish_read_moved[OF j a(1) out a(2) run]
  show ?thesis
    by (rule daemon_inv_task[OF inv up]) (use fm up in \<open>auto simp: label_of_def\<close>)
qed

lemma start_inv:
  assumes inv: "daemon_inv cfg ls s" and up: "d_boot s = Up" and task: "tget (d_tasks s) aid = Some (PLaunch h)"
    and run: "run_started cfg d h conv aid (d_db s) = Inr db"
  shows "daemon_inv cfg (ls @ [LOther]) (s\<lparr>d_db := db, d_tasks := tput aid (PWait h) (d_tasks s)\<rparr>)"
proof -
  have j: "journal_inv cfg (d_db s)" using inv by (simp add: daemon_inv_def)
  have "task_ok (d_db s) aid (PLaunch h)" using inv task by (simp add: daemon_inv_def tasks_ok_def)
  then obtain a where a: "tx_attempt aid (d_db s) = Some a" "at_state a \<in> {SLaunching, SCancelling}"
      and z: "started_events (att_stream aid (d_db s)) = 0"
    by (auto simp: task_ok_def)
  note rs = run_started_moved[OF j a run]
  obtain a' where a': "tx_attempt aid db = Some a'" "at_state a' \<in> {SRunning, SCancelling}" using rs(2) by blast
  then have "\<not> unstarted (tx_attempt aid db)" by (auto simp: unstarted_def)
  with z a' rs(1) show ?thesis
    by (intro daemon_inv_task[OF inv up rs(1) moved_only]) (auto simp: label_of_def task_ok_def up)
qed

lemma recovering_inv:
  assumes inv: "daemon_inv cfg ls s" and m: "moved cfg ANone (d_db s) db'"
    and t: "d_db t = db'" "d_tasks t = []" "boot_ok t"
  shows "daemon_inv cfg (ls @ [LOther]) t"
  by (rule daemon_inv_moved[OF inv m _ t(1)]) (use t in \<open>simp_all add: label_of_def tasks_ok_def\<close>)

lemma boot_inv:
  assumes inv: "daemon_inv cfg ls s" and run: "recover_begin cfg u (d_db s) = Inr ((m, as), db)"
  shows "daemon_inv cfg (ls @ [LOther]) (s\<lparr>d_db := db, d_tasks := [], d_boot := Recovering as\<rparr>)"
proof -
  have j: "journal_inv cfg (d_db s)" using inv by (simp add: daemon_inv_def)
  note rb = recover_begin_moved[OF j run]
  have wf: "store_wf db" using rb(3) by (simp add: frame_def)
  have "snapshot_ok db a" if "a \<in> set as" for a
    using tx_attempts_current[OF wf] that rb(2) by (auto simp: snapshot_ok_def INTERRUPTED_def)
  then show ?thesis by (intro recovering_inv[OF inv rb(1)]) (simp_all add: boot_ok_def)
qed

lemma fence_inv:
  assumes inv: "daemon_inv cfg ls s" and b: "d_boot s = Recovering (a # as)"
    and run: "recover_attempt cfg d fenced a (d_db s) = Inr (dec, db)"
  shows "daemon_inv cfg (ls @ [LOther]) (s\<lparr>d_db := db, d_boot := Recovering as\<rparr>)"
proof -
  have j: "journal_inv cfg (d_db s)" and snap: "\<forall>x \<in> set (a # as). snapshot_ok (d_db s) x" "d_tasks s = []"
    using inv b by (simp_all add: daemon_inv_def boot_ok_def)
  have m: "moved cfg ANone (d_db s) db" using recover_attempt_moved(1)[OF j _ run] snap by simp
  then show ?thesis
    using snap snapshot_ok_moved[OF m] by (intro recovering_inv[OF inv m]) (simp_all add: boot_ok_def)
qed

lemma same_db_inv:
  assumes inv: "daemon_inv cfg ls s" and t: "d_db t = d_db s" "boot_ok t"
    and tasks: "\<And>k p. tget (d_tasks t) k = Some p \<Longrightarrow> tget (d_tasks s) k = Some p"
  shows "daemon_inv cfg (ls @ [LOther]) t"
proof (rule daemon_inv_moved[OF inv moved_refl _ t(1)])
  show "tasks_ok t" using inv t tasks by (auto simp: daemon_inv_def tasks_ok_def)
qed (use inv t in \<open>auto simp: daemon_inv_def label_of_def\<close>)

lemma task_attempt:
  assumes "daemon_inv cfg ls s" and "tget (d_tasks s) aid = Some p"
  obtains a where "tx_attempt aid (d_db s) = Some a" "at_state a \<in> {SLaunching, SRunning, SCancelling}"
    "at_cancel a = None \<longrightarrow> at_state a = (case p of PLaunch _ \<Rightarrow> SLaunching | PWait _ \<Rightarrow> SRunning)"
proof -
  have "task_ok (d_db s) aid p" using assms by (simp add: daemon_inv_def tasks_ok_def)
  then obtain a where a: "tx_attempt aid (d_db s) = Some a" "at_state a \<in> {SLaunching, SRunning, SCancelling}"
      "at_state a \<noteq> SCancelling \<longrightarrow> at_state a = (case p of PLaunch _ \<Rightarrow> SLaunching | PWait _ \<Rightarrow> SRunning)"
    by (cases p) (auto simp: task_ok_def)
  moreover have "attempt_ok a" using assms(1) a(1) journal_invD(3) by (auto simp: daemon_inv_def)
  ultimately show ?thesis by (intro that[of a]) (auto simp: attempt_ok_def)
qed

lemma daemon_inv_step:
  assumes inv: "daemon_inv cfg ls s" and step: "daemon_step cfg s l t"
  shows "daemon_inv cfg (ls @ [l]) t"
proof -
  have j: "journal_inv cfg (d_db s)" using inv by (simp add: daemon_inv_def)
  from step show ?thesis
  proof cases
    case (boot u m as db)
    then show ?thesis using boot_inv[OF inv] by simp
  next
    case (fence a as d fenced dec db)
    then show ?thesis using fence_inv[OF inv] by simp
  next
    case (serve d x db)
    have "d_tasks s = []" using inv serve(3) by (simp add: daemon_inv_def boot_ok_def)
    then show ?thesis
      using serve recovering_inv[OF inv recover_ready_moved(1)[OF j serve(4)], of t] by (simp add: boot_ok_def)
  next
    case crash
    show ?thesis unfolding crash by (rule same_db_inv[OF inv]) (simp_all add: boot_ok_def)
  next
    case (recv_execute c subject r db)
    then show ?thesis using daemon_inv_serving[OF inv _ execute_moved[OF j]] by simp
  next
    case (recv_cancel c d subject r db)
    then show ?thesis using daemon_inv_serving[OF inv _ cancel_moved[OF j]] by simp
  next
    case (recv_steer c d subject r db)
    then show ?thesis using daemon_inv_serving[OF inv _ steer_moved[OF j]] by simp
  next
    case (launch aid plan h db)
    then show ?thesis using claim_inv[OF inv] by simp
  next
    case (launch_fails aid h d "term" db)
    obtain a where a: "tx_attempt aid (d_db s) = Some a" "at_state a \<in> {SLaunching, SRunning, SCancelling}"
        "at_cancel a = None \<longrightarrow> at_state a = SLaunching"
      using task_attempt[OF inv launch_fails(4)] by auto
    show ?thesis unfolding launch_fails(1,2)
      by (rule ended_inv[OF inv launch_fails(3,4) a(1,2) _ launch_fails(5)[unfolded run_launch_failed_def]])
        (use a in \<open>simp add: attempt_next.intros\<close>)
  next
    case (start aid h d conv db)
    then show ?thesis using start_inv[OF inv] by simp
  next
    case (report aid h d p db)
    then show ?thesis using daemon_inv_serving[OF inv _ progress_moved[OF j]] by simp
  next
    case (finished aid h out d "term" db)
    obtain a where a: "tx_attempt aid (d_db s) = Some a" "at_state a \<in> {SLaunching, SRunning, SCancelling}"
        "at_cancel a = None \<longrightarrow> at_state a = SRunning"
      using task_attempt[OF inv finished(4)] by auto
    show ?thesis unfolding finished(1,2)
      by (rule ended_inv[OF inv finished(3,4) a(1,2) _ finished(6)[unfolded run_finished_def]])
        (use a finished(5) in \<open>auto simp: attempt_next.intros\<close>)
  next
    case (task_lost aid)
    show ?thesis unfolding task_lost(1,2)
      by (rule same_db_inv[OF inv]) (use task_lost in \<open>simp_all add: boot_ok_def split: if_splits\<close>)
  next
    case (fence_orphan aid d fenced x db)
    show ?thesis unfolding fence_orphan(1,2)
      by (rule daemon_inv_task[OF inv fence_orphan(3) resolve_moved[OF j fence_orphan(5)]])
        (use fence_orphan in \<open>simp_all add: label_of_def\<close>)
  next
    case (send n wire)
    show ?thesis unfolding send(1,2) by (rule same_db_inv[OF inv]) (use send in \<open>simp_all add: boot_ok_def\<close>)
  next
    case send_fails
    show ?thesis unfolding send_fails
      by (rule same_db_inv[OF inv]) (use inv in \<open>simp_all add: boot_ok_def daemon_inv_def split: boot_phase.splits\<close>)
  next
    case (deliver n wire ack x db)
    show ?thesis unfolding deliver(1,2)
      by (rule daemon_inv_serving[OF inv deliver(3)])
        (use outbox_settle_moved[OF j deliver(6)] keeps_owned_frame deliver in simp_all)
  qed
qed

lemma daemon_inv_init: "daemon_inv cfg [] initial_daemon"
  by (auto simp: daemon_inv_def initial_daemon_def empty_journal_def journal_inv_def store_wf_def stream_ok_def
      tx_attempt_def session_unique_def active_set_def stream_of_attempt_ok_def att_stream_def attempt_seq_def
      launch_counts_def launches_def started_ok_def tasks_ok_def boot_ok_def)

theorem daemon_run_inv: "daemon_run cfg ls s \<Longrightarrow> daemon_inv cfg ls s"
  by (induction rule: daemon_run.induct) (auto intro: daemon_inv_init daemon_inv_step)

end
