(* ===== verification/Idempotent.thy ===== *)
theory Idempotent
  imports Prelude
begin

text \<open>
  \<open>idempotent_receiver\<close> is the contract of a handler that stores its reply in the transaction of
  its effects: a request that changed anything is answered with the same reply and no further
  effect, however much happens in between. Both services of the runtime protocol promise it: the
  daemon's execute, cancel and steer, and the virtual control plane's public commands.
\<close>

locale idempotent_receiver =
  fixes handle :: "'d \<Rightarrow> 'q \<Rightarrow> 's \<Rightarrow> ('e + 'r) \<times> 's"
    and stored :: "'q \<Rightarrow> 's \<Rightarrow> 'r option"
    and keeps :: "'s \<Rightarrow> 's \<Rightarrow> bool"
  assumes replay: "stored q s = Some r \<Longrightarrow> handle d q s = (Inr r, s)"
    and commit: "handle d q s = (Inr r, s') \<Longrightarrow> s' = s \<or> stored q s' = Some r"
    and rollback: "handle d q s = (Inl e, s') \<Longrightarrow> s' = s"
    and kept: "keeps s s' \<Longrightarrow> stored q s = Some r \<Longrightarrow> stored q s' = Some r"
begin

lemma redelivered:
  assumes "handle d q s = (Inr r, s1)" and "s1 \<noteq> s" and "keeps s1 s2"
  shows "handle d' q s2 = (Inr r, s2)"
proof -
  have "stored q s1 = Some r" using commit[OF assms(1)] assms(2) by blast
  then show ?thesis by (rule replay[OF kept[OF assms(3)]])
qed

lemma changed_once: "handle d q s = (r, s1) \<Longrightarrow> s1 \<noteq> s \<Longrightarrow> \<exists>x. r = Inr x \<and> stored q s1 = Some x"
  using rollback commit by (cases r) blast+

end

end
