(* ===== verification/Daemon_Receipts.thy ===== *)
theory Daemon_Receipts
  imports Daemon_Reachable Idempotent
begin

text \<open>
  Redelivered commands at the daemon: execute, cancel and steer are idempotent receivers
  (\<open>Idempotent\<close>); every step of the daemon, crashes included, keeps the receipts.
\<close>

section \<open>Receipts are never lost\<close>

definition receipts_kept :: "journal_db \<Rightarrow> journal_db \<Rightarrow> bool" where
  "receipts_kept db db' \<longleftrightarrow> (\<forall>cid x. receipt cid db = Some x \<longrightarrow> receipt cid db' = Some x)"

lemma receipts_kept_refl [simp]: "receipts_kept db db"
  by (simp add: receipts_kept_def)

lemma receipts_kept_trans: "receipts_kept db db1 \<Longrightarrow> receipts_kept db1 db2 \<Longrightarrow> receipts_kept db db2"
  by (simp add: receipts_kept_def)

lemma same_commands_kept: "journal_commands db' = journal_commands db \<Longrightarrow> receipts_kept db db'"
  by (simp add: receipts_kept_def receipt_def)

lemma remember_kept: "remember c d r db = Inr db' \<Longrightarrow> receipts_kept db db'"
  using remember_simps(5,6)[of c d r db db']
  by (auto simp: receipts_kept_def receipt_def split: option.splits)

lemma append_commands: "append cfg d b att term cc db = Inr (n, att', db') \<Longrightarrow> journal_commands db' = journal_commands db"
  by (erule append_effect)

lemma save_attempt_commands: "save_attempt a db = Inr db' \<Longrightarrow> journal_commands db' = journal_commands db"
  by (rule save_attempt_simps(2))

lemma save_runtime_commands: "save_runtime m db = Inr db' \<Longrightarrow> journal_commands db' = journal_commands db"
  by (rule save_runtime_simps(2))

lemma open_session_commands: "open_session sid cid db = Inr db' \<Longrightarrow> journal_commands db' = journal_commands db"
  by (rule open_session_simps(2))

lemma marked_commands [simp]:
  "journal_commands (acknowledge n db) = journal_commands db" "journal_commands (replay_from n db) = journal_commands db"
  "journal_commands (save_conversation sid conv db) = journal_commands db"
  by (auto simp: acknowledge_def replay_from_def save_conversation_def save_executor_session_def split: option.splits)

lemmas write_commands = append_commands save_attempt_commands save_runtime_commands open_session_commands

lemma finish_commands: "finish cfg d a out term db = Inr db' \<Longrightarrow> journal_commands db' = journal_commands db"
  by (auto simp: finish_def sbind_eq_Inr split: if_splits option.splits dest!: write_commands)

lemma finish_read_commands: "finish_read cfg d aid out term db = Inr db' \<Longrightarrow> journal_commands db' = journal_commands db"
  by (auto simp: finish_read_def split: option.splits dest: finish_commands)

section \<open>The three outcomes of a handler\<close>

text \<open>The replies a handler stores: built for the command, with an error whose flag its code implies.\<close>

definition ack_for :: "runtime_command \<Rightarrow> command_ack \<Rightarrow> bool" where
  "ack_for c r \<longleftrightarrow> ack_canonical r \<and> ack_command_id r = command_id c \<and> ack_target r = target c"

lemma ack_for_made [simp]: "ack_for c (accepted_ack c)" "ack_for c (rejected_ack c (error code msg))"
  by (simp_all add: ack_for_def accepted_ack_def rejected_ack_def ack_canonical_def)

lemma execute_detail_made: "execute_detail cfg p ex session = Some e \<Longrightarrow> \<exists>code msg. e = error code msg"
  by (auto simp: execute_detail_def split: option.splits if_splits)

lemma steer_detail_made: "steer_detail cfg c att = Inr (Some e) \<Longrightarrow> \<exists>code msg. e = error code msg"
  by (auto simp: steer_detail_def sbind_eq_Inr split: option.splits if_splits)

text \<open>
  A handler returned: it replied from the journal or refused without a trace, or it stored the
  reply and wrote to the other tables only.
\<close>

definition answered :: "journal_cfg \<Rightarrow> string \<Rightarrow> runtime_command \<Rightarrow> command_ack \<Rightarrow> journal_db \<Rightarrow> journal_db \<Rightarrow> bool" where
  "answered cfg subject c r db db' \<longleftrightarrow> db' = db \<or> (\<exists>db1. ack_for c r
     \<and> remember c (digest cfg (DCommand subject c)) r db = Inr db1 \<and> journal_commands db' = journal_commands db1)"

lemma answered_remember:
  "remember c (digest cfg (DCommand subject c)) r db = Inr db1 \<Longrightarrow> ack_for c r \<Longrightarrow>
   journal_commands db' = journal_commands db1 \<Longrightarrow> answered cfg subject c r db db'"
  by (auto simp: answered_def)

lemma answered_same [simp]: "answered cfg subject c r db db"
  by (simp add: answered_def)

lemma answered_kept: "answered cfg subject c r db db' \<Longrightarrow> receipts_kept db db'"
  by (auto simp: answered_def dest!: remember_kept same_commands_kept intro: receipts_kept_trans)

lemma answered_receipt:
  assumes "answered cfg subject c r db db'" and "db' \<noteq> db"
  shows "receipt (command_id c) db' = Some (digest cfg (DCommand subject c), r)"
proof -
  from assms obtain db1 where "ack_for c r" "remember c (digest cfg (DCommand subject c)) r db = Inr db1"
      "journal_commands db' = journal_commands db1"
    by (auto simp: answered_def)
  then show ?thesis using remember_receipt[of c _ r db db1] receipt_cong[of db' db1] by (simp add: ack_for_def)
qed

lemma answered_accepted:
  "remember c (digest cfg (DCommand subject c)) (accepted_ack c) db = Inr db' \<Longrightarrow>
   answered cfg subject c (accepted_ack c) db db'"
  by (simp add: answered_remember)

lemma answered_rejected:
  "remember c (digest cfg (DCommand subject c)) (rejected_ack c e) db = Inr db' \<Longrightarrow> \<exists>code msg. e = error code msg \<Longrightarrow>
   answered cfg subject c (rejected_ack c e) db db'"
  by (auto intro: answered_remember)

lemma answered_new:
  assumes "remember c (digest cfg (DCommand subject c)) (accepted_ack c) db = Inr db1"
    and "ensure_session session c db1 = Inr db2" and "save_attempt a db2 = Inr db'"
  shows "answered cfg subject c (accepted_ack c) db db'"
proof -
  have "journal_commands db2 = journal_commands db1"
    using assms(2) open_session_commands by (auto simp: ensure_session_def split: if_splits)
  then show ?thesis using save_attempt_commands[OF assms(3)] by (intro answered_remember[OF assms(1)]) simp_all
qed

lemma execute_tx_answered:
  assumes run: "execute_tx cfg subject c db = Inr (r, db')"
  shows "answered cfg subject c r db db'"
proof (cases "receipt (command_id c) db")
  case (Some x)
  then have "db' = db" using run by (auto simp: execute_tx_def Let_def split: if_splits prod.splits)
  then show ?thesis by simp
next
  case None
  then show ?thesis using run
    by (auto simp: execute_tx_def Let_def sbind_eq_Inr split: if_splits option.split_asm command_body.split_asm
        intro: answered_accepted answered_new answered_rejected execute_detail_made)
qed

lemma cancel_record_commands: "cancel_record cfg d c a db = Inr db' \<Longrightarrow> journal_commands db' = journal_commands db"
  by (auto simp: cancel_record_def Let_def sbind_eq_Inr split: if_splits dest!: finish_commands write_commands)

lemma cancel_tx_answered:
  assumes run: "cancel_tx cfg d subject c db = Inr (r, db')"
  shows "answered cfg subject c r db db'"
proof (cases "receipt (command_id c) db")
  case (Some x)
  then have "db' = db" using run by (auto simp: cancel_tx_def Let_def split: if_splits prod.splits)
  then show ?thesis by simp
next
  case None
  define ex where "ex = receipt (exec_command_id (execution_of c)) db"
  define att where "att = tx_attempt (attempt_id (target c)) db"
  define response where "response = (if cancel_conflict c ex att
    then rejected_ack c (error ATTEMPT_CONFLICT ''cancel names another execution'') else accepted_ack c)"
  have "cancel_tx cfg d subject c db = sbind (remember c (digest cfg (DCommand subject c)) response db) (\<lambda>db1.
      if ack_status response = Rejected \<or> (case ex of None \<Rightarrow> False | Some (_, r) \<Rightarrow> ack_status r = Rejected)
      then Inr (response, db1)
      else sbind (cancel_record cfg d c (case att of None \<Rightarrow> new_attempt c | Some a \<Rightarrow> a) db1)
             (\<lambda>db2. Inr (response, db2)))"
    by (simp only: cancel_tx_def Let_def ex_def att_def response_def None option.case)
  with run obtain db1 where "r = response" "remember c (digest cfg (DCommand subject c)) response db = Inr db1"
      "db' = db1 \<or> cancel_record cfg d c (case att of None \<Rightarrow> new_attempt c | Some a \<Rightarrow> a) db1 = Inr db'"
    by (auto simp: sbind_eq_Inr split: if_splits)
  moreover have "ack_for c response" by (simp add: response_def)
  ultimately show ?thesis
    using cancel_record_commands[of cfg d c _ db1 db'] by (auto intro: answered_remember)
qed

lemma steer_apply_commands: "steer_apply cfg d c a db = Inr db' \<Longrightarrow> journal_commands db' = journal_commands db"
  by (auto simp: steer_apply_def sbind_eq_Inr split: option.splits prod.splits command_body.splits dest!: write_commands)

lemma answered_steered:
  assumes "remember c (digest cfg (DCommand subject c)) (accepted_ack c) db = Inr db1" and "steer_apply cfg d c a db1 = Inr db'"
  shows "answered cfg subject c (accepted_ack c) db db'"
  using steer_apply_commands[OF assms(2)] by (intro answered_remember[OF assms(1)]) simp_all

lemma steer_tx_answered:
  assumes run: "steer_tx cfg d subject c db = Inr (r, db')"
  shows "answered cfg subject c r db db'"
proof (cases "receipt (command_id c) db")
  case (Some x)
  then have "db' = db" using run by (auto simp: steer_tx_def Let_def split: if_splits prod.splits)
  then show ?thesis by simp
next
  case None
  then show ?thesis using run
    by (auto simp: steer_tx_def Let_def sbind_eq_Inr split: if_splits option.split_asm
        intro: answered_rejected steer_detail_made answered_steered)
qed

lemma worker_commands:
  "run_claim cfg plan aid db = Inr (h, db1) \<Longrightarrow> journal_commands db1 = journal_commands db"
  "run_started cfg d hnd conv aid db = Inr db2 \<Longrightarrow> journal_commands db2 = journal_commands db"
  "resolve cfg d fenced aid db = Inr (b, db3) \<Longrightarrow> journal_commands db3 = journal_commands db"
  by (auto simp: run_claim_def run_started_def resolve_def Let_def sbind_eq_Inr
      split: option.splits if_splits dest!: write_commands finish_read_commands)

lemma progress_commands:
  assumes "progress cfg d aid p db = Inr (u, db')"
  shows "journal_commands db' = journal_commands db"
proof -
  from assms obtain a n a2 db1 where "tx_attempt aid db = Some a"
      "append cfg d (Progress p) (Some a) None None db = Inr (n, Some a2, db1)" "save_attempt a2 db1 = Inr db'"
    by (auto simp: progress_def sbind_eq_Inr split: option.splits if_splits)
  then show ?thesis using append_commands save_attempt_commands by metis
qed

lemma outbox_commands: "outbox_settle n ack db = Inr (x, db') \<Longrightarrow> journal_commands db' = journal_commands db"
  by (auto simp: outbox_settle_def Let_def sbind_eq_Inr split: option.splits if_splits dest!: write_commands)

lemma recovery_commands:
  "recover_begin cfg u db = Inr (m, db1) \<Longrightarrow> journal_commands db1 = journal_commands db"
  "recover_attempt cfg d fenced a db = Inr (dec, db2) \<Longrightarrow> journal_commands db2 = journal_commands db"
  "recover_ready cfg d db = Inr (x, db3) \<Longrightarrow> journal_commands db3 = journal_commands db"
  by (auto simp: recover_begin_def recover_attempt_def recover_ready_def Let_def sbind_eq_Inr
      split: option.splits if_splits dest!: write_commands finish_read_commands)

lemma handler_kept:
  "execute cfg subject c db = (r, db') \<Longrightarrow> receipts_kept db db'"
  "cancel cfg d subject c db = (r, db') \<Longrightarrow> receipts_kept db db'"
  "steer cfg d subject c db = (r, db') \<Longrightarrow> receipts_kept db db'"
  by (auto simp: execute_def cancel_def steer_def run_tx_def split: option.splits sum.splits
      dest!: execute_tx_answered cancel_tx_answered steer_tx_answered intro: answered_kept)

lemma daemon_step_kept: "daemon_step cfg s l t \<Longrightarrow> receipts_kept (d_db s) (d_db t)"
  by (induction rule: daemon_step.induct)
    (auto simp: run_launch_failed_def run_finished_def dest: handler_kept
      dest!: worker_commands progress_commands outbox_commands recovery_commands finish_read_commands same_commands_kept)

section \<open>The daemon's handlers are idempotent receivers\<close>

text \<open>The reply on record for exactly this request: same identity, binding and content.\<close>

definition stored_reply :: "journal_cfg \<Rightarrow> string \<Rightarrow> string \<times> runtime_command \<Rightarrow> journal_db \<Rightarrow> command_ack option" where
  "stored_reply cfg action q db = (case q of (subject, c) \<Rightarrow>
     (case (mismatch (binding cfg) subject (target c) action, receipt (command_id c) db) of
        (None, Some (d, r)) \<Rightarrow> if d = digest cfg (DCommand subject c) then Some r else None
      | _ \<Rightarrow> None))"

lemma stored_replyD:
  assumes "stored_reply cfg action (subject, c) db = Some r"
  shows "mismatch (binding cfg) subject (target c) action = None"
    "receipt (command_id c) db = Some (digest cfg (DCommand subject c), r)"
  using assms by (auto simp: stored_reply_def split: option.splits prod.splits if_splits)

lemma stored_replyI:
  "mismatch (binding cfg) subject (target c) action = None \<Longrightarrow>
   receipt (command_id c) db = Some (digest cfg (DCommand subject c), r) \<Longrightarrow>
   stored_reply cfg action (subject, c) db = Some r"
  by (simp add: stored_reply_def)

lemma stored_reply_kept:
  "receipts_kept db db' \<Longrightarrow> stored_reply cfg action q db = Some r \<Longrightarrow> stored_reply cfg action q db' = Some r"
  by (cases q) (auto simp: receipts_kept_def stored_reply_def split: option.splits if_splits)

text \<open>A handler that checks the binding and runs its transaction is a receiver when the transaction is.\<close>

lemma receiver_laws:
  assumes run: "\<And>d subject c db. h d (subject, c) db = (case mismatch (binding cfg) subject (target c) action of
        Some e \<Rightarrow> (Inr (rejected_ack c e), db) | None \<Rightarrow> run_tx (tx d subject c) db)"
    and ans: "\<And>d subject c db r db'. tx d subject c db = Inr (r, db') \<Longrightarrow> answered cfg subject c r db db'"
    and known: "\<And>d subject c db r. receipt (command_id c) db = Some (digest cfg (DCommand subject c), r)
        \<Longrightarrow> tx d subject c db = Inr (r, db)"
  shows "idempotent_receiver h (stored_reply cfg action) receipts_kept"
proof unfold_locales
  fix q db r d
  assume st: "stored_reply cfg action q db = Some r"
  obtain subject c where q: "q = (subject, c)" by (cases q)
  show "h d q db = (Inr r, db)"
    using stored_replyD[OF st[unfolded q]] known by (simp add: q run run_tx_def)
next
  fix d q db r db'
  assume h: "h d q db = (Inr r, db')"
  obtain subject c where q: "q = (subject, c)" by (cases q)
  show "db' = db \<or> stored_reply cfg action q db' = Some r"
    using h answered_receipt[OF ans]
    by (auto simp: q run run_tx_def split: option.splits sum.splits prod.splits intro: stored_replyI)
next
  fix d q db e db'
  assume h: "h d q db = (Inl e, db')"
  then show "db' = db" by (cases q) (auto simp: run run_tx_def split: option.splits sum.splits)
qed (rule stored_reply_kept)

interpretation execute_receiver: idempotent_receiver "\<lambda>(d :: unit) q. execute cfg (fst q) (snd q)"
    "stored_reply cfg ''execute''" receipts_kept for cfg
  by (rule receiver_laws[where tx = "\<lambda>d. execute_tx cfg"])
    (simp_all add: execute_def execute_tx_answered execute_tx_def)

interpretation cancel_receiver: idempotent_receiver "\<lambda>d q. cancel cfg d (fst q) (snd q)"
    "stored_reply cfg ''cancel''" receipts_kept for cfg
  by (rule receiver_laws[where tx = "cancel_tx cfg"]) (simp_all add: cancel_def cancel_tx_answered cancel_tx_def)

interpretation steer_receiver: idempotent_receiver "\<lambda>d q. steer cfg d (fst q) (snd q)"
    "stored_reply cfg ''steer''" receipts_kept for cfg
  by (rule receiver_laws[where tx = "steer_tx cfg"]) (simp_all add: steer_def steer_tx_answered steer_tx_def)

definition daemon_steps :: "journal_cfg \<Rightarrow> daemon \<Rightarrow> daemon \<Rightarrow> bool" where
  "daemon_steps cfg = (\<lambda>s t. \<exists>l. daemon_step cfg s l t)\<^sup>*\<^sup>*"

lemma daemon_steps_one: "daemon_step cfg s l t \<Longrightarrow> daemon_steps cfg s t"
  by (auto simp: daemon_steps_def)

lemma daemon_steps_trans: "daemon_steps cfg s t \<Longrightarrow> daemon_steps cfg t u \<Longrightarrow> daemon_steps cfg s u"
  by (simp add: daemon_steps_def)

lemma daemon_steps_kept:
  assumes "daemon_steps cfg s t"
  shows "receipts_kept (d_db s) (d_db t)"
  using assms unfolding daemon_steps_def
  by (induction rule: rtranclp.induct) (auto intro: receipts_kept_trans daemon_step_kept)

end
