(* ===== verification/Daemon_Properties.thy ===== *)
theory Daemon_Properties
  imports Daemon_Receipts
begin

text \<open>
  The properties of the workspace daemon, over every run of its step relation or over one
  transaction, each with a run of a concrete daemon where its hypotheses hold.
\<close>

section \<open>Facts about the update stream\<close>

lemma oldest_pending_first:
  assumes "twf (journal_updates db)" and "oldest_pending db = Some (n, w)"
  shows "\<exists>r. tget (journal_updates db) n = Some r \<and> ur_wire r = w \<and> \<not> ur_acknowledged r"
    and "\<forall>m r. tget (journal_updates db) m = Some r \<longrightarrow> m < n \<longrightarrow> ur_acknowledged r"
proof -
  obtain r rest where pr: "pending_rows db = (n, r) # rest" "w = ur_wire r"
    using assms(2) by (auto simp: oldest_pending_def split: list.splits)
  have "(n, r) \<in> set (pending_rows db)" using pr by simp
  then have "(n, r) \<in> set (journal_updates db)" "\<not> ur_acknowledged r" by (auto simp: pending_rows_def)
  then show "\<exists>r. tget (journal_updates db) n = Some r \<and> ur_wire r = w \<and> \<not> ur_acknowledged r"
    using pr twf_tget[OF assms(1)] by blast
  have sorted: "sorted (map fst (pending_rows db))"
    unfolding pending_rows_def tsorted_def by (rule sorted_filter) simp
  show "\<forall>m r. tget (journal_updates db) m = Some r \<longrightarrow> m < n \<longrightarrow> ur_acknowledged r"
  proof (intro allI impI, rule ccontr)
    fix m r'
    assume m: "tget (journal_updates db) m = Some r'" "m < n" "\<not> ur_acknowledged r'"
    then have "(m, r') \<in> set (pending_rows db)" by (auto simp: pending_rows_def dest: tget_Some_in)
    then have "m \<in> set (map fst (pending_rows db))" by force
    then show False using sorted pr m(2) by auto
  qed
qed

lemma stream_twf: "stream_ok db \<Longrightarrow> twf (journal_updates db)"
  by (cases "journal_runtime db") (simp_all add: stream_ok_def twf_def)

lemma daemon_run_journal: "daemon_run cfg ls s \<Longrightarrow> journal_inv cfg (d_db s)"
  using daemon_run_inv by (simp add: daemon_inv_def)

section \<open>Every step is a move\<close>

lemma ended_moved:
  assumes inv: "daemon_inv cfg ls s" and task: "tget (d_tasks s) aid = Some p"
    and out: "case p of PLaunch _ \<Rightarrow> outcome_state out = SFailed | PWait _ \<Rightarrow> outcome_state out \<in> {SCompleted, SFailed}"
    and run: "finish_read cfg d aid out term (d_db s) = Inr db"
  shows "moved cfg ANone (d_db s) db"
proof -
  have j: "journal_inv cfg (d_db s)" using inv by (simp add: daemon_inv_def)
  obtain a where a: "tx_attempt aid (d_db s) = Some a" "at_state a \<in> {SLaunching, SRunning, SCancelling}"
      "at_cancel a = None \<longrightarrow> at_state a = (case p of PLaunch _ \<Rightarrow> SLaunching | PWait _ \<Rightarrow> SRunning)"
    using task_attempt[OF inv task] by blast
  show ?thesis
    by (rule finish_read_moved(1)[OF j a(1) _ a(2) run])
      (use a(3) out in \<open>cases p; auto intro: attempt_next.intros\<close>)
qed

lemma started_moved:
  assumes inv: "daemon_inv cfg ls s" and task: "tget (d_tasks s) aid = Some (PLaunch h)"
    and run: "run_started cfg d h conv aid (d_db s) = Inr db"
  shows "moved cfg (AStart aid) (d_db s) db"
proof -
  have j: "journal_inv cfg (d_db s)" and "task_ok (d_db s) aid (PLaunch h)"
    using inv task by (simp_all add: daemon_inv_def tasks_ok_def)
  then show ?thesis using run_started_moved(1)[OF j _ _ run] by (auto simp: task_ok_def)
qed

lemma daemon_step_moved:
  assumes run: "daemon_run cfg ls s" and step: "daemon_step cfg s l t"
  shows "\<exists>act. moved cfg act (d_db s) (d_db t)"
proof -
  have inv: "daemon_inv cfg ls s" by (rule daemon_run_inv[OF run])
  have j: "journal_inv cfg (d_db s)" using inv by (simp add: daemon_inv_def)
  note refl = moved_refl[OF j]
  from step show ?thesis
  proof cases
    case (boot u m as db)
    then show ?thesis using recover_begin_moved(1)[OF j boot(4)] by auto
  next
    case (fence a as d fenced dec db)
    have "snapshot_ok (d_db s) a" using inv fence(3) by (simp add: daemon_inv_def boot_ok_def)
    then show ?thesis using fence(2) recover_attempt_moved(1)[OF j _ fence(4)] by auto
  next
    case (serve d x db)
    then show ?thesis using recover_ready_moved(1)[OF j serve(4)] by auto
  next
    case crash
    then show ?thesis using refl by auto
  next
    case (recv_execute c subject r db)
    then show ?thesis using execute_moved[OF j recv_execute(4,5)] by auto
  next
    case (recv_cancel c d subject r db)
    then show ?thesis using cancel_moved[OF j recv_cancel(4,5)] by auto
  next
    case (recv_steer c d subject r db)
    then show ?thesis using steer_moved[OF j recv_steer(6)] by auto
  next
    case (launch aid plan h db)
    then show ?thesis using run_claim_moved(1)[OF j launch(5)] by auto
  next
    case (launch_fails aid h d "term" db)
    then show ?thesis using ended_moved[OF inv launch_fails(4) _ launch_fails(5)[unfolded run_launch_failed_def]] by auto
  next
    case (start aid h d conv db)
    then show ?thesis using started_moved[OF inv start(4,5)] by auto
  next
    case (report aid h d p db)
    then show ?thesis using progress_moved[OF j report(6)] by auto
  next
    case (finished aid h out d "term" db)
    then show ?thesis using ended_moved[OF inv finished(4) _ finished(6)[unfolded run_finished_def]] by auto
  next
    case (task_lost aid)
    then show ?thesis using refl by auto
  next
    case (fence_orphan aid d fenced x db)
    then show ?thesis using resolve_moved(1)[OF j fence_orphan(5)] by auto
  next
    case (send n wire)
    then show ?thesis using refl by auto
  next
    case send_fails
    then show ?thesis using refl by auto
  next
    case (deliver n wire ack x db)
    then show ?thesis using outbox_settle_moved(1)[OF j deliver(6)] by auto
  qed
qed

section \<open>Safety of runs\<close>

text \<open>
  C1. At most one launch: whatever the order of commands, crashes, recoveries and fences, no run
  of the daemon launches an attempt twice, and the launch count in the journal is the number of
  launches of the run.
\<close>

theorem launched_at_most_once:
  assumes "daemon_run cfg ls s"
  shows "count_list ls (LLaunch aid) \<le> 1
    \<and> (\<forall>a. tx_attempt aid (d_db s) = Some a \<longrightarrow> at_launch_count a = count_list ls (LLaunch aid))"
proof -
  note inv = daemon_run_inv[OF assms]
  have eq: "count_list ls (LLaunch aid) = launches (tx_attempt aid (d_db s))"
    using inv by (simp add: daemon_inv_def launch_counts_def)
  show ?thesis
  proof (cases "tx_attempt aid (d_db s)")
    case None
    then show ?thesis by (simp add: eq launches_def)
  next
    case (Some a)
    have "attempt_ok a" using inv Some journal_invD(3) by (auto simp: daemon_inv_def)
    then have "at_launch_count a \<le> 1" by (auto simp: attempt_ok_def split: attempt_state.splits if_splits)
    then show ?thesis using Some by (simp add: eq launches_def)
  qed
qed

text \<open>
  C2. The life of an attempt: every step moves an attempt along \<open>attempt_next\<close>, keeps its command
  and its first cancel, and leaves a finished attempt finished in the same state.
\<close>

theorem attempt_moves_forward:
  assumes "daemon_run cfg ls s" and "daemon_step cfg s l t" and "tx_attempt aid (d_db s) = Some a"
  shows "\<exists>a'. tx_attempt aid (d_db t) = Some a' \<and> attempt_next (Some (at_state a)) (at_state a')
    \<and> at_command a' = at_command a \<and> (at_cancel a \<noteq> None \<longrightarrow> at_cancel a' = at_cancel a)
    \<and> (at_state a \<in> set TERMINAL \<longrightarrow> at_state a' = at_state a)"
proof -
  obtain act where m: "moved cfg act (d_db s) (d_db t)" using daemon_step_moved[OF assms(1,2)] by blast
  have "\<exists>a'. tx_attempt aid (d_db t) = Some a' \<and> attempt_next (Some (at_state a)) (at_state a')
    \<and> at_command a' = at_command a \<and> (at_cancel a \<noteq> None \<longrightarrow> at_cancel a' = at_cancel a)"
    using moved_view[OF m, of aid] assms(3) attempt_next.intros(12) by auto
  then show ?thesis using attempt_next_terminal by blast
qed

text \<open>
  C3. Admission: in every reachable journal the unfinished attempts are within the configured
  capacity and no session has two of them.
\<close>

theorem capacity_and_sessions:
  assumes "daemon_run cfg ls s"
  shows "active_attempts (d_db s) \<le> max_concurrent_attempts cfg
    \<and> (tx_attempt k (d_db s) = Some a \<and> tx_attempt k' (d_db s) = Some a'
       \<and> at_state a \<notin> set TERMINAL \<and> at_state a' \<notin> set TERMINAL
       \<and> session_id (target (at_command a)) = session_id (target (at_command a')) \<longrightarrow> k = k')"
  using journal_invD(1,5,6)[OF daemon_run_journal[OF assms]] active_attempts_card
  unfolding session_unique_def by metis

text \<open>
  C4. The update stream of a reachable journal is numbered 1, 2, ... without a gap, each row
  under the sequence number its wire message carries.
\<close>

theorem updates_contiguous:
  assumes "daemon_run cfg ls s"
  shows "tkeys (journal_updates (d_db s))
      = [1..<Suc (case journal_runtime (d_db s) of None \<Rightarrow> 0 | Some m \<Rightarrow> rr_sequence m)]
    \<and> (\<forall>n r. tget (journal_updates (d_db s)) n = Some r \<longrightarrow> u_sequence (ur_wire r) = n)"
proof -
  have "stream_ok (d_db s)" using journal_invD(2)[OF daemon_run_journal[OF assms]] .
  then show ?thesis
    by (cases "journal_runtime (d_db s)") (auto simp: stream_ok_def dest: tget_Some_in simp del: upt_Suc)
qed

text \<open>
  C5. The updates of one attempt: numbered contiguously from 1, at most one of them reports the
  start, and the terminal updates are none while the attempt is unfinished and exactly the
  one of its final state once it is finished.
\<close>

theorem attempt_updates:
  assumes "daemon_run cfg ls s" and "tx_attempt aid (d_db s) = Some a"
  shows "map u_attempt_sequence (att_stream aid (d_db s)) = map Some [1..<Suc (at_attempt_sequence a)]
    \<and> started_events (att_stream aid (d_db s)) \<le> 1
    \<and> terminal_events (att_stream aid (d_db s)) = (if at_state a \<in> set TERMINAL then [at_state a] else [])"
proof -
  note inv = daemon_run_inv[OF assms(1)]
  have "stream_of_attempt_ok (tx_attempt aid (d_db s)) (att_stream aid (d_db s))"
    by (rule journal_invD(4)[OF daemon_run_journal[OF assms(1)]])
  moreover have "started_events (att_stream aid (d_db s)) \<le> (if unstarted (tx_attempt aid (d_db s)) then 0 else 1)"
    using inv by (simp add: daemon_inv_def started_ok_def)
  then have "started_events (att_stream aid (d_db s)) \<le> 1" by (simp split: if_splits)
  ultimately show ?thesis using assms(2) by (simp add: stream_of_attempt_ok_def attempt_seq_def del: upt_Suc)
qed

text \<open>
  C6. A cancel decides: an attempt with a journaled cancel that has finished is cancelled, never
  completed or failed, whatever its executor reported; and a cancel that came before the execute
  keeps the attempt from ever being launched.
\<close>

theorem cancel_decides:
  assumes "daemon_run cfg ls s" and "tx_attempt aid (d_db s) = Some a" and "at_cancel a \<noteq> None"
  shows "(at_state a = SCancelling \<or> at_state a = SCancelled \<and> terminal_events (att_stream aid (d_db s)) = [SCancelled])
    \<and> (is_cancel (body (at_command a)) \<longrightarrow> count_list ls (LLaunch aid) = 0)"
proof -
  note j = daemon_run_journal[OF assms(1)]
  have ok: "attempt_ok a" by (rule journal_invD(3)[OF j assms(2)])
  have "terminal_events (att_stream aid (d_db s)) = (if terminal (at_state a) then [at_state a] else [])"
    using journal_invD(4)[OF j, of aid] assms(2) by (simp add: stream_of_attempt_ok_def)
  moreover have "count_list ls (LLaunch aid) = at_launch_count a"
    using daemon_run_inv[OF assms(1)] assms(2) by (simp add: daemon_inv_def launch_counts_def launches_def)
  moreover have "\<not> is_execute (body (at_command a))" if "is_cancel (body (at_command a))"
    using that by (cases "body (at_command a)") auto
  ultimately show ?thesis
    using ok assms(3) by (cases "at_state a") (auto simp: attempt_ok_def)
qed

section \<open>Redelivery\<close>


section \<open>Recovery\<close>

lemma recover_loop_fences:
  assumes "journal_inv cfg db" and "\<forall>a \<in> set as. snapshot_ok db a"
    and "recover_loop cfg ds fence m i as db = Inr (ev, db')"
  shows "journal_inv cfg db' \<and> (\<forall>a \<in> set as. at_state a \<in> set INTERRUPTED \<longrightarrow>
      (\<exists>a'. tx_attempt (attempt_id (target (at_command a))) db' = Some a' \<and> terminal (at_state a')))
    \<and> (\<forall>k. (\<forall>a \<in> set as. attempt_id (target (at_command a)) = k \<longrightarrow> at_state a \<notin> set INTERRUPTED)
         \<longrightarrow> tx_attempt k db' = tx_attempt k db)
    \<and> (\<forall>k a. tx_attempt k db = Some a \<longrightarrow> terminal (at_state a) \<longrightarrow>
         (\<exists>a'. tx_attempt k db' = Some a' \<and> terminal (at_state a')))"
  using assms
proof (induction as arbitrary: i db ev)
  case (Cons a as)
  let ?aid = "attempt_id (target (at_command a))"
  obtain dec db1 ev1 where r: "recover_attempt cfg (ds i) (fence a) a db = Inr (dec, db1)"
      "recover_loop cfg ds fence m (i + 1) as db1 = Inr (ev1, db')"
    using Cons.prems(3) by (auto simp: sbind_eq_Inr)
  have snap: "snapshot_ok db a" using Cons.prems(2) by simp
  note ra = recover_attempt_moved[OF Cons.prems(1) snap r(1)]
  have inv1: "journal_inv cfg db1" by (rule journal_inv_moved[OF Cons.prems(1) ra(1)])
  have "\<forall>x \<in> set as. snapshot_ok db1 x" using Cons.prems(2) snapshot_ok_moved[OF ra(1)] by simp
  note ih = Cons.IH[OF inv1 this r(2)]
  have keep: "\<exists>a'. tx_attempt k db1 = Some a' \<and> terminal (at_state a')"
    if "tx_attempt k db = Some x" "terminal (at_state x)" for k x
    using moved_view[OF ra(1), of k] that attempt_next_terminal by fastforce
  have other: "tx_attempt k db1 = tx_attempt k db" if "k = ?aid \<longrightarrow> at_state a \<notin> set INTERRUPTED" for k
    using ra(2,4) that unfolding only_changes_def by (cases "k = ?aid") auto
  show ?case
  proof (intro conjI ballI allI impI)
    show "journal_inv cfg db'" using ih by blast
  next
    fix x
    assume x: "x \<in> set (a # as)" "at_state x \<in> set INTERRUPTED"
    show "\<exists>a'. tx_attempt (attempt_id (target (at_command x))) db' = Some a' \<and> terminal (at_state a')"
      using x ih ra(3) by (cases "x = a") auto
  next
    fix k
    assume k: "\<forall>x \<in> set (a # as). attempt_id (target (at_command x)) = k \<longrightarrow> at_state x \<notin> set INTERRUPTED"
    then show "tx_attempt k db' = tx_attempt k db" using ih other[of k] by auto
  next
    fix k x
    assume "tx_attempt k db = Some x" "terminal (at_state x)"
    then show "\<exists>a'. tx_attempt k db' = Some a' \<and> terminal (at_state a')" using ih keep by blast
  qed
qed auto

lemma tx_attempts_complete:
  assumes wf: "store_wf db" and a: "tx_attempt k db = Some a"
  shows "a \<in> set (tx_attempts db)"
proof -
  obtain r where r: "tget (journal_attempts db) k = Some r" "join_attempt db r = Some a" using a by (rule tx_attempt_row)
  then have "(k, r) \<in> set (tsorted (journal_attempts db))" by (simp add: tget_Some_in)
  then show ?thesis using r(2) by (force simp: tx_attempts_def map_filter_def)
qed

lemma recover_parts:
  assumes inv: "journal_inv cfg db" and run: "recover cfg u ds fence db = Inr (ev, db')"
  obtains m as db1 db2 ev1 x where "recover_begin cfg u db = Inr ((m, as), db1)" "frame db db1" "journal_inv cfg db1"
    "as = tx_attempts db1" "\<forall>a \<in> set as. snapshot_ok db1 a" "recover_loop cfg ds fence m 1 as db1 = Inr (ev1, db2)"
    "journal_inv cfg db2" "frame db2 db'" "recover_ready cfg (ds 0) db2 = Inr (x, db')"
proof -
  obtain m as db1 db2 ev1 x where r: "recover_begin cfg u db = Inr ((m, as), db1)"
      "recover_loop cfg ds fence m 1 as db1 = Inr (ev1, db2)" "recover_ready cfg (ds 0) db2 = Inr (x, db')"
    using run by (auto simp: recover_def sbind_eq_Inr)
  note rb = recover_begin_moved[OF inv r(1)]
  have inv1: "journal_inv cfg db1" by (rule journal_inv_moved[OF inv rb(1)])
  have snap: "\<forall>a \<in> set as. snapshot_ok db1 a"
    using tx_attempts_current[OF journal_invD(1)[OF inv1]] rb(2) by (auto simp: snapshot_ok_def INTERRUPTED_def)
  have inv2: "journal_inv cfg db2" using recover_loop_fences[OF inv1 snap r(2)] by blast
  show ?thesis
    using that[OF r(1) rb(3) inv1 rb(2) snap r(2) inv2 recover_ready_moved(2)[OF inv2 r(3)] r(3)] .
qed

lemma recover_loop_refuses:
  assumes "a \<in> set as" and "at_state a \<in> set INTERRUPTED" and "\<not> fence a"
  shows "recover_loop cfg ds fence m i as db \<noteq> Inr x"
  using assms
  by (induction as arbitrary: i db x) (auto simp: sbind_eq_Inr recover_attempt_def)

text \<open>
  C9. Restart: a recovery that returns has had the termination of every attempt that was launching,
  running or cancelling confirmed, so that each of them is now finished, and has left every other
  attempt as it was; in particular a recorded attempt is still waiting for its first launch. So the
  daemon never serves with an executor of an earlier process still running.
\<close>

theorem recovery_fences_interrupted:
  assumes "daemon_run cfg ls s" and "recover cfg u ds fence (d_db s) = Inr (ev, db')"
    and "tx_attempt aid (d_db s) = Some a"
  shows "if at_state a \<in> set INTERRUPTED
         then fence a \<and> (\<exists>a'. tx_attempt aid db' = Some a' \<and> at_state a' \<in> set TERMINAL)
         else tx_attempt aid db' = Some a"
proof -
  note inv = daemon_run_journal[OF assms(1)]
  obtain m as db1 db2 ev1 x where r: "frame (d_db s) db1" "journal_inv cfg db1"
    "as = tx_attempts db1" "\<forall>a \<in> set as. snapshot_ok db1 a" "recover_loop cfg ds fence m 1 as db1 = Inr (ev1, db2)"
    "frame db2 db'"
    by (rule recover_parts[OF inv assms(2)])
  have a1: "tx_attempt aid db1 = Some a" using r(1) assms(3) by (simp add: frame_def)
  note wf1 = journal_invD(1)[OF r(2)]
  have mem: "a \<in> set as" using tx_attempts_complete[OF wf1 a1] r(3) by simp
  have aid: "attempt_id (target (at_command a)) = aid" by (rule tx_attempt_id[OF wf1 a1])
  have uniq: "x = a" if "x \<in> set as" "attempt_id (target (at_command x)) = aid" for x
    using tx_attempts_current[OF wf1] that r(3) a1 by fastforce
  have f2: "tx_attempt k db' = tx_attempt k db2" for k using r(6) by (simp add: frame_def)
  have "fence a" if "at_state a \<in> set INTERRUPTED" using recover_loop_refuses[OF mem that] r(5) by blast
  then show ?thesis using recover_loop_fences[OF r(2,4,5)] mem aid uniq a1 f2 by fastforce
qed

section \<open>Delivery of updates\<close>

text \<open>
  The outbox sends in order: what it sends next is journaled under its number, and every
  update before it is acknowledged.
\<close>

lemma outbox_in_order:
  assumes "daemon_run cfg ls s" and "outbox_next (d_db s) = Some (n, w)"
  shows "u_sequence w = n \<and> (\<exists>r. tget (journal_updates (d_db s)) n = Some r \<and> ur_wire r = w \<and> \<not> ur_acknowledged r)
    \<and> (\<forall>m r. tget (journal_updates (d_db s)) m = Some r \<longrightarrow> m < n \<longrightarrow> ur_acknowledged r)"
proof -
  have sok: "stream_ok (d_db s)" using journal_invD(2)[OF daemon_run_journal[OF assms(1)]] .
  have op: "oldest_pending (d_db s) = Some (n, w)"
    using assms(2) by (auto simp: outbox_next_def split: option.splits if_splits)
  note first = oldest_pending_first[OF stream_twf[OF sok] op]
  then obtain r where "tget (journal_updates (d_db s)) n = Some r" "ur_wire r = w" by blast
  then have "u_sequence w = n" using sok by (auto simp: stream_ok_def dest: tget_Some_in)
  then show ?thesis using first by blast
qed

end
