(* ===== verification/Retry.thy ===== *)
theory Retry
  imports Prelude
begin

text \<open>
  The retry timers of the delivery workers (\<open>messaging/retry.py\<close>): capped exponential backoff with
  jitter, one timer per key. Instants of \<open>time.monotonic()\<close> are rational numbers of seconds and a
  draw of \<open>random.uniform\<close> is its position \<open>u\<close> between the two bounds.
\<close>

section \<open>Operations\<close>

record backoff =
  bo_initial :: rat
  bo_maximum :: rat
  bo_pending :: "(string, nat \<times> rat) table"

definition new_backoff :: "rat \<Rightarrow> rat \<Rightarrow> backoff" where
  "new_backoff initial maximum = \<lparr>bo_initial = initial, bo_maximum = maximum, bo_pending = []\<rparr>"

definition timer :: "string \<Rightarrow> backoff \<Rightarrow> nat \<times> rat" where
  "timer key b = (case tget (bo_pending b) key of None \<Rightarrow> (0, 0) | Some t \<Rightarrow> t)"

definition due :: "string \<Rightarrow> rat \<Rightarrow> backoff \<Rightarrow> bool" where
  "due key now b \<longleftrightarrow> snd (timer key b) \<le> now"

definition waiting :: "rat \<Rightarrow> backoff \<Rightarrow> string list" where
  "waiting now b = map fst (filter (\<lambda>(key, n, moment). moment > now) (bo_pending b))"

definition delay :: "nat \<Rightarrow> backoff \<Rightarrow> rat" where
  "delay failures b = min (bo_maximum b) (bo_initial b * 2 ^ min (failures - 1) 32)"

definition failed :: "string \<Rightarrow> rat \<Rightarrow> rat \<Rightarrow> backoff \<Rightarrow> backoff" where
  "failed key now u b =
     (let count = fst (timer key b) + 1; d = delay count b
      in b\<lparr>bo_pending := tput key (count, now + (d / 2 + (d - d / 2) * u)) (bo_pending b)\<rparr>)"

definition done_with :: "string \<Rightarrow> backoff \<Rightarrow> backoff" where
  "done_with key b = b\<lparr>bo_pending := tdel key (bo_pending b)\<rparr>"

section \<open>How long a key waits\<close>

lemma delay_bounds:
  assumes "0 \<le> bo_initial b" and "bo_initial b \<le> bo_maximum b"
  shows "bo_initial b \<le> delay n b" and "delay n b \<le> bo_maximum b"
proof -
  have "bo_initial b * 1 \<le> bo_initial b * 2 ^ min (n - 1) 32" by (rule mult_left_mono[OF _ assms(1)]) simp
  then show "bo_initial b \<le> delay n b" using assms(2) by (simp add: delay_def)
qed (simp add: delay_def)

lemma timer_failed [simp]:
  "timer k (failed key now u b) = (if k = key then (fst (timer key b) + 1,
     now + (delay (fst (timer key b) + 1) b / 2 + (delay (fst (timer key b) + 1) b - delay (fst (timer key b) + 1) b / 2) * u)) else timer k b)"
  by (simp add: timer_def failed_def Let_def)

lemma timer_done [simp]: "timer k (done_with key b) = (if k = key then (0, 0) else timer k b)"
  by (simp add: timer_def done_with_def)

text \<open>A failed key waits at least half of its delay and at most its delay; other keys are not affected.\<close>

lemma failed_waits:
  assumes u: "0 \<le> u" "u \<le> 1" and b: "0 \<le> bo_initial b" "bo_initial b \<le> bo_maximum b"
  shows "t < now + bo_initial b / 2 \<Longrightarrow> \<not> due key t (failed key now u b)"
    and "now + bo_maximum b \<le> t \<Longrightarrow> due key t (failed key now u b)"
    and "k \<noteq> key \<Longrightarrow> due k t (failed key now u b) = due k t b"
proof -
  define d where "d = delay (fst (timer key b) + 1) b"
  have d: "bo_initial b \<le> d" "d \<le> bo_maximum b" using delay_bounds[OF b] by (simp_all add: d_def)
  have "0 \<le> d" using b(1) d(1) by linarith
  then have "0 \<le> (d - d / 2) * u" "(d - d / 2) * u \<le> d / 2" using u by (simp_all add: mult_left_le)
  then have "bo_initial b / 2 \<le> d / 2 + (d - d / 2) * u" "d / 2 + (d - d / 2) * u \<le> bo_maximum b" using d by linarith+
  then show "t < now + bo_initial b / 2 \<Longrightarrow> \<not> due key t (failed key now u b)"
    and "now + bo_maximum b \<le> t \<Longrightarrow> due key t (failed key now u b)"
    unfolding due_def timer_failed d_def[symmetric] by auto
qed (simp add: due_def)

text \<open>The keys a batch leaves out are those whose timer is not yet due.\<close>

lemma waiting_iff:
  assumes "twf (bo_pending b)" and "0 \<le> now"
  shows "key \<in> set (waiting now b) \<longleftrightarrow> \<not> due key now b"
proof -
  have "key \<in> set (waiting now b) \<longleftrightarrow> (\<exists>n moment. (key, n, moment) \<in> set (bo_pending b) \<and> moment > now)"
    unfolding waiting_def by (force simp: image_iff)
  also have "\<dots> \<longleftrightarrow> (\<exists>n moment. tget (bo_pending b) key = Some (n, moment) \<and> moment > now)"
    by (simp add: twf_tget[OF assms(1)])
  also have "\<dots> \<longleftrightarrow> \<not> due key now b" using assms(2) by (auto simp: due_def timer_def split: option.splits)
  finally show ?thesis .
qed

end
