(* ===== verification/Daemon_Outbox.thy ===== *)
theory Daemon_Outbox
  imports Daemon_Worker Retry
begin

text \<open>
  One pass of the daemon's update outbox (\<open>UpdateOutbox.run_once\<close> of \<open>outbox.py\<close>), whole: the read of the
  oldest pending update, the retry timer of its number, the send, the check of the reply, and the
  transaction that settles it. The journal may have grown between the read and that transaction.
\<close>

section \<open>The pass\<close>

text \<open>The transport's answer: none (a \<open>ServiceError\<close>), or a reply with the verdict of the schema check on it.\<close>

datatype sent_reply = No_answer | Answer "string option" update_ack

text \<open>The acknowledgement of a reply that passes the checks.\<close>

definition verified :: "journal_cfg \<Rightarrow> update \<Rightarrow> sent_reply \<Rightarrow> update_ack option" where
  "verified cfg w r = (case r of
     No_answer \<Rightarrow> None
   | Answer schema ack \<Rightarrow>
       if exchange_update None schema (subject_for ''vcp'' (runtime_id (binding cfg)) ''updates'') w ack \<noteq> [] then None else Some ack)"

text \<open>
  \<open>db0\<close> is the journal the pass reads and \<open>db\<close> the one its transaction runs on; \<open>now\<close> is the time at
  which the timer is checked, \<open>later\<close> and \<open>u\<close> belong to the timer that a failure sets.
\<close>

definition outbox_run_once ::
  "journal_cfg \<Rightarrow> rat \<Rightarrow> rat \<Rightarrow> rat \<Rightarrow> (update \<Rightarrow> sent_reply) \<Rightarrow> backoff \<Rightarrow> journal_db \<Rightarrow> journal_db
   \<Rightarrow> journal_exn + bool \<times> backoff \<times> journal_db" where
  "outbox_run_once cfg now later u send b db0 db =
     (case tx_runtime db0 of
        None \<Rightarrow> Inl PyTypeError
      | Some meta \<Rightarrow>
          (case (if rr_blocked meta \<noteq> None then None else oldest_pending db0) of
             None \<Rightarrow> Inr (False, b, db)
           | Some (n, w) \<Rightarrow>
               if \<not> due (show_nat n) now b then Inr (False, b, db)
               else (case verified cfg w (send w) of
                       None \<Rightarrow> Inr (False, failed (show_nat n) later u b, db)
                     | Some ack \<Rightarrow>
                         sbind (outbox_settle n ack db) (\<lambda>(committed, db1).
                           if ua_status ack = Committed then Inr (True, done_with (show_nat n) b, db1)
                           else Inr (False, failed (show_nat n) later u b, db1)))))"

section \<open>What a pass does\<close>

text \<open>
  What an acknowledgement does to the journal: a commit acknowledges exactly that update, a gap the journal
  can fill asks for every update from the expected one again, and any other rejection leaves the
  stream as it is, with the runtime blocked unless the error is retryable and no gap.
\<close>

definition settle_effect :: "nat \<Rightarrow> update_ack \<Rightarrow> journal_db \<Rightarrow> bool \<Rightarrow> journal_db \<Rightarrow> bool" where
  "settle_effect n ack db x db' \<longleftrightarrow>
     (if ua_status ack = Committed
      then x \<and> db'\<lparr>journal_runtime := journal_runtime db\<rparr> = acknowledge n db
      else \<exists>e. ua_error ack = Some e \<and> \<not> x \<and>
        (if rt_code e = EVENT_GAP \<and> (\<exists>k. ua_expected_sequence ack = Some k \<and> has_update k db)
         then db' = replay_from (the (ua_expected_sequence ack)) db
         else if \<not> rt_retryable e \<or> rt_code e = EVENT_GAP
         then \<not> (\<exists>m. outbox_next db' = Some m) \<and> journal_updates db' = journal_updates db
         else db' = db))"

lemma outbox_settle_effect:
  assumes "outbox_settle n ack db = Inr (x, db')"
  shows "settle_effect n ack db x db'"
proof -
  obtain m where m: "journal_runtime db = Some m"
    using assms by (auto simp: outbox_settle_def tx_runtime_def split: option.splits)
  have same: "db\<lparr>journal_runtime := Some m\<rparr> = db" "(replay_from k db)\<lparr>journal_runtime := Some m\<rparr> = replay_from k db" for k
    using m by (simp_all add: replay_from_def)
  show ?thesis
  proof (cases "ua_status ack = Committed")
    case True
    then show ?thesis using assms m
      by (auto simp: settle_effect_def outbox_settle_def tx_runtime_def Let_def sbind_eq_Inr save_runtime_def acknowledge_def split: if_splits)
  next
    case False
    then obtain e where e: "ua_error ack = Some e"
      using assms m by (auto simp: outbox_settle_def tx_runtime_def split: option.splits)
    show ?thesis using assms m False e
      by (auto simp: settle_effect_def outbox_settle_def outbox_next_def tx_runtime_def sbind_eq_Inr save_runtime_def same
          split: if_splits option.splits)
  qed
qed


end
