(* ===== verification/Daemon_Witnesses.thy ===== *)
theory Daemon_Witnesses
  imports Daemon_Properties Daemon_Outbox
begin

text \<open>
  A concrete daemon: one fake executor, room for one attempt. It boots, reports ready, has the
  report committed, accepts an execute command, launches it, reports the start and completes; a
  second history cancels the running attempt. Each property of \<open>Daemon_Properties\<close> with
  hypotheses is applied to one of these runs.
\<close>

section \<open>Configuration and messages\<close>

definition demo_target :: attempt_target where
  "demo_target = \<lparr>workspace_id = ''w1'', runtime_id = ''r1'', runtime_generation = 1,
     session_id = ''s1'', attempt_id = ''a1''\<rparr>"

definition demo_cfg :: journal_cfg where
  "demo_cfg = \<lparr>binding = \<lparr>workspace_id = ''w1'', runtime_id = ''r1'', runtime_generation = 1\<rparr>,
     executors = [(''fake'', \<lparr>progress_kinds = [], conversational = False, steering_support = True,
                             validates = \<lambda>_. True\<rparr>)],
     max_concurrent_attempts = 1, max_pending_updates = 10, established = False, boot_id = ''b1'',
     inside = (\<lambda>_ _. True),
     digest = (\<lambda>i. case i of DCommand subject c \<Rightarrow> subject @ command_id c | DMessages _ \<Rightarrow> ''m''),
     sendable = (\<lambda>_. True)\<rparr>"

definition demo_cause :: cause where
  "demo_cause = \<lparr>cause_operation_id = ''o1'', cause_command_id = ''c1'', causal_path = [''c1'']\<rparr>"

definition demo_execute :: runtime_command where
  "demo_execute = \<lparr>command_id = ''x1'', target = demo_target,
     execution_of = \<lparr>exec_command_id = ''x1'', exec_cause = demo_cause\<rparr>,
     body = Execute \<lparr>ep_agent = \<lparr>runner = ''fake'', agent_model = None, settings = []\<rparr>, ep_task = JStr ''t'',
       ep_session_mode = ModeNew,
       ep_context = \<lparr>working_directory = ''.'', instruction_files = [], references = []\<rparr>\<rparr>\<rparr>"

definition demo_cancel :: runtime_command where
  "demo_cancel = \<lparr>command_id = ''k1'', target = demo_target,
     execution_of = \<lparr>exec_command_id = ''x1'', exec_cause = demo_cause\<rparr>, body = Cancel demo_cause None\<rparr>"

definition demo_draw :: "string \<Rightarrow> draw" where
  "demo_draw u = \<lparr>d_uuid = u, d_now = ''2026-01-01T00:00:00Z''\<rparr>"

definition demo_handle :: handle where
  "demo_handle = \<lparr>handle_kind = JStr ''in_process'', handle_settings = [], steering = []\<rparr>"

definition demo_ack :: update_ack where
  "demo_ack = \<lparr>ua_event_id = ''rte_1'', ua_target = binding demo_cfg, ua_sequence = 1, ua_status = Committed,
     ua_error = None, ua_expected_sequence = None\<rparr>"

section \<open>Journals of the runs\<close>

definition after :: "'e + 'a \<times> 's \<Rightarrow> 's" where
  "after x = snd (projr x)"

definition demo_j1 :: journal_db where "demo_j1 = after (recover_begin demo_cfg ''u'' empty_journal)"
definition demo_j2 :: journal_db where "demo_j2 = after (recover_ready demo_cfg (demo_draw ''1'') demo_j1)"
definition demo_j3 :: journal_db where "demo_j3 = after (outbox_settle 1 demo_ack demo_j2)"
definition demo_j4 :: journal_db where
  "demo_j4 = snd (execute demo_cfg (subject_of ''r1'' ''execute'') demo_execute demo_j3)"
definition demo_j5 :: journal_db where "demo_j5 = after (run_claim demo_cfg demo_handle ''a1'' demo_j4)"
definition demo_j6 :: journal_db where
  "demo_j6 = projr (run_started demo_cfg (demo_draw ''2'') demo_handle None ''a1'' demo_j5)"

definition demo_j7 :: journal_db where
  "demo_j7 = snd (cancel demo_cfg (demo_draw ''3'') (subject_of ''r1'' ''cancel'') demo_cancel demo_j6)"
definition demo_result :: outcome where
  "demo_result = OutCompleted \<lparr>summary = Some ''ok'', result_rest = []\<rparr>"
definition demo_j8 :: journal_db where
  "demo_j8 = projr (run_finished demo_cfg (demo_draw ''4'') demo_result Exited ''a1'' demo_j7)"
definition demo_j9 :: journal_db where
  "demo_j9 = after (recover demo_cfg ''u'' (\<lambda>i. demo_draw (if i = 0 then ''5'' else ''6'')) (\<lambda>_. True) demo_j6)"

definition demo_attempt :: "journal_db \<Rightarrow> attempt" where
  "demo_attempt db = the (tx_attempt ''a1'' db)"

lemma demo_boot:
  "recover_begin demo_cfg ''u'' empty_journal = Inr ((fst (fst (projr (recover_begin demo_cfg ''u'' empty_journal))), []), demo_j1)"
  by code_simp

lemma demo_ready: "recover_ready demo_cfg (demo_draw ''1'') demo_j1 = Inr ([], demo_j2)"
  by code_simp

lemma demo_committed: "outbox_settle 1 demo_ack demo_j2 = Inr (True, demo_j3)"
  by code_simp

lemma demo_executed:
  "execute demo_cfg (subject_of ''r1'' ''execute'') demo_execute demo_j3 = (Inr (accepted_ack demo_execute), demo_j4)"
  by code_simp

lemma demo_claimed: "run_claim demo_cfg demo_handle ''a1'' demo_j4 = Inr (Some demo_handle, demo_j5)"
  by code_simp

lemma demo_started: "run_started demo_cfg (demo_draw ''2'') demo_handle None ''a1'' demo_j5 = Inr demo_j6"
  by code_simp

lemma demo_cancelled:
  "cancel demo_cfg (demo_draw ''3'') (subject_of ''r1'' ''cancel'') demo_cancel demo_j6 = (Inr (accepted_ack demo_cancel), demo_j7)"
  by code_simp

lemma demo_finished: "run_finished demo_cfg (demo_draw ''4'') demo_result Exited ''a1'' demo_j7 = Inr demo_j8"
  by code_simp

lemma demo_recovered:
  "recover demo_cfg ''u'' (\<lambda>i. demo_draw (if i = 0 then ''5'' else ''6'')) (\<lambda>_. True) demo_j6
   = Inr ([evidence_for (the (journal_runtime demo_j6)) (demo_attempt demo_j6) FencedFailed], demo_j9)"
  by code_simp

section \<open>The runs\<close>

definition demo_state :: "journal_db \<Rightarrow> (string, task_phase) table \<Rightarrow> daemon" where
  "demo_state db tasks = \<lparr>d_db = db, d_tasks = tasks, d_boot = Up, d_sent = None\<rparr>"

lemma demo_state_simps [simp]:
  "d_db (demo_state db ts) = db" "d_tasks (demo_state db ts) = ts" "d_boot (demo_state db ts) = Up"
  "d_sent (demo_state db ts) = None"
  by (simp_all add: demo_state_def)

definition demo_wire :: "nat \<times> update" where
  "demo_wire = the (outbox_next demo_j2)"

lemma demo_sent: "outbox_next demo_j2 = Some (1, snd demo_wire)"
  "exchange_update None None (subject_for ''vcp'' (runtime_id (binding demo_cfg)) ''updates'') (snd demo_wire) demo_ack = []"
  by code_simp+

lemma demo_run_ready: "daemon_run demo_cfg [LOther, LOther, LOther, LOther] (demo_state demo_j3 [])"
proof -
  let ?s1 = "initial_daemon\<lparr>d_db := demo_j1, d_tasks := [], d_boot := Recovering []\<rparr>"
  let ?s2 = "?s1\<lparr>d_db := demo_j2, d_boot := Up\<rparr>"
  let ?s3 = "?s2\<lparr>d_sent := Some (1, snd demo_wire)\<rparr>"
  let ?s4 = "?s3\<lparr>d_db := demo_j3, d_sent := None\<rparr>"
  have 1: "daemon_step demo_cfg initial_daemon LOther ?s1"
    using daemon_step.boot[of initial_daemon demo_cfg "''u''" _ "[]" demo_j1] demo_boot by (simp add: initial_daemon_def)
  have 2: "daemon_step demo_cfg ?s1 LOther ?s2" by (rule daemon_step.serve[where d = "demo_draw ''1''"]) (simp_all add: demo_ready)
  have 3: "daemon_step demo_cfg ?s2 LOther ?s3"
    by (rule daemon_step.send) (simp_all add: demo_sent initial_daemon_def)
  have 4: "daemon_step demo_cfg ?s3 LOther ?s4"
    by (rule daemon_step.deliver[where n = 1, OF _ _ demo_sent(2)]) (simp_all add: demo_committed del: One_nat_def)
  show ?thesis
    using run_step[OF run_step[OF run_step[OF run_step[OF run_init 1] 2] 3] 4]
    by (simp add: demo_state_def initial_daemon_def)
qed

lemma demo_step_execute: "daemon_step demo_cfg (demo_state demo_j3 []) LOther (demo_state demo_j4 [])"
  using daemon_step.recv_execute[of "demo_state demo_j3 []" demo_execute demo_cfg "subject_of ''r1'' ''execute''"
      "Inr (accepted_ack demo_execute)" demo_j4]
  by (simp add: demo_executed) (simp add: demo_state_def demo_execute_def)

lemma demo_step_launch:
  "daemon_step demo_cfg (demo_state demo_j4 []) (LLaunch ''a1'') (demo_state demo_j5 [(''a1'', PLaunch demo_handle)])"
  using daemon_step.launch[of "demo_state demo_j4 []" "''a1''" demo_cfg demo_handle demo_handle demo_j5]
  by (simp add: demo_claimed) (simp add: demo_state_def tput_def)

lemma demo_step_start:
  "daemon_step demo_cfg (demo_state demo_j5 [(''a1'', PLaunch demo_handle)]) LOther (demo_state demo_j6 [(''a1'', PWait demo_handle)])"
  using daemon_step.start[of "demo_state demo_j5 [(''a1'', PLaunch demo_handle)]" "''a1''" demo_handle demo_cfg
      "demo_draw ''2''" None demo_j6]
  by (simp add: demo_started tget_def) (simp add: demo_state_def tput_def)

lemma demo_step_cancel:
  "daemon_step demo_cfg (demo_state demo_j6 [(''a1'', PWait demo_handle)]) LOther (demo_state demo_j7 [(''a1'', PWait demo_handle)])"
  using daemon_step.recv_cancel[of "demo_state demo_j6 [(''a1'', PWait demo_handle)]" demo_cancel demo_cfg "demo_draw ''3''"
      "subject_of ''r1'' ''cancel''" "Inr (accepted_ack demo_cancel)" demo_j7]
  by (simp add: demo_cancelled) (simp add: demo_state_def demo_cancel_def)

lemma demo_step_finished:
  "daemon_step demo_cfg (demo_state demo_j7 [(''a1'', PWait demo_handle)]) LOther (demo_state demo_j8 [])"
  using daemon_step.finished[of "demo_state demo_j7 [(''a1'', PWait demo_handle)]" "''a1''" demo_handle demo_result demo_cfg
      "demo_draw ''4''" Exited demo_j8]
  by (simp add: demo_finished tget_def) (simp add: demo_state_def tdel_def demo_result_def)

abbreviation demo_labels :: "label list" where
  "demo_labels \<equiv> [LOther, LOther, LOther, LOther, LOther, LLaunch ''a1'', LOther]"

lemma demo_run_running: "daemon_run demo_cfg demo_labels (demo_state demo_j6 [(''a1'', PWait demo_handle)])"
  using run_step[OF run_step[OF run_step[OF demo_run_ready demo_step_execute] demo_step_launch] demo_step_start] by simp

lemma demo_run_cancelled: "daemon_run demo_cfg (demo_labels @ [LOther, LOther]) (demo_state demo_j8 [])"
  using run_step[OF run_step[OF demo_run_running demo_step_cancel] demo_step_finished] by simp

section \<open>Witnesses\<close>

theorem launched_at_most_once_witness:
  "daemon_run demo_cfg (demo_labels @ [LOther, LOther]) (demo_state demo_j8 [])
   \<and> count_list (demo_labels @ [LOther, LOther]) (LLaunch ''a1'') \<le> 1"
  using launched_at_most_once[OF demo_run_cancelled, of "''a1''"] demo_run_cancelled by blast

lemma demo_attempts:
  "tx_attempt ''a1'' demo_j6 = Some (demo_attempt demo_j6)" "at_state (demo_attempt demo_j6) = SRunning"
  "tx_attempt ''a1'' demo_j8 = Some (demo_attempt demo_j8)" "at_state (demo_attempt demo_j8) = SCancelled"
  "at_cancel (demo_attempt demo_j8) = Some demo_cancel"
  by code_simp+

theorem attempt_moves_forward_witness:
  "\<exists>a'. tx_attempt ''a1'' demo_j7 = Some a' \<and> attempt_next (Some SRunning) (at_state a')"
  using attempt_moves_forward[OF demo_run_running demo_step_cancel, of "''a1''"] demo_attempts by auto

theorem capacity_and_sessions_witness: "active_attempts demo_j6 \<le> 1"
  using capacity_and_sessions[OF demo_run_running] by (simp add: demo_cfg_def)

theorem updates_contiguous_witness:
  "tkeys (journal_updates demo_j6) = [1..<Suc (case journal_runtime demo_j6 of None \<Rightarrow> 0 | Some m \<Rightarrow> rr_sequence m)]"
  using updates_contiguous[OF demo_run_running] by (simp del: upt_Suc)

theorem attempt_updates_witness: "terminal_events (att_stream ''a1'' demo_j8) = [SCancelled]"
  using attempt_updates[OF demo_run_cancelled, of "''a1''" "demo_attempt demo_j8"] demo_attempts by simp

theorem cancel_decides_witness:
  "at_state (demo_attempt demo_j8) = SCancelling \<or> terminal_events (att_stream ''a1'' demo_j8) = [SCancelled]"
  using cancel_decides[OF demo_run_cancelled, of "''a1''" "demo_attempt demo_j8"] demo_attempts by auto

lemma demo_changed: "demo_j4 \<noteq> demo_j3" "demo_j7 \<noteq> demo_j6"
  by code_simp+

lemma demo_later: "daemon_steps demo_cfg (demo_state demo_j4 []) (demo_state demo_j6 [(''a1'', PWait demo_handle)])"
  by (rule daemon_steps_trans[OF demo_step_launch[THEN daemon_steps_one] demo_step_start[THEN daemon_steps_one]])


theorem recovery_fences_interrupted_witness:
  "\<exists>a'. tx_attempt ''a1'' demo_j9 = Some a' \<and> at_state a' \<in> set TERMINAL"
proof -
  have "SRunning \<in> set INTERRUPTED" by (simp add: INTERRUPTED_def)
  then show ?thesis
    using recovery_fences_interrupted[OF demo_run_running, of "''u''" _ "\<lambda>_. True" _ demo_j9 "''a1''" "demo_attempt demo_j6"]
      demo_recovered demo_attempts by fastforce
qed

definition demo_reply :: "update \<Rightarrow> sent_reply" where
  "demo_reply w = Answer None demo_ack"

lemma demo_pass:
  "outbox_run_once demo_cfg 5 5 0 demo_reply (new_backoff (1 / 4) 10) demo_j2 demo_j2 = Inr (True, done_with ''1'' (new_backoff (1 / 4) 10), demo_j3)"
proof -
  have "due ''1'' 5 (new_backoff (1 / 4) 10)" "show_nat 1 = ''1''" by code_simp+
  moreover have "tx_runtime demo_j2 \<noteq> None" "(case tx_runtime demo_j2 of Some meta \<Rightarrow> rr_blocked meta) = None" by code_simp+
  moreover have "outbox_next demo_j2 = Some (1, snd demo_wire)" using demo_sent(1) by simp
  ultimately show ?thesis using demo_sent(2) demo_committed
    by (auto simp: outbox_run_once_def outbox_next_def verified_def demo_reply_def demo_ack_def split: option.split_asm)
qed


end
