(* ===== verification/Wire_Properties.thy ===== *)
theory Wire_Properties
  imports Runtime_Wire
begin

text \<open>
  Two routines of the wire contract against what they stand for: the depth guard
  \<open>_too_deep\<close> against the nesting of brackets outside string literals, and \<open>timestamp_key\<close>
  against the order of the instants that timestamps with up to nine fractional digits name.
\<close>

section \<open>Depth\<close>

definition bracket_open :: "char \<Rightarrow> bool" where "bracket_open c \<longleftrightarrow> c = CHR ''['' \<or> c = CHR 0x7B"
definition bracket_close :: "char \<Rightarrow> bool" where "bracket_close c \<longleftrightarrow> c = CHR '']'' \<or> c = CHR 0x7D"

definition nesting :: "string \<Rightarrow> int" where
  "nesting s = int (length (filter bracket_open s)) - int (length (filter bracket_close s))"

lemma nesting_simps [simp]:
  "nesting [] = 0"
  "nesting (c # cs) = nesting cs + (if bracket_open c then 1 else 0) - (if bracket_close c then 1 else 0)"
  by (auto simp: nesting_def bracket_open_def bracket_close_def)

lemma depth_exceeds_iff:
  "d \<le> max_json_depth \<Longrightarrow> depth_exceeds d s \<longleftrightarrow> (\<exists>k. d + nesting (take k s) > max_json_depth)"
proof (induction s arbitrary: d)
  case (Cons c cs)
  let ?e = "d + (if bracket_open c then 1 else 0) - (if bracket_close c then 1 else 0)"
  have head: "(\<exists>k. d + nesting (take k (c # cs)) > max_json_depth) \<longleftrightarrow> (\<exists>k. ?e + nesting (take k cs) > max_json_depth)"
  proof
    assume "\<exists>k. d + nesting (take k (c # cs)) > max_json_depth"
    then obtain k where k: "d + nesting (take k (c # cs)) > max_json_depth" by blast
    then have "k \<noteq> 0" using Cons.prems by (intro notI) simp
    then obtain j where "k = Suc j" using not0_implies_Suc by blast
    then have "?e + nesting (take j cs) > max_json_depth" using k by simp
    then show "\<exists>k. ?e + nesting (take k cs) > max_json_depth" by blast
  next
    assume "\<exists>k. ?e + nesting (take k cs) > max_json_depth"
    then obtain k where "?e + nesting (take k cs) > max_json_depth" by blast
    then have "d + nesting (take (Suc k) (c # cs)) > max_json_depth" by simp
    then show "\<exists>k. d + nesting (take k (c # cs)) > max_json_depth" by blast
  qed
  show ?case
  proof (cases "?e > max_json_depth")
    case True
    then have "\<exists>k. ?e + nesting (take k cs) > max_json_depth" by (intro exI[of _ 0]) simp
    then show ?thesis using True head Cons.prems by (auto simp: bracket_open_def bracket_close_def split: if_splits)
  next
    case False
    then have "depth_exceeds ?e cs \<longleftrightarrow> (\<exists>k. ?e + nesting (take k cs) > max_json_depth)" by (intro Cons.IH) simp
    then show ?thesis using False head by (auto simp: bracket_open_def bracket_close_def split: if_splits)
  qed
qed simp

lemma string_end_count: "string_end s = Some r \<Longrightarrow> length (filter P r) \<le> length (filter P s)"
  by (induction s arbitrary: r rule: string_end.induct) (force split: if_splits list.splits)+

lemma strip_strings_count: "length (filter P (strip_strings s)) \<le> length (filter P s)"
proof (induction s rule: strip_strings.induct)
  case (2 c cs)
  show ?case
  proof (cases "c = CHR 0x22")
    case True
    show ?thesis
    proof (cases "string_end cs")
      case None
      then show ?thesis using 2(1)[OF True None] True by simp
    next
      case (Some r)
      then show ?thesis using 2(2)[OF True Some] string_end_count[OF Some, of P] True by simp
    qed
  next
    case False
    then show ?thesis using 2(3) by simp
  qed
qed simp

lemma count_bracket_open: "count_char (CHR ''['') s + count_char (CHR 0x7B) s = length (filter bracket_open s)"
  by (induction s) (auto simp: count_char_def bracket_open_def)

text \<open>
  C13. The depth guard: a message is refused exactly when, outside its string literals, some
  prefix has more than 256 brackets open; the early return on few opening brackets never lets a
  deep message through.
\<close>

theorem too_deep_iff_nested:
  "too_deep text \<longleftrightarrow> (\<exists>k. nesting (take k (strip_strings text)) > 256)"
proof (cases "int (length (filter bracket_open text)) \<le> max_json_depth")
  case True
  have "nesting (take k (strip_strings text)) \<le> 256" for k
  proof -
    have "length (filter bracket_open (take k (strip_strings text))) \<le> length (filter bracket_open (strip_strings text))"
      by (metis append_take_drop_id filter_append le_add1 length_append)
    also have "\<dots> \<le> length (filter bracket_open text)" by (rule strip_strings_count)
    finally show ?thesis using True by (simp add: nesting_def max_json_depth_def)
  qed
  then have "\<not> (\<exists>k. nesting (take k (strip_strings text)) > 256)" by (simp add: not_less)
  then show ?thesis using True by (simp add: too_deep_def count_bracket_open)
next
  case False
  then show ?thesis using depth_exceeds_iff[of 0] by (simp add: too_deep_def count_bracket_open max_json_depth_def)
qed

section \<open>Timestamps\<close>

text \<open>The wire form of an instant: seconds, and the fraction only when it is not empty.\<close>

definition stamp :: "string \<Rightarrow> string \<Rightarrow> string" where
  "stamp s f = s @ (if f = [] then [] else CHR ''.'' # f) @ ''Z''"

definition digits :: "string \<Rightarrow> bool" where
  "digits s \<longleftrightarrow> (\<forall>c \<in> set s. CHR ''0'' \<le> c \<and> c \<le> CHR ''9'')"

fun decimal :: "nat \<Rightarrow> string \<Rightarrow> nat" where
  "decimal acc [] = acc"
| "decimal acc (c # cs) = decimal (10 * acc + (of_char c - 48)) cs"

definition nanoseconds :: "string \<Rightarrow> nat" where
  "nanoseconds f = decimal 0 f * 10 ^ (9 - length f)"

lemma decimal_acc: "decimal acc s = acc * 10 ^ length s + decimal 0 s"
proof (induction s arbitrary: acc)
  case (Cons c cs)
  show ?case
    using Cons[of "10 * acc + (of_char c - 48)"] Cons[of "of_char c - 48"] by (simp add: algebra_simps)
qed simp

lemma digit_range:
  assumes "CHR ''0'' \<le> c" and "c \<le> CHR ''9''"
  shows "48 \<le> (of_char c :: nat)" and "(of_char c :: nat) \<le> 57"
  using assms by (simp_all add: less_eq_char_def)

lemma decimal_bound: "digits s \<Longrightarrow> decimal 0 s < 10 ^ length s"
proof (induction s)
  case (Cons c cs)
  then have "decimal 0 cs < 10 ^ length cs" and c: "(of_char c :: nat) \<le> 57"
    using digit_range(2) by (auto simp: digits_def)
  moreover have "(of_char c - 48 :: nat) * 10 ^ length cs \<le> 9 * 10 ^ length cs"
    using c by (intro mult_right_mono) auto
  ultimately have "(of_char c - 48) * 10 ^ length cs + decimal 0 cs < 10 * 10 ^ length cs" by linarith
  then show ?case using decimal_acc[of "of_char c - 48" cs] by simp
qed simp

lemma decimal_less_iff:
  assumes "length xs = length ys" and "digits xs" and "digits ys"
  shows "xs < ys \<longleftrightarrow> decimal 0 xs < decimal 0 ys"
  using assms
proof (induction xs ys rule: list_induct2)
  case (Cons x xs y ys)
  let ?n = "10 ^ length xs :: nat"
  define a where "a = (of_char x - 48 :: nat)"
  define b where "b = (of_char y - 48 :: nat)"
  have dx: "decimal 0 (x # xs) = a * ?n + decimal 0 xs" and dy: "decimal 0 (y # ys) = b * ?n + decimal 0 ys"
    using decimal_acc[of a xs] decimal_acc[of b ys] Cons.hyps by (simp_all add: a_def b_def)
  have bx: "decimal 0 xs < ?n" and by': "decimal 0 ys < ?n"
    using Cons decimal_bound[of xs] decimal_bound[of ys] by (auto simp: digits_def)
  have rx: "48 \<le> (of_char x :: nat)" and ry: "48 \<le> (of_char y :: nat)"
    using Cons.prems digit_range(1) by (auto simp: digits_def)
  have order: "x < y \<longleftrightarrow> a < b" "x = y \<longleftrightarrow> a = b"
  proof -
    show "x < y \<longleftrightarrow> a < b" using rx ry unfolding less_char_def a_def b_def by linarith
    have "x = y \<longleftrightarrow> (of_char x :: nat) = of_char y" by simp
    then show "x = y \<longleftrightarrow> a = b" using rx ry unfolding a_def b_def by linarith
  qed
  have ih: "xs < ys \<longleftrightarrow> decimal 0 xs < decimal 0 ys" using Cons by (simp add: digits_def)
  consider "a < b" | "a = b" | "b < a" by linarith
  then show ?case
  proof cases
    case 1
    then have "(a + 1) * ?n \<le> b * ?n" by (intro mult_right_mono) auto
    then show ?thesis using 1 bx order dx dy by (simp add: Cons_less_Cons)
  next
    case 2
    then show ?thesis using order ih dx dy by (simp add: Cons_less_Cons)
  next
    case 3
    then have "(b + 1) * ?n \<le> a * ?n" by (intro mult_right_mono) auto
    then show ?thesis using 3 by' order dx dy by (simp add: Cons_less_Cons)
  qed
qed simp

lemma decimal_append: "decimal 0 (s @ replicate n (CHR ''0'')) = decimal 0 s * 10 ^ n"
proof -
  have "decimal acc (replicate n (CHR ''0'')) = acc * 10 ^ n" for acc
    by (induction n arbitrary: acc) (simp_all add: of_char_def)
  moreover have "decimal acc (s @ t) = decimal (decimal acc s) t" for acc t
    by (induction s arbitrary: acc) auto
  ultimately show ?thesis by simp
qed

lemma timestamp_key_stamp:
  assumes "CHR ''.'' \<notin> set s"
  shows "timestamp_key (stamp s f) = (s, ljust f 9 (CHR ''0''))"
proof -
  have "removesuffix (stamp s f) ''Z'' = s @ (if f = [] then [] else CHR ''.'' # f)"
    by (simp add: removesuffix_def stamp_def)
  moreover have "partition_dot (s @ (if f = [] then [] else CHR ''.'' # f)) = (s, f)"
    using assms by (auto simp: partition_dot_def takeWhile_append dropWhile_append)
  ultimately show ?thesis by (simp add: timestamp_key_def)
qed

text \<open>
  Timestamp keys order instants: for fractions of up to nine digits, however they are
  abbreviated, the keys compare like the seconds and then the nanoseconds.
\<close>

lemma timestamp_key_orders_instants:
  assumes "CHR ''.'' \<notin> set s" and "CHR ''.'' \<notin> set s'" and "digits f" and "digits f'"
    and "length f \<le> 9" and "length f' \<le> 9"
  shows "key_less (timestamp_key (stamp s f)) (timestamp_key (stamp s' f'))
    \<longleftrightarrow> s < s' \<or> s = s' \<and> nanoseconds f < nanoseconds f'"
proof -
  have pad: "digits (ljust g 9 (CHR ''0''))" "length (ljust g 9 (CHR ''0'')) = 9"
      "decimal 0 (ljust g 9 (CHR ''0'')) = nanoseconds g"
    if "digits g" "length g \<le> 9" for g
    using that by (auto simp: digits_def ljust_def nanoseconds_def decimal_append less_eq_char_def)
  have "ljust f 9 (CHR ''0'') < ljust f' 9 (CHR ''0'') \<longleftrightarrow> nanoseconds f < nanoseconds f'"
    using decimal_less_iff[of "ljust f 9 (CHR ''0'')" "ljust f' 9 (CHR ''0'')"] pad assms by simp
  then show ?thesis using assms by (simp add: timestamp_key_stamp key_less_def)
qed

end
