(* ===== verification/Vcp_Store.thy ===== *)
theory Vcp_Store
  imports Runtime_Wire
begin

text \<open>
  The virtual control plane's durable store (\<open>v2/services/virtual_control_plane/persistence\<close>,
  \<open>durable.py\<close> and \<open>schema.py\<close>): the lifecycle documents as records, one table per collection,
  and every method of its \<open>Transaction\<close>. A transaction is a function from the database to an
  exception or a result with the new database; an exception rolls it back (\<open>run_tx\<close>).
  The public event contract is checked by a schema library; its verdict on an event is the
  field \<open>event_ok\<close> of the configuration.
\<close>

section \<open>Exceptions\<close>

datatype vcp_exn =
    Service svc_error
  | CommandIdConflict string
  | InvalidEvent
  | IntegrityFailure
  | InvalidTransition
  | Rejected_update error_code string "nat option" bool \<comment> \<open>\<open>expected\<close> and \<open>quarantine\<close> of \<open>Rejected\<close>\<close>
  | VKeyError
  | VTypeError
  | VValueError

section \<open>Documents\<close>

datatype workspace_state = WProvisioning | WReady | WSuspended | WDestroying | WDestroyed | WFailed

fun workspace_state_name :: "workspace_state \<Rightarrow> string" where
  "workspace_state_name WProvisioning = ''provisioning''"
| "workspace_state_name WReady = ''ready''"
| "workspace_state_name WSuspended = ''suspended''"
| "workspace_state_name WDestroying = ''destroying''"
| "workspace_state_name WDestroyed = ''destroyed''"
| "workspace_state_name WFailed = ''failed''"

record runtime_view =
  rv_runtime_id :: string
  rv_generation :: nat
  rv_state :: string
  rv_started_at :: string

record workspace =
  w_workspace_id :: string
  w_name :: string
  w_version :: nat
  w_provider :: string
  w_state :: workspace_state
  w_resources :: "(string \<times> json) list"
  w_tools :: json
  w_required_capabilities :: json
  w_labels :: "(string \<times> json) list"
  w_active_attempt_ids :: "string list"
  w_created_at :: string
  w_updated_at :: string
  w_runtime :: "runtime_view option"
  w_failure :: "svc_error option"

record workspace_doc =
  wd_snapshot :: workspace
  wd_specification :: json
  wd_operation_id :: string
  wd_active_operation_id :: "string option"

text \<open>Prototype rows share the collection but have no snapshot.\<close>

datatype workspace_row = Managed workspace_doc | Legacy json

datatype operation_kind = OpApply | OpEnsure | OpDestroy | OpExecute | OpCancel | OpSteer

datatype operation_status = OpPending | OpRunning | OpSucceeded | OpFailed

record operation =
  o_operation_id :: string
  o_command_id :: string
  o_operation :: operation_kind
  o_status :: operation_status
  o_resources :: "(string \<times> string) list"
  o_created_at :: string
  o_updated_at :: string
  o_result :: "(string \<times> json) list option"
  o_error :: "svc_error option"

record operation_doc =
  od_snapshot :: operation
  od_causal_path :: "string list"
  od_retention :: "json option"
  od_attempts :: nat
  od_not_before :: string

record runtime_doc =
  rd_runtime_id :: string
  rd_generation :: nat
  rd_provider :: string
  rd_locator :: "json option"

datatype vattempt_state = VStarting | VRunning | VCancelling | VCompleted | VFailed | VCancelled

record vattempt =
  va_workspace_id :: string
  va_session_id :: string
  va_attempt_id :: string
  va_runtime_generation :: nat
  va_state :: vattempt_state
  va_instruction :: json
  va_started_at :: "string option"
  va_ended_at :: "string option"
  va_error :: "svc_error option"
  va_result :: "attempt_result option"
  va_usage :: "(string \<times> int) list option"

record cancel_record =
  cn_command_id :: string
  cn_cause :: cause
  cn_operation_ids :: "string list"

record attempt_doc =
  ad_snapshot :: vattempt
  ad_operation_id :: string
  ad_cancel :: "cancel_record option"
  ad_attempt_sequence :: nat
  ad_usage_period_end :: "string option"

datatype session_state = SessActive | SessIdle

record session =
  s_session_id :: string
  s_workspace_id :: string
  s_runtime_generation :: nat
  s_agent :: agent
  s_state :: session_state
  s_attempts :: "vattempt list"
  s_created_at :: string
  s_updated_at :: string

record session_doc =
  sd_snapshot :: session
  sd_history_sequence :: nat

record binding_doc =
  bd_target :: attempt_target
  bd_execution :: execution
  bd_session_mode :: session_mode

record runtime_status =
  rs_workspace_id :: string
  rs_generation :: nat
  rs_ready :: bool
  rs_quarantined :: bool
  rs_executors :: "string list"
  rs_steering_executors :: "string list"
  rs_max_concurrent_attempts :: nat
  rs_progress_kinds :: "string list"
  rs_journal_id :: "string option"
  rs_sequence :: nat
  rs_boot_id :: string
  rs_quarantine :: "(error_code \<times> string \<times> nat) option"

datatype steering_status = StPending | StApplied | StFailed

record steering_doc =
  sc_command :: runtime_command
  sc_status :: steering_status

section \<open>Commands, replies and events\<close>

datatype selection = SelNew | SelContinue string

record execute_request =
  er_agent :: agent
  er_task :: json
  er_session :: selection

datatype vcp_payload =
    PApply json \<comment> \<open>the workspace document\<close>
  | PEnsure "string option" \<comment> \<open>\<open>restore\<close>\<close>
  | PDestroy json \<comment> \<open>\<open>retention\<close>\<close>
  | PExecute execute_request
  | PCancel string "string option" \<comment> \<open>\<open>attempt_id\<close>, \<open>reason\<close>\<close>
  | PSteer string string "string option" \<comment> \<open>\<open>session_id\<close>, \<open>message\<close>, \<open>restore\<close>\<close>

text \<open>
  A request after decoding: \<open>rq_schema_error\<close> is the INVALID\_ARGUMENT the schema checks of
  \<open>_validate\<close> raise, if any.
\<close>

record request =
  rq_subject :: string
  rq_workspace_id :: string
  rq_command_id :: string
  rq_payload :: vcp_payload
  rq_expected_version :: "nat option"
  rq_causal_path :: "string list"
  rq_deadline_at :: "string option"
  rq_schema_error :: "svc_error option"

record response =
  vr_command_id :: string
  vr_outcome :: "svc_error + string \<times> string" \<comment> \<open>rejected, or accepted with operation and resource\<close>

record event =
  ev_event_id :: string
  ev_event_type :: string
  ev_occurred_at :: string
  ev_causal_path :: "string list"
  ev_resources :: "(string \<times> string) list"
  ev_resource_version :: "nat option"
  ev_payload :: "(string \<times> json) list"

record outbox_row =
  ox_workspace_id :: string
  ox_event_id :: string
  ox_envelope :: event
  ox_published :: bool

datatype delivery = DPending | DAcknowledged | DRejected | DBlocked | DSettled

record command_entry =
  ce_attempt_id :: string
  ce_subject :: string
  ce_wire :: runtime_command
  ce_status :: delivery
  ce_acknowledgement :: "command_ack option"

datatype history_kind = HMessage | HSteering | HTool_call | HUsage

text \<open>
  An entry's own fields, all of them texts: a message's identity, role and text, a steering's
  message, status and operation. The contract names two more kinds, which nothing appends yet.
\<close>

record history_entry =
  he_kind :: history_kind
  he_attempt_id :: string
  he_sequence :: nat
  he_occurred_at :: string
  he_content :: "(string \<times> string) list"

section \<open>Identity of a command\<close>

text \<open>
  \<open>_normalize_numbers\<close>, and the canonical form of an object: \<open>json.dumps\<close> with sorted keys.
  The receipt stores the canonical text; here it is the tuple the text encodes.
\<close>

fun normalize_numbers :: "json \<Rightarrow> json" where
  "normalize_numbers (JFloat r) = (if snd (quotient_of r) = 1 then JInt (fst (quotient_of r)) else JFloat r)"
| "normalize_numbers (JObj kvs) = JObj (map (map_prod id normalize_numbers) kvs)"
| "normalize_numbers (JList xs) = JList (map normalize_numbers xs)"
| "normalize_numbers v = v"

fun sort_keys :: "json \<Rightarrow> json" where
  "sort_keys (JObj kvs) = JObj (sort_key fst (map (map_prod id sort_keys) kvs))"
| "sort_keys (JList xs) = JList (map sort_keys xs)"
| "sort_keys v = v"

definition canonical :: "json \<Rightarrow> json" where
  "canonical v = sort_keys (normalize_numbers v)"

definition canonical_agent :: "agent \<Rightarrow> agent" where
  "canonical_agent a = a\<lparr>settings := (case canonical (JObj (settings a)) of JObj kvs \<Rightarrow> kvs | _ \<Rightarrow> [])\<rparr>"

fun canonical_payload :: "vcp_payload \<Rightarrow> vcp_payload" where
  "canonical_payload (PApply doc) = PApply (canonical doc)"
| "canonical_payload (PDestroy r) = PDestroy (canonical r)"
| "canonical_payload (PExecute e) = PExecute (e\<lparr>er_agent := canonical_agent (er_agent e), er_task := canonical (er_task e)\<rparr>)"
| "canonical_payload p = p"

type_synonym command_identity = "string \<times> vcp_payload \<times> nat option \<times> string list"

definition command_identity :: "request \<Rightarrow> command_identity" where
  "command_identity rq = (rq_subject rq, canonical_payload (rq_payload rq), rq_expected_version rq, rq_causal_path rq)"

section \<open>The database\<close>

record vcp_db =
  v_workspaces :: "(string, workspace_row) table"
  v_operations :: "(string, operation_doc) table"
  v_runtimes :: "(string, runtime_doc) table"
  v_sessions :: "(string, session_doc) table"
  v_attempts :: "(string, attempt_doc) table"
  v_bindings :: "(string, binding_doc) table"
  v_status :: "(string, runtime_status) table"
  v_steering :: "(string, steering_doc) table"
  v_receipts :: "(string, command_identity \<times> response) table"
  v_commands :: "(string, command_entry) table"
  v_updates :: "(string \<times> string, nat \<times> string) table"
  v_history :: "(string \<times> nat, history_entry) table"
  v_outbox :: "(nat, outbox_row) table"

definition empty_vcp :: vcp_db where
  "empty_vcp = \<lparr>v_workspaces = [], v_operations = [], v_runtimes = [], v_sessions = [], v_attempts = [],
     v_bindings = [], v_status = [], v_steering = [], v_receipts = [], v_commands = [], v_updates = [],
     v_history = [], v_outbox = []\<rparr>"

section \<open>Transaction methods\<close>

definition get_workspace :: "string \<Rightarrow> vcp_db \<Rightarrow> workspace_doc option" where
  "get_workspace key db = (case tget (v_workspaces db) key of Some (Managed d) \<Rightarrow> Some d | _ \<Rightarrow> None)"

definition put_workspace :: "string \<Rightarrow> workspace_doc \<Rightarrow> vcp_db \<Rightarrow> vcp_db" where
  "put_workspace key d db = db\<lparr>v_workspaces := tput key (Managed d) (v_workspaces db)\<rparr>"

definition put_operation :: "string \<Rightarrow> operation_doc \<Rightarrow> vcp_db \<Rightarrow> vcp_db" where
  "put_operation key d db = db\<lparr>v_operations := tput key d (v_operations db)\<rparr>"

definition put_runtime :: "string \<Rightarrow> runtime_doc \<Rightarrow> vcp_db \<Rightarrow> vcp_db" where
  "put_runtime key d db = db\<lparr>v_runtimes := tput key d (v_runtimes db)\<rparr>"

definition delete_runtime :: "string \<Rightarrow> vcp_db \<Rightarrow> vcp_db" where
  "delete_runtime key db = db\<lparr>v_runtimes := tdel key (v_runtimes db)\<rparr>"

definition put_session :: "string \<Rightarrow> session_doc \<Rightarrow> vcp_db \<Rightarrow> vcp_db" where
  "put_session key d db = db\<lparr>v_sessions := tput key d (v_sessions db)\<rparr>"

definition put_attempt :: "string \<Rightarrow> attempt_doc \<Rightarrow> vcp_db \<Rightarrow> vcp_db" where
  "put_attempt key d db = db\<lparr>v_attempts := tput key d (v_attempts db)\<rparr>"

text \<open>\<open>attempt_bindings\<close> is immutable: a second put of a key fails.\<close>

definition put_binding :: "string \<Rightarrow> binding_doc \<Rightarrow> vcp_db \<Rightarrow> vcp_exn + vcp_db" where
  "put_binding key d db = (case tinsert key d (v_bindings db) of
     None \<Rightarrow> Inl IntegrityFailure | Some t \<Rightarrow> Inr (db\<lparr>v_bindings := t\<rparr>))"

definition put_status :: "string \<Rightarrow> runtime_status \<Rightarrow> vcp_db \<Rightarrow> vcp_db" where
  "put_status key d db = db\<lparr>v_status := tput key d (v_status db)\<rparr>"

definition put_steering :: "string \<Rightarrow> steering_doc \<Rightarrow> vcp_db \<Rightarrow> vcp_db" where
  "put_steering key d db = db\<lparr>v_steering := tput key d (v_steering db)\<rparr>"

definition named :: "string \<Rightarrow> workspace_row \<Rightarrow> bool" where
  "named name row = (case row of Managed d \<Rightarrow> w_name (wd_snapshot d) = name | Legacy _ \<Rightarrow> False)"

definition workspace_named :: "string \<Rightarrow> vcp_db \<Rightarrow> workspace_doc option" where
  "workspace_named name db = (case List.find (\<lambda>(k, row). named name row) (v_workspaces db) of
     Some (k, Managed d) \<Rightarrow> Some d | _ \<Rightarrow> None)"

definition unfinished :: "operation_doc \<Rightarrow> bool" where
  "unfinished d \<longleftrightarrow> o_status (od_snapshot d) \<in> {OpPending, OpRunning}
     \<and> o_operation (od_snapshot d) \<in> {OpApply, OpEnsure, OpDestroy}"

definition pending_allocations :: "nat \<Rightarrow> string \<Rightarrow> vcp_db \<Rightarrow> operation_doc list" where
  "pending_allocations limit after db =
     map snd (take limit (filter (\<lambda>(k, d). unfinished d \<and> after < k) (tsorted (v_operations db))))"

definition replay :: "request \<Rightarrow> vcp_db \<Rightarrow> vcp_exn + response option" where
  "replay rq db = (case tget (v_receipts db) (rq_command_id rq) of
     None \<Rightarrow> Inr None
   | Some (ident, r) \<Rightarrow> if ident \<noteq> command_identity rq then Inl (CommandIdConflict (rq_command_id rq)) else Inr (Some r))"

definition retryable_response :: "response \<Rightarrow> bool" where
  "retryable_response r = (case vr_outcome r of Inl e \<Rightarrow> se_retryable e | Inr _ \<Rightarrow> False)"

definition record_command :: "request \<Rightarrow> response \<Rightarrow> vcp_db \<Rightarrow> vcp_exn + response \<times> vcp_db" where
  "record_command rq r db = sbind (replay rq db) (\<lambda>original.
     case original of
       Some r0 \<Rightarrow> Inr (r0, db)
     | None \<Rightarrow> if retryable_response r then Inr (r, db)
               else (case tinsert (rq_command_id rq) (command_identity rq, r) (v_receipts db) of
                       None \<Rightarrow> Inl IntegrityFailure
                     | Some t \<Rightarrow> Inr (r, db\<lparr>v_receipts := t\<rparr>)))"

text \<open>Foreign keys of the VCP's database are enforced too.\<close>

definition append_runtime_command :: "string \<Rightarrow> string \<Rightarrow> string \<Rightarrow> runtime_command \<Rightarrow> vcp_db \<Rightarrow> vcp_exn + vcp_db" where
  "append_runtime_command cid aid subject wire db =
     (if tget (v_attempts db) aid = None then Inl IntegrityFailure
      else case tinsert cid \<lparr>ce_attempt_id = aid, ce_subject = subject, ce_wire = wire, ce_status = DPending,
                             ce_acknowledgement = None\<rparr> (v_commands db) of
             None \<Rightarrow> Inl IntegrityFailure | Some t \<Rightarrow> Inr (db\<lparr>v_commands := t\<rparr>))"

definition runtime_update :: "string \<Rightarrow> string \<Rightarrow> vcp_db \<Rightarrow> string option" where
  "runtime_update rid eid db = map_option snd (tget (v_updates db) (rid, eid))"

definition record_runtime_update :: "string \<Rightarrow> string \<Rightarrow> nat \<Rightarrow> string \<Rightarrow> vcp_db \<Rightarrow> vcp_exn + vcp_db" where
  "record_runtime_update rid eid sequence dig db =
     (if tget (v_status db) rid = None
         \<or> (\<exists>((r, e), (n, d)) \<in> set (v_updates db). r = rid \<and> n = sequence) then Inl IntegrityFailure
      else case tinsert (rid, eid) (sequence, dig) (v_updates db) of
             None \<Rightarrow> Inl IntegrityFailure | Some t \<Rightarrow> Inr (db\<lparr>v_updates := t\<rparr>))"

definition settle_runtime_command :: "string \<Rightarrow> delivery \<Rightarrow> command_ack \<Rightarrow> vcp_db \<Rightarrow> vcp_exn + bool \<times> vcp_db" where
  "settle_runtime_command cid st ack db =
     (if st \<notin> {DAcknowledged, DRejected, DBlocked} then Inl VValueError
      else case tget (v_commands db) cid of
             Some e \<Rightarrow> if ce_status e = DPending
               then Inr (True, db\<lparr>v_commands := tput cid (e\<lparr>ce_status := st, ce_acknowledgement := Some ack\<rparr>) (v_commands db)\<rparr>)
               else Inr (False, db)
           | None \<Rightarrow> Inr (False, db))"

definition retire_runtime_command :: "string \<Rightarrow> vcp_db \<Rightarrow> vcp_db" where
  "retire_runtime_command cid db =
     (case tget (v_commands db) cid of
        Some e \<Rightarrow> if ce_status e = DPending
          then db\<lparr>v_commands := tput cid (e\<lparr>ce_status := DSettled\<rparr>) (v_commands db)\<rparr> else db
      | None \<Rightarrow> db)"

definition pending_steering :: "string \<Rightarrow> vcp_db \<Rightarrow> steering_doc list" where
  "pending_steering aid db = map snd (filter (\<lambda>(k, d). attempt_id (target (sc_command d)) = aid \<and> sc_status d = StPending)
     (tsorted (v_steering db)))"

definition append_history :: "string \<Rightarrow> history_entry \<Rightarrow> vcp_db \<Rightarrow> vcp_exn + nat \<times> vcp_db" where
  "append_history sid entry db =
     (case tget (v_sessions db) sid of
        None \<Rightarrow> Inl VTypeError
      | Some stored \<Rightarrow>
          (let n = sd_history_sequence stored + 1;
               db1 = put_session sid (stored\<lparr>sd_history_sequence := n\<rparr>) db
           in if tget (v_attempts db) (he_attempt_id entry) = None then Inl IntegrityFailure
              else case tinsert (sid, n) (entry\<lparr>he_sequence := n\<rparr>) (v_history db1) of
                     None \<Rightarrow> Inl IntegrityFailure
                   | Some t \<Rightarrow> Inr (n, db1\<lparr>v_history := t\<rparr>)))"

text \<open>
  The outbox sequence is AUTOINCREMENT and rows are never deleted, so the next number is one more
  than the number of rows. An event whose \<open>event_errors\<close> is not empty is refused.
\<close>

definition append_event :: "(event \<Rightarrow> bool) \<Rightarrow> event \<Rightarrow> vcp_db \<Rightarrow> vcp_exn + vcp_db" where
  "append_event event_ok e db =
     (if \<not> event_ok e then Inl InvalidEvent
      else case map_of (ev_resources e) ''workspace_id'' of
             None \<Rightarrow> Inl VKeyError
           | Some wid \<Rightarrow>
               if (\<exists>(n, r) \<in> set (v_outbox db). ox_event_id r = ev_event_id e) then Inl IntegrityFailure
               else Inr (db\<lparr>v_outbox := v_outbox db @ [(length (v_outbox db) + 1,
                      \<lparr>ox_workspace_id = wid, ox_event_id = ev_event_id e, ox_envelope = e, ox_published = False\<rparr>)]\<rparr>))"

section \<open>Reads outside transactions\<close>

definition pending_runtime_commands :: "nat \<Rightarrow> string list \<Rightarrow> vcp_db \<Rightarrow> (string \<times> string \<times> runtime_command) list" where
  "pending_runtime_commands limit exclude db =
     map (\<lambda>(k, e). (k, ce_subject e, ce_wire e))
       (take limit (filter (\<lambda>(k, e). ce_status e = DPending \<and> k \<notin> set exclude) (v_commands db)))"

definition pending_events :: "nat \<Rightarrow> string list \<Rightarrow> vcp_db \<Rightarrow> (nat \<times> outbox_row) list" where
  "pending_events limit exclude db =
     take limit (filter (\<lambda>(n, r). \<not> ox_published r \<and> ox_workspace_id r \<notin> set exclude) (tsorted (v_outbox db)))"

definition mark_published :: "nat \<Rightarrow> vcp_db \<Rightarrow> vcp_db" where
  "mark_published n db = (case tget (v_outbox db) n of
     Some r \<Rightarrow> if ox_published r then db else db\<lparr>v_outbox := tput n (r\<lparr>ox_published := True\<rparr>) (v_outbox db)\<rparr>
   | None \<Rightarrow> db)"

text \<open>Workspace pages: newest first, ties by key, after the cursor's position.\<close>

record page_filter =
  pf_name :: "string option"
  pf_provider :: "string option"
  pf_job_id :: "string option"
  pf_states :: "workspace_state list option"

definition page_match :: "page_filter \<Rightarrow> workspace \<Rightarrow> bool" where
  "page_match f w \<longleftrightarrow> (case pf_name f of None \<Rightarrow> True | Some n \<Rightarrow> w_name w = n)
     \<and> (case pf_provider f of None \<Rightarrow> True | Some p \<Rightarrow> w_provider w = p)
     \<and> (case pf_job_id f of None \<Rightarrow> True | Some j \<Rightarrow> map_of (w_labels w) ''job_id'' = Some (JStr j))
     \<and> (case pf_states f of None \<Rightarrow> w_state w \<noteq> WDestroyed | Some ss \<Rightarrow> w_state w \<in> set ss)"

definition managed_rows :: "vcp_db \<Rightarrow> (string \<times> workspace) list" where
  "managed_rows db = List.map_filter (\<lambda>(k, row). case row of Managed d \<Rightarrow> Some (k, wd_snapshot d) | Legacy _ \<Rightarrow> None)
     (v_workspaces db)"

definition page_key :: "string \<times> workspace \<Rightarrow> string \<times> string" where
  "page_key p = (w_created_at (snd p), fst p)"

definition workspace_page :: "page_filter \<Rightarrow> (string \<times> string) option \<Rightarrow> nat \<Rightarrow> vcp_db \<Rightarrow> workspace list" where
  "workspace_page f after limit db =
     map snd (take limit (rev (sort_key (\<lambda>p. [fst (page_key p), snd (page_key p)])
       (filter (\<lambda>p. page_match f (snd p) \<and> (case after of None \<Rightarrow> True | Some a \<Rightarrow> key_less (page_key p) a))
         (managed_rows db)))))"

text \<open>
  Session and history pages seek each state or kind on its own, bounded by the limit, and merge
  the bounded pages. An empty filter is one seek without a condition.
\<close>

definition session_rows :: "string \<Rightarrow> (string \<times> string) option \<Rightarrow> session_state option \<Rightarrow> vcp_db \<Rightarrow> session list" where
  "session_rows wid after state db =
     rev (sort_key (\<lambda>s. [s_created_at s, s_session_id s]) (map snd (filter (\<lambda>(k, s). s_workspace_id s = wid
       \<and> (case after of None \<Rightarrow> True | Some a \<Rightarrow> key_less (s_created_at s, k) a)
       \<and> (case state of None \<Rightarrow> True | Some st \<Rightarrow> s_state s = st))
       (map (\<lambda>(k, d). (k, sd_snapshot d)) (v_sessions db)))))"

definition seeks :: "'a list \<Rightarrow> 'a option list" where
  "seeks xs = (if xs = [] then [None] else map Some xs)"

definition session_page :: "string \<Rightarrow> session_state list \<Rightarrow> (string \<times> string) option \<Rightarrow> nat \<Rightarrow> vcp_db \<Rightarrow> session list" where
  "session_page wid states after limit db =
     take limit (rev (sort_key (\<lambda>s. [s_created_at s, s_session_id s])
       (concat (map (\<lambda>st. take limit (session_rows wid after st db)) (seeks states)))))"

definition history_match :: "string \<Rightarrow> string option \<Rightarrow> nat \<Rightarrow> (string \<times> nat) \<times> history_entry \<Rightarrow> bool" where
  "history_match sid aid after = (\<lambda>((s, n), e). s = sid \<and> n > after
     \<and> (case aid of None \<Rightarrow> True | Some a \<Rightarrow> a = [] \<or> he_attempt_id e = a))"

definition history_rows ::
  "string \<Rightarrow> string option \<Rightarrow> nat \<Rightarrow> history_kind option \<Rightarrow> vcp_db \<Rightarrow> history_entry list" where
  "history_rows sid aid after kind db = sort_key he_sequence (map snd (filter (\<lambda>r. history_match sid aid after r
     \<and> (case kind of None \<Rightarrow> True | Some k \<Rightarrow> he_kind (snd r) = k)) (v_history db)))"

definition history_page ::
  "string \<Rightarrow> history_kind list \<Rightarrow> string option \<Rightarrow> nat \<Rightarrow> nat \<Rightarrow> vcp_db \<Rightarrow> history_entry list" where
  "history_page sid kinds aid after limit db =
     take limit (sort_key he_sequence (concat (map (\<lambda>k. take limit (history_rows sid aid after k db)) (seeks kinds))))"

end
