(* ===== verification/Vcp_Lifecycle.thy ===== *)
theory Vcp_Lifecycle
  imports Vcp_Store
begin

text \<open>
  Workspace lifecycle of the virtual control plane (\<open>application/lifecycle.py\<close>): receipt-aware
  acceptance of apply, ensure and destroy, the worker that claims an accepted operation, runs its
  provider outside any transaction, retries transient failures and commits the terminal state,
  and the read models. Providers are parameters: their capabilities and admission check are
  fields of \<open>provider\<close>, the result of a call is an argument. The Nth call of \<open>now()\<close> or
  \<open>identity()\<close> of a handler reads draw N of its argument \<open>ds\<close>.

  Every ServiceError a handler raises precedes its first write, so a handler that fails leaves the
  database it was given; the exception value carries no database.
\<close>

section \<open>Configuration\<close>

record provider =
  pv_checkpoint :: bool
  pv_suspend :: bool
  pv_isolation :: string
  pv_restore :: string
  pv_tools :: "string list"
  pv_max_resources :: "(string \<times> rat) list"
  pv_validate :: "json \<Rightarrow> svc_error option"

record vcp_cfg =
  vc_providers :: "(string, provider) table"
  vc_event_ok :: "event \<Rightarrow> bool" \<comment> \<open>\<open>event_errors\<close> found nothing\<close>
  vc_expired :: "string \<Rightarrow> string \<Rightarrow> bool" \<comment> \<open>the deadline, and the clock reading it is compared with\<close>
  vc_later :: "string \<Rightarrow> nat \<Rightarrow> string" \<comment> \<open>a clock reading plus seconds, as a timestamp\<close>
  vc_digest :: "update \<Rightarrow> string"
  vc_command_schema :: "runtime_command \<Rightarrow> string option" \<comment> \<open>first schema error of an internal command\<close>
  vc_enabled :: bool

section \<open>Access to documents\<close>

definition jstr :: "json option \<Rightarrow> string" where
  "jstr v = (case v of Some (JStr s) \<Rightarrow> s | _ \<Rightarrow> [])"

definition jstrs :: "json option \<Rightarrow> string list" where
  "jstrs v = (case v of Some (JList xs) \<Rightarrow> map (\<lambda>x. jstr (Some x)) xs | _ \<Rightarrow> [])"

definition jobj :: "json option \<Rightarrow> json" where
  "jobj v = (case v of Some x \<Rightarrow> x | None \<Rightarrow> JObj [])"

fun jnum :: "json \<Rightarrow> rat option" where
  "jnum (JBool b) = Some (if b then 1 else 0)"
| "jnum (JInt i) = Some (of_int i)"
| "jnum (JFloat r) = Some r"
| "jnum _ = None"

text \<open>Python's equality of decoded values: numbers by value, objects without regard to key order.\<close>

fun json_eq :: "json \<Rightarrow> json \<Rightarrow> bool" and json_eqs :: "json list \<Rightarrow> json list \<Rightarrow> bool" where
  "json_eq (JObj a) (JObj b) \<longleftrightarrow> length a = length b
     \<and> (\<forall>p \<in> set a. case map_of b (fst p) of None \<Rightarrow> False | Some w \<Rightarrow> json_eq (snd p) w)"
| "json_eq (JList xs) (JList ys) \<longleftrightarrow> json_eqs xs ys"
| "json_eq (JStr s) (JStr t) \<longleftrightarrow> s = t"
| "json_eq JNull JNull \<longleftrightarrow> True"
| "json_eq v w \<longleftrightarrow> (case (jnum v, jnum w) of (Some x, Some y) \<Rightarrow> x = y | _ \<Rightarrow> False)"
| "json_eqs [] [] \<longleftrightarrow> True"
| "json_eqs (x # xs) (y # ys) \<longleftrightarrow> json_eq x y \<and> json_eqs xs ys"
| "json_eqs _ _ \<longleftrightarrow> False"

definition spec_of :: "json \<Rightarrow> json" where "spec_of doc = jobj (jget doc ''spec'')"

definition doc_name :: "json \<Rightarrow> string" where "doc_name doc = jstr (jget (jobj (jget doc ''metadata'')) ''name'')"

section \<open>Building blocks\<close>

definition new_operation :: "draw \<Rightarrow> request \<Rightarrow> operation_kind \<Rightarrow> string \<Rightarrow> string \<Rightarrow> operation_status \<Rightarrow> operation" where
  "new_operation d rq kind wid timestamp st = \<lparr>o_operation_id = identity ''op_'' (d_uuid d),
     o_command_id = rq_command_id rq, o_operation = kind, o_status = st, o_resources = [(''workspace_id'', wid)],
     o_created_at = timestamp, o_updated_at = timestamp, o_result = None, o_error = None\<rparr>"

definition operation_record :: "operation \<Rightarrow> string list \<Rightarrow> operation_doc" where
  "operation_record op path = \<lparr>od_snapshot = op, od_causal_path = path, od_retention = None, od_attempts = 0,
     od_not_before = []\<rparr>"

definition accepted :: "request \<Rightarrow> string \<Rightarrow> string \<Rightarrow> response" where
  "accepted rq oid resource = \<lparr>vr_command_id = rq_command_id rq, vr_outcome = Inr (oid, resource)\<rparr>"

definition rejected :: "request \<Rightarrow> svc_error \<Rightarrow> response" where
  "rejected rq e = \<lparr>vr_command_id = rq_command_id rq, vr_outcome = Inl e\<rparr>"

definition retry_cap_seconds :: nat where "retry_cap_seconds = 60"
definition max_attempts :: nat where "max_attempts = 8"
definition max_causal_path :: nat where "max_causal_path = 32"

definition retry_delay :: "nat \<Rightarrow> nat" where
  "retry_delay attempts = min retry_cap_seconds (1 * 2 ^ (attempts - 1))"

definition event :: "draw \<Rightarrow> workspace \<Rightarrow> operation \<Rightarrow> string list \<Rightarrow> (string \<times> json) list \<Rightarrow> event" where
  "event d w op path payload =
     (let eid = identity ''evt_'' (d_uuid d) in
      \<lparr>ev_event_id = eid, ev_event_type = ''workspace.'' @ workspace_state_name (w_state w), ev_occurred_at = d_now d,
       ev_causal_path = path @ [eid],
       ev_resources = (''workspace_id'', w_workspace_id w) #
         (case w_runtime w of None \<Rightarrow> [] | Some r \<Rightarrow> [(''runtime_id'', rv_runtime_id r)]),
       ev_resource_version = Some (w_version w),
       ev_payload = (''operation'', JObj [(''operation_id'', JStr (o_operation_id op)), (''command_id'', JStr (o_command_id op))])
         # payload\<rparr>)"

section \<open>Receipt-aware commands\<close>

text \<open>
  \<open>_command\<close>: the reply on record, or the handler's reply recorded with its writes. A
  ServiceError becomes a rejection; any other exception leaves the transaction.
\<close>

definition command_tx ::
  "(request \<Rightarrow> vcp_db \<Rightarrow> vcp_exn + response \<times> vcp_db) \<Rightarrow> request \<Rightarrow> vcp_db \<Rightarrow> vcp_exn + response \<times> vcp_db" where
  "command_tx accept rq db = sbind (replay rq db) (\<lambda>original.
     case original of
       Some r \<Rightarrow> Inr (r, db)
     | None \<Rightarrow> (case accept rq db of
                  Inr (r, db1) \<Rightarrow> record_command rq r db1
                | Inl (Service e) \<Rightarrow> record_command rq (rejected rq e) db
                | Inl e \<Rightarrow> Inl e))"

definition conflict_error :: "request \<Rightarrow> svc_error" where
  "conflict_error rq = service_error COMMAND_ID_CONFLICT ''command ID has different immutable inputs''
     (Some [(''command_id'', JStr (rq_command_id rq)), (''original_subject'', JStr (rq_subject rq))])"

definition command ::
  "(request \<Rightarrow> vcp_db \<Rightarrow> vcp_exn + response \<times> vcp_db) \<Rightarrow> request \<Rightarrow> vcp_db \<Rightarrow> (vcp_exn + response) \<times> vcp_db" where
  "command accept rq db = (case run_tx (command_tx accept rq) db of
     (Inl (CommandIdConflict c), db1) \<Rightarrow> (Inl (Service (conflict_error rq)), db1)
   | x \<Rightarrow> x)"

definition validate :: "vcp_cfg \<Rightarrow> (nat \<Rightarrow> draw) \<Rightarrow> request \<Rightarrow> svc_error option" where
  "validate cfg ds rq =
     (case rq_schema_error rq of
        Some e \<Rightarrow> Some e
      | None \<Rightarrow>
          if length (rq_causal_path rq) \<ge> max_causal_path
          then Some (service_error CAUSAL_PATH_TOO_LONG ''no room for lifecycle event''
                 (Some [(''max_length'', JInt (int max_causal_path)), (''length'', JInt (int (length (rq_causal_path rq)) + 1))]))
          else (case rq_deadline_at rq of
                  None \<Rightarrow> None
                | Some t \<Rightarrow> if vc_expired cfg t (d_now (ds 8))
                           then Some (service_error DEADLINE_EXCEEDED ''command expired before acceptance''
                                  (Some [(''deadline_at'', JStr t), (''received_at'', JStr (d_now (ds 9)))]))
                           else None))"

definition not_found :: "string \<Rightarrow> string \<Rightarrow> string \<Rightarrow> svc_error" where
  "not_found message rtype rid = service_error NOT_FOUND message
     (Some [(''resource_type'', JStr rtype), (''resource_id'', JStr rid)])"

definition state_error :: "string \<Rightarrow> string \<Rightarrow> string \<Rightarrow> string \<Rightarrow> string list \<Rightarrow> svc_error" where
  "state_error message rtype rid current allowed = service_error INVALID_STATE message
     (Some [(''resource_type'', JStr rtype), (''resource_id'', JStr rid), (''current_state'', JStr current),
            (''allowed_states'', JList (map JStr allowed))])"

definition version_error :: "nat \<Rightarrow> nat \<Rightarrow> svc_error" where
  "version_error expected actual = service_error VERSION_CONFLICT ''workspace version changed''
     (Some [(''expected_version'', JInt (int expected)), (''actual_version'', JInt (int actual))])"

definition capability_error :: "string \<Rightarrow> string \<Rightarrow> svc_error" where
  "capability_error message capability = service_error UNSUPPORTED_CAPABILITY message (Some [(''capability'', JStr capability)])"

section \<open>Apply\<close>

definition supported_capabilities :: "provider \<Rightarrow> string list" where
  "supported_capabilities p = (if pv_checkpoint p then [''checkpoint''] else []) @ (if pv_suspend p then [''suspend''] else [])
     @ [''isolation_'' @ pv_isolation p] @ (if pv_restore p \<noteq> ''none'' then [''restore_'' @ pv_restore p] else [])"

definition resource_source :: "string \<Rightarrow> string" where
  "resource_source r = (if r = ''cpu_millis'' then ''cpuMillis'' else if r = ''memory_mib'' then ''memoryMib'' else ''diskGib'')"

definition resource_amount :: "json \<Rightarrow> string \<Rightarrow> rat" where
  "resource_amount spec source = (case jget (jobj (jget spec ''resources'')) source of
     None \<Rightarrow> 0 | Some v \<Rightarrow> (case jnum v of None \<Rightarrow> 0 | Some x \<Rightarrow> x))"

definition admission_error :: "provider \<Rightarrow> json \<Rightarrow> svc_error option" where
  "admission_error p doc =
     (let spec = spec_of doc in
      if \<not> set (jstrs (jget spec ''requiredCapabilities'')) \<subseteq> set (supported_capabilities p)
         \<or> \<not> set (jstrs (jget spec ''tools'')) \<subseteq> set (pv_tools p)
      then Some (capability_error ''provider lacks requested capability or tool'' ''workspaces.apply'')
      else case List.find (\<lambda>(r, maximum). resource_amount spec (resource_source r) > maximum) (pv_max_resources p) of
             Some (r, _) \<Rightarrow> Some (invalid_argument
               [(''payload.workspace.spec.resources.'' @ resource_source r, ''exceeds provider maximum'')])
           | None \<Rightarrow> pv_validate p doc)"

definition spec_get :: "json \<Rightarrow> string \<Rightarrow> json" where
  "spec_get spec key = (case jget spec key of Some v \<Rightarrow> v | None \<Rightarrow> if key = ''resources'' then JObj [] else JList [])"

definition immutable_changed :: "json \<Rightarrow> json \<Rightarrow> bool" where
  "immutable_changed previous spec \<longleftrightarrow>
     (\<exists>key \<in> set [''provider'', ''resources'', ''requiredCapabilities'']. \<not> json_eq (spec_get previous key) (spec_get spec key))"

definition renamed :: "json \<Rightarrow> (string \<times> string) list \<Rightarrow> (string \<times> json) list" where
  "renamed obj pairs = List.map_filter (\<lambda>(source, tgt). map_option (Pair tgt) (jget obj source)) pairs"

definition new_workspace :: "string \<Rightarrow> string \<Rightarrow> json \<Rightarrow> workspace" where
  "new_workspace wid timestamp doc =
     (let spec = spec_of doc in
      \<lparr>w_workspace_id = wid, w_name = doc_name doc, w_version = 1, w_provider = jstr (jget spec ''provider''),
       w_state = WProvisioning,
       w_resources = renamed (jobj (jget spec ''resources''))
         [(''cpuMillis'', ''cpu_millis''), (''memoryMib'', ''memory_mib''), (''diskGib'', ''disk_gib'')],
       w_tools = spec_get spec ''tools'', w_required_capabilities = spec_get spec ''requiredCapabilities'',
       w_labels = renamed (jobj (jget spec ''owner''))
         [(''jobId'', ''job_id''), (''executionId'', ''execution_id''), (''stepAttemptId'', ''step_attempt_id'')],
       w_active_attempt_ids = [], w_created_at = timestamp, w_updated_at = timestamp, w_runtime = None, w_failure = None\<rparr>)"

text \<open>The rejections of \<open>_accept\<close> in their order; None admits the document.\<close>

definition apply_error :: "vcp_cfg \<Rightarrow> (nat \<Rightarrow> draw) \<Rightarrow> request \<Rightarrow> json \<Rightarrow> workspace_doc option \<Rightarrow> svc_error option" where
  "apply_error cfg ds rq doc existing =
     (case validate cfg ds rq of
        Some e \<Rightarrow> Some e
      | None \<Rightarrow>
        (case (rq_expected_version rq, existing) of
           (Some v, None) \<Rightarrow> Some (not_found ''workspace does not exist'' ''workspace'' (doc_name doc))
         | (expected, _) \<Rightarrow>
           (if (case (expected, existing) of (Some v, Some x) \<Rightarrow> v \<noteq> w_version (wd_snapshot x) | _ \<Rightarrow> False)
            then (case (expected, existing) of (Some v, Some x) \<Rightarrow> Some (version_error v (w_version (wd_snapshot x))) | _ \<Rightarrow> None)
            else if (case existing of Some x \<Rightarrow> w_state (wd_snapshot x) = WDestroyed | None \<Rightarrow> False)
            then (case existing of Some x \<Rightarrow> Some (state_error ''workspace has been destroyed'' ''workspace''
                    (w_workspace_id (wd_snapshot x)) ''destroyed'' []) | None \<Rightarrow> None)
            else
              (let name = jstr (jget (spec_of doc) ''provider'') in
               case tget (vc_providers cfg) name of
                 None \<Rightarrow> Some (capability_error ''provider is not configured'' (''provider.'' @ name))
               | Some p \<Rightarrow>
                   (case admission_error p doc of
                      Some e \<Rightarrow> Some e
                    | None \<Rightarrow>
                        (case existing of
                           None \<Rightarrow> None
                         | Some x \<Rightarrow>
                             if immutable_changed (spec_of (wd_specification x)) (spec_of doc)
                             then Some (invalid_argument
                               [(''payload.workspace.spec'', ''provider, resources and requiredCapabilities are immutable'')])
                             else if \<not> json_eq (wd_specification x) doc
                             then Some (capability_error ''workspace updates are not supported yet'' ''workspaces.apply.update'')
                             else None))))))"

definition apply_new :: "vcp_cfg \<Rightarrow> (nat \<Rightarrow> draw) \<Rightarrow> request \<Rightarrow> json \<Rightarrow> vcp_db \<Rightarrow> vcp_exn + response \<times> vcp_db" where
  "apply_new cfg ds rq doc db =
     (let wid = identity ''ws_'' (d_uuid (ds 0));
          rid = identity ''rt_'' (d_uuid (ds 1));
          timestamp = d_now (ds 2);
          provider = jstr (jget (spec_of doc) ''provider'');
          snapshot = new_workspace wid timestamp doc;
          op = new_operation (ds 3) rq OpApply wid timestamp OpPending;
          oid = o_operation_id op;
          db1 = put_workspace wid \<lparr>wd_snapshot = snapshot, wd_specification = doc, wd_operation_id = oid,
                  wd_active_operation_id = Some oid\<rparr> db;
          db2 = put_operation oid (operation_record op (rq_causal_path rq)) db1;
          db3 = put_runtime wid \<lparr>rd_runtime_id = rid, rd_generation = 1, rd_provider = provider, rd_locator = None\<rparr> db2
      in sbind (append_event (vc_event_ok cfg)
                  (event (ds 4) snapshot op (rq_causal_path rq) [(''provider'', JStr provider)]) db3)
           (\<lambda>db4. Inr (accepted rq oid wid, db4)))"

definition accept_apply :: "vcp_cfg \<Rightarrow> (nat \<Rightarrow> draw) \<Rightarrow> request \<Rightarrow> vcp_db \<Rightarrow> vcp_exn + response \<times> vcp_db" where
  "accept_apply cfg ds rq db =
     (case rq_payload rq of
        PApply doc \<Rightarrow>
          (let existing = workspace_named (doc_name doc) db in
           case apply_error cfg ds rq doc existing of
             Some e \<Rightarrow> Inl (Service e)
           | None \<Rightarrow>
               (case existing of
                  Some x \<Rightarrow> Inr (accepted rq (wd_operation_id x) (w_workspace_id (wd_snapshot x)), db)
                | None \<Rightarrow> apply_new cfg ds rq doc db))
      | _ \<Rightarrow> Inl VKeyError)"

section \<open>Ensure and destroy\<close>

definition load_workspace :: "request \<Rightarrow> vcp_db \<Rightarrow> svc_error + workspace_doc" where
  "load_workspace rq db =
     (case get_workspace (rq_workspace_id rq) db of
        None \<Rightarrow> Inl (not_found ''workspace does not exist'' ''workspace'' (rq_workspace_id rq))
      | Some d \<Rightarrow> (case rq_expected_version rq of
          Some v \<Rightarrow> if v \<noteq> w_version (wd_snapshot d) then Inl (version_error v (w_version (wd_snapshot d))) else Inr d
        | None \<Rightarrow> Inr d))"

definition require_idle :: "workspace_doc \<Rightarrow> svc_error option" where
  "require_idle d = (case wd_active_operation_id d of
     None \<Rightarrow> None
   | Some oid \<Rightarrow> Some (service_error UNAVAILABLE ''another operation on this workspace is in progress''
                        (Some [(''operation_id'', JStr oid)])))"

text \<open>The rejections of a handler as one value.\<close>

definition check :: "svc_error option \<Rightarrow> svc_error + unit" where
  "check e = (case e of None \<Rightarrow> Inr () | Some x \<Rightarrow> Inl x)"

definition raise_if :: "bool \<Rightarrow> svc_error \<Rightarrow> svc_error + unit" where
  "raise_if b e = (if b then Inl e else Inr ())"

definition service_bind :: "svc_error + 'a \<Rightarrow> ('a \<Rightarrow> vcp_exn + 'b) \<Rightarrow> vcp_exn + 'b" where
  "service_bind x f = (case x of Inl e \<Rightarrow> Inl (Service e) | Inr a \<Rightarrow> f a)"

definition ensure_check :: "vcp_cfg \<Rightarrow> (nat \<Rightarrow> draw) \<Rightarrow> request \<Rightarrow> string option \<Rightarrow> vcp_db \<Rightarrow> svc_error + workspace_doc" where
  "ensure_check cfg ds rq restore db =
     sbind (check (validate cfg ds rq)) (\<lambda>_.
     sbind (load_workspace rq db) (\<lambda>d.
     sbind (check (require_idle d)) (\<lambda>_.
     sbind (raise_if (w_state (wd_snapshot d) = WSuspended \<and> (case restore of None \<Rightarrow> True | Some r \<Rightarrow> r = ''allow''))
              (service_error UNSUPPORTED_CAPABILITY ''restoring a suspended workspace is not supported''
                (Some [(''capability'', JStr ''restore_same_host''), (''provider'', JStr (w_provider (wd_snapshot d)))]))) (\<lambda>_.
     sbind (raise_if (w_state (wd_snapshot d) \<noteq> WReady)
              (state_error ''only a ready workspace can be ensured'' ''workspace'' (rq_workspace_id rq)
                (workspace_state_name (w_state (wd_snapshot d))) [''ready''])) (\<lambda>_.
     sbind (raise_if (tget (vc_providers cfg) (w_provider (wd_snapshot d)) = None)
              (capability_error ''provider is not configured'' (''provider.'' @ w_provider (wd_snapshot d)))) (\<lambda>_.
     Inr d))))))"

definition accept_ensure :: "vcp_cfg \<Rightarrow> (nat \<Rightarrow> draw) \<Rightarrow> request \<Rightarrow> vcp_db \<Rightarrow> vcp_exn + response \<times> vcp_db" where
  "accept_ensure cfg ds rq db =
     (case rq_payload rq of
        PEnsure restore \<Rightarrow> service_bind (ensure_check cfg ds rq restore db) (\<lambda>d.
          let op = new_operation (ds 1) rq OpEnsure (rq_workspace_id rq) (d_now (ds 0)) OpPending;
              oid = o_operation_id op
          in Inr (accepted rq oid (rq_workspace_id rq),
                  put_operation oid (operation_record op (rq_causal_path rq))
                    (put_workspace (rq_workspace_id rq) (d\<lparr>wd_active_operation_id := Some oid\<rparr>) db)))
      | _ \<Rightarrow> Inl VKeyError)"

definition destroyable :: "workspace_state list" where
  "destroyable = [WReady, WFailed, WSuspended, WDestroyed]"

definition destroy_check :: "vcp_cfg \<Rightarrow> (nat \<Rightarrow> draw) \<Rightarrow> request \<Rightarrow> vcp_db \<Rightarrow> svc_error + workspace_doc" where
  "destroy_check cfg ds rq db =
     sbind (check (validate cfg ds rq)) (\<lambda>_.
     sbind (load_workspace rq db) (\<lambda>d.
     let state = workspace_state_name (w_state (wd_snapshot d)); allowed = map workspace_state_name destroyable in
     sbind (raise_if (w_active_attempt_ids (wd_snapshot d) \<noteq> [])
              (state_error ''workspace has active attempts'' ''workspace'' (rq_workspace_id rq) state allowed)) (\<lambda>_.
     sbind (check (require_idle d)) (\<lambda>_.
     sbind (raise_if (w_state (wd_snapshot d) \<notin> set destroyable)
              (state_error ''workspace cannot be destroyed in this state'' ''workspace'' (rq_workspace_id rq) state allowed)) (\<lambda>_.
     Inr d)))))"

definition destroy_operation :: "(nat \<Rightarrow> draw) \<Rightarrow> request \<Rightarrow> json \<Rightarrow> workspace_doc \<Rightarrow> operation" where
  "destroy_operation ds rq retention d =
     (if w_state (wd_snapshot d) = WDestroyed
      then (new_operation (ds 1) rq OpDestroy (rq_workspace_id rq) (d_now (ds 0)) OpSucceeded)\<lparr>o_result := Some [(''retention'', retention)]\<rparr>
      else new_operation (ds 1) rq OpDestroy (rq_workspace_id rq) (d_now (ds 0)) OpPending)"

definition destroying_doc :: "string \<Rightarrow> string \<Rightarrow> workspace_doc \<Rightarrow> workspace_doc" where
  "destroying_doc timestamp oid d =
     (if w_state (wd_snapshot d) = WDestroyed then d
      else d\<lparr>wd_active_operation_id := Some oid, wd_snapshot := (wd_snapshot d)\<lparr>w_state := WDestroying,
             w_version := w_version (wd_snapshot d) + 1, w_updated_at := timestamp, w_failure := None\<rparr>\<rparr>)"

definition accept_destroy :: "vcp_cfg \<Rightarrow> (nat \<Rightarrow> draw) \<Rightarrow> request \<Rightarrow> vcp_db \<Rightarrow> vcp_exn + response \<times> vcp_db" where
  "accept_destroy cfg ds rq db =
     (case rq_payload rq of
        PDestroy retention \<Rightarrow> service_bind (destroy_check cfg ds rq db) (\<lambda>d.
          let op = destroy_operation ds rq retention d
          in Inr (accepted rq (o_operation_id op) (rq_workspace_id rq),
                  put_operation (o_operation_id op) ((operation_record op (rq_causal_path rq))\<lparr>od_retention := Some retention\<rparr>)
                    (put_workspace (rq_workspace_id rq) (destroying_doc (d_now (ds 0)) (o_operation_id op) d) db)))
      | _ \<Rightarrow> Inl VKeyError)"

section \<open>The worker\<close>

datatype verb = VProvision | VEnsure | VDestroy

fun verb_of :: "operation_kind \<Rightarrow> verb option" where
  "verb_of OpApply = Some VProvision"
| "verb_of OpEnsure = Some VEnsure"
| "verb_of OpDestroy = Some VDestroy"
| "verb_of _ = None"

fun verb_name :: "verb \<Rightarrow> string" where
  "verb_name VProvision = ''provision''"
| "verb_name VEnsure = ''ensure''"
| "verb_name VDestroy = ''destroy''"

definition workspace_of :: "operation_doc \<Rightarrow> string" where
  "workspace_of r = (case map_of (o_resources (od_snapshot r)) ''workspace_id'' of Some w \<Rightarrow> w | None \<Rightarrow> [])"

text \<open>The first transaction of \<open>_execute\<close>: claim a pending operation as running.\<close>

definition claim_operation :: "draw \<Rightarrow> operation_doc \<Rightarrow> vcp_db \<Rightarrow> operation_doc \<times> vcp_db" where
  "claim_operation d r db =
     (if o_status (od_snapshot r) = OpPending
      then let r1 = r\<lparr>od_snapshot := (od_snapshot r)\<lparr>o_status := OpRunning, o_updated_at := d_now d\<rparr>\<rparr>
           in (r1, put_operation (o_operation_id (od_snapshot r)) r1 db)
      else (r, db))"

text \<open>\<open>_complete\<close>: the terminal state of an operation, merged into the current documents.\<close>

definition finished_operation :: "string \<Rightarrow> svc_error option \<Rightarrow> operation_doc \<Rightarrow> operation_doc" where
  "finished_operation timestamp err r = r\<lparr>od_attempts := 0, od_not_before := [],
     od_snapshot := (od_snapshot r)\<lparr>o_status := (if err = None then OpSucceeded else OpFailed), o_updated_at := timestamp,
       o_error := (case err of None \<Rightarrow> o_error (od_snapshot r) | Some e \<Rightarrow> Some e)\<rparr>\<rparr>"

definition release_lock :: "string \<Rightarrow> workspace_doc \<Rightarrow> workspace_doc" where
  "release_lock oid d = (if wd_active_operation_id d = Some oid then d\<lparr>wd_active_operation_id := None\<rparr> else d)"

definition with_result :: "(string \<times> json) list \<Rightarrow> operation_doc \<Rightarrow> operation_doc" where
  "with_result result r = r\<lparr>od_snapshot := (od_snapshot r)\<lparr>o_result := Some result\<rparr>\<rparr>"

text \<open>
  An ensured workspace stays as it is: no state change, version bump or second ready event. A
  failed ensure keeps the runtime document as it was read, even if there was none.
\<close>

definition complete_ensure ::
  "json option \<Rightarrow> svc_error option \<Rightarrow> runtime_doc option \<Rightarrow> operation_doc \<Rightarrow> vcp_exn + operation_doc \<times> runtime_doc option" where
  "complete_ensure locator err runtime r =
     (if err \<noteq> None then Inr (r, runtime)
      else case runtime of
        None \<Rightarrow> Inl VTypeError
      | Some x \<Rightarrow> Inr (with_result [(''runtime_id'', JStr (rd_runtime_id x)),
              (''runtime_generation'', JInt (int (rd_generation x))), (''restored'', JBool False)] r,
              Some (x\<lparr>rd_locator := locator\<rparr>)))"

definition bump_version :: "string \<Rightarrow> workspace \<Rightarrow> workspace" where
  "bump_version timestamp w = w\<lparr>w_version := w_version w + 1, w_updated_at := timestamp\<rparr>"

definition save_completion ::
  "string \<Rightarrow> workspace_doc \<Rightarrow> operation_doc \<Rightarrow> runtime_doc option \<Rightarrow> vcp_db \<Rightarrow> vcp_db" where
  "save_completion wid d r runtime db =
     (let db1 = put_operation (o_operation_id (od_snapshot r)) r (put_workspace wid d db)
      in case runtime of None \<Rightarrow> db1 | Some x \<Rightarrow> put_runtime wid x db1)"

definition complete_failed ::
  "vcp_cfg \<Rightarrow> draw \<Rightarrow> string \<Rightarrow> svc_error \<Rightarrow> workspace_doc \<Rightarrow> workspace \<Rightarrow> operation_doc \<Rightarrow> runtime_doc \<Rightarrow> vcp_db
   \<Rightarrow> vcp_exn + vcp_db" where
  "complete_failed cfg dr wid e d w r runtime db =
     (let w1 = w\<lparr>w_state := WFailed, w_failure := Some e\<rparr> in
      sbind (append_event (vc_event_ok cfg) (event dr w1 (od_snapshot r) (od_causal_path r)
               [(''error'', error_json e), (''runtime_generation'', JInt (int (rd_generation runtime)))]) db)
        (\<lambda>db1. Inr (save_completion wid (d\<lparr>wd_snapshot := w1\<rparr>) r (Some runtime) db1)))"

definition complete_destroyed ::
  "vcp_cfg \<Rightarrow> draw \<Rightarrow> string \<Rightarrow> workspace_doc \<Rightarrow> workspace \<Rightarrow> operation_doc \<Rightarrow> vcp_db \<Rightarrow> vcp_exn + vcp_db" where
  "complete_destroyed cfg dr wid d w r db =
     (case od_retention r of
        None \<Rightarrow> Inl VKeyError
      | Some retention \<Rightarrow>
          (let w1 = w\<lparr>w_state := WDestroyed, w_runtime := None, w_failure := None\<rparr>;
               result = [(''retention'', retention)];
               r1 = with_result result r
           in sbind (append_event (vc_event_ok cfg)
                       (event dr w1 (od_snapshot r1) (od_causal_path r1) result) (delete_runtime wid db))
                (\<lambda>db1. Inr (save_completion wid (d\<lparr>wd_snapshot := w1\<rparr>) r1 None db1))))"

definition complete_ready ::
  "vcp_cfg \<Rightarrow> draw \<Rightarrow> string \<Rightarrow> string \<Rightarrow> json option \<Rightarrow> workspace_doc \<Rightarrow> workspace \<Rightarrow> operation_doc \<Rightarrow> runtime_doc \<Rightarrow> vcp_db
   \<Rightarrow> vcp_exn + vcp_db" where
  "complete_ready cfg dr wid timestamp locator d w r runtime db =
     (let runtime1 = runtime\<lparr>rd_locator := locator\<rparr>;
          w1 = w\<lparr>w_state := WReady, w_runtime := Some \<lparr>rv_runtime_id = rd_runtime_id runtime,
                 rv_generation = rd_generation runtime, rv_state = ''running'', rv_started_at = timestamp\<rparr>\<rparr>;
          r1 = with_result [(''workspace_id'', JStr wid), (''created'', JBool True),
                 (''runtime_id'', JStr (rd_runtime_id runtime)),
                 (''runtime_generation'', JInt (int (rd_generation runtime)))] r
      in sbind (append_event (vc_event_ok cfg) (event dr w1 (od_snapshot r1) (od_causal_path r1)
                  [(''runtime_generation'', JInt (int (rd_generation runtime)))]) db)
           (\<lambda>db1. Inr (save_completion wid (d\<lparr>wd_snapshot := w1\<rparr>) r1 (Some runtime1) db1)))"

definition complete ::
  "vcp_cfg \<Rightarrow> (nat \<Rightarrow> draw) \<Rightarrow> operation_doc \<Rightarrow> verb \<Rightarrow> json option \<Rightarrow> svc_error option \<Rightarrow> vcp_db \<Rightarrow> vcp_exn + vcp_db" where
  "complete cfg ds record0 verb locator err db =
     (let wid = workspace_of record0; timestamp = d_now (ds 0) in
      case get_workspace wid db of
        None \<Rightarrow> Inl VTypeError
      | Some d0 \<Rightarrow>
          (let r = finished_operation timestamp err record0;
               d = release_lock (o_operation_id (od_snapshot r)) d0;
               w = bump_version timestamp (wd_snapshot d)
           in if verb = VEnsure
              then sbind (complete_ensure locator err (tget (v_runtimes db) wid) r) (\<lambda>(r1, runtime1).
                     Inr (save_completion wid d r1 runtime1 db))
              else case tget (v_runtimes db) wid of
                None \<Rightarrow> if err = None \<and> verb = VDestroy then complete_destroyed cfg (ds 1) wid d w r db else Inl VTypeError
              | Some runtime \<Rightarrow>
                  (case err of
                     Some e \<Rightarrow> complete_failed cfg (ds 1) wid e d w r runtime db
                   | None \<Rightarrow> if verb = VDestroy then complete_destroyed cfg (ds 1) wid d w r db
                             else complete_ready cfg (ds 1) wid timestamp locator d w r runtime db)))"

definition gave_up :: "nat \<Rightarrow> svc_error \<Rightarrow> svc_error" where
  "gave_up attempts failure = service_error PROVIDER_ERROR
     (take 2048 (''provider failed '' @ show_nat attempts @ '' times; last: '' @ se_message failure))
     (Some [(''attempts'', JInt (int attempts)), (''last_error'', error_json failure)])"

definition retry ::
  "vcp_cfg \<Rightarrow> (nat \<Rightarrow> draw) \<Rightarrow> operation_doc \<Rightarrow> verb \<Rightarrow> svc_error \<Rightarrow> vcp_db \<Rightarrow> vcp_exn + vcp_db" where
  "retry cfg ds r verb failure db =
     (let attempts = od_attempts r + 1 in
      if attempts \<ge> max_attempts then complete cfg ds r verb None (Some (gave_up attempts failure)) db
      else Inr (put_operation (o_operation_id (od_snapshot r))
             (r\<lparr>od_attempts := attempts, od_not_before := vc_later cfg (d_now (ds 0)) (retry_delay attempts),
                od_snapshot := (od_snapshot r)\<lparr>o_updated_at := d_now (ds 1)\<rparr>\<rparr>) db))"

text \<open>What the provider call did: returned a locator (None from destroy), timed out, or raised.\<close>

datatype call_outcome = Returned "json option" | TimedOut | RaisedService svc_error | RaisedOther

text \<open>
  The rest of \<open>_execute\<close> after the claim; \<open>owned\<close> is the runtime document read with the claim.
\<close>

definition settle_call ::
  "vcp_cfg \<Rightarrow> (nat \<Rightarrow> draw) \<Rightarrow> operation_doc \<Rightarrow> runtime_doc \<Rightarrow> call_outcome \<Rightarrow> vcp_db \<Rightarrow> vcp_exn + vcp_db" where
  "settle_call cfg ds r owned outcome db =
     (case verb_of (o_operation (od_snapshot r)) of
        None \<Rightarrow> Inl VKeyError
      | Some verb \<Rightarrow>
          if tget (vc_providers cfg) (rd_provider owned) = None
          then complete cfg ds r verb None (Some (service_error PROVIDER_ERROR
                 (''provider '' @ rd_provider owned @ '' is not configured on this host'')
                 (Some [(''provider'', JStr (rd_provider owned))]))) db
          else (case outcome of
                  Returned locator \<Rightarrow> complete cfg ds r verb locator None db
                | TimedOut \<Rightarrow> retry cfg ds r verb (service_error UNAVAILABLE ''provider call timed out'' None) db
                | RaisedService e \<Rightarrow> if se_retryable e then retry cfg ds r verb e db
                                    else complete cfg ds r verb None (Some e) db
                | RaisedOther \<Rightarrow> complete cfg ds r verb None (Some (service_error PROVIDER_ERROR
                    (''provider could not '' @ verb_name verb @ '' the workspace'') None)) db))"

text \<open>One page of \<open>_reconcile\<close>: which operations to start, and where the next page begins.\<close>

definition reconcile_page :: "nat \<Rightarrow> string \<Rightarrow> string \<Rightarrow> vcp_db \<Rightarrow> operation_doc list \<times> string \<times> bool" where
  "reconcile_page limit after due db =
     (let page = pending_allocations limit after db in
      (filter (\<lambda>r. od_not_before r \<le> due) page,
       (if page = [] then after else o_operation_id (od_snapshot (last page))), page = []))"

section \<open>Queries\<close>

definition capabilities_query :: "vcp_cfg \<Rightarrow> string option \<Rightarrow> provider list" where
  "capabilities_query cfg selected =
     map snd (filter (\<lambda>(n, p). selected = None \<or> selected = Some n) (sort_key fst (vc_providers cfg)))"

definition read_workspace :: "string \<Rightarrow> vcp_db \<Rightarrow> svc_error + workspace" where
  "read_workspace key db = (case get_workspace key db of
     None \<Rightarrow> Inl (not_found ''resource does not exist'' ''workspaces'' key) | Some d \<Rightarrow> Inr (wd_snapshot d))"

definition read_operation :: "string \<Rightarrow> vcp_db \<Rightarrow> svc_error + operation" where
  "read_operation key db = (case tget (v_operations db) key of
     None \<Rightarrow> Inl (not_found ''resource does not exist'' ''operations'' key) | Some d \<Rightarrow> Inr (od_snapshot d))"

text \<open>
  A cursor is the text of its filters and the position after which to continue; base64 and JSON
  are the standard library's, so the decoded cursor (or its malformation) is the argument.
\<close>

datatype cursor = NoCursor | Malformed | Cursor page_filter "string \<times> string"

definition list_workspaces ::
  "page_filter \<Rightarrow> cursor \<Rightarrow> nat \<Rightarrow> vcp_db \<Rightarrow> svc_error + workspace list \<times> cursor" where
  "list_workspaces f c limit db =
     sbind (case c of
              NoCursor \<Rightarrow> Inr None
            | Malformed \<Rightarrow> Inl (service_error INVALID_CURSOR ''invalid workspace cursor'' (Some [(''reason'', JStr ''malformed'')]))
            | Cursor g a \<Rightarrow> if g = f then Inr (Some a)
                else Inl (service_error INVALID_CURSOR ''invalid workspace cursor'' (Some [(''reason'', JStr ''filters_changed'')])))
       (\<lambda>after.
          let items = workspace_page f after (limit + 1) db;
              page = take limit items
          in Inr (page, if length items > limit
                        then Cursor f (w_created_at (last page), w_workspace_id (last page)) else NoCursor))"

end
