(* ===== verification/Vcp_Execution.thy ===== *)
theory Vcp_Execution
  imports Vcp_Lifecycle
begin

text \<open>
  Execution in the virtual control plane (\<open>application/execution.py\<close> and \<open>application/steering.py\<close>):
  admission and acceptance of execute, cancel and steer, the trusted projections of the runtime's
  updates (\<open>transition\<close>, \<open>progress\<close>, \<open>project\<close>), and the session and history queries. The context
  adapter and the filesystem are parameters of the preflight.
\<close>

section \<open>Admission of an execution\<close>

definition running_runtime :: "workspace \<Rightarrow> runtime_doc option \<Rightarrow> bool" where
  "running_runtime w runtime \<longleftrightarrow> w_state w = WReady \<and> (case (w_runtime w, runtime) of
     (Some v, Some r) \<Rightarrow> rv_state v = ''running'' \<and> rv_runtime_id v = rd_runtime_id r \<and> rv_generation v = rd_generation r
   | _ \<Rightarrow> False)"

text \<open>\<open>runtime.get("locator")\<close> is set and not an empty value.\<close>

definition located :: "runtime_doc \<Rightarrow> bool" where
  "located r \<longleftrightarrow> rd_locator r \<notin> {None, Some JNull, Some (JObj []), Some (JList []), Some (JStr []), Some (JBool False),
     Some (JInt 0), Some (JFloat 0)}"

definition status_ready :: "string \<Rightarrow> runtime_doc \<Rightarrow> runtime_status option \<Rightarrow> bool" where
  "status_ready wid runtime status = (case status of
     None \<Rightarrow> False
   | Some s \<Rightarrow> rs_ready s \<and> \<not> rs_quarantined s \<and> rs_workspace_id s = wid \<and> rs_generation s = rd_generation runtime)"

definition agent_eq :: "agent \<Rightarrow> agent \<Rightarrow> bool" where
  "agent_eq a b \<longleftrightarrow> runner a = runner b \<and> agent_model a = agent_model b \<and> json_eq (JObj (settings a)) (JObj (settings b))"

definition select_session ::
  "(nat \<Rightarrow> draw) \<Rightarrow> string \<Rightarrow> runtime_doc \<Rightarrow> execute_request \<Rightarrow> vcp_db \<Rightarrow> svc_error + session" where
  "select_session ds wid runtime e db =
     (case er_session e of
        SelNew \<Rightarrow> Inr \<lparr>s_session_id = identity ''session_'' (d_uuid (ds 1)), s_workspace_id = wid,
          s_runtime_generation = rd_generation runtime, s_agent = er_agent e, s_state = SessActive, s_attempts = [],
          s_created_at = d_now (ds 0), s_updated_at = d_now (ds 0)\<rparr>
      | SelContinue sid \<Rightarrow>
          (case tget (v_sessions db) sid of
             None \<Rightarrow> Inl (not_found ''session does not exist in this workspace'' ''session'' sid)
           | Some stored \<Rightarrow>
               (let s = sd_snapshot stored in
                if s_workspace_id s \<noteq> wid then Inl (not_found ''session does not exist in this workspace'' ''session'' sid)
                else if s_state s \<noteq> SessIdle \<or> s_runtime_generation s \<noteq> rd_generation runtime
                then Inl (state_error ''session must be idle in the current generation'' ''session'' (s_session_id s)
                       (if s_state s = SessActive then ''active'' else ''idle'') [''idle''])
                else if \<not> agent_eq (s_agent s) (er_agent e)
                then Inl (invalid_argument [(''agent'', ''continuation requires the same agent configuration'')])
                else Inr s)))"

definition admit ::
  "vcp_cfg \<Rightarrow> (nat \<Rightarrow> draw) \<Rightarrow> request \<Rightarrow> execute_request \<Rightarrow> vcp_db \<Rightarrow> svc_error + workspace_doc \<times> runtime_doc \<times> session" where
  "admit cfg ds rq e db =
     sbind (check (validate cfg ds rq)) (\<lambda>_.
     sbind (raise_if (\<not> vc_enabled cfg) (capability_error ''execution delivery is disabled'' ''execute'')) (\<lambda>_.
     sbind (load_workspace rq db) (\<lambda>d.
     sbind (check (require_idle d)) (\<lambda>_.
     let wid = rq_workspace_id rq; w = wd_snapshot d; runtime = tget (v_runtimes db) wid;
         not_ready = state_error ''execute requires a ready owned runtime'' ''workspace'' wid
           (workspace_state_name (w_state w)) [''ready''] in
     (case runtime of
        None \<Rightarrow> Inl not_ready
      | Some r \<Rightarrow>
          if \<not> running_runtime w runtime \<or> \<not> located r then Inl not_ready
          else (let status = tget (v_status db) (rd_runtime_id r) in
                case status of
                  None \<Rightarrow> Inl (service_error UNAVAILABLE ''runtime has not registered execution readiness'' None)
                | Some s \<Rightarrow>
                    if \<not> status_ready wid r status
                    then Inl (service_error UNAVAILABLE ''runtime has not registered execution readiness'' None)
                    else if runner (er_agent e) \<notin> set (rs_executors s)
                    then Inl (capability_error ''executor is not registered'' (''executor.'' @ runner (er_agent e)))
                    else if length (w_active_attempt_ids w) \<ge> rs_max_concurrent_attempts s
                    then Inl (service_error UNAVAILABLE ''runtime concurrency limit reached'' None)
                    else sbind (select_session ds wid r e db) (\<lambda>session. Inr (d, r, session))))))))"

section \<open>Preparation\<close>

definition paths_error :: "(string \<Rightarrow> bool \<Rightarrow> bool) \<Rightarrow> task_context \<Rightarrow> svc_error option" where
  "paths_error inside c =
     (if references c = [] \<and> inside (working_directory c) True \<and> (\<forall>f \<in> set (instruction_files c). inside f False)
      then None else Some (invalid_argument [(''context'', ''paths must exist inside the authorized workspace root'')]))"

datatype preflight =
    Replayed response
  | Refused vcp_exn
  | Prepared workspace_doc runtime_doc task_context

text \<open>
  The first part of \<open>execute\<close>: replay and admission in a transaction of their own, then the
  context adapter's answer and the path check. \<open>inside\<close> is the filesystem below the answer's root.
\<close>

definition execute_preflight ::
  "vcp_cfg \<Rightarrow> (nat \<Rightarrow> draw) \<Rightarrow> (workspace_doc \<Rightarrow> runtime_doc \<Rightarrow> execute_request \<Rightarrow> svc_error + task_context)
   \<Rightarrow> (string \<Rightarrow> bool \<Rightarrow> bool) \<Rightarrow> request \<Rightarrow> execute_request \<Rightarrow> vcp_db \<Rightarrow> preflight" where
  "execute_preflight cfg ds prepare inside rq e db =
     (case replay rq db of
        Inl x \<Rightarrow> Refused x
      | Inr (Some r) \<Rightarrow> Replayed r
      | Inr None \<Rightarrow>
          (case admit cfg ds rq e db of
             Inl x \<Rightarrow> Refused (Service x)
           | Inr (d, r, _) \<Rightarrow>
               (case prepare d r e of
                  Inl x \<Rightarrow> Refused (Service x)
                | Inr c \<Rightarrow> (case paths_error inside c of Some x \<Rightarrow> Refused (Service x) | None \<Rightarrow> Prepared d r c))))"

section \<open>Acceptance\<close>

definition cause_of :: "operation \<Rightarrow> request \<Rightarrow> cause" where
  "cause_of op rq = \<lparr>cause_operation_id = o_operation_id op, cause_command_id = o_command_id op,
     causal_path = rq_causal_path rq\<rparr>"

definition runtime_command_errors :: "vcp_cfg \<Rightarrow> runtime_command \<Rightarrow> string \<Rightarrow> svc_error option" where
  "runtime_command_errors cfg m field =
     (let errors = validate_command (vc_command_schema cfg m) (subject_for ''runtime'' (runtime_id (target m)) (command_action (body m))) m
      in if errors = [] then None else Some (invalid_argument [(field, join_with ''; '' errors)]))"

definition append_command :: "runtime_command \<Rightarrow> string \<Rightarrow> vcp_db \<Rightarrow> vcp_exn + vcp_db" where
  "append_command m aid db = append_runtime_command (command_id m) aid
     (subject_for ''runtime'' (runtime_id (target m)) (command_action (body m))) m db"

definition resources_of :: "attempt_target \<Rightarrow> (string \<times> string) list" where
  "resources_of t = [(''workspace_id'', workspace_id t), (''runtime_id'', runtime_id t),
     (''session_id'', session_id t), (''attempt_id'', attempt_id t)]"

definition new_vattempt :: "attempt_target \<Rightarrow> json \<Rightarrow> vattempt" where
  "new_vattempt t instruction = \<lparr>va_workspace_id = workspace_id t, va_session_id = session_id t,
     va_attempt_id = attempt_id t, va_runtime_generation = runtime_generation t, va_state = VStarting,
     va_instruction = instruction, va_started_at = None, va_ended_at = None, va_error = None, va_result = None,
     va_usage = None\<rparr>"

text \<open>\<open>_accept\<close> after its checks: the records of one accepted execution, written together.\<close>

definition write_execution ::
  "(nat \<Rightarrow> draw) \<Rightarrow> request \<Rightarrow> workspace_doc \<Rightarrow> session \<Rightarrow> attempt_target \<Rightarrow> operation \<Rightarrow> runtime_command \<Rightarrow> execute_request
   \<Rightarrow> vcp_db \<Rightarrow> vcp_exn + vcp_db" where
  "write_execution ds rq d session t op m e db =
     (let timestamp = d_now (ds 3);
          attempt = new_vattempt t (jobj (jget (er_task e) ''instruction''));
          session1 = session\<lparr>s_state := SessActive, s_updated_at := timestamp, s_attempts := take 20 (attempt # s_attempts session)\<rparr>;
          w = wd_snapshot d;
          w1 = w\<lparr>w_active_attempt_ids := w_active_attempt_ids w @ [attempt_id t], w_version := w_version w + 1,
                 w_updated_at := timestamp\<rparr>;
          history = (case tget (v_sessions db) (s_session_id session) of None \<Rightarrow> 0 | Some s \<Rightarrow> sd_history_sequence s);
          db1 = put_session (s_session_id session) \<lparr>sd_snapshot = session1, sd_history_sequence = history\<rparr> db;
          db2 = put_attempt (attempt_id t) \<lparr>ad_snapshot = attempt, ad_operation_id = o_operation_id op, ad_cancel = None,
                  ad_attempt_sequence = 0, ad_usage_period_end = None\<rparr> db1
      in sbind (put_binding (attempt_id t) \<lparr>bd_target = t, bd_execution = execution_of m,
                  bd_session_mode = (case er_session e of SelNew \<Rightarrow> ModeNew | SelContinue _ \<Rightarrow> ModeContinue)\<rparr> db2) (\<lambda>db3.
           append_command m (attempt_id t)
             (put_workspace (rq_workspace_id rq) (d\<lparr>wd_snapshot := w1\<rparr>)
               (put_operation (o_operation_id op) (operation_record op (rq_causal_path rq)) db3))))"

definition execution_parts ::
  "(nat \<Rightarrow> draw) \<Rightarrow> request \<Rightarrow> runtime_doc \<Rightarrow> session \<Rightarrow> task_context \<Rightarrow> execute_request
   \<Rightarrow> attempt_target \<times> operation \<times> runtime_command" where
  "execution_parts ds rq runtime session c e =
     (let t = \<lparr>workspace_id = rq_workspace_id rq, runtime_id = rd_runtime_id runtime,
               runtime_generation = rd_generation runtime, session_id = s_session_id session,
               attempt_id = identity ''attempt_'' (d_uuid (ds 4))\<rparr>;
          op = (new_operation (ds 6) rq OpExecute (rq_workspace_id rq) (d_now (ds 3)) OpPending)\<lparr>o_resources := resources_of t\<rparr>;
          cid = identity ''rtc_'' (d_uuid (ds 5))
      in (t, op, \<lparr>command_id = cid, target = t, execution_of = \<lparr>exec_command_id = cid, exec_cause = cause_of op rq\<rparr>,
            body = Execute \<lparr>ep_agent = er_agent e, ep_task = er_task e,
              ep_session_mode = (case er_session e of SelNew \<Rightarrow> ModeNew | SelContinue _ \<Rightarrow> ModeContinue), ep_context = c\<rparr>\<rparr>))"

definition context_changed :: svc_error where
  "context_changed = service_error UNAVAILABLE ''execution context changed during preparation'' None"

definition accept_execution ::
  "vcp_cfg \<Rightarrow> (nat \<Rightarrow> draw) \<Rightarrow> workspace_doc \<Rightarrow> runtime_doc \<Rightarrow> task_context \<Rightarrow> execute_request \<Rightarrow> request \<Rightarrow> vcp_db
   \<Rightarrow> vcp_exn + response \<times> vcp_db" where
  "accept_execution cfg ds previous owned c e rq db =
     service_bind (admit cfg ds rq e db) (\<lambda>(d, runtime, session).
       if \<not> json_eq (wd_specification d) (wd_specification previous) \<or> runtime \<noteq> owned then Inl (Service context_changed)
       else (case execution_parts ds rq runtime session c e of (t, op, m) \<Rightarrow>
         service_bind (check (runtime_command_errors cfg m ''context'')) (\<lambda>_.
           sbind (write_execution ds rq d session t op m e db) (\<lambda>db1.
             Inr (accepted rq (o_operation_id op) (attempt_id t), db1)))))"

definition accept_execute :: "vcp_cfg \<Rightarrow> (nat \<Rightarrow> draw) \<Rightarrow> preflight \<Rightarrow> execute_request \<Rightarrow> request \<Rightarrow> vcp_db
   \<Rightarrow> vcp_exn + response \<times> vcp_db" where
  "accept_execute cfg ds pre e rq db =
     (case pre of
        Prepared d r c \<Rightarrow> accept_execution cfg ds d r c e rq db
      | Refused x \<Rightarrow> Inl x
      | Replayed r \<Rightarrow> Inr (r, db))"

text \<open>
  The whole of \<open>execute\<close>: the preflight reads the database as it was before preparation, the
  command the database after it.
\<close>

definition vcp_execute ::
  "vcp_cfg \<Rightarrow> (nat \<Rightarrow> draw) \<Rightarrow> (workspace_doc \<Rightarrow> runtime_doc \<Rightarrow> execute_request \<Rightarrow> svc_error + task_context)
   \<Rightarrow> (string \<Rightarrow> bool \<Rightarrow> bool) \<Rightarrow> request \<Rightarrow> execute_request \<Rightarrow> vcp_db \<Rightarrow> vcp_db \<Rightarrow> (vcp_exn + response) \<times> vcp_db" where
  "vcp_execute cfg ds prepare inside rq e db0 db =
     (case execute_preflight cfg ds prepare inside rq e db0 of
        Replayed r \<Rightarrow> (Inr r, db)
      | pre \<Rightarrow> command (accept_execute cfg ds pre e) rq db)"

section \<open>Cancel\<close>

definition replace_attempt :: "string \<Rightarrow> vattempt \<Rightarrow> session \<Rightarrow> session" where
  "replace_attempt timestamp a s = s\<lparr>s_updated_at := timestamp,
     s_attempts := map (\<lambda>x. if va_attempt_id x = va_attempt_id a then a else x) (s_attempts s)\<rparr>"

definition ended_state :: "vattempt_state \<Rightarrow> bool" where
  "ended_state s \<longleftrightarrow> s \<in> {VCompleted, VFailed, VCancelled}"

fun vattempt_state_name :: "vattempt_state \<Rightarrow> string" where
  "vattempt_state_name VStarting = ''starting''"
| "vattempt_state_name VRunning = ''running''"
| "vattempt_state_name VCancelling = ''cancelling''"
| "vattempt_state_name VCompleted = ''completed''"
| "vattempt_state_name VFailed = ''failed''"
| "vattempt_state_name VCancelled = ''cancelled''"

definition owned_by :: "runtime_doc option \<Rightarrow> attempt_target \<Rightarrow> bool" where
  "owned_by runtime t = (case runtime of None \<Rightarrow> False
     | Some r \<Rightarrow> rd_runtime_id r = runtime_id t \<and> rd_generation r = runtime_generation t)"

definition put_cancel :: "string \<Rightarrow> attempt_doc \<Rightarrow> operation \<Rightarrow> request \<Rightarrow> vcp_db \<Rightarrow> response \<times> vcp_db" where
  "put_cancel aid r op rq db = (accepted rq (o_operation_id op) aid,
     put_operation (o_operation_id op) (operation_record op (rq_causal_path rq)) (put_attempt aid r db))"

definition cancel_message :: "draw \<Rightarrow> binding_doc \<Rightarrow> operation \<Rightarrow> request \<Rightarrow> string option \<Rightarrow> runtime_command" where
  "cancel_message dr b op rq reason = \<lparr>command_id = identity ''rtc_'' (d_uuid dr), target = bd_target b,
     execution_of = bd_execution b, body = Cancel (cause_of op rq) reason\<rparr>"

definition win_cancel ::
  "vcp_cfg \<Rightarrow> (nat \<Rightarrow> draw) \<Rightarrow> string \<Rightarrow> attempt_doc \<Rightarrow> binding_doc \<Rightarrow> operation \<Rightarrow> request \<Rightarrow> string option \<Rightarrow> vcp_db
   \<Rightarrow> vcp_exn + response \<times> vcp_db" where
  "win_cancel cfg ds aid r b op rq reason db =
     (let m = cancel_message (ds 2) b op rq reason;
          a1 = (ad_snapshot r)\<lparr>va_state := VCancelling\<rparr>;
          r1 = r\<lparr>ad_snapshot := a1, ad_cancel := Some \<lparr>cn_command_id = command_id m, cn_cause = cause_of op rq,
                 cn_operation_ids = [o_operation_id op]\<rparr>\<rparr>
      in service_bind (check (runtime_command_errors cfg m ''payload'')) (\<lambda>_.
           case tget (v_sessions db) (session_id (bd_target b)) of
             None \<Rightarrow> Inl VTypeError
           | Some s \<Rightarrow>
               sbind (append_command m aid (put_session (session_id (bd_target b))
                        (s\<lparr>sd_snapshot := replace_attempt (d_now (ds 0)) a1 (sd_snapshot s)\<rparr>) db))
                 (\<lambda>db1. Inr (put_cancel aid r1 op rq db1))))"

definition accept_cancel :: "vcp_cfg \<Rightarrow> (nat \<Rightarrow> draw) \<Rightarrow> request \<Rightarrow> vcp_db \<Rightarrow> vcp_exn + response \<times> vcp_db" where
  "accept_cancel cfg ds rq db =
     (case rq_payload rq of
        PCancel aid reason \<Rightarrow>
          service_bind (sbind (check (validate cfg ds rq)) (\<lambda>_. load_workspace rq db)) (\<lambda>_.
            let missing = not_found ''attempt does not exist in this workspace'' ''attempt'' aid in
            case (tget (v_attempts db) aid, tget (v_bindings db) aid) of
              (Some r, Some b) \<Rightarrow>
                if workspace_id (bd_target b) \<noteq> rq_workspace_id rq then Inl (Service missing)
                else (let op = (new_operation (ds 1) rq OpCancel (rq_workspace_id rq) (d_now (ds 0)) OpPending)
                               \<lparr>o_resources := resources_of (bd_target b)\<rparr>;
                          state = va_state (ad_snapshot r)
                      in if ended_state state
                         then Inr (put_cancel aid r (op\<lparr>o_status := OpSucceeded, o_result := Some [(''attempt_id'', JStr aid),
                                     (''final_state'', JStr (vattempt_state_name state))]\<rparr>) rq db)
                         else (case ad_cancel r of
                                 Some c \<Rightarrow> Inr (put_cancel aid (r\<lparr>ad_cancel := Some (c\<lparr>cn_operation_ids :=
                                             cn_operation_ids c @ [o_operation_id op]\<rparr>)\<rparr>) op rq db)
                               | None \<Rightarrow>
                                   if \<not> owned_by (tget (v_runtimes db) (rq_workspace_id rq)) (bd_target b)
                                   then Inl (Service (state_error ''the attempt's runtime is no longer owned'' ''attempt'' aid
                                          (vattempt_state_name state) [''starting'', ''running'']))
                                   else win_cancel cfg ds aid r b op rq reason db))
            | _ \<Rightarrow> Inl (Service missing))
      | _ \<Rightarrow> Inl VKeyError)"

end
