(* ===== verification/Vcp_Projection.thy ===== *)
theory Vcp_Projection
  imports Vcp_Execution
begin

text \<open>
  The trusted projections of the virtual control plane: steering commands and their outcomes
  (\<open>application/steering.py\<close>), the attempt state machine \<open>Execution.transition\<close> and the progress
  records \<open>Execution.progress\<close>. The update handler calls them inside its transaction, after
  fencing, ordering and deduplication.
\<close>

section \<open>Steering\<close>

definition steering_invalid :: "string \<Rightarrow> string \<Rightarrow> string \<Rightarrow> string list \<Rightarrow> svc_error" where
  "steering_invalid rtype rid state allowed =
     state_error ''steering requires a current running attempt'' rtype rid state allowed"

definition steering_failed :: "string \<Rightarrow> svc_error" where
  "steering_failed aid = steering_invalid ''attempt'' aid ''ended'' [''running'']"

definition session_state_name :: "session_state \<Rightarrow> string" where
  "session_state_name s = (case s of SessActive \<Rightarrow> ''active'' | SessIdle \<Rightarrow> ''idle'')"

text \<open>The attempt that may be steered, or the rejection, in the order of \<open>Steering._accept\<close>.\<close>

definition steer_check ::
  "vcp_cfg \<Rightarrow> (nat \<Rightarrow> draw) \<Rightarrow> request \<Rightarrow> string \<Rightarrow> string option \<Rightarrow> vcp_db \<Rightarrow> svc_error + string \<times> binding_doc" where
  "steer_check cfg ds rq sid restore db =
     sbind (check (validate cfg ds rq)) (\<lambda>_.
     sbind (load_workspace rq db) (\<lambda>d.
     sbind (check (require_idle d)) (\<lambda>_.
     let wid = rq_workspace_id rq; w = wd_snapshot d; runtime = tget (v_runtimes db) wid;
         wrong = steering_invalid ''workspace'' wid (workspace_state_name (w_state w)) [''ready''] in
     (case tget (v_sessions db) sid of
        None \<Rightarrow> Inl (not_found ''session does not exist in this workspace'' ''session'' sid)
      | Some stored \<Rightarrow>
          (let s = sd_snapshot stored; rn = runner (s_agent s);
               live = filter (\<lambda>a. va_state a \<in> {VStarting, VRunning, VCancelling}) (s_attempts s) in
           sbind (raise_if (s_workspace_id s \<noteq> wid) (not_found ''session does not exist in this workspace'' ''session'' sid)) (\<lambda>_.
           sbind (raise_if (rn \<noteq> ''fake'') (capability_error ''executor does not support steering'' (''steer.active.'' @ rn))) (\<lambda>_.
           sbind (raise_if (w_state w = WSuspended \<and> (case restore of None \<Rightarrow> True | Some x \<Rightarrow> x = ''allow''))
                    (capability_error ''steering cannot restore a workspace'' ''restore'')) (\<lambda>_.
           (case runtime of
              None \<Rightarrow> Inl wrong
            | Some r \<Rightarrow>
                sbind (raise_if (\<not> running_runtime w runtime \<or> s_runtime_generation s \<noteq> rd_generation r) wrong) (\<lambda>_.
                sbind (raise_if (s_state s \<noteq> SessActive \<or> map va_state live \<noteq> [VRunning])
                         (steering_invalid ''session'' sid (session_state_name (s_state s)) [''active''])) (\<lambda>_.
                let aid = va_attempt_id (hd live); unowned = steering_invalid ''attempt'' aid ''unowned'' [''running''] in
                (case (tget (v_attempts db) aid, tget (v_bindings db) aid) of
                   (Some a, Some b) \<Rightarrow>
                     sbind (raise_if (va_state (ad_snapshot a) \<noteq> VRunning \<or> \<not> owned_by runtime (bd_target b)
                              \<or> session_id (bd_target b) \<noteq> sid \<or> workspace_id (bd_target b) \<noteq> wid
                              \<or> aid \<notin> set (w_active_attempt_ids w)) unowned) (\<lambda>_.
                     (let status = tget (v_status db) (rd_runtime_id r) in
                      sbind (raise_if (\<not> status_ready wid r status)
                               (service_error UNAVAILABLE ''runtime has not registered steering readiness'' None)) (\<lambda>_.
                      sbind (raise_if (case status of None \<Rightarrow> True | Some x \<Rightarrow> rn \<notin> set (rs_steering_executors x))
                               (capability_error ''executor does not advertise steering'' (''steer.active.'' @ rn))) (\<lambda>_.
                      Inr (aid, b)))))
                 | _ \<Rightarrow> Inl unowned))))))))))))"

definition accept_steer :: "vcp_cfg \<Rightarrow> (nat \<Rightarrow> draw) \<Rightarrow> request \<Rightarrow> vcp_db \<Rightarrow> vcp_exn + response \<times> vcp_db" where
  "accept_steer cfg ds rq db =
     (case rq_payload rq of
        PSteer sid message restore \<Rightarrow>
          service_bind (steer_check cfg ds rq sid restore db) (\<lambda>(aid, b).
            let op = (new_operation (ds 1) rq OpSteer (rq_workspace_id rq) (d_now (ds 0)) OpPending)
                       \<lparr>o_resources := resources_of (bd_target b)\<rparr>;
                m = \<lparr>command_id = identity ''rtc_'' (d_uuid (ds 2)), target = bd_target b, execution_of = bd_execution b,
                     body = Steer (cause_of op rq) message\<rparr>
            in service_bind (check (runtime_command_errors cfg m ''message'')) (\<lambda>_.
                 sbind (append_command m aid
                    (put_steering (command_id m) \<lparr>sc_command = m, sc_status = StPending\<rparr>
                      (put_operation (o_operation_id op) (operation_record op (rq_causal_path rq)) db)))
                   (\<lambda>db1. Inr (accepted rq (o_operation_id op) sid, db1))))
      | _ \<Rightarrow> Inl VKeyError)"

text \<open>\<open>project\<close>: a steering outcome, once; False names an unknown command or a foreign cause.\<close>

definition operation_json :: "cause \<Rightarrow> json" where
  "operation_json c = JObj [(''operation_id'', JStr (cause_operation_id c)), (''command_id'', JStr (cause_command_id c))]"

definition attempt_resources :: "attempt_target \<Rightarrow> (string \<times> string) list" where
  "attempt_resources t = [(''workspace_id'', workspace_id t), (''session_id'', session_id t), (''attempt_id'', attempt_id t)]"

datatype steering_outcome = Applied | Failed_with "svc_error option"

fun outcome_name :: "steering_outcome \<Rightarrow> string" where
  "outcome_name Applied = ''applied''"
| "outcome_name (Failed_with _) = ''failed''"

definition steering_operation :: "string \<Rightarrow> attempt_target \<Rightarrow> steering_outcome \<Rightarrow> operation \<Rightarrow> operation" where
  "steering_operation timestamp t outcome op = (case outcome of
     Applied \<Rightarrow> op\<lparr>o_status := OpSucceeded, o_updated_at := timestamp, o_result := Some [(''session_id'', JStr (session_id t)),
       (''attempt_id'', JStr (attempt_id t)), (''runtime_generation'', JInt (int (runtime_generation t))),
       (''restored'', JBool False)]\<rparr>
   | Failed_with e \<Rightarrow> op\<lparr>o_status := OpFailed, o_updated_at := timestamp,
       o_error := Some (case e of None \<Rightarrow> steering_failed (attempt_id t) | Some x \<Rightarrow> x)\<rparr>)"

definition steering_event :: "draw \<Rightarrow> string \<Rightarrow> steering_doc \<Rightarrow> cause \<Rightarrow> steering_outcome \<Rightarrow> event" where
  "steering_event dr timestamp c cs outcome =
     (let eid = identity ''evt_'' (d_uuid dr); t = target (sc_command c) in
      \<lparr>ev_event_id = eid, ev_event_type = ''steering.'' @ outcome_name outcome, ev_occurred_at = timestamp,
       ev_causal_path = causal_path cs @ [eid], ev_resources = attempt_resources t, ev_resource_version = None,
       ev_payload = (''operation'', operation_json cs) # (case outcome of
         Applied \<Rightarrow> [(''runtime_generation'', JInt (int (runtime_generation t)))]
       | Failed_with e \<Rightarrow> [(''error'', error_json (case e of None \<Rightarrow> steering_failed (attempt_id t) | Some x \<Rightarrow> x))])\<rparr>)"

definition project ::
  "vcp_cfg \<Rightarrow> (nat \<Rightarrow> draw) \<Rightarrow> string \<Rightarrow> steering_outcome \<Rightarrow> (attempt_target \<times> cause) option \<Rightarrow> vcp_db
   \<Rightarrow> vcp_exn + bool \<times> vcp_db" where
  "project cfg ds cid outcome claimed db =
     (case tget (v_steering db) cid of
        None \<Rightarrow> Inr (False, db)
      | Some c \<Rightarrow>
          (case body (sc_command c) of
             Steer cs message \<Rightarrow>
               if (case claimed of None \<Rightarrow> False | Some (t, x) \<Rightarrow> target (sc_command c) \<noteq> t \<or> cs \<noteq> x) then Inr (False, db)
               else if sc_status c \<noteq> StPending then Inr (True, db)
               else (let t = target (sc_command c); timestamp = d_now (ds 0); oid = cause_operation_id cs in
                 case tget (v_operations db) oid of
                   None \<Rightarrow> Inl VTypeError
                 | Some r \<Rightarrow>
                     sbind (append_event (vc_event_ok cfg) (steering_event (ds 1) timestamp c cs outcome) db) (\<lambda>db1.
                     sbind (append_history (session_id t) \<lparr>he_kind = HSteering, he_attempt_id = attempt_id t, he_sequence = 0,
                              he_occurred_at = timestamp, he_content = [(''message'', message),
                              (''status'', outcome_name outcome), (''operation_id'', oid)]\<rparr> db1) (\<lambda>(n, db2).
                     Inr (True, retire_runtime_command cid
                       (put_operation oid (r\<lparr>od_snapshot := steering_operation timestamp t outcome (od_snapshot r)\<rparr>)
                         (put_steering cid (c\<lparr>sc_status := (if outcome = Applied then StApplied else StFailed)\<rparr>) db2))))))
           | _ \<Rightarrow> Inl VKeyError))"

fun terminate_each ::
  "vcp_cfg \<Rightarrow> (nat \<Rightarrow> draw) \<Rightarrow> nat \<Rightarrow> steering_doc list \<Rightarrow> vcp_db \<Rightarrow> vcp_exn + vcp_db" where
  "terminate_each cfg ds i [] db = Inr db"
| "terminate_each cfg ds i (c # cs) db =
     sbind (project cfg (\<lambda>k. ds (i + k)) (command_id (sc_command c)) (Failed_with None) None db)
       (\<lambda>(b, db1). terminate_each cfg ds (i + 2) cs db1)"

definition terminate :: "vcp_cfg \<Rightarrow> (nat \<Rightarrow> draw) \<Rightarrow> string \<Rightarrow> vcp_db \<Rightarrow> vcp_exn + vcp_db" where
  "terminate cfg ds aid db = terminate_each cfg ds 2 (pending_steering aid db) db"

section \<open>Transitions of an attempt\<close>

fun vallowed :: "vattempt_state \<Rightarrow> vattempt_state list" where
  "vallowed VStarting = [VRunning, VFailed]"
| "vallowed VRunning = [VCompleted, VFailed]"
| "vallowed VCancelling = [VRunning, VCompleted, VFailed, VCancelled]"
| "vallowed _ = []"

record cancel_claim =
  cc_command_id :: string
  cc_cause :: cause
  cc_reason :: "string option"

definition claim_wins :: "cancel_record option \<Rightarrow> cancel_claim option \<Rightarrow> bool" where
  "claim_wins winning claim = (case (winning, claim) of
     (Some w, Some c) \<Rightarrow> cc_command_id c = cn_command_id w \<and> cc_cause c = cn_cause w | _ \<Rightarrow> False)"

text \<open>The refusals of \<open>transition\<close>, before anything is written.\<close>

definition transition_refused ::
  "attempt_doc \<Rightarrow> vattempt_state \<Rightarrow> svc_error option \<Rightarrow> attempt_result option \<Rightarrow> cancel_claim option \<Rightarrow> bool" where
  "transition_refused r state err result claim \<longleftrightarrow>
     state \<notin> set (vallowed (va_state (ad_snapshot r)))
     \<or> (state = VFailed \<and> err = None) \<or> (state = VCompleted \<and> result = None)
     \<or> (state = VRunning \<and> va_started_at (ad_snapshot r) \<noteq> None)
     \<or> (state = VCancelled \<and> \<not> claim_wins (ad_cancel r) claim)"

definition result_json :: "attempt_result \<Rightarrow> json" where
  "result_json r = JObj ((case summary r of None \<Rightarrow> [] | Some s \<Rightarrow> [(''summary'', JStr s)]) @ result_rest r)"

definition cancelled_error :: "string \<Rightarrow> svc_error" where
  "cancelled_error aid = \<lparr>se_code = INVALID_STATE, se_message = ''attempt was cancelled before it started'',
     se_retryable = False, se_details = Some [(''resource_type'', JStr ''attempt''), (''resource_id'', JStr aid),
     (''current_state'', JStr ''cancelled''), (''allowed_states'', JList [JStr ''running''])]\<rparr>"

definition attempt_after ::
  "string \<Rightarrow> vattempt_state \<Rightarrow> svc_error option \<Rightarrow> attempt_result option \<Rightarrow> bool \<Rightarrow> vattempt \<Rightarrow> vattempt" where
  "attempt_after timestamp state err result cancelling a =
     (if state = VRunning
      then a\<lparr>va_state := (if cancelling then VCancelling else VRunning), va_started_at := Some timestamp\<rparr>
      else a\<lparr>va_state := state, va_ended_at := Some timestamp,
             va_error := (case err of None \<Rightarrow> va_error a | Some e \<Rightarrow> Some e),
             va_result := (case result of None \<Rightarrow> va_result a | Some x \<Rightarrow> Some x)\<rparr>)"

definition execute_operation_after ::
  "string \<Rightarrow> vattempt_state \<Rightarrow> svc_error option \<Rightarrow> binding_doc \<Rightarrow> operation \<Rightarrow> operation" where
  "execute_operation_after timestamp state err b op =
     (if state = VRunning
      then op\<lparr>o_status := OpSucceeded, o_updated_at := timestamp, o_result := Some [
             (''attempt_id'', JStr (attempt_id (bd_target b))), (''session_id'', JStr (session_id (bd_target b))),
             (''runtime_generation'', JInt (int (runtime_generation (bd_target b)))), (''restored'', JBool False)]\<rparr>
      else if o_status op = OpPending
      then op\<lparr>o_status := OpFailed, o_updated_at := timestamp,
             o_error := (if state = VCancelled then Some (cancelled_error (attempt_id (bd_target b))) else err)\<rparr>
      else op)"

fun settle_cancels :: "string \<Rightarrow> string \<Rightarrow> vattempt_state \<Rightarrow> string list \<Rightarrow> vcp_db \<Rightarrow> vcp_exn + vcp_db" where
  "settle_cancels timestamp aid state [] db = Inr db"
| "settle_cancels timestamp aid state (oid # oids) db =
     (case tget (v_operations db) oid of
        None \<Rightarrow> Inl VTypeError
      | Some r \<Rightarrow> settle_cancels timestamp aid state oids (put_operation oid (r\<lparr>od_snapshot :=
          (od_snapshot r)\<lparr>o_status := OpSucceeded, o_updated_at := timestamp, o_result := Some [(''attempt_id'', JStr aid),
            (''final_state'', JStr (vattempt_state_name state))]\<rparr>\<rparr>) db))"

definition mode_name :: "session_mode \<Rightarrow> string" where
  "mode_name m = (case m of ModeNew \<Rightarrow> ''new'' | ModeContinue \<Rightarrow> ''continue'')"

definition task_event ::
  "draw \<Rightarrow> string \<Rightarrow> vattempt_state \<Rightarrow> svc_error option \<Rightarrow> attempt_result option \<Rightarrow> attempt_doc \<Rightarrow> cancel_claim option
   \<Rightarrow> binding_doc \<Rightarrow> string list \<Rightarrow> event" where
  "task_event dr timestamp state err result r claim b path =
     (let eid = identity ''evt_'' (d_uuid dr); cs = exec_cause (bd_execution b) in
      \<lparr>ev_event_id = eid, ev_event_type = ''task.'' @ (if state = VRunning then ''started'' else vattempt_state_name state),
       ev_occurred_at = timestamp,
       ev_causal_path = (case ad_cancel r of Some w \<Rightarrow> if state = VCancelled then causal_path (cn_cause w) else path | None \<Rightarrow> path) @ [eid],
       ev_resources = attempt_resources (bd_target b), ev_resource_version = None,
       ev_payload = (''operation'', operation_json cs) #
         (if state = VRunning
          then [(''runtime_generation'', JInt (int (runtime_generation (bd_target b)))),
                (''session_mode'', JStr (mode_name (bd_session_mode b)))]
          else (case err of None \<Rightarrow> [] | Some e \<Rightarrow> [(''error'', error_json e)])
             @ (case result of None \<Rightarrow> [] | Some x \<Rightarrow> [(''result'', result_json x)])
             @ (if state = VCancelled
                then (case ad_cancel r of None \<Rightarrow> [] | Some w \<Rightarrow> [(''cancelled_by'', operation_json (cn_cause w))])
                   @ (case claim of None \<Rightarrow> [] | Some c \<Rightarrow> (case cc_reason c of None \<Rightarrow> []
                        | Some x \<Rightarrow> if x = [] then [] else [(''reason'', JStr x)]))
                else []))\<rparr>)"

definition transition ::
  "vcp_cfg \<Rightarrow> (nat \<Rightarrow> draw) \<Rightarrow> string \<Rightarrow> vattempt_state \<Rightarrow> svc_error option \<Rightarrow> attempt_result option \<Rightarrow> cancel_claim option
   \<Rightarrow> vcp_db \<Rightarrow> vcp_exn + vcp_db" where
  "transition cfg ds aid state err result claim db =
     (case tget (v_attempts db) aid of
        None \<Rightarrow> Inl InvalidTransition
      | Some r \<Rightarrow>
          if transition_refused r state err result claim then Inl InvalidTransition
          else case tget (v_bindings db) aid of
            None \<Rightarrow> Inl VTypeError
          | Some b \<Rightarrow>
              (let wid = workspace_id (bd_target b); sid = session_id (bd_target b); timestamp = d_now (ds 0) in
               if \<not> owned_by (tget (v_runtimes db) wid) (bd_target b) then Inl InvalidTransition
               else sbind (if ended_state state then terminate cfg ds aid db else Inr db) (\<lambda>db1.
                 case (get_workspace wid db1, tget (v_sessions db1) sid, tget (v_operations db1) (ad_operation_id r)) of
                   (Some d, Some s, Some ro) \<Rightarrow>
                     (let a = attempt_after timestamp state err result (ad_cancel r \<noteq> None) (ad_snapshot r);
                          ro1 = ro\<lparr>od_snapshot := execute_operation_after timestamp state err b (od_snapshot ro)\<rparr>;
                          w = wd_snapshot d in
                      sbind (if ended_state state
                             then settle_cancels timestamp aid state (case ad_cancel r of None \<Rightarrow> [] | Some c \<Rightarrow> cn_operation_ids c) db1
                             else Inr db1) (\<lambda>db2.
                      sbind (if ended_state state \<and> aid \<notin> set (w_active_attempt_ids w) then Inl VValueError else Inr ()) (\<lambda>_.
                      (let d1 = (if ended_state state
                                 then d\<lparr>wd_snapshot := w\<lparr>w_active_attempt_ids := remove1 aid (w_active_attempt_ids w),
                                        w_version := w_version w + 1, w_updated_at := timestamp\<rparr>\<rparr> else d);
                           ss = (if ended_state state then (sd_snapshot s)\<lparr>s_state := SessIdle\<rparr> else sd_snapshot s);
                           s1 = s\<lparr>sd_snapshot := replace_attempt timestamp a ss\<rparr> in
                       sbind (append_event (vc_event_ok cfg)
                                (task_event (ds 1) timestamp state err result r claim b (od_causal_path ro)) db2) (\<lambda>db3.
                       Inr (put_operation (o_operation_id (od_snapshot ro1)) ro1 (put_workspace wid d1
                             (put_session sid s1 (put_attempt aid (r\<lparr>ad_snapshot := a\<rparr>) db3)))))))))
                 | _ \<Rightarrow> Inl VTypeError)))"

section \<open>Progress\<close>

definition jint :: "json \<Rightarrow> int" where
  "jint v = (case v of JInt i \<Rightarrow> i | JFloat r \<Rightarrow> \<lfloor>r\<rfloor> | JBool b \<Rightarrow> (if b then 1 else 0) | _ \<Rightarrow> 0)"

fun add_usage :: "(string \<times> json) list \<Rightarrow> (string \<times> int) list \<Rightarrow> (string \<times> int) list" where
  "add_usage [] tot = tot"
| "add_usage ((k, v) # rest) tot =
     add_usage rest (tput k ((case tget tot k of None \<Rightarrow> 0 | Some n \<Rightarrow> n) + jint v) tot)"

definition usage_total :: "vattempt \<Rightarrow> (string \<times> int) list" where
  "usage_total a = (case va_usage a of None \<Rightarrow> [(''input_tokens'', 0), (''output_tokens'', 0)] | Some u \<Rightarrow> u)"

definition usage_refused :: "attempt_doc \<Rightarrow> usage_delta \<Rightarrow> bool" where
  "usage_refused r u \<longleftrightarrow> key_less (timestamp_key (ud_period_end u)) (timestamp_key (ud_period_start u))
     \<or> (case ad_usage_period_end r of None \<Rightarrow> False
        | Some p \<Rightarrow> p \<noteq> [] \<and> key_less (timestamp_key (ud_period_start u)) (timestamp_key p))"

definition progress_event ::
  "string \<Rightarrow> string \<Rightarrow> string \<Rightarrow> (string \<times> string) list \<Rightarrow> string list \<Rightarrow> (string \<times> json) list \<Rightarrow> event" where
  "progress_event eid etype timestamp resources path payload =
     \<lparr>ev_event_id = eid, ev_event_type = etype, ev_occurred_at = timestamp, ev_causal_path = path @ [eid],
      ev_resources = resources, ev_resource_version = None, ev_payload = payload\<rparr>"

text \<open>The changed attempt, the session's history number, the event and the database with the history entry.\<close>

definition progress_effect ::
  "draw \<Rightarrow> string \<Rightarrow> progress \<Rightarrow> attempt_doc \<Rightarrow> binding_doc \<Rightarrow> session_doc \<Rightarrow> vcp_db
   \<Rightarrow> vcp_exn + attempt_doc \<times> session_doc \<times> (string \<times> (string \<times> string) list \<times> (string \<times> json) list) \<times> vcp_db" where
  "progress_effect dr aid p r b s db =
     (case p of
        Conversation mid role text \<Rightarrow>
          sbind (append_history (session_id (bd_target b)) \<lparr>he_kind = HMessage, he_attempt_id = aid, he_sequence = 0,
                   he_occurred_at = d_now dr, he_content = [(''message_id'', mid), (''role'', role), (''text'', text)]\<rparr> db)
            (\<lambda>(n, db1). Inr (r, s\<lparr>sd_history_sequence := n\<rparr>,
               (''conversation.message'', attempt_resources (bd_target b) @ [(''message_id'', mid)],
                [(''role'', JStr role), (''text'', JStr text), (''sequence'', JInt (int n))]), db1))
      | Usage u \<Rightarrow>
          if usage_refused r u then Inl InvalidTransition
          else Inr (r\<lparr>ad_usage_period_end := Some (ud_period_end u),
                      ad_snapshot := (ad_snapshot r)\<lparr>va_usage := Some (add_usage (ud_usage u) (usage_total (ad_snapshot r)))\<rparr>\<rparr>, s,
                    (''usage.reported'', attempt_resources (bd_target b), [(''usage'', JObj (ud_usage u)),
                      (''period_start'', JStr (ud_period_start u)), (''period_end'', JStr (ud_period_end u))]), db)
      | Artifact _ \<Rightarrow> Inl InvalidTransition)"

definition vcp_progress ::
  "vcp_cfg \<Rightarrow> draw \<Rightarrow> string \<Rightarrow> progress \<Rightarrow> vcp_db \<Rightarrow> vcp_exn + vcp_db" where
  "vcp_progress cfg dr aid p db =
     (case tget (v_attempts db) aid of
        None \<Rightarrow> Inl InvalidTransition
      | Some r \<Rightarrow>
          if va_state (ad_snapshot r) \<notin> {VRunning, VCancelling} \<or> va_started_at (ad_snapshot r) = None
          then Inl InvalidTransition
          else case tget (v_bindings db) aid of
            None \<Rightarrow> Inl VTypeError
          | Some b \<Rightarrow>
              (let sid = session_id (bd_target b) in
               case tget (v_sessions db) sid of
                 None \<Rightarrow> Inl VTypeError
               | Some s \<Rightarrow>
                   sbind (progress_effect dr aid p r b s db) (\<lambda>(r1, s1, (etype, resources, payload), db1).
                   (case tget (v_operations db1) (ad_operation_id r) of
                      None \<Rightarrow> Inl VTypeError
                    | Some ro \<Rightarrow>
                        sbind (append_event (vc_event_ok cfg) (progress_event (identity ''evt_'' (d_uuid dr)) etype (d_now dr)
                                 resources (od_causal_path ro) payload) db1) (\<lambda>db2.
                        Inr (put_session sid (s1\<lparr>sd_snapshot := replace_attempt (d_now dr) (ad_snapshot r1) (sd_snapshot s1)\<rparr>)
                              (put_attempt aid r1 db2)))))))"

end
