(* ===== verification/Vcp_Delivery.thy ===== *)
theory Vcp_Delivery
  imports Vcp_Projection
begin

text \<open>
  The virtual control plane's side of the runtime protocol (\<open>application/runtime_delivery.py\<close>):
  the update handler with its fence, deduplication, ordering and quarantine, and the command
  dispatcher; and the publisher of public events (\<open>application/outbox.py\<close>). The wire bytes are
  the values they encode; the runtime's reply and the broker's acknowledgements are arguments.
\<close>

section \<open>Fence\<close>

definition claimed_target :: "update \<Rightarrow> runtime_target" where
  "claimed_target u = update_runtime (u_target u)"

definition fence :: "runtime_doc option \<Rightarrow> workspace option \<Rightarrow> runtime_target \<Rightarrow> vcp_exn option" where
  "fence runtime w t =
     (case (runtime, w) of
        (Some r, Some ws) \<Rightarrow>
          if rd_runtime_id r \<noteq> runtime_id t
          then Some (Rejected_update IDENTITY_MISMATCH ''runtime is not owned by this workspace'' None False)
          else if rd_generation r \<noteq> runtime_generation t
               \<or> (case w_runtime ws of None \<Rightarrow> True
                  | Some v \<Rightarrow> rv_runtime_id v \<noteq> runtime_id t \<or> rv_generation v \<noteq> runtime_generation t)
          then Some (Rejected_update STALE_RUNTIME ''runtime generation is not current'' None False)
          else None
      | _ \<Rightarrow> Some (Rejected_update IDENTITY_MISMATCH ''runtime is not owned by this workspace'' None False))"

section \<open>Projection of one update\<close>

definition svc_of :: "rt_error \<Rightarrow> (string \<times> json) list option \<Rightarrow> svc_error" where
  "svc_of e details = \<lparr>se_code = rt_code e, se_message = rt_message e, se_retryable = rt_retryable e, se_details = details\<rparr>"

definition claim_of :: "update \<Rightarrow> string option \<Rightarrow> cancel_claim option" where
  "claim_of u reason = map_option (\<lambda>(cid, cs). \<lparr>cc_command_id = cid, cc_cause = cs, cc_reason = reason\<rparr>) (u_cancel u)"

definition catch_transition :: "vcp_exn + 'a \<Rightarrow> vcp_exn + 'a" where
  "catch_transition x = (case x of
     Inl InvalidTransition \<Rightarrow> Inl (Rejected_update EVENT_CONFLICT ''invalid attempt transition'' None True) | _ \<Rightarrow> x)"

definition unregistered :: vcp_exn where
  "unregistered = Rejected_update EVENT_CONFLICT ''update kind was not registered by this runtime'' None True"

definition steering_result ::
  "vcp_cfg \<Rightarrow> (nat \<Rightarrow> draw) \<Rightarrow> string \<Rightarrow> steering_outcome \<Rightarrow> attempt_target \<Rightarrow> cause \<Rightarrow> vcp_db \<Rightarrow> vcp_exn + vcp_db" where
  "steering_result cfg ds cid outcome t cs db = sbind (project cfg ds cid outcome (Some (t, cs)) db) (\<lambda>(known, db1).
     if known then Inr db1 else Inl (Rejected_update IDENTITY_MISMATCH ''unknown steering command or cause'' None False))"

text \<open>The body of the \<open>try\<close>: one case per update kind.\<close>

definition project_body ::
  "vcp_cfg \<Rightarrow> (nat \<Rightarrow> draw) \<Rightarrow> update \<Rightarrow> attempt_target \<Rightarrow> string list \<Rightarrow> vcp_db \<Rightarrow> vcp_exn + vcp_db" where
  "project_body cfg ds u t kinds db =
     (let aid = attempt_id t in
      case u_body u of
        Started \<Rightarrow> transition cfg ds aid VRunning None None (claim_of u None) db
      | Completed x \<Rightarrow> transition cfg ds aid VCompleted None (Some x) (claim_of u None) db
      | Failed e reason \<Rightarrow> transition cfg ds aid VFailed (Some (svc_of e None)) None (claim_of u (Some reason)) db
      | Cancelled reason \<Rightarrow> transition cfg ds aid VCancelled None None (claim_of u reason) db
      | SteeringApplied cid cs \<Rightarrow> steering_result cfg ds cid Applied t cs db
      | SteeringFailed cid cs e details \<Rightarrow> steering_result cfg ds cid (Failed_with (Some (svc_of e (Some details)))) t cs db
      | Progress p \<Rightarrow> if progress_kind p \<in> set kinds then vcp_progress cfg (ds 0) aid p db else Inl unregistered
      | Ready _ \<Rightarrow> Inl unregistered)"

definition update_identity_ok :: "update \<Rightarrow> attempt_target \<Rightarrow> binding_doc option \<Rightarrow> bool" where
  "update_identity_ok u t b = (case b of None \<Rightarrow> False
     | Some x \<Rightarrow> bd_target x = t \<and> Some (bd_execution x) = u_execution u)"

definition project_update :: "vcp_cfg \<Rightarrow> (nat \<Rightarrow> draw) \<Rightarrow> update \<Rightarrow> string list \<Rightarrow> vcp_db \<Rightarrow> vcp_exn + vcp_db" where
  "project_update cfg ds u kinds db =
     (case u_target u of
        RuntimeTarget _ \<Rightarrow> Inl VKeyError
      | AttemptTarget t \<Rightarrow>
          (let aid = attempt_id t in
           if \<not> update_identity_ok u t (tget (v_bindings db) aid)
           then Inl (Rejected_update IDENTITY_MISMATCH ''unknown attempt or execution identity'' None False)
           else case tget (v_attempts db) aid of
             None \<Rightarrow> Inl VTypeError
           | Some r \<Rightarrow>
               (let n = ad_attempt_sequence r + 1 in
                if u_attempt_sequence u \<noteq> Some n
                then Inl (Rejected_update EVENT_CONFLICT ''attempt sequence is not contiguous'' None True)
                else sbind (catch_transition (project_body cfg ds u t kinds db)) (\<lambda>db1.
                  case tget (v_attempts db1) aid of
                    None \<Rightarrow> Inl VTypeError
                  | Some r1 \<Rightarrow> Inr (put_attempt aid (r1\<lparr>ad_attempt_sequence := n\<rparr>) db1)))))"

section \<open>Committing an update\<close>

definition unregistered_status :: runtime_status where
  "unregistered_status = \<lparr>rs_workspace_id = [], rs_generation = 0, rs_ready = False, rs_quarantined = False,
     rs_executors = [], rs_steering_executors = [], rs_max_concurrent_attempts = 0, rs_progress_kinds = [],
     rs_journal_id = None, rs_sequence = 0, rs_boot_id = [], rs_quarantine = None\<rparr>"

definition status_of :: "string \<Rightarrow> vcp_db \<Rightarrow> runtime_status" where
  "status_of rid db = (case tget (v_status db) rid of None \<Rightarrow> unregistered_status | Some s \<Rightarrow> s)"

definition register_ready :: "runtime_target \<Rightarrow> ready_payload \<Rightarrow> runtime_status \<Rightarrow> runtime_status" where
  "register_ready t p s = s\<lparr>rs_steering_executors := rp_steering_executors p, rs_workspace_id := workspace_id t,
     rs_generation := runtime_generation t, rs_ready := True, rs_executors := rp_executors p,
     rs_max_concurrent_attempts := rp_max_concurrent_attempts p, rs_progress_kinds := rp_progress_kinds p,
     rs_journal_id := Some (rp_journal_id p)\<rparr>"

definition finish_update ::
  "vcp_cfg \<Rightarrow> update \<Rightarrow> runtime_status \<Rightarrow> vcp_db \<Rightarrow> vcp_exn + vcp_db" where
  "finish_update cfg u s db =
     (let rid = runtime_id (claimed_target u) in
      record_runtime_update rid (u_event_id u) (u_sequence u) (vc_digest cfg u)
        (put_status rid (s\<lparr>rs_sequence := u_sequence u, rs_boot_id := u_boot_id u\<rparr>) db))"

definition apply_update :: "vcp_cfg \<Rightarrow> (nat \<Rightarrow> draw) \<Rightarrow> update \<Rightarrow> runtime_status \<Rightarrow> vcp_db \<Rightarrow> vcp_exn + vcp_db" where
  "apply_update cfg ds u s db =
     (case u_body u of
        Ready p \<Rightarrow>
          if rs_journal_id s \<notin> {None, Some (rp_journal_id p)}
          then Inl (Rejected_update IDENTITY_MISMATCH ''runtime journal was replaced'' None True)
          else finish_update cfg u (register_ready (claimed_target u) p s) db
      | _ \<Rightarrow>
          if rs_journal_id s \<in> {None, Some []}
          then Inl (Rejected_update IDENTITY_MISMATCH ''runtime has not registered its journal'' None False)
          else sbind (project_update cfg ds u (rs_progress_kinds s) db) (finish_update cfg u s))"

fun is_ready :: "update_body \<Rightarrow> bool" where
  "is_ready (Ready _) = True"
| "is_ready _ = False"

definition order_update :: "vcp_cfg \<Rightarrow> (nat \<Rightarrow> draw) \<Rightarrow> update \<Rightarrow> runtime_status \<Rightarrow> vcp_db \<Rightarrow> vcp_exn + vcp_db" where
  "order_update cfg ds u s db =
     (let expected = rs_sequence s + 1 in
      if rs_quarantined s then Inl (Rejected_update EVENT_CONFLICT ''runtime requires reconciliation'' None False)
      else if u_sequence u < expected then Inl (Rejected_update EVENT_CONFLICT ''sequence is already occupied'' None True)
      else if u_sequence u > expected
      then Inl (Rejected_update EVENT_GAP (''replay sequence '' @ show_nat expected @ '' first'') (Some expected) False)
      else apply_update cfg ds u s db)"

definition commit_update :: "vcp_cfg \<Rightarrow> (nat \<Rightarrow> draw) \<Rightarrow> update \<Rightarrow> vcp_db \<Rightarrow> vcp_exn + unit \<times> vcp_db" where
  "commit_update cfg ds u db =
     (let t = claimed_target u; rid = runtime_id t;
          runtime = tget (v_runtimes db) (workspace_id t);
          w = map_option wd_snapshot (get_workspace (workspace_id t) db)
      in if is_ready (u_body u) \<and> (case (w, runtime) of
              (Some ws, Some r) \<Rightarrow> w_state ws = WProvisioning \<and> rd_runtime_id r = rid \<and> rd_generation r = runtime_generation t
            | _ \<Rightarrow> False)
         then Inl (Rejected_update UNAVAILABLE ''workspace creation has not committed yet'' None False)
         else case fence runtime w t of
           Some e \<Rightarrow> Inl e
         | None \<Rightarrow>
             (case runtime_update rid (u_event_id u) db of
                Some previous \<Rightarrow>
                  if previous \<noteq> vc_digest cfg u
                  then Inl (Rejected_update EVENT_CONFLICT ''event ID was reused with different content'' None True)
                  else Inr ((), db)
              | None \<Rightarrow>
                  if is_ready (u_body u) \<and> map_option w_state w \<noteq> Some WReady
                  then Inl (Rejected_update UNAVAILABLE ''workspace is not ready'' None False)
                  else sbind (order_update cfg ds u (status_of rid db) db) (\<lambda>db1. Inr ((), db1))))"

section \<open>Receiving\<close>

definition quarantine :: "update \<Rightarrow> error_code \<Rightarrow> vcp_db \<Rightarrow> vcp_db" where
  "quarantine u code db =
     (let rid = runtime_id (claimed_target u) in
      case tget (v_status db) rid of
        None \<Rightarrow> db
      | Some s \<Rightarrow> put_status rid (s\<lparr>rs_quarantined := True, rs_ready := False,
          rs_quarantine := Some (code, u_event_id u, u_sequence u)\<rparr>) db)"

definition update_reply :: "update \<Rightarrow> update_status \<Rightarrow> rt_error option \<Rightarrow> nat option \<Rightarrow> update_ack" where
  "update_reply u st e expected = \<lparr>ua_event_id = u_event_id u, ua_target = claimed_target u, ua_sequence = u_sequence u,
     ua_status = st, ua_error = e, ua_expected_sequence = expected\<rparr>"

text \<open>
  \<open>receive\<close> of a schema-valid update: the reply and the committed database, or the exception that
  rolled everything back. A rejection that quarantines does so in a transaction of its own.
\<close>

definition receive :: "vcp_cfg \<Rightarrow> (nat \<Rightarrow> draw) \<Rightarrow> string \<Rightarrow> update \<Rightarrow> vcp_db \<Rightarrow> (vcp_exn + update_ack option) \<times> vcp_db" where
  "receive cfg ds subject u db =
     (if validate_update None subject u \<noteq> [] then (Inr None, db)
      else case run_tx (commit_update cfg ds u) db of
        (Inr _, db1) \<Rightarrow> (Inr (Some (update_reply u Committed None None)), db1)
      | (Inl (Rejected_update code message expected q), db1) \<Rightarrow>
          (Inr (Some (update_reply u URejected (Some (error code message)) expected)),
           if q then quarantine u code db1 else db1)
      | (Inl e, db1) \<Rightarrow> (Inl e, db1))"

section \<open>Command dispatch\<close>

definition NOT_LAUNCHED :: "error_code list" where
  "NOT_LAUNCHED = [INVALID_ARGUMENT, UNSUPPORTED_EXECUTOR, SESSION_BUSY]"

definition ack_retryable :: "command_ack \<Rightarrow> bool" where
  "ack_retryable a \<longleftrightarrow> ack_status a = Rejected \<and> (case ack_error a of None \<Rightarrow> False | Some e \<Rightarrow> rt_retryable e)"

definition blocked_execute :: "runtime_command \<Rightarrow> command_ack \<Rightarrow> svc_error option" where
  "blocked_execute m a = (case (body m, ack_error a) of
     (Execute _, Some e) \<Rightarrow> if ack_status a = Rejected \<and> rt_code e \<in> set NOT_LAUNCHED
        then Some \<lparr>se_code = PROVIDER_ERROR, se_message = rt_message e, se_retryable = False, se_details = None\<rparr> else None
   | _ \<Rightarrow> None)"

text \<open>The settling transaction of \<open>_deliver\<close> for a verified, final acknowledgement.\<close>

definition deliver_settle ::
  "vcp_cfg \<Rightarrow> (nat \<Rightarrow> draw) \<Rightarrow> runtime_command \<Rightarrow> command_ack \<Rightarrow> vcp_db \<Rightarrow> vcp_exn + bool \<times> vcp_db" where
  "deliver_settle cfg ds m a db =
     sbind (case blocked_execute m a of
              None \<Rightarrow> Inr (if ack_status a = Accepted then DAcknowledged else DBlocked, db)
            | Some e \<Rightarrow> (case transition cfg ds (attempt_id (target m)) VFailed (Some e) None None db of
                           Inl InvalidTransition \<Rightarrow> Inr (DBlocked, db)
                         | Inl x \<Rightarrow> Inl x
                         | Inr db1 \<Rightarrow> Inr (DRejected, db1)))
       (\<lambda>(st, db1).
          sbind (case (st, body m) of
                   (DBlocked, Steer _ _) \<Rightarrow> sbind (project cfg ds (command_id m) (Failed_with None) None db1) (\<lambda>(_, db2). Inr (DRejected, db2))
                 | _ \<Rightarrow> Inr (st, db1))
            (\<lambda>(st2, db2). settle_runtime_command (command_id m) st2 a db2))"

datatype delivery_result = Unsettled | Settled

text \<open>\<open>_deliver\<close>: an unverifiable reply or a retryable rejection leaves the command pending.\<close>

definition deliver ::
  "vcp_cfg \<Rightarrow> (nat \<Rightarrow> draw) \<Rightarrow> string \<Rightarrow> runtime_command \<Rightarrow> string option \<Rightarrow> command_ack \<Rightarrow> vcp_db
   \<Rightarrow> (vcp_exn + delivery_result) \<times> vcp_db" where
  "deliver cfg ds subject m reply_schema a db =
     (if exchange_command None reply_schema subject m a \<noteq> [] then (Inr Unsettled, db)
      else if ack_retryable a then (Inr Unsettled, db)
      else case run_tx (deliver_settle cfg ds m a) db of
        (Inr _, db1) \<Rightarrow> (Inr Settled, db1)
      | (Inl e, db1) \<Rightarrow> (Inl e, db1))"

text \<open>\<open>run_once\<close>: the due commands grouped by subject, each group in order.\<close>

fun group_commands :: "(string \<times> string \<times> runtime_command) list \<Rightarrow> (string, (string \<times> string \<times> runtime_command) list) table" where
  "group_commands [] = []"
| "group_commands (c # cs) = (let g = group_commands cs; s = fst (snd c) in
     (s, c # (case tget g s of None \<Rightarrow> [] | Some xs \<Rightarrow> xs)) # tdel s g)"

section \<open>Publication of public events\<close>

text \<open>
  One batch of \<open>publish_pending\<close>: \<open>ack\<close> tells whether the broker acknowledged an event. A failure
  blocks its workspace for the rest of the pass. The result is the blocked workspaces, the
  published sequence numbers in order, and the database.
\<close>

fun publish_batch ::
  "(event \<Rightarrow> bool) \<Rightarrow> (nat \<times> outbox_row) list \<Rightarrow> string list \<Rightarrow> vcp_db \<Rightarrow> string list \<times> nat list \<times> bool \<times> vcp_db" where
  "publish_batch ack [] blocked db = (blocked, [], False, db)"
| "publish_batch ack ((n, r) # rest) blocked db =
     (if ox_workspace_id r \<in> set blocked then publish_batch ack rest blocked db
      else if ack (ox_envelope r)
      then (case publish_batch ack rest blocked (mark_published n db) of
              (b, ps, newly, db1) \<Rightarrow> (b, n # ps, newly, db1))
      else (case publish_batch ack rest (ox_workspace_id r # blocked) db of
              (b, ps, newly, db1) \<Rightarrow> (b, ps, True, db1)))"

text \<open>
  \<open>publish_pending\<close> refetches while a full batch newly blocked a workspace; each refetch excludes
  one workspace more, so the number of workspaces with pending events bounds the loop (the fuel).
\<close>

fun publish_pending ::
  "nat \<Rightarrow> nat \<Rightarrow> (event \<Rightarrow> bool) \<Rightarrow> string list \<Rightarrow> vcp_db \<Rightarrow> (string list \<times> nat list \<times> vcp_db) option" where
  "publish_pending 0 batch ack blocked db = None"
| "publish_pending (Suc fuel) batch ack blocked db =
     (let events = pending_events batch blocked db in
      case publish_batch ack events blocked db of
        (b, ps, newly, db1) \<Rightarrow>
          if length events < batch \<or> \<not> newly then Some (b, ps, db1)
          else (case publish_pending fuel batch ack b db1 of
                  None \<Rightarrow> None
                | Some (b2, ps2, db2) \<Rightarrow> Some (b2, ps @ ps2, db2)))"

end
