(* ===== verification/Vcp_Commands.thy ===== *)
theory Vcp_Commands
  imports Vcp_Delivery Idempotent
begin

text \<open>
  The public commands of the virtual control plane as one handler, and what holds for all of them:
  a reply is recorded with the writes it reports, so the same command is answered the same way
  ever after; a rejection writes nothing but its receipt, and a retryable one not even that.
\<close>

section \<open>The commands\<close>

text \<open>
  The routes of \<open>Lifecycle.commands\<close> and \<open>Execution.commands\<close>, with the draws of the handler; an
  execute also carries its preflight.
\<close>

datatype public_command =
    CApply "nat \<Rightarrow> draw"
  | CEnsure "nat \<Rightarrow> draw"
  | CDestroy "nat \<Rightarrow> draw"
  | CExecute "nat \<Rightarrow> draw" preflight execute_request
  | CCancel "nat \<Rightarrow> draw"
  | CSteer "nat \<Rightarrow> draw"

fun accept_of :: "vcp_cfg \<Rightarrow> public_command \<Rightarrow> request \<Rightarrow> vcp_db \<Rightarrow> vcp_exn + response \<times> vcp_db" where
  "accept_of cfg (CApply ds) = accept_apply cfg ds"
| "accept_of cfg (CEnsure ds) = accept_ensure cfg ds"
| "accept_of cfg (CDestroy ds) = accept_destroy cfg ds"
| "accept_of cfg (CExecute ds pre e) = accept_execute cfg ds pre e"
| "accept_of cfg (CCancel ds) = accept_cancel cfg ds"
| "accept_of cfg (CSteer ds) = accept_steer cfg ds"

definition serve :: "vcp_cfg \<Rightarrow> public_command \<Rightarrow> request \<Rightarrow> vcp_db \<Rightarrow> (vcp_exn + response) \<times> vcp_db" where
  "serve cfg c = command (accept_of cfg c)"

section \<open>Which tables a method writes\<close>

text \<open>Receipts, the update log and the runtimes' status are written by few methods only.\<close>

definition silent :: "vcp_db \<Rightarrow> vcp_db \<Rightarrow> bool" where
  "silent db db' \<longleftrightarrow> v_receipts db' = v_receipts db \<and> v_updates db' = v_updates db \<and> v_status db' = v_status db"

lemma put_silent [simp]:
  "v_receipts (put_workspace k d db) = v_receipts db" "v_receipts (put_operation k r db) = v_receipts db" "v_receipts (put_runtime k x db) = v_receipts db" "v_receipts (put_session k s db) = v_receipts db" "v_receipts (put_attempt k a db) = v_receipts db" "v_receipts (put_steering k c db) = v_receipts db"
  "v_updates (put_workspace k d db) = v_updates db" "v_updates (put_operation k r db) = v_updates db" "v_updates (put_runtime k x db) = v_updates db" "v_updates (put_session k s db) = v_updates db" "v_updates (put_attempt k a db) = v_updates db" "v_updates (put_steering k c db) = v_updates db"
  "v_status (put_workspace k d db) = v_status db" "v_status (put_operation k r db) = v_status db" "v_status (put_runtime k x db) = v_status db" "v_status (put_session k s db) = v_status db" "v_status (put_attempt k a db) = v_status db" "v_status (put_steering k c db) = v_status db"
  by (simp_all add: put_workspace_def put_operation_def put_runtime_def put_session_def put_attempt_def put_steering_def)

lemma service_bind_eq_Inr: "service_bind x f = Inr b \<longleftrightarrow> (\<exists>a. x = Inr a \<and> f a = Inr b)"
  by (cases x) (auto simp: service_bind_def)

lemma check_eq_Inr [simp]: "check e = Inr u \<longleftrightarrow> e = None"
  by (auto simp: check_def split: option.splits)

lemma raise_if_eq_Inr [simp]: "raise_if b e = Inr u \<longleftrightarrow> \<not> b"
  by (auto simp: raise_if_def)

lemma append_event_outbox:
  "append_event ok e db = Inr db' \<Longrightarrow> \<exists>rows. db' = db\<lparr>v_outbox := v_outbox db @ rows\<rparr>"
  by (auto simp: append_event_def split: if_splits option.splits)

lemma append_command_commands:
  "append_command m aid db = Inr db' \<Longrightarrow> \<exists>rows. db' = db\<lparr>v_commands := v_commands db @ rows\<rparr>"
  by (auto simp: append_command_def append_runtime_command_def tinsert_Some_iff split: if_splits option.splits)

lemma put_binding_bindings:
  "put_binding k b db = Inr db' \<Longrightarrow> tget (v_bindings db) k = None \<and> db' = db\<lparr>v_bindings := v_bindings db @ [(k, b)]\<rparr>"
  by (auto simp: put_binding_def tinsert_Some_iff split: option.splits)

lemma write_execution_silent: "write_execution ds rq d s t op m e db = Inr db' \<Longrightarrow> silent db db'"
  by (auto simp: silent_def write_execution_def sbind_eq_Inr Let_def dest!: put_binding_bindings append_command_commands)

lemma accept_apply_silent: "accept_apply cfg ds rq db = Inr (r, db') \<Longrightarrow> silent db db'"
  by (auto simp: silent_def accept_apply_def apply_new_def sbind_eq_Inr Let_def split: vcp_payload.splits option.splits
      dest!: append_event_outbox)

lemma accept_ensure_silent: "accept_ensure cfg ds rq db = Inr (r, db') \<Longrightarrow> silent db db'"
  by (auto simp: silent_def accept_ensure_def service_bind_eq_Inr Let_def split: vcp_payload.splits)

lemma accept_destroy_silent: "accept_destroy cfg ds rq db = Inr (r, db') \<Longrightarrow> silent db db'"
  by (auto simp: silent_def accept_destroy_def service_bind_eq_Inr Let_def split: vcp_payload.splits)

text \<open>An accepted execute wrote the records of its parts.\<close>

lemma accept_execute_effect:
  assumes "accept_execute cfg ds pre e rq db = Inr (r, db')"
  obtains (replayed) "pre = Replayed r" "db' = db"
  | (written) previous runtime c d s t op m where "pre = Prepared previous runtime c" "admit cfg ds rq e db = Inr (d, runtime, s)"
      "execution_parts ds rq runtime s c e = (t, op, m)" "r = accepted rq (o_operation_id op) (attempt_id t)"
      "write_execution ds rq d s t op m e db = Inr db'"
proof (cases pre)
  case (Prepared previous owned c)
  with assms obtain d runtime s where adm: "admit cfg ds rq e db = Inr (d, runtime, s)" and same: "runtime = owned"
    by (auto simp: accept_execute_def accept_execution_def service_bind_eq_Inr split: if_splits)
  obtain t op m where parts: "execution_parts ds rq runtime s c e = (t, op, m)" by (cases "execution_parts ds rq runtime s c e")
  have "r = accepted rq (o_operation_id op) (attempt_id t)" "write_execution ds rq d s t op m e db = Inr db'"
    using assms Prepared adm parts same
    by (auto simp: accept_execute_def accept_execution_def service_bind_eq_Inr sbind_eq_Inr split: if_splits)
  with Prepared adm parts same show ?thesis by (intro written) auto
qed (use assms in \<open>auto simp: accept_execute_def intro: replayed\<close>)

lemma accept_execute_silent: "accept_execute cfg ds pre e rq db = Inr (r, db') \<Longrightarrow> silent db db'"
  by (erule accept_execute_effect) (auto simp: silent_def dest: write_execution_silent[unfolded silent_def])

lemma win_cancel_silent: "win_cancel cfg ds aid a b op rq reason db = Inr (r, db') \<Longrightarrow> silent db db'"
  by (auto simp: silent_def win_cancel_def put_cancel_def service_bind_eq_Inr sbind_eq_Inr Let_def split: option.splits
      dest!: append_command_commands)

lemma accept_cancel_silent: "accept_cancel cfg ds rq db = Inr (r, db') \<Longrightarrow> silent db db'"
  by (auto simp: silent_def accept_cancel_def put_cancel_def service_bind_eq_Inr Let_def split: vcp_payload.splits option.splits
      if_splits dest!: win_cancel_silent)

lemma accept_steer_silent: "accept_steer cfg ds rq db = Inr (r, db') \<Longrightarrow> silent db db'"
  by (auto simp: silent_def accept_steer_def service_bind_eq_Inr sbind_eq_Inr Let_def split: vcp_payload.splits
      dest!: append_command_commands)

lemma accept_silent: "accept_of cfg c rq db = Inr (r, db') \<Longrightarrow> silent db db'"
  by (cases c) (auto dest: accept_apply_silent accept_ensure_silent accept_destroy_silent accept_execute_silent
      accept_cancel_silent accept_steer_silent)

lemma accept_receipts: "accept_of cfg c rq db = Inr (r, db') \<Longrightarrow> v_receipts db' = v_receipts db"
  using accept_silent by (auto simp: silent_def)

section \<open>Replies\<close>

lemma accepted_final: "\<not> retryable_response (accepted rq oid k)"
  by (simp add: retryable_response_def accepted_def)

lemma accept_final: "accept_of cfg c rq db = Inr (r, db') \<Longrightarrow> \<not> retryable_response r \<or> db' = db"
proof (cases c)
  case (CExecute ds pre e)
  moreover assume "accept_of cfg c rq db = Inr (r, db')"
  ultimately show ?thesis by (auto elim!: accept_execute_effect simp: accepted_final)
qed (auto simp: accepted_final accept_apply_def apply_new_def accept_ensure_def accept_destroy_def accept_cancel_def
      win_cancel_def put_cancel_def accept_steer_def sbind_eq_Inr service_bind_eq_Inr Let_def
    split: vcp_payload.splits option.splits prod.split_asm if_splits)

lemma accepted_outcome: "vr_outcome (accepted rq oid k) = Inr (oid, k)"
  by (simp add: accepted_def)

lemma accept_rejected_same: "accept_of cfg c rq db = Inr (r, db') \<Longrightarrow> vr_outcome r = Inl e \<Longrightarrow> db' = db"
proof (cases c)
  case (CExecute ds pre x)
  moreover assume "accept_of cfg c rq db = Inr (r, db')" and "vr_outcome r = Inl e"
  ultimately show ?thesis by (auto elim!: accept_execute_effect simp: accepted_outcome)
qed (auto simp: accepted_outcome accept_apply_def apply_new_def accept_ensure_def accept_destroy_def accept_cancel_def
      win_cancel_def put_cancel_def accept_steer_def sbind_eq_Inr service_bind_eq_Inr Let_def
    split: vcp_payload.splits option.splits prod.split_asm if_splits)

text \<open>The reply on record for exactly this request.\<close>

definition stored_response :: "request \<Rightarrow> vcp_db \<Rightarrow> response option" where
  "stored_response rq db = (case tget (v_receipts db) (rq_command_id rq) of
     Some (ident, r) \<Rightarrow> if ident = command_identity rq then Some r else None | None \<Rightarrow> None)"

definition vcp_receipts_kept :: "vcp_db \<Rightarrow> vcp_db \<Rightarrow> bool" where
  "vcp_receipts_kept db db' \<longleftrightarrow> (\<forall>k v. tget (v_receipts db) k = Some v \<longrightarrow> tget (v_receipts db') k = Some v)"

lemma replay_Some_iff: "replay rq db = Inr (Some r) \<longleftrightarrow> stored_response rq db = Some r"
  by (auto simp: replay_def stored_response_def split: option.splits)

lemma replay_None_iff: "replay rq db = Inr None \<longleftrightarrow> tget (v_receipts db) (rq_command_id rq) = None"
  by (auto simp: replay_def split: option.splits)

lemma replay_same: "v_receipts db' = v_receipts db \<Longrightarrow> replay rq db' = replay rq db"
  by (simp add: replay_def)

text \<open>Recording a first reply: a final one is inserted, a retryable one is not.\<close>

lemma record_command_new:
  assumes "tget (v_receipts db) (rq_command_id rq) = None"
  shows "record_command rq r db = Inr (r, if retryable_response r then db
    else db\<lparr>v_receipts := v_receipts db @ [(rq_command_id rq, command_identity rq, r)]\<rparr>)"
proof -
  have "replay rq db = Inr None" using assms by (simp add: replay_None_iff)
  moreover have "tinsert (rq_command_id rq) (command_identity rq, r) (v_receipts db)
      = Some (v_receipts db @ [(rq_command_id rq, command_identity rq, r)])"
    using assms by (simp add: tinsert_Some_iff)
  ultimately show ?thesis by (simp add: record_command_def)
qed

lemma serve_Inr_iff: "serve cfg c rq db = (Inr r, db') \<longleftrightarrow> command_tx (accept_of cfg c) rq db = Inr (r, db')"
  by (auto simp: serve_def command_def run_tx_def split: sum.splits vcp_exn.splits prod.splits)

lemma serve_Inl: "serve cfg c rq db = (Inl e, db') \<Longrightarrow> db' = db"
  by (auto simp: serve_def command_def run_tx_def split: sum.splits vcp_exn.splits prod.splits)

text \<open>What a transaction of \<open>_command\<close> that returns did.\<close>

lemma serve_cases:
  assumes "serve cfg c rq db = (Inr r, db')"
  obtains (stored) "stored_response rq db = Some r" "db' = db"
  | (new) db1 where "tget (v_receipts db) (rq_command_id rq) = None" "accept_of cfg c rq db = Inr (r, db1)"
      "db' = (if retryable_response r then db1 else db1\<lparr>v_receipts := v_receipts db @ [(rq_command_id rq, command_identity rq, r)]\<rparr>)"
  | (refused) e where "tget (v_receipts db) (rq_command_id rq) = None" "accept_of cfg c rq db = Inl (Service e)" "r = rejected rq e"
      "db' = (if se_retryable e then db else db\<lparr>v_receipts := v_receipts db @ [(rq_command_id rq, command_identity rq, r)]\<rparr>)"
proof -
  obtain original where o: "replay rq db = Inr original"
      and rest: "(case original of Some r \<Rightarrow> Inr (r, db) | None \<Rightarrow> (case accept_of cfg c rq db of
          Inr (r, db1) \<Rightarrow> record_command rq r db1 | Inl (Service e) \<Rightarrow> record_command rq (rejected rq e) db | Inl e \<Rightarrow> Inl e)) = Inr (r, db')"
    using assms(1) by (auto simp: serve_Inr_iff command_tx_def sbind_eq_Inr)
  show thesis
  proof (cases original)
    case (Some x)
    with o rest show ?thesis by (auto intro: stored simp: replay_Some_iff)
  next
    case None
    with o have fresh: "tget (v_receipts db) (rq_command_id rq) = None" by (simp add: replay_None_iff)
    show ?thesis
    proof (cases "accept_of cfg c rq db")
      case (Inl e)
      then obtain s where e: "e = Service s" using None rest by (cases e) auto
      have "record_command rq (rejected rq s) db = Inr (r, db')" using None rest Inl e by simp
      then show ?thesis using Inl e fresh
        by (intro refused[of s]) (auto simp: record_command_new retryable_response_def rejected_def)
    next
      case (Inr p)
      obtain r1 db1 where p: "p = (r1, db1)" by (cases p)
      have k: "v_receipts db1 = v_receipts db" using accept_receipts Inr p by simp
      have "record_command rq r1 db1 = Inr (r, db')" using None rest Inr p by simp
      then show ?thesis using Inr p fresh k by (intro new[of db1]) (auto simp: record_command_new)
    qed
  qed
qed

lemma stored_response_new:
  "tget t (rq_command_id rq) = None \<Longrightarrow> stored_response rq (db\<lparr>v_receipts := t @ [(rq_command_id rq, command_identity rq, r)]\<rparr>) = Some r"
  by (simp add: stored_response_def)

interpretation vcp_receiver: idempotent_receiver "serve cfg" stored_response vcp_receipts_kept for cfg
proof unfold_locales
  fix q db r c
  assume "stored_response q db = Some r"
  then have "replay q db = Inr (Some r)" by (simp add: replay_Some_iff)
  then show "serve cfg c q db = (Inr r, db)" by (simp add: serve_Inr_iff command_tx_def)
next
  fix c q db r db'
  assume "serve cfg c q db = (Inr r, db')"
  then show "db' = db \<or> stored_response q db' = Some r"
  proof (cases rule: serve_cases)
    case (new db1)
    then show ?thesis using accept_final[OF new(2)] by (auto simp: stored_response_new)
  qed (auto simp: stored_response_new)
next
  fix c q db e db'
  assume "serve cfg c q db = (Inl e, db')"
  then show "db' = db" by (rule serve_Inl)
next
  fix db db' q r
  assume "vcp_receipts_kept db db'" and "stored_response q db = Some r"
  then show "stored_response q db' = Some r"
    by (auto simp: vcp_receipts_kept_def stored_response_def split: option.splits if_splits)
qed

end
