(* ===== verification/Vcp_Machine.thy ===== *)
theory Vcp_Machine
  imports Vcp_Commands
begin

text \<open>
  The virtual control plane as a step relation: public commands, the lifecycle worker's passes
  with their provider calls in flight, runtime updates, command deliveries and event publication,
  each transaction one step, in any order; an aborted pass, a shutdown and a restart lose the
  tasks and keep the database.
\<close>

section \<open>Fresh identities\<close>

text \<open>
  \<open>identity(prefix)\<close> draws a random UUID. What the service relies on is that an identity it draws
  names no record yet; the draws of one command are \<open>ds 0\<close> to \<open>ds 9\<close>.
\<close>

definition fresh_uuid :: "vcp_db \<Rightarrow> string \<Rightarrow> bool" where
  "fresh_uuid db u \<longleftrightarrow> tget (v_workspaces db) (identity ''ws_'' u) = None \<and> tget (v_runtimes db) (identity ''ws_'' u) = None
     \<and> tget (v_operations db) (identity ''op_'' u) = None \<and> tget (v_sessions db) (identity ''session_'' u) = None
     \<and> tget (v_attempts db) (identity ''attempt_'' u) = None \<and> tget (v_bindings db) (identity ''attempt_'' u) = None
     \<and> tget (v_commands db) (identity ''rtc_'' u) = None \<and> tget (v_steering db) (identity ''rtc_'' u) = None"

definition fresh_draws :: "vcp_db \<Rightarrow> (nat \<Rightarrow> draw) \<Rightarrow> bool" where
  "fresh_draws db ds \<longleftrightarrow> list_all (\<lambda>i. fresh_uuid db (d_uuid (ds i))) [0..<10]"

lemma fresh_drawsD: "fresh_draws db ds \<Longrightarrow> i < 10 \<Longrightarrow> fresh_uuid db (d_uuid (ds i))"
  by (auto simp: fresh_draws_def list_all_iff)

fun draws_of :: "public_command \<Rightarrow> nat \<Rightarrow> draw" where
  "draws_of (CApply ds) = ds"
| "draws_of (CEnsure ds) = ds"
| "draws_of (CDestroy ds) = ds"
| "draws_of (CExecute ds pre e) = ds"
| "draws_of (CCancel ds) = ds"
| "draws_of (CSteer ds) = ds"

section \<open>The worker's tasks\<close>

text \<open>
  A task holds the operation record its page read; once it has claimed the operation it also holds
  the ownership record of the provider call it makes.
\<close>

datatype provider_task = Picked operation_doc | Calling operation_doc runtime_doc

fun task_record :: "provider_task \<Rightarrow> operation_doc" where
  "task_record (Picked r) = r"
| "task_record (Calling r rt) = r"

record vcp =
  vm_db :: vcp_db
  vm_tasks :: "(string, provider_task) table"
  vm_after :: string
  vm_exhausted :: bool

definition initial_vcp :: vcp where
  "initial_vcp = \<lparr>vm_db = empty_vcp, vm_tasks = [], vm_after = [], vm_exhausted = False\<rparr>"

definition max_tasks :: nat where "max_tasks = 8"

fun add_tasks :: "operation_doc list \<Rightarrow> (string, provider_task) table \<Rightarrow> (string, provider_task) table" where
  "add_tasks [] ts = ts"
| "add_tasks (r # rs) ts = add_tasks rs (tput (o_operation_id (od_snapshot r)) (Picked r) ts)"

text \<open>The pass is over, or was aborted: its tasks are gone and the next pass starts from the first key.\<close>

definition new_pass :: "vcp \<Rightarrow> vcp" where
  "new_pass s = s\<lparr>vm_tasks := [], vm_after := [], vm_exhausted := False\<rparr>"

definition claim_task :: "string \<Rightarrow> operation_doc \<Rightarrow> vcp \<Rightarrow> vcp" where
  "claim_task oid r s = (case tget (v_runtimes (vm_db s)) (workspace_of r) of
     None \<Rightarrow> new_pass s
   | Some rt \<Rightarrow> s\<lparr>vm_tasks := tput oid (Calling r rt) (vm_tasks s)\<rparr>)"

inductive vcp_step :: "vcp_cfg \<Rightarrow> vcp \<Rightarrow> vcp \<Rightarrow> bool" for cfg where
  public: "fresh_draws (vm_db s) (draws_of c) \<Longrightarrow> serve cfg c rq (vm_db s) = (r, db) \<Longrightarrow> vcp_step cfg s (s\<lparr>vm_db := db\<rparr>)"
| page: "\<not> vm_exhausted s \<Longrightarrow> length (vm_tasks s) < max_tasks \<Longrightarrow>
     reconcile_page (max_tasks - length (vm_tasks s)) (vm_after s) due (vm_db s) = (rs, after, none_left) \<Longrightarrow>
     vcp_step cfg s (s\<lparr>vm_tasks := add_tasks rs (vm_tasks s), vm_after := after, vm_exhausted := none_left\<rparr>)"
| claim: "tget (vm_tasks s) oid = Some (Picked r) \<Longrightarrow> claim_operation d r (vm_db s) = (r1, db) \<Longrightarrow>
     vcp_step cfg s (claim_task oid r1 (s\<lparr>vm_db := db\<rparr>))"
| settle: "tget (vm_tasks s) oid = Some (Calling r rt) \<Longrightarrow> settle_call cfg ds r rt result (vm_db s) = Inr db \<Longrightarrow>
     vcp_step cfg s (s\<lparr>vm_db := db, vm_tasks := tdel oid (vm_tasks s)\<rparr>)"
| pass_ends: "vm_exhausted s \<Longrightarrow> vm_tasks s = [] \<Longrightarrow> vcp_step cfg s (new_pass s)"
| pass_aborted: "vcp_step cfg s (new_pass s)"
| update: "receive cfg ds subject u (vm_db s) = (r, db) \<Longrightarrow> vcp_step cfg s (s\<lparr>vm_db := db\<rparr>)"
| delivery: "tget (v_commands (vm_db s)) cid = Some e \<Longrightarrow> deliver cfg ds (ce_subject e) (ce_wire e) schema a (vm_db s) = (r, db) \<Longrightarrow>
     vcp_step cfg s (s\<lparr>vm_db := db\<rparr>)"
| publication: "n \<in> set (tkeys (v_outbox (vm_db s))) \<Longrightarrow> vcp_step cfg s (s\<lparr>vm_db := mark_published n (vm_db s)\<rparr>)"

definition vcp_steps :: "vcp_cfg \<Rightarrow> vcp \<Rightarrow> vcp \<Rightarrow> bool" where
  "vcp_steps cfg = (vcp_step cfg)\<^sup>*\<^sup>*"

definition vcp_reachable :: "vcp_cfg \<Rightarrow> vcp \<Rightarrow> bool" where
  "vcp_reachable cfg s \<longleftrightarrow> vcp_steps cfg initial_vcp s"

lemma vcp_reachable_induct [consumes 1, case_names init step]:
  assumes "vcp_reachable cfg s" and "P initial_vcp"
    and "\<And>s t. vcp_reachable cfg s \<Longrightarrow> P s \<Longrightarrow> vcp_step cfg s t \<Longrightarrow> P t"
  shows "P s"
  using assms(1) unfolding vcp_reachable_def vcp_steps_def
proof (induction rule: rtranclp_induct)
  case (step y z)
  then show ?case using assms(3) by (simp add: vcp_reachable_def vcp_steps_def)
qed (rule assms(2))

end
