(* ===== verification/Vcp_Frames.thy ===== *)
theory Vcp_Frames
  imports Vcp_Machine
begin

text \<open>
  What the virtual control plane's operations leave alone. The lifecycle and the execution half of
  the service write disjoint kinds of operation records and disjoint fields of the workspace
  document; the frames below say so, and the invariants of one half survive the steps of the
  other by them.
\<close>

section \<open>Reading after writing\<close>

lemmas put_defs = put_workspace_def put_operation_def put_runtime_def delete_runtime_def put_session_def put_attempt_def
  put_status_def put_steering_def

lemma get_workspace_fields [simp]:
  "get_workspace k (db\<lparr>v_operations := o1\<rparr>) = get_workspace k db" "get_workspace k (db\<lparr>v_runtimes := o2\<rparr>) = get_workspace k db"
  "get_workspace k (db\<lparr>v_sessions := o3\<rparr>) = get_workspace k db" "get_workspace k (db\<lparr>v_attempts := o4\<rparr>) = get_workspace k db"
  "get_workspace k (db\<lparr>v_bindings := o5\<rparr>) = get_workspace k db" "get_workspace k (db\<lparr>v_status := o6\<rparr>) = get_workspace k db"
  "get_workspace k (db\<lparr>v_steering := o7\<rparr>) = get_workspace k db" "get_workspace k (db\<lparr>v_receipts := o8\<rparr>) = get_workspace k db"
  "get_workspace k (db\<lparr>v_commands := o9\<rparr>) = get_workspace k db" "get_workspace k (db\<lparr>v_updates := o10\<rparr>) = get_workspace k db"
  "get_workspace k (db\<lparr>v_history := o11\<rparr>) = get_workspace k db" "get_workspace k (db\<lparr>v_outbox := o12\<rparr>) = get_workspace k db"
  by (simp_all add: get_workspace_def)

lemma get_workspace_put [simp]:
  "get_workspace k (db\<lparr>v_workspaces := tput k' (Managed d) t\<rparr>)
   = (if k = k' then Some d else get_workspace k (db\<lparr>v_workspaces := t\<rparr>))"
  by (simp add: get_workspace_def)

lemma get_workspace_same [simp]: "get_workspace k (db\<lparr>v_workspaces := v_workspaces db\<rparr>) = get_workspace k db"
  by (simp add: get_workspace_def)

section \<open>Operation records\<close>

abbreviation kind_of :: "operation_doc \<Rightarrow> operation_kind" where
  "kind_of r \<equiv> o_operation (od_snapshot r)"

abbreviation lifecycle_kinds :: "operation_kind set" where
  "lifecycle_kinds \<equiv> {OpApply, OpEnsure, OpDestroy}"

text \<open>
  Between \<open>db\<close> and \<open>db'\<close> only operations of the kinds \<open>K\<close> were added or changed, none was removed
  and none changed its kind.
\<close>

definition ops_frame :: "operation_kind set \<Rightarrow> vcp_db \<Rightarrow> vcp_db \<Rightarrow> bool" where
  "ops_frame K db db' \<longleftrightarrow>
     (\<forall>oid r. tget (v_operations db) oid = Some r \<longrightarrow>
        (\<exists>r'. tget (v_operations db') oid = Some r' \<and> kind_of r' = kind_of r \<and> (kind_of r \<notin> K \<longrightarrow> r' = r)))
     \<and> (\<forall>oid r'. tget (v_operations db) oid = None \<longrightarrow> tget (v_operations db') oid = Some r' \<longrightarrow> kind_of r' \<in> K)"

definition op_keys :: "vcp_db \<Rightarrow> bool" where
  "op_keys db \<longleftrightarrow> twf (v_operations db) \<and> (\<forall>oid r. tget (v_operations db) oid = Some r \<longrightarrow> o_operation_id (od_snapshot r) = oid)"

lemma ops_frame_same: "v_operations db' = v_operations db \<Longrightarrow> ops_frame K db db'"
  by (simp add: ops_frame_def)

lemma ops_frame_mono: "ops_frame K db db' \<Longrightarrow> K \<subseteq> L \<Longrightarrow> ops_frame L db db'"
  unfolding ops_frame_def by blast

lemma ops_frame_trans:
  assumes "ops_frame K db db1" and "ops_frame K db1 db2"
  shows "ops_frame K db db2"
proof -
  have "\<exists>r2. tget (v_operations db2) oid = Some r2 \<and> kind_of r2 = kind_of r \<and> (kind_of r \<notin> K \<longrightarrow> r2 = r)"
    if "tget (v_operations db) oid = Some r" for oid r
    using that assms unfolding ops_frame_def by metis
  moreover have "kind_of r2 \<in> K" if "tget (v_operations db) oid = None" "tget (v_operations db2) oid = Some r2" for oid r2
  proof (cases "tget (v_operations db1) oid")
    case None
    then show ?thesis using assms(2) that(2) unfolding ops_frame_def by blast
  next
    case (Some r1)
    then have "kind_of r1 \<in> K" using assms(1) that(1) unfolding ops_frame_def by blast
    moreover have "kind_of r2 = kind_of r1" using assms(2) Some that(2) unfolding ops_frame_def by fastforce
    ultimately show ?thesis by simp
  qed
  ultimately show ?thesis unfolding ops_frame_def by blast
qed

lemma ops_frame_put:
  assumes "v_operations db' = tput oid r' (v_operations db)" and "kind_of r' \<in> K"
    and "\<And>r. tget (v_operations db) oid = Some r \<Longrightarrow> kind_of r = kind_of r'"
  shows "ops_frame K db db'"
  using assms by (auto simp: ops_frame_def)

lemma ops_frame_lookup:
  assumes "ops_frame K db db'" and "kind_of r \<notin> K"
  shows "tget (v_operations db') oid = Some r \<longleftrightarrow> tget (v_operations db) oid = Some r"
proof
  assume r: "tget (v_operations db') oid = Some r"
  show "tget (v_operations db) oid = Some r"
  proof (cases "tget (v_operations db) oid")
    case None
    then show ?thesis using assms r unfolding ops_frame_def by blast
  next
    case (Some r0)
    then show ?thesis using assms r unfolding ops_frame_def by fastforce
  qed
qed (use assms in \<open>auto simp: ops_frame_def\<close>)

lemma ops_frame_kind:
  "ops_frame K db db' \<Longrightarrow> tget (v_operations db) oid = Some r \<Longrightarrow> \<exists>r'. tget (v_operations db') oid = Some r' \<and> kind_of r' = kind_of r"
  unfolding ops_frame_def by blast

section \<open>Workspace documents\<close>

text \<open>
  What of a workspace document the execution half never changes: everything but the active
  attempts, the version and the time of the last change.
\<close>

definition ws_core :: "workspace_doc \<Rightarrow> workspace_doc" where
  "ws_core d = d\<lparr>wd_snapshot := (wd_snapshot d)\<lparr>w_active_attempt_ids := [], w_version := 0, w_updated_at := []\<rparr>\<rparr>"

lemma ws_coreD:
  assumes "ws_core d' = ws_core d"
  shows "wd_active_operation_id d' = wd_active_operation_id d" "w_workspace_id (wd_snapshot d') = w_workspace_id (wd_snapshot d)"
    "w_name (wd_snapshot d') = w_name (wd_snapshot d)" "w_state (wd_snapshot d') = w_state (wd_snapshot d)"
    "w_runtime (wd_snapshot d') = w_runtime (wd_snapshot d)" "w_provider (wd_snapshot d') = w_provider (wd_snapshot d)"
    "wd_specification d' = wd_specification d"
proof -
  have s: "(wd_snapshot d')\<lparr>w_active_attempt_ids := [], w_version := 0, w_updated_at := []\<rparr>
      = (wd_snapshot d)\<lparr>w_active_attempt_ids := [], w_version := 0, w_updated_at := []\<rparr>"
    using assms by (metis workspace_doc.select_convs(1) workspace_doc.surjective workspace_doc.update_convs(1) ws_core_def)
  show "wd_active_operation_id d' = wd_active_operation_id d" "wd_specification d' = wd_specification d"
    using assms by (cases d; cases d'; simp add: ws_core_def)+
  show "w_workspace_id (wd_snapshot d') = w_workspace_id (wd_snapshot d)" "w_name (wd_snapshot d') = w_name (wd_snapshot d)"
    "w_state (wd_snapshot d') = w_state (wd_snapshot d)" "w_runtime (wd_snapshot d') = w_runtime (wd_snapshot d)"
    "w_provider (wd_snapshot d') = w_provider (wd_snapshot d)"
    using s by (cases "wd_snapshot d"; cases "wd_snapshot d'"; simp)+
qed

text \<open>A step of the execution half.\<close>

definition exec_frame :: "vcp_db \<Rightarrow> vcp_db \<Rightarrow> bool" where
  "exec_frame db db' \<longleftrightarrow> v_runtimes db' = v_runtimes db \<and> ops_frame {OpExecute, OpCancel, OpSteer} db db'
     \<and> tkeys (v_workspaces db') = tkeys (v_workspaces db) \<and> (op_keys db \<longrightarrow> op_keys db')
     \<and> (\<forall>k. map_option ws_core (get_workspace k db') = map_option ws_core (get_workspace k db))"

lemma exec_frame_same:
  "v_runtimes db' = v_runtimes db \<Longrightarrow> v_operations db' = v_operations db \<Longrightarrow> v_workspaces db' = v_workspaces db \<Longrightarrow> exec_frame db db'"
  by (simp add: exec_frame_def ops_frame_same get_workspace_def op_keys_def)

lemma exec_frame_refl [simp]: "exec_frame db db"
  by (simp add: exec_frame_same)

lemma exec_frame_trans: "exec_frame db db1 \<Longrightarrow> exec_frame db1 db2 \<Longrightarrow> exec_frame db db2"
  unfolding exec_frame_def using ops_frame_trans by auto

lemma exec_frame_ops:
  assumes "ops_frame K db db'" and "K \<subseteq> {OpExecute, OpCancel, OpSteer}"
    and "op_keys db \<Longrightarrow> op_keys db'" and "v_runtimes db' = v_runtimes db" and "v_workspaces db' = v_workspaces db"
  shows "exec_frame db db'"
  using assms ops_frame_mono by (auto simp: exec_frame_def get_workspace_def)

lemma exec_frame_workspace:
  assumes "get_workspace k db = Some d" and "ws_core d' = ws_core d"
    and "v_workspaces db' = tput k (Managed d') (v_workspaces db)"
    and "v_runtimes db' = v_runtimes db" and "v_operations db' = v_operations db"
  shows "exec_frame db db'"
  using assms tput_present_keys[of "v_workspaces db" k "Managed d'"]
  by (auto simp: exec_frame_def ops_frame_same get_workspace_def op_keys_def split: option.splits workspace_row.splits)

lemma exec_frame_get:
  assumes "exec_frame db db'"
  shows "get_workspace k db = Some d \<Longrightarrow> \<exists>d'. get_workspace k db' = Some d' \<and> ws_core d' = ws_core d"
    and "get_workspace k db' = Some d' \<Longrightarrow> \<exists>d. get_workspace k db = Some d \<and> ws_core d' = ws_core d"
  using assms unfolding exec_frame_def by (metis map_option_eq_Some option.map(2))+

end
