(* ===== verification/Vcp_Lifecycle_Inv.thy ===== *)
theory Vcp_Lifecycle_Inv
  imports Vcp_Frames
begin

text \<open>
  The lifecycle invariant of the virtual control plane: a workspace is locked by exactly its
  unfinished lifecycle operation, its state agrees with the operation that holds it, it owns a
  runtime record until it is destroyed, and attempts are active only while it is ready.
\<close>

section \<open>The invariant\<close>

fun lock_state :: "operation_kind \<Rightarrow> workspace_state option" where
  "lock_state OpApply = Some WProvisioning"
| "lock_state OpEnsure = Some WReady"
| "lock_state OpDestroy = Some WDestroying"
| "lock_state _ = None"

definition lock_ok :: "vcp_db \<Rightarrow> string \<Rightarrow> workspace_doc \<Rightarrow> bool" where
  "lock_ok db k d \<longleftrightarrow> (case wd_active_operation_id d of
     None \<Rightarrow> w_state (wd_snapshot d) \<notin> {WProvisioning, WDestroying}
   | Some oid \<Rightarrow> (\<exists>r. tget (v_operations db) oid = Some r \<and> unfinished r \<and> workspace_of r = k
       \<and> lock_state (kind_of r) = Some (w_state (wd_snapshot d))))"

definition runtime_ok :: "vcp_db \<Rightarrow> string \<Rightarrow> workspace_doc \<Rightarrow> bool" where
  "runtime_ok db k d \<longleftrightarrow> (tget (v_runtimes db) k = None \<longleftrightarrow> w_state (wd_snapshot d) = WDestroyed)
     \<and> (w_state (wd_snapshot d) = WReady \<longrightarrow> running_runtime (wd_snapshot d) (tget (v_runtimes db) k))"

definition workspace_ok :: "vcp_db \<Rightarrow> string \<Rightarrow> workspace_doc \<Rightarrow> bool" where
  "workspace_ok db k d \<longleftrightarrow> w_workspace_id (wd_snapshot d) = k \<and> lock_ok db k d \<and> runtime_ok db k d
     \<and> (w_active_attempt_ids (wd_snapshot d) \<noteq> [] \<longrightarrow> w_state (wd_snapshot d) = WReady)"

definition operation_ok :: "vcp_db \<Rightarrow> string \<Rightarrow> operation_doc \<Rightarrow> bool" where
  "operation_ok db oid r \<longleftrightarrow> (unfinished r \<longrightarrow>
     (\<exists>d. get_workspace (workspace_of r) db = Some d \<and> wd_active_operation_id d = Some oid)
     \<and> (kind_of r = OpDestroy \<longrightarrow> od_retention r \<noteq> None))"

definition names_unique :: "vcp_db \<Rightarrow> bool" where
  "names_unique db \<longleftrightarrow> (\<forall>k k' d d'. get_workspace k db = Some d \<longrightarrow> get_workspace k' db = Some d' \<longrightarrow>
     w_name (wd_snapshot d) = w_name (wd_snapshot d') \<longrightarrow> k = k')"

definition lifecycle_inv :: "vcp_db \<Rightarrow> bool" where
  "lifecycle_inv db \<longleftrightarrow> twf (v_workspaces db) \<and> op_keys db \<and> names_unique db
     \<and> (\<forall>k d. get_workspace k db = Some d \<longrightarrow> workspace_ok db k d)
     \<and> (\<forall>oid r. tget (v_operations db) oid = Some r \<longrightarrow> operation_ok db oid r)"

lemma lifecycle_invD:
  assumes "lifecycle_inv db"
  shows "twf (v_workspaces db)" "op_keys db" "names_unique db" "get_workspace k db = Some d \<Longrightarrow> workspace_ok db k d"
    "tget (v_operations db) oid = Some r \<Longrightarrow> operation_ok db oid r"
  using assms by (auto simp: lifecycle_inv_def)

lemma lifecycle_twf:
  assumes "lifecycle_inv db"
  shows "twf (v_workspaces db)" "twf (v_operations db)"
  using lifecycle_invD(1,2)[OF assms] by (auto simp: op_keys_def)

lemma unfinished_kind: "unfinished r \<Longrightarrow> kind_of r \<in> lifecycle_kinds"
  by (simp add: unfinished_def)

text \<open>At most one unfinished lifecycle operation per workspace.\<close>

lemma one_unfinished:
  assumes "lifecycle_inv db" and "tget (v_operations db) o1 = Some r1" "unfinished r1"
    and "tget (v_operations db) o2 = Some r2" "unfinished r2" and "workspace_of r1 = workspace_of r2"
  shows "o1 = o2"
  using lifecycle_invD(5)[OF assms(1,2)] lifecycle_invD(5)[OF assms(1,4)] assms by (auto simp: operation_ok_def)

section \<open>Steps of the execution half\<close>

lemma exec_frame_unfinished:
  assumes "exec_frame db db'" and "unfinished r"
  shows "tget (v_operations db') oid = Some r \<longleftrightarrow> tget (v_operations db) oid = Some r"
  using assms unfinished_kind[OF assms(2)] by (intro ops_frame_lookup[where K = "{OpExecute, OpCancel, OpSteer}"]) (auto simp: exec_frame_def)

lemma lifecycle_inv_exec_frame:
  assumes inv: "lifecycle_inv db" and f: "exec_frame db db'"
    and act: "\<And>k d. get_workspace k db' = Some d \<Longrightarrow> w_active_attempt_ids (wd_snapshot d) \<noteq> [] \<Longrightarrow> w_state (wd_snapshot d) = WReady"
  shows "lifecycle_inv db'"
proof -
  note core = exec_frame_get[OF f] and un = exec_frame_unfinished[OF f]
  have rt: "v_runtimes db' = v_runtimes db" using f by (simp add: exec_frame_def)
  have ws: "workspace_ok db' k d'" if g: "get_workspace k db' = Some d'" for k d'
  proof -
    obtain d where d: "get_workspace k db = Some d" and c: "ws_core d' = ws_core d" using core(2)[OF g] by blast
    have ok: "workspace_ok db k d" using lifecycle_invD(4)[OF inv d] .
    have "lock_ok db' k d'" using ok un by (auto simp: workspace_ok_def lock_ok_def ws_coreD[OF c] split: option.splits)
    then show ?thesis
      using ok act[OF g] by (auto simp: workspace_ok_def runtime_ok_def running_runtime_def rt ws_coreD[OF c])
  qed
  have ops: "operation_ok db' oid r" if g: "tget (v_operations db') oid = Some r" for oid r
  proof (cases "unfinished r")
    case True
    then have ok: "operation_ok db oid r" using un[OF True] g lifecycle_invD(5)[OF inv] by blast
    then obtain d where "get_workspace (workspace_of r) db = Some d" and l: "wd_active_operation_id d = Some oid"
      using True by (auto simp: operation_ok_def)
    then obtain d' where "get_workspace (workspace_of r) db' = Some d'" "ws_core d' = ws_core d" using core(1) by blast
    then show ?thesis using ok True l ws_coreD(1)[of d' d] by (simp add: operation_ok_def)
  qed (simp add: operation_ok_def)
  have "names_unique db'" unfolding names_unique_def
  proof (intro allI impI)
    fix k k' d d'
    assume a: "get_workspace k db' = Some d" "get_workspace k' db' = Some d'" "w_name (wd_snapshot d) = w_name (wd_snapshot d')"
    obtain e e' where "get_workspace k db = Some e" "ws_core d = ws_core e" "get_workspace k' db = Some e'" "ws_core d' = ws_core e'"
      using core(2)[OF a(1)] core(2)[OF a(2)] by blast
    then show "k = k'" using lifecycle_invD(3)[OF inv] a(3) ws_coreD(3)[of d e] ws_coreD(3)[of d' e'] unfolding names_unique_def by metis
  qed
  moreover have "twf (v_workspaces db')" using lifecycle_invD(1)[OF inv] f by (simp add: twf_def exec_frame_def)
  moreover have "op_keys db'" using lifecycle_invD(2)[OF inv] f by (simp add: exec_frame_def)
  ultimately show ?thesis using ws ops by (auto simp: lifecycle_inv_def)
qed

section \<open>Steps of the lifecycle half\<close>

text \<open>
  A lifecycle step writes one workspace and one operation of it. No other unfinished operation may
  hold that workspace.
\<close>

lemma lifecycle_inv_write:
  assumes inv: "lifecycle_inv db"
    and gw: "\<And>k'. get_workspace k' db' = (if k' = k then Some d' else get_workspace k' db)"
    and go: "\<And>o'. tget (v_operations db') o' = (if o' = oid then Some r' else tget (v_operations db) o')"
    and gr: "\<And>k'. k' \<noteq> k \<Longrightarrow> tget (v_runtimes db') k' = tget (v_runtimes db) k'"
    and twf': "twf (v_workspaces db')" "twf (v_operations db')"
    and of_k: "workspace_of r' = k" "o_operation_id (od_snapshot r') = oid"
    and old: "\<And>r. tget (v_operations db) oid = Some r \<Longrightarrow> workspace_of r = k"
    and lock: "\<And>d. get_workspace k db = Some d \<Longrightarrow> wd_active_operation_id d \<in> {None, Some oid}"
    and name: "\<And>k' d. k' \<noteq> k \<Longrightarrow> get_workspace k' db = Some d \<Longrightarrow> w_name (wd_snapshot d) \<noteq> w_name (wd_snapshot d')"
    and ok: "workspace_ok db' k d'" "operation_ok db' oid r'"
  shows "lifecycle_inv db'"
proof -
  note D = lifecycle_invD[OF inv]
  have other: "tget (v_operations db') o' = tget (v_operations db) o'" if "tget (v_operations db) o' = Some r" "workspace_of r \<noteq> k" for o' r
    using that old by (auto simp: go)
  have ws: "workspace_ok db' k' d" if g: "get_workspace k' db' = Some d" for k' d
  proof (cases "k' = k")
    case False
    then have d: "get_workspace k' db = Some d" using g gw by simp
    have w: "workspace_ok db k' d" using D(4)[OF d] .
    have "lock_ok db' k' d"
    proof (cases "wd_active_operation_id d")
      case (Some o')
      then obtain r where r: "tget (v_operations db) o' = Some r" "unfinished r" "workspace_of r = k'"
          "lock_state (kind_of r) = Some (w_state (wd_snapshot d))" using w by (auto simp: workspace_ok_def lock_ok_def)
      then show ?thesis using Some other[OF r(1)] False by (auto simp: lock_ok_def)
    qed (use w in \<open>auto simp: workspace_ok_def lock_ok_def\<close>)
    then show ?thesis using w gr[OF False] by (auto simp: workspace_ok_def runtime_ok_def)
  qed (use g gw ok in auto)
  have ops: "operation_ok db' o' r" if g: "tget (v_operations db') o' = Some r" for o' r
  proof (cases "o' = oid")
    case False
    then have r: "tget (v_operations db) o' = Some r" using g go by simp
    show ?thesis
    proof (cases "unfinished r")
      case True
      then obtain d where d: "get_workspace (workspace_of r) db = Some d" "wd_active_operation_id d = Some o'"
        using D(5)[OF r] by (auto simp: operation_ok_def)
      then have "workspace_of r \<noteq> k" using lock False by auto
      then show ?thesis using d D(5)[OF r] by (simp add: operation_ok_def gw)
    qed (simp add: operation_ok_def)
  qed (use g go ok in auto)
  have "names_unique db'" using D(3) name unfolding names_unique_def gw by (metis option.inject)
  moreover have "op_keys db'" using D(2) of_k twf'(2) by (auto simp: op_keys_def go)
  ultimately show ?thesis using ws ops twf' by (auto simp: lifecycle_inv_def)
qed

subsection \<open>Apply\<close>

lemma workspace_named_None:
  assumes "workspace_named n db = None" and "get_workspace k db = Some d"
  shows "w_name (wd_snapshot d) \<noteq> n"
proof
  assume n: "w_name (wd_snapshot d) = n"
  have "(k, Managed d) \<in> set (v_workspaces db)"
    using assms(2) by (auto simp: get_workspace_def split: option.splits workspace_row.splits dest: tget_Some_in)
  moreover have "named n (Managed d)" using n by (simp add: named_def)
  ultimately obtain p where p: "List.find (\<lambda>(k, row). named n row) (v_workspaces db) = Some p"
    by (cases "List.find (\<lambda>(k, row). named n row) (v_workspaces db)") (auto simp: find_None_iff)
  then have "named n (snd p)" by (auto simp: find_Some_iff case_prod_beta)
  then show False using assms(1) p by (cases p) (auto simp: workspace_named_def named_def split: workspace_row.splits)
qed

lemma fresh_workspace: "fresh_uuid db u \<Longrightarrow> get_workspace (identity ''ws_'' u) db = None"
  by (simp add: fresh_uuid_def get_workspace_def)

lemma apply_new_effect:
  assumes "apply_new cfg ds rq doc db = Inr (r, db')"
  shows "\<exists>rows. db' = (put_runtime (identity ''ws_'' (d_uuid (ds 0)))
      \<lparr>rd_runtime_id = identity ''rt_'' (d_uuid (ds 1)), rd_generation = 1, rd_provider = jstr (jget (spec_of doc) ''provider''), rd_locator = None\<rparr>
      (put_operation (identity ''op_'' (d_uuid (ds 3)))
        (operation_record (new_operation (ds 3) rq OpApply (identity ''ws_'' (d_uuid (ds 0))) (d_now (ds 2)) OpPending) (rq_causal_path rq))
        (put_workspace (identity ''ws_'' (d_uuid (ds 0)))
          \<lparr>wd_snapshot = new_workspace (identity ''ws_'' (d_uuid (ds 0))) (d_now (ds 2)) doc, wd_specification = doc,
           wd_operation_id = identity ''op_'' (d_uuid (ds 3)), wd_active_operation_id = Some (identity ''op_'' (d_uuid (ds 3)))\<rparr> db)))\<lparr>v_outbox := rows\<rparr>"
  using assms by (auto simp: apply_new_def Let_def sbind_eq_Inr new_operation_def dest!: append_event_outbox)

lemma apply_new_inv:
  assumes inv: "lifecycle_inv db" and new: "workspace_named (doc_name doc) db = None"
    and fresh: "fresh_draws db ds" and run: "apply_new cfg ds rq doc db = Inr (r, db')"
  shows "lifecycle_inv db'"
proof -
  define k where "k = identity ''ws_'' (d_uuid (ds 0))"
  define oid where "oid = identity ''op_'' (d_uuid (ds 3))"
  have f: "get_workspace k db = None" "tget (v_operations db) oid = None"
    using fresh_drawsD[OF fresh, of 0] fresh_drawsD[OF fresh, of 3] fresh_workspace by (auto simp: k_def oid_def fresh_uuid_def)
  obtain rows where db': "db' = (put_runtime k \<lparr>rd_runtime_id = identity ''rt_'' (d_uuid (ds 1)), rd_generation = 1,
      rd_provider = jstr (jget (spec_of doc) ''provider''), rd_locator = None\<rparr>
      (put_operation oid (operation_record (new_operation (ds 3) rq OpApply k (d_now (ds 2)) OpPending) (rq_causal_path rq))
        (put_workspace k \<lparr>wd_snapshot = new_workspace k (d_now (ds 2)) doc, wd_specification = doc,
           wd_operation_id = oid, wd_active_operation_id = Some oid\<rparr> db)))\<lparr>v_outbox := rows\<rparr>"
    using apply_new_effect[OF run] unfolding k_def oid_def by blast
  show ?thesis
    by (rule lifecycle_inv_write[OF inv, where k = k and oid = oid])
      (use f new lifecycle_twf[OF inv] workspace_named_None in
        \<open>auto simp: db' put_defs oid_def new_operation_def operation_record_def workspace_of_def workspace_ok_def lock_ok_def
          runtime_ok_def operation_ok_def new_workspace_def unfinished_def Let_def\<close>)
qed

lemma accept_apply_inv:
  assumes "lifecycle_inv db" and "fresh_draws db ds" and "accept_apply cfg ds rq db = Inr (r, db')"
  shows "lifecycle_inv db'"
  using assms by (auto simp: accept_apply_def Let_def split: vcp_payload.splits option.splits intro: apply_new_inv)

subsection \<open>Ensure and destroy\<close>

lemma load_workspace_get: "load_workspace rq db = Inr d \<Longrightarrow> get_workspace (rq_workspace_id rq) db = Some d"
  by (auto simp: load_workspace_def split: option.splits if_splits)

lemma require_idle_None: "require_idle d = None \<longleftrightarrow> wd_active_operation_id d = None"
  by (simp add: require_idle_def split: option.splits)

lemma ensure_checkD:
  assumes "ensure_check cfg ds rq restore db = Inr d"
  shows "get_workspace (rq_workspace_id rq) db = Some d" "wd_active_operation_id d = None" "w_state (wd_snapshot d) = WReady"
    "tget (vc_providers cfg) (w_provider (wd_snapshot d)) \<noteq> None"
  using assms by (auto simp: ensure_check_def sbind_eq_Inr require_idle_None load_workspace_get)

lemma destroy_checkD:
  assumes "destroy_check cfg ds rq db = Inr d"
  shows "get_workspace (rq_workspace_id rq) db = Some d" "wd_active_operation_id d = None"
    "w_active_attempt_ids (wd_snapshot d) = []" "w_state (wd_snapshot d) \<in> set destroyable"
  using assms by (auto simp: destroy_check_def sbind_eq_Inr require_idle_None load_workspace_get Let_def)

lemma other_name:
  assumes "lifecycle_inv db" and "get_workspace k db = Some d" "w_name (wd_snapshot d') = w_name (wd_snapshot d)"
    and "k' \<noteq> k" "get_workspace k' db = Some e"
  shows "w_name (wd_snapshot e) \<noteq> w_name (wd_snapshot d')"
  using lifecycle_invD(3)[OF assms(1)] assms(2-) unfolding names_unique_def by metis

lemma accept_ensure_inv:
  assumes inv: "lifecycle_inv db" and fresh: "fresh_draws db ds" and run: "accept_ensure cfg ds rq db = Inr (r, db')"
  shows "lifecycle_inv db'"
proof -
  define k where "k = rq_workspace_id rq"
  define op where "op = new_operation (ds 1) rq OpEnsure k (d_now (ds 0)) OpPending"
  obtain restore d where chk: "ensure_check cfg ds rq restore db = Inr d"
      and db': "db' = put_operation (o_operation_id op) (operation_record op (rq_causal_path rq))
        (put_workspace k (d\<lparr>wd_active_operation_id := Some (o_operation_id op)\<rparr>) db)"
    using run by (auto simp: accept_ensure_def service_bind_eq_Inr Let_def op_def k_def split: vcp_payload.splits)
  note c = ensure_checkD[OF chk, folded k_def]
  have f: "tget (v_operations db) (o_operation_id op) = None"
    using fresh_drawsD[OF fresh, of 1] by (simp add: op_def new_operation_def fresh_uuid_def)
  have w: "workspace_ok db k d" using lifecycle_invD(4)[OF inv c(1)] .
  show ?thesis
    by (rule lifecycle_inv_write[OF inv, where k = k and oid = "o_operation_id op"])
      (use f c w lifecycle_twf[OF inv] other_name[OF inv c(1) refl] in
        \<open>auto simp: db' put_defs op_def new_operation_def operation_record_def workspace_of_def workspace_ok_def lock_ok_def
          runtime_ok_def operation_ok_def unfinished_def\<close>)
qed

lemma accept_destroy_inv:
  assumes inv: "lifecycle_inv db" and fresh: "fresh_draws db ds" and run: "accept_destroy cfg ds rq db = Inr (r, db')"
  shows "lifecycle_inv db'"
proof -
  define k where "k = rq_workspace_id rq"
  obtain retention d where chk: "destroy_check cfg ds rq db = Inr d"
      and db': "db' = put_operation (o_operation_id (destroy_operation ds rq retention d))
          ((operation_record (destroy_operation ds rq retention d) (rq_causal_path rq))\<lparr>od_retention := Some retention\<rparr>)
          (put_workspace k (destroying_doc (d_now (ds 0)) (o_operation_id (destroy_operation ds rq retention d)) d) db)"
    using run by (auto simp: accept_destroy_def service_bind_eq_Inr Let_def k_def split: vcp_payload.splits)
  define op where "op = destroy_operation ds rq retention d"
  define d1 where "d1 = destroying_doc (d_now (ds 0)) (o_operation_id op) d"
  have op: "o_operation_id op = identity ''op_'' (d_uuid (ds 1))" "o_operation op = OpDestroy" "o_resources op = [(''workspace_id'', k)]"
      "o_status op = (if w_state (wd_snapshot d) = WDestroyed then OpSucceeded else OpPending)"
    by (simp_all add: op_def destroy_operation_def new_operation_def k_def)
  note c = destroy_checkD[OF chk, folded k_def]
  have f: "tget (v_operations db) (o_operation_id op) = None"
    using fresh_drawsD[OF fresh, of 1] by (simp add: op fresh_uuid_def)
  have w: "workspace_ok db k d" using lifecycle_invD(4)[OF inv c(1)] .
  have n: "w_name (wd_snapshot d1) = w_name (wd_snapshot d)" by (simp add: d1_def destroying_doc_def)
  have eq: "db' = put_operation (o_operation_id op) ((operation_record op (rq_causal_path rq))\<lparr>od_retention := Some retention\<rparr>)
      (put_workspace k d1 db)" using db' by (simp add: op_def d1_def)
  have ok: "workspace_ok db' k d1 \<and> operation_ok db' (o_operation_id op) ((operation_record op (rq_causal_path rq))\<lparr>od_retention := Some retention\<rparr>)"
  proof (cases "w_state (wd_snapshot d) = WDestroyed")
    case True
    then have "d1 = d" by (simp add: d1_def destroying_doc_def)
    then show ?thesis using True w c(2) op(4)
      by (auto simp: eq put_defs workspace_ok_def lock_ok_def runtime_ok_def operation_ok_def unfinished_def operation_record_def)
  next
    case False
    then have "wd_active_operation_id d1 = Some (o_operation_id op)" "w_state (wd_snapshot d1) = WDestroying"
        "w_active_attempt_ids (wd_snapshot d1) = []" "w_workspace_id (wd_snapshot d1) = w_workspace_id (wd_snapshot d)"
      using c(3) by (simp_all add: d1_def destroying_doc_def)
    then show ?thesis using False w op c(4)
      by (auto simp: eq put_defs workspace_ok_def lock_ok_def runtime_ok_def operation_ok_def unfinished_def operation_record_def
          workspace_of_def destroyable_def)
  qed
  show ?thesis
    by (rule lifecycle_inv_write[OF inv, where k = k and oid = "o_operation_id op"])
      (use f c(1,2) lifecycle_twf[OF inv] other_name[OF inv c(1) n] ok op in
        \<open>auto simp: eq put_defs operation_record_def workspace_of_def\<close>)
qed

subsection \<open>The worker\<close>

text \<open>An operation the worker holds, with the workspace it locks.\<close>

lemma held_workspace:
  assumes inv: "lifecycle_inv db" and r: "tget (v_operations db) oid = Some r" "unfinished r"
  obtains d where "get_workspace (workspace_of r) db = Some d" "wd_active_operation_id d = Some oid"
    "lock_state (kind_of r) = Some (w_state (wd_snapshot d))" "workspace_ok db (workspace_of r) d"
    "o_operation_id (od_snapshot r) = oid"
proof -
  obtain d where d: "get_workspace (workspace_of r) db = Some d" "wd_active_operation_id d = Some oid"
    using lifecycle_invD(5)[OF inv r(1)] r(2) by (auto simp: operation_ok_def)
  have w: "workspace_ok db (workspace_of r) d" using lifecycle_invD(4)[OF inv d(1)] .
  then have "lock_state (kind_of r) = Some (w_state (wd_snapshot d))" using d(2) r(1) by (auto simp: workspace_ok_def lock_ok_def)
  moreover have "o_operation_id (od_snapshot r) = oid" using lifecycle_invD(2)[OF inv] r(1) by (simp add: op_keys_def)
  ultimately show ?thesis using that d w by blast
qed

text \<open>A new version of an unfinished operation that stays unfinished: the claim and the retry.\<close>

lemma rewrite_unfinished_inv:
  assumes inv: "lifecycle_inv db" and r: "tget (v_operations db) oid = Some r" "unfinished r"
    and r': "unfinished r'" "kind_of r' = kind_of r" "o_resources (od_snapshot r') = o_resources (od_snapshot r)"
      "o_operation_id (od_snapshot r') = oid" "od_retention r' = od_retention r"
  shows "lifecycle_inv (put_operation oid r' db)"
proof -
  obtain d where d: "get_workspace (workspace_of r) db = Some d" "wd_active_operation_id d = Some oid"
    "lock_state (kind_of r) = Some (w_state (wd_snapshot d))" "workspace_ok db (workspace_of r) d" using held_workspace[OF inv r] .
  have k: "workspace_of r' = workspace_of r" using r'(3) by (simp add: workspace_of_def)
  show ?thesis
    by (rule lifecycle_inv_write[OF inv, where k = "workspace_of r" and oid = oid and d' = d and r' = r'])
      (use r r' d k lifecycle_twf[OF inv] lifecycle_invD(5)[OF inv r(1)] other_name[OF inv d(1) refl] in
        \<open>auto simp: put_defs workspace_ok_def lock_ok_def runtime_ok_def operation_ok_def\<close>)
qed

text \<open>Saving a terminal state: the lock is released and the workspace is in a resting state.\<close>

lemma save_completion_inv:
  assumes inv: "lifecycle_inv db" and r: "tget (v_operations db) oid = Some r" "unfinished r"
    and d: "get_workspace (workspace_of r) db = Some d"
    and db0: "v_workspaces db0 = v_workspaces db" "v_operations db0 = v_operations db"
      "\<And>k'. k' \<noteq> workspace_of r \<Longrightarrow> tget (v_runtimes db0) k' = tget (v_runtimes db) k'"
    and r': "\<not> unfinished r'" "workspace_of r' = workspace_of r" "o_operation_id (od_snapshot r') = oid"
    and d': "wd_active_operation_id d' = None" "w_name (wd_snapshot d') = w_name (wd_snapshot d)"
      "w_workspace_id (wd_snapshot d') = workspace_of r" "w_state (wd_snapshot d') \<notin> {WProvisioning, WDestroying}"
      "w_active_attempt_ids (wd_snapshot d') \<noteq> [] \<Longrightarrow> w_state (wd_snapshot d') = WReady"
    and rt: "rt' = (case runtime of None \<Rightarrow> tget (v_runtimes db0) (workspace_of r) | Some x \<Rightarrow> Some x)"
      "rt' = None \<longleftrightarrow> w_state (wd_snapshot d') = WDestroyed"
      "w_state (wd_snapshot d') = WReady \<Longrightarrow> running_runtime (wd_snapshot d') rt'"
  shows "lifecycle_inv (save_completion (workspace_of r) d' r' runtime db0)"
proof -
  have lk: "wd_active_operation_id d = Some oid" using held_workspace[OF inv r] d by (metis option.inject)
  define db' where "db' = save_completion (workspace_of r) d' r' runtime db0"
  have tabs: "v_workspaces db' = tput (workspace_of r) (Managed d') (v_workspaces db)" "v_operations db' = tput oid r' (v_operations db)"
      "tget (v_runtimes db') (workspace_of r) = rt'" "\<And>k'. k' \<noteq> workspace_of r \<Longrightarrow> tget (v_runtimes db') k' = tget (v_runtimes db) k'"
    using rt(1) db0 r'(3) by (auto simp: db'_def save_completion_def put_defs Let_def split: option.splits)
  have "get_workspace k' db' = (if k' = workspace_of r then Some d' else get_workspace k' db)" for k'
    by (simp add: get_workspace_def tabs)
  then show ?thesis unfolding db'_def[symmetric]
    by (intro lifecycle_inv_write[OF inv, where k = "workspace_of r" and oid = oid and d' = d' and r' = r'])
      (use r r' d lk d' rt(2,3) tabs lifecycle_twf[OF inv] other_name[OF inv d d'(2)] in
        \<open>auto simp: workspace_ok_def lock_ok_def runtime_ok_def operation_ok_def\<close>)
qed

lemma finished_operation_done:
  "\<not> unfinished (finished_operation ts err r)" "workspace_of (finished_operation ts err r) = workspace_of r"
  "o_operation_id (od_snapshot (finished_operation ts err r)) = o_operation_id (od_snapshot r)"
  by (auto simp: finished_operation_def unfinished_def workspace_of_def)

lemma with_result_same [simp]:
  "unfinished (with_result x r) = unfinished r" "workspace_of (with_result x r) = workspace_of r"
  "o_operation_id (od_snapshot (with_result x r)) = o_operation_id (od_snapshot r)" "kind_of (with_result x r) = kind_of r"
  by (auto simp: with_result_def unfinished_def workspace_of_def)

lemma release_lock_own [simp]:
  "wd_active_operation_id d = Some oid \<Longrightarrow> wd_active_operation_id (release_lock oid d) = None"
  "wd_snapshot (release_lock oid d) = wd_snapshot d"
  by (simp_all add: release_lock_def)

text \<open>Which documents \<open>_complete\<close> saved.\<close>

lemma complete_saved:
  assumes "complete cfg ds r verb locator err db = Inr db'" and "get_workspace (workspace_of r) db = Some d"
  obtains (ensured) runtime r1 where "verb = VEnsure"
      "complete_ensure locator err (tget (v_runtimes db) (workspace_of r)) (finished_operation (d_now (ds 0)) err r) = Inr (r1, runtime)"
      "db' = save_completion (workspace_of r) (release_lock (o_operation_id (od_snapshot r)) d) r1 runtime db"
  | (failed) e runtime rows w where "verb \<noteq> VEnsure" "err = Some e" "tget (v_runtimes db) (workspace_of r) = Some runtime"
      "w = (bump_version (d_now (ds 0)) (wd_snapshot d))\<lparr>w_state := WFailed, w_failure := Some e\<rparr>"
      "db' = save_completion (workspace_of r) ((release_lock (o_operation_id (od_snapshot r)) d)\<lparr>wd_snapshot := w\<rparr>)
        (finished_operation (d_now (ds 0)) err r) (Some runtime) (db\<lparr>v_outbox := rows\<rparr>)"
  | (destroyed) x rows w where "verb = VDestroy" "err = None"
      "w = (bump_version (d_now (ds 0)) (wd_snapshot d))\<lparr>w_state := WDestroyed, w_runtime := None, w_failure := None\<rparr>"
      "db' = save_completion (workspace_of r) ((release_lock (o_operation_id (od_snapshot r)) d)\<lparr>wd_snapshot := w\<rparr>)
        (with_result x (finished_operation (d_now (ds 0)) err r)) None ((delete_runtime (workspace_of r) db)\<lparr>v_outbox := rows\<rparr>)"
  | (ready) runtime x rows w where "verb = VProvision" "err = None" "tget (v_runtimes db) (workspace_of r) = Some runtime"
      "w = (bump_version (d_now (ds 0)) (wd_snapshot d))\<lparr>w_state := WReady, w_runtime := Some \<lparr>rv_runtime_id = rd_runtime_id runtime,
        rv_generation = rd_generation runtime, rv_state = ''running'', rv_started_at = d_now (ds 0)\<rparr>\<rparr>"
      "db' = save_completion (workspace_of r) ((release_lock (o_operation_id (od_snapshot r)) d)\<lparr>wd_snapshot := w\<rparr>)
        (with_result x (finished_operation (d_now (ds 0)) err r)) (Some (runtime\<lparr>rd_locator := locator\<rparr>)) (db\<lparr>v_outbox := rows\<rparr>)"
proof (cases "verb = VEnsure")
  case True
  with assms show ?thesis
    by (auto simp: complete_def Let_def sbind_eq_Inr finished_operation_done intro!: ensured)
next
  case nE: False
  define r0 where "r0 = finished_operation (d_now (ds 0)) err r"
  define d0 where "d0 = release_lock (o_operation_id (od_snapshot r)) d"
  define w0 where "w0 = bump_version (d_now (ds 0)) (wd_snapshot d)"
  have des: thesis if "verb = VDestroy" "err = None" "complete_destroyed cfg (ds 1) (workspace_of r) d0 w0 r0 db = Inr db'"
    using that by (auto simp: complete_destroyed_def Let_def sbind_eq_Inr r0_def d0_def w0_def split: option.splits
        dest!: append_event_outbox intro!: destroyed)
  show ?thesis
  proof (cases "tget (v_runtimes db) (workspace_of r)")
    case None
    with assms nE show ?thesis
      by (auto simp: complete_def finished_operation_done Let_def r0_def d0_def w0_def split: if_splits intro!: des)
  next
    case rt: (Some runtime)
    show ?thesis
    proof (cases err)
      case (Some e)
      have "complete_failed cfg (ds 1) (workspace_of r) e d0 w0 r0 runtime db = Inr db'"
        using assms nE rt Some by (simp add: complete_def finished_operation_done Let_def r0_def d0_def w0_def)
      then show ?thesis using nE rt Some
        by (auto simp: complete_failed_def Let_def sbind_eq_Inr r0_def d0_def w0_def dest!: append_event_outbox intro!: failed)
    next
      case None
      show ?thesis
      proof (cases "verb = VDestroy")
        case True
        then show ?thesis using assms nE rt None by (intro des) (simp_all add: complete_def finished_operation_done Let_def r0_def d0_def w0_def)
      next
        case False
        then have v: "verb = VProvision" using nE by (cases verb) auto
        have "complete_ready cfg (ds 1) (workspace_of r) (d_now (ds 0)) locator d0 w0 r0 runtime db = Inr db'"
          using assms nE rt None False by (simp add: complete_def finished_operation_done Let_def r0_def d0_def w0_def)
        then show ?thesis using v rt None
          by (auto simp: complete_ready_def Let_def sbind_eq_Inr r0_def d0_def w0_def dest!: append_event_outbox intro!: ready)
      qed
    qed
  qed
qed

lemma complete_inv:
  assumes inv: "lifecycle_inv db" and r: "tget (v_operations db) oid = Some r" "unfinished r"
    and verb: "verb_of (kind_of r) = Some verb" and run: "complete cfg ds r verb locator err db = Inr db'"
  shows "lifecycle_inv db'"
proof -
  obtain d where d: "get_workspace (workspace_of r) db = Some d" "wd_active_operation_id d = Some oid"
    "lock_state (kind_of r) = Some (w_state (wd_snapshot d))" "workspace_ok db (workspace_of r) d"
    and oid: "o_operation_id (od_snapshot r) = oid" using held_workspace[OF inv r] .
  have wid: "w_workspace_id (wd_snapshot d) = workspace_of r" using d(4) by (simp add: workspace_ok_def)
  have idle: "w_active_attempt_ids (wd_snapshot d) = []" if "verb \<noteq> VEnsure"
    using that verb d(3,4) by (cases "kind_of r") (auto simp: workspace_ok_def)
  from run d(1) show ?thesis
  proof (cases rule: complete_saved)
    case (ensured runtime r1)
    have st: "w_state (wd_snapshot d) = WReady" using verb ensured(1) d(3) by (cases "kind_of r") auto
    have ok: "running_runtime (wd_snapshot d) (tget (v_runtimes db) (workspace_of r))"
      using d(4) st by (simp add: workspace_ok_def runtime_ok_def)
    have "\<not> unfinished r1" "workspace_of r1 = workspace_of r" "o_operation_id (od_snapshot r1) = oid"
      using ensured(2) oid by (auto simp: complete_ensure_def finished_operation_done split: if_splits option.splits)
    moreover have "running_runtime (wd_snapshot d) (case runtime of None \<Rightarrow> tget (v_runtimes db) (workspace_of r) | Some x \<Rightarrow> Some x)"
      using ensured(2) ok by (auto simp: complete_ensure_def running_runtime_def split: if_splits option.splits)
    ultimately show ?thesis unfolding ensured(3)
      by (intro save_completion_inv[OF inv r d(1), OF _ _ _ _ _ _ _ _ _ _ _ refl])
        (use d wid st in \<open>auto simp: running_runtime_def oid split: option.splits\<close>)
  next
    case (failed e runtime rows w)
    show ?thesis unfolding failed(5)
      by (intro save_completion_inv[OF inv r d(1), OF _ _ _ _ _ _ _ _ _ _ _ refl])
        (use d wid idle[OF failed(1)] in \<open>auto simp: failed(4) oid bump_version_def finished_operation_done\<close>)
  next
    case (destroyed x rows w)
    then have "verb \<noteq> VEnsure" by simp
    then show ?thesis unfolding destroyed(4)
      by (intro save_completion_inv[OF inv r d(1), OF _ _ _ _ _ _ _ _ _ _ _ refl])
        (use d wid idle in \<open>auto simp: destroyed(3) oid bump_version_def finished_operation_done delete_runtime_def\<close>)
  next
    case (ready runtime x rows w)
    then have "verb \<noteq> VEnsure" by simp
    then show ?thesis unfolding ready(5)
      by (intro save_completion_inv[OF inv r d(1), OF _ _ _ _ _ _ _ _ _ _ _ refl])
        (use d wid idle in \<open>auto simp: ready(4) oid bump_version_def finished_operation_done running_runtime_def\<close>)
  qed
qed

text \<open>A settled call completed its operation, or wrote it back for a later attempt.\<close>

definition retried_operation :: "operation_doc \<Rightarrow> operation_doc \<Rightarrow> bool" where
  "retried_operation r r' \<longleftrightarrow> o_status (od_snapshot r') = o_status (od_snapshot r) \<and> kind_of r' = kind_of r
     \<and> o_resources (od_snapshot r') = o_resources (od_snapshot r) \<and> o_operation_id (od_snapshot r') = o_operation_id (od_snapshot r)
     \<and> od_retention r' = od_retention r \<and> od_attempts r' = od_attempts r + 1 \<and> od_attempts r' < max_attempts"

lemma retry_cases:
  assumes "retry cfg ds r verb failure db = Inr db'"
  obtains (gave_up) "od_attempts r + 1 \<ge> max_attempts"
      "complete cfg ds r verb None (Some (gave_up (od_attempts r + 1) failure)) db = Inr db'"
  | (later) r' where "retried_operation r r'" "db' = put_operation (o_operation_id (od_snapshot r)) r' db"
proof (cases "od_attempts r + 1 \<ge> max_attempts")
  case False
  define r' where "r' = r\<lparr>od_attempts := od_attempts r + 1, od_not_before := vc_later cfg (d_now (ds 0)) (retry_delay (od_attempts r + 1)),
    od_snapshot := (od_snapshot r)\<lparr>o_updated_at := d_now (ds 1)\<rparr>\<rparr>"
  have "retried_operation r r'" using False by (simp add: retried_operation_def r'_def)
  moreover have "db' = put_operation (o_operation_id (od_snapshot r)) r' db" using assms False by (simp add: retry_def Let_def r'_def)
  ultimately show ?thesis by (rule later)
qed (use assms in \<open>auto simp: retry_def Let_def intro: gave_up\<close>)

lemma settle_call_cases:
  assumes "settle_call cfg ds r rt outcome db = Inr db'"
  obtains (completed) verb locator err where "verb_of (kind_of r) = Some verb" "complete cfg ds r verb locator err db = Inr db'"
  | (later) r' where "retried_operation r r'" "db' = put_operation (o_operation_id (od_snapshot r)) r' db"
  using assms by (auto simp: settle_call_def split: option.splits if_splits call_outcome.splits elim!: retry_cases)

lemma retried_unfinished: "retried_operation r r' \<Longrightarrow> unfinished r' = unfinished r"
  by (simp add: retried_operation_def unfinished_def)

lemma settle_call_inv:
  assumes inv: "lifecycle_inv db" and r: "tget (v_operations db) oid = Some r" "unfinished r"
    and run: "settle_call cfg ds r rt outcome db = Inr db'"
  shows "lifecycle_inv db'"
  using run
proof (cases rule: settle_call_cases)
  case (completed verb locator err)
  then show ?thesis by (rule complete_inv[OF inv r])
next
  case (later r')
  have oid: "o_operation_id (od_snapshot r) = oid" using lifecycle_invD(2)[OF inv] r(1) by (simp add: op_keys_def)
  show ?thesis unfolding later(2) oid
    by (rule rewrite_unfinished_inv[OF inv r]) (use later(1) r(2) retried_unfinished oid in \<open>auto simp: retried_operation_def\<close>)
qed

lemma claim_operation_inv:
  assumes inv: "lifecycle_inv db" and r: "tget (v_operations db) oid = Some r" "unfinished r"
    and run: "claim_operation d r db = (r1, db')"
  shows "lifecycle_inv db'" "tget (v_operations db') oid = Some r1" "unfinished r1" "workspace_of r1 = workspace_of r"
    "kind_of r1 = kind_of r" "db' = db \<or> db' = put_operation oid r1 db"
proof -
  have oid: "o_operation_id (od_snapshot r) = oid" using lifecycle_invD(2)[OF inv] r(1) by (simp add: op_keys_def)
  show u: "unfinished r1" "workspace_of r1 = workspace_of r" "kind_of r1 = kind_of r" "db' = db \<or> db' = put_operation oid r1 db"
      "tget (v_operations db') oid = Some r1"
    using run r oid by (auto simp: claim_operation_def Let_def unfinished_def workspace_of_def put_operation_def split: if_splits)
  show "lifecycle_inv db'"
  proof (cases "o_status (od_snapshot r) = OpPending")
    case True
    then have "db' = put_operation oid r1 db" using run oid by (auto simp: claim_operation_def Let_def)
    moreover have "lifecycle_inv (put_operation oid r1 db)"
      by (rule rewrite_unfinished_inv[OF inv r u(1)]) (use run True oid in \<open>auto simp: claim_operation_def Let_def\<close>)
    ultimately show ?thesis by simp
  qed (use run inv in \<open>auto simp: claim_operation_def\<close>)
qed

end
