(* ===== verification/Vcp_Attempt_Inv.thy ===== *)
theory Vcp_Attempt_Inv
  imports Vcp_Lifecycle_Inv
begin

text \<open>
  The execution invariant of the virtual control plane: a workspace lists as active exactly its
  unfinished attempts, a session has at most one of them, an unfinished attempt's runtime is still
  owned, every cancel of an attempt is settled exactly when the attempt has ended, and no steering
  command of an ended attempt is pending.
\<close>

section \<open>The invariant\<close>

abbreviation live :: "attempt_doc \<Rightarrow> bool" where
  "live a \<equiv> \<not> ended_state (va_state (ad_snapshot a))"

abbreviation actives :: "workspace_doc \<Rightarrow> string list" where
  "actives d \<equiv> w_active_attempt_ids (wd_snapshot d)"

definition op_attempt :: "operation_doc \<Rightarrow> string option" where
  "op_attempt r = map_of (o_resources (od_snapshot r)) ''attempt_id''"

definition cancels_ok :: "vcp_db \<Rightarrow> string \<Rightarrow> attempt_doc \<Rightarrow> bool" where
  "cancels_ok db aid a \<longleftrightarrow> (case ad_cancel a of
     None \<Rightarrow> va_state (ad_snapshot a) \<notin> {VCancelling, VCancelled}
   | Some c \<Rightarrow> va_state (ad_snapshot a) \<notin> {VStarting, VRunning}
       \<and> (\<forall>oid \<in> set (cn_operation_ids c). \<exists>r. tget (v_operations db) oid = Some r \<and> kind_of r = OpCancel \<and> op_attempt r = Some aid
            \<and> o_status (od_snapshot r) = (if live a then OpPending else OpSucceeded)))"

definition placed :: "vcp_db \<Rightarrow> string \<Rightarrow> attempt_doc \<Rightarrow> binding_doc \<Rightarrow> bool" where
  "placed db aid a b \<longleftrightarrow> attempt_id (bd_target b) = aid
     \<and> (\<exists>d s. get_workspace (workspace_id (bd_target b)) db = Some d \<and> tget (v_sessions db) (session_id (bd_target b)) = Some s
          \<and> (aid \<in> set (actives d) \<longleftrightarrow> live a)
          \<and> (live a \<longrightarrow> s_state (sd_snapshot s) = SessActive \<and> owned_by (tget (v_runtimes db) (workspace_id (bd_target b))) (bd_target b)))"

definition attempt_ok :: "vcp_db \<Rightarrow> string \<Rightarrow> attempt_doc \<Rightarrow> bool" where
  "attempt_ok db aid a \<longleftrightarrow> va_attempt_id (ad_snapshot a) = aid \<and> cancels_ok db aid a
     \<and> (\<exists>b. tget (v_bindings db) aid = Some b \<and> placed db aid a b)
     \<and> (\<exists>ro. tget (v_operations db) (ad_operation_id a) = Some ro \<and> kind_of ro = OpExecute)"

definition actives_ok :: "vcp_db \<Rightarrow> string \<Rightarrow> workspace_doc \<Rightarrow> bool" where
  "actives_ok db k d \<longleftrightarrow> distinct (actives d)
     \<and> (\<forall>aid \<in> set (actives d). \<exists>a b. tget (v_attempts db) aid = Some a \<and> tget (v_bindings db) aid = Some b
          \<and> workspace_id (bd_target b) = k)"

definition exclusive :: "vcp_db \<Rightarrow> bool" where
  "exclusive db \<longleftrightarrow> (\<forall>x a b y a' b'. tget (v_attempts db) x = Some a \<longrightarrow> tget (v_bindings db) x = Some b \<longrightarrow> live a \<longrightarrow>
     tget (v_attempts db) y = Some a' \<longrightarrow> tget (v_bindings db) y = Some b' \<longrightarrow> live a' \<longrightarrow>
     session_id (bd_target b) = session_id (bd_target b') \<longrightarrow> x = y)"

definition steering_ok :: "vcp_db \<Rightarrow> string \<Rightarrow> steering_doc \<Rightarrow> bool" where
  "steering_ok db cid c \<longleftrightarrow> command_id (sc_command c) = cid
     \<and> (\<exists>cs msg r. body (sc_command c) = Steer cs msg \<and> tget (v_operations db) (cause_operation_id cs) = Some r \<and> kind_of r = OpSteer)
     \<and> (\<exists>a b. tget (v_attempts db) (attempt_id (target (sc_command c))) = Some a
          \<and> tget (v_bindings db) (attempt_id (target (sc_command c))) = Some b \<and> target (sc_command c) = bd_target b
          \<and> (sc_status c = StPending \<longrightarrow> live a))"

definition session_keys :: "vcp_db \<Rightarrow> bool" where
  "session_keys db \<longleftrightarrow> (\<forall>sid s. tget (v_sessions db) sid = Some s \<longrightarrow> s_session_id (sd_snapshot s) = sid)"

definition attempt_inv :: "vcp_db \<Rightarrow> bool" where
  "attempt_inv db \<longleftrightarrow> (\<forall>aid a. tget (v_attempts db) aid = Some a \<longrightarrow> attempt_ok db aid a)
     \<and> (\<forall>k d. get_workspace k db = Some d \<longrightarrow> actives_ok db k d)
     \<and> exclusive db \<and> session_keys db
     \<and> (\<forall>cid c. tget (v_steering db) cid = Some c \<longrightarrow> steering_ok db cid c)"

lemma attempt_invD:
  assumes "attempt_inv db"
  shows "tget (v_attempts db) aid = Some a \<Longrightarrow> attempt_ok db aid a" "get_workspace k db = Some d \<Longrightarrow> actives_ok db k d"
    "exclusive db" "session_keys db" "tget (v_steering db) cid = Some c \<Longrightarrow> steering_ok db cid c"
  using assms by (auto simp: attempt_inv_def)

section \<open>Frames\<close>

text \<open>Operations keep their kind, and those that cancel keep everything, except the cancels of one attempt.\<close>

definition ops_step :: "string option \<Rightarrow> vcp_db \<Rightarrow> vcp_db \<Rightarrow> bool" where
  "ops_step aid db db' \<longleftrightarrow> (\<forall>oid r. tget (v_operations db) oid = Some r \<longrightarrow>
     (\<exists>r'. tget (v_operations db') oid = Some r' \<and> kind_of r' = kind_of r
        \<and> (kind_of r = OpCancel \<longrightarrow> (aid = None \<or> op_attempt r \<noteq> aid) \<longrightarrow> r' = r)))"

lemma ops_step_frame: "ops_frame K db db' \<Longrightarrow> OpCancel \<notin> K \<Longrightarrow> ops_step aid db db'"
  unfolding ops_frame_def ops_step_def by metis

lemma ops_step_mono: "ops_step None db db' \<Longrightarrow> ops_step aid db db'"
  unfolding ops_step_def by blast

lemma ops_step_trans:
  assumes "ops_step aid db db1" and "ops_step aid db1 db2"
  shows "ops_step aid db db2"
  unfolding ops_step_def
proof (intro allI impI)
  fix oid r
  assume "tget (v_operations db) oid = Some r"
  then obtain r1 where r1: "tget (v_operations db1) oid = Some r1" "kind_of r1 = kind_of r"
      "kind_of r = OpCancel \<Longrightarrow> aid = None \<or> op_attempt r \<noteq> aid \<Longrightarrow> r1 = r" using assms(1) unfolding ops_step_def by blast
  obtain r2 where r2: "tget (v_operations db2) oid = Some r2" "kind_of r2 = kind_of r1"
      "kind_of r1 = OpCancel \<Longrightarrow> aid = None \<or> op_attempt r1 \<noteq> aid \<Longrightarrow> r2 = r1" using assms(2) r1(1) unfolding ops_step_def by blast
  show "\<exists>r'. tget (v_operations db2) oid = Some r' \<and> kind_of r' = kind_of r
      \<and> (kind_of r = OpCancel \<longrightarrow> (aid = None \<or> op_attempt r \<noteq> aid) \<longrightarrow> r' = r)"
    using r1 r2 by (intro exI[of _ r2]) auto
qed

lemma cancels_ok_same: "v_operations db' = v_operations db \<Longrightarrow> cancels_ok db' aid a = cancels_ok db aid a"
  by (cases "ad_cancel a") (simp_all add: cancels_ok_def)

lemma cancels_ok_step:
  assumes "cancels_ok db aid a" and "ops_step x db db'" and "x = None \<or> x \<noteq> Some aid"
  shows "cancels_ok db' aid a"
proof (cases "ad_cancel a")
  case (Some c)
  have "\<exists>r. tget (v_operations db') oid = Some r \<and> kind_of r = OpCancel \<and> op_attempt r = Some aid
      \<and> o_status (od_snapshot r) = (if live a then OpPending else OpSucceeded)" if m: "oid \<in> set (cn_operation_ids c)" for oid
  proof -
    obtain r where r: "tget (v_operations db) oid = Some r" "kind_of r = OpCancel" "op_attempt r = Some aid"
        "o_status (od_snapshot r) = (if live a then OpPending else OpSucceeded)"
      using m assms(1) Some by (auto simp: cancels_ok_def)
    obtain r' where "tget (v_operations db') oid = Some r'" "r' = r"
      using assms(2,3) r(1-3) unfolding ops_step_def by metis
    then show ?thesis using r by blast
  qed
  then show ?thesis using assms(1) Some by (simp add: cancels_ok_def)
qed (use assms(1) in \<open>simp add: cancels_ok_def\<close>)

text \<open>A step that changes no attempt: the projections of steering, and every lifecycle step.\<close>

definition quiet :: "vcp_db \<Rightarrow> vcp_db \<Rightarrow> bool" where
  "quiet db db' \<longleftrightarrow> v_attempts db' = v_attempts db \<and> v_bindings db' = v_bindings db \<and> ops_step None db db'
     \<and> (\<forall>k d. get_workspace k db = Some d \<longrightarrow> (\<exists>d'. get_workspace k db' = Some d' \<and> actives d' = actives d))
     \<and> (\<forall>k d'. get_workspace k db' = Some d' \<longrightarrow> get_workspace k db = None \<longrightarrow> actives d' = [])
     \<and> (\<forall>k d t. get_workspace k db = Some d \<longrightarrow> actives d \<noteq> [] \<longrightarrow> owned_by (tget (v_runtimes db) k) t \<longrightarrow> owned_by (tget (v_runtimes db') k) t)
     \<and> (\<forall>sid s. tget (v_sessions db) sid = Some s \<longrightarrow> (\<exists>s'. tget (v_sessions db') sid = Some s' \<and> s_state (sd_snapshot s') = s_state (sd_snapshot s)))
     \<and> (session_keys db \<longrightarrow> session_keys db')
     \<and> (\<forall>cid c'. tget (v_steering db') cid = Some c' \<longrightarrow> (\<exists>c. tget (v_steering db) cid = Some c \<and> sc_command c' = sc_command c
          \<and> (sc_status c' = StPending \<longrightarrow> sc_status c = StPending)))"

lemma placed_quiet:
  assumes "placed db aid a b" and "quiet db db'"
  shows "placed db' aid a b"
proof -
  obtain d s where p: "attempt_id (bd_target b) = aid" "get_workspace (workspace_id (bd_target b)) db = Some d"
      "tget (v_sessions db) (session_id (bd_target b)) = Some s" "aid \<in> set (actives d) \<longleftrightarrow> live a"
      "live a \<Longrightarrow> s_state (sd_snapshot s) = SessActive" "live a \<Longrightarrow> owned_by (tget (v_runtimes db) (workspace_id (bd_target b))) (bd_target b)"
    using assms(1) by (auto simp: placed_def)
  obtain d' where d': "get_workspace (workspace_id (bd_target b)) db' = Some d'" "actives d' = actives d"
    using assms(2) p(2) unfolding quiet_def by blast
  obtain s' where s': "tget (v_sessions db') (session_id (bd_target b)) = Some s'" "s_state (sd_snapshot s') = s_state (sd_snapshot s)"
    using assms(2) p(3) unfolding quiet_def by blast
  have "owned_by (tget (v_runtimes db') (workspace_id (bd_target b))) (bd_target b)" if "live a"
  proof -
    have "actives d \<noteq> []" using that p(4) by auto
    then show ?thesis using assms(2) p(2) p(6)[OF that] unfolding quiet_def by blast
  qed
  then show ?thesis using p d' s' by (auto simp: placed_def)
qed

lemma ops_step_kind: "ops_step x db db' \<Longrightarrow> tget (v_operations db) oid = Some r \<Longrightarrow>
    \<exists>r'. tget (v_operations db') oid = Some r' \<and> kind_of r' = kind_of r"
  unfolding ops_step_def by blast

lemma attempt_inv_quiet:
  assumes inv: "attempt_inv db" and q: "quiet db db'"
  shows "attempt_inv db'"
proof -
  have same: "v_attempts db' = v_attempts db" "v_bindings db' = v_bindings db" "ops_step None db db'"
    using q by (auto simp: quiet_def)
  have att: "attempt_ok db' aid a" if "tget (v_attempts db') aid = Some a" for aid a
  proof -
    have ok: "attempt_ok db aid a" using attempt_invD(1)[OF inv] that same by simp
    then have "\<exists>ro. tget (v_operations db') (ad_operation_id a) = Some ro \<and> kind_of ro = OpExecute"
      using ops_step_kind[OF same(3)] unfolding attempt_ok_def by metis
    then show ?thesis using ok placed_quiet[OF _ q] cancels_ok_step[OF _ same(3)] same by (auto simp: attempt_ok_def)
  qed
  have act: "actives_ok db' k d'" if g: "get_workspace k db' = Some d'" for k d'
  proof (cases "get_workspace k db")
    case None
    then have "actives d' = []" using q g unfolding quiet_def by blast
    then show ?thesis by (simp add: actives_ok_def)
  next
    case (Some d)
    then have "actives d' = actives d" using q g unfolding quiet_def by (metis option.inject)
    then show ?thesis using attempt_invD(2)[OF inv Some] same by (simp add: actives_ok_def)
  qed
  have steer: "steering_ok db' cid c'" if g: "tget (v_steering db') cid = Some c'" for cid c'
  proof -
    obtain c where c: "tget (v_steering db) cid = Some c" "sc_command c' = sc_command c"
        "sc_status c' = StPending \<longrightarrow> sc_status c = StPending"
      using q g unfolding quiet_def by blast
    have ok: "steering_ok db cid c" using attempt_invD(5)[OF inv c(1)] .
    then have "\<exists>cs msg r. body (sc_command c) = Steer cs msg \<and> tget (v_operations db') (cause_operation_id cs) = Some r \<and> kind_of r = OpSteer"
      using ops_step_kind[OF same(3)] unfolding steering_ok_def by metis
    then show ?thesis using ok c(2,3) same by (auto simp: steering_ok_def)
  qed
  have "exclusive db'" using attempt_invD(3)[OF inv] same by (simp add: exclusive_def)
  moreover have "session_keys db'" using attempt_invD(4)[OF inv] q by (simp add: quiet_def)
  ultimately show ?thesis using att act steer by (auto simp: attempt_inv_def)
qed

section \<open>A new version of an attempt\<close>

text \<open>
  The writes of one attempt: its document, its operations, its session and its place among the
  workspace's active attempts, which it leaves when it ends.
\<close>

definition touched :: "string \<Rightarrow> attempt_doc \<Rightarrow> attempt_doc \<Rightarrow> binding_doc \<Rightarrow> vcp_db \<Rightarrow> vcp_db \<Rightarrow> bool" where
  "touched aid a a' b db db' \<longleftrightarrow>
     (\<forall>x. tget (v_attempts db') x = (if x = aid then Some a' else tget (v_attempts db) x))
     \<and> v_bindings db' = v_bindings db \<and> v_runtimes db' = v_runtimes db \<and> ops_step (Some aid) db db'
     \<and> (\<forall>k d. get_workspace k db = Some d \<longrightarrow> (\<exists>d'. get_workspace k db' = Some d'
          \<and> actives d' = (if k = workspace_id (bd_target b) \<and> \<not> live a' then remove1 aid (actives d) else actives d)))
     \<and> (\<forall>k d'. get_workspace k db' = Some d' \<longrightarrow> get_workspace k db \<noteq> None)
     \<and> (\<forall>sid s. tget (v_sessions db) sid = Some s \<longrightarrow> (\<exists>s'. tget (v_sessions db') sid = Some s'
          \<and> (s_state (sd_snapshot s') = s_state (sd_snapshot s) \<or> sid = session_id (bd_target b) \<and> live a \<and> \<not> live a')))
     \<and> (session_keys db \<longrightarrow> session_keys db')
     \<and> (\<forall>cid c'. tget (v_steering db') cid = Some c' \<longrightarrow> (\<exists>c. tget (v_steering db) cid = Some c \<and> sc_command c' = sc_command c
          \<and> (sc_status c' = StPending \<longrightarrow> sc_status c = StPending \<and> (attempt_id (target (sc_command c)) = aid \<longrightarrow> live a'))))"

lemma touched_other:
  assumes inv: "attempt_inv db" and a: "tget (v_attempts db) aid = Some a" "tget (v_bindings db) aid = Some b"
    and t: "touched aid a a' b db db'" and x: "x \<noteq> aid" "tget (v_attempts db) x = Some ax"
  shows "attempt_ok db' x ax"
proof -
  have same: "v_bindings db' = v_bindings db" "v_runtimes db' = v_runtimes db" "ops_step (Some aid) db db'"
    using t by (auto simp: touched_def)
  have ok: "attempt_ok db x ax" using attempt_invD(1)[OF inv x(2)] .
  then obtain bx where bx: "tget (v_bindings db) x = Some bx" "placed db x ax bx" by (auto simp: attempt_ok_def)
  then obtain d s where p: "attempt_id (bd_target bx) = x" "get_workspace (workspace_id (bd_target bx)) db = Some d"
      "tget (v_sessions db) (session_id (bd_target bx)) = Some s" "x \<in> set (actives d) \<longleftrightarrow> live ax"
      "live ax \<longrightarrow> s_state (sd_snapshot s) = SessActive \<and> owned_by (tget (v_runtimes db) (workspace_id (bd_target bx))) (bd_target bx)"
    by (auto simp: placed_def)
  obtain d' where d': "get_workspace (workspace_id (bd_target bx)) db' = Some d'"
      "actives d' = (if workspace_id (bd_target bx) = workspace_id (bd_target b) \<and> \<not> live a' then remove1 aid (actives d) else actives d)"
    using t p(2) unfolding touched_def by blast
  have mem: "x \<in> set (actives d') \<longleftrightarrow> x \<in> set (actives d)" using x(1) by (simp add: d'(2))
  obtain s' where s': "tget (v_sessions db') (session_id (bd_target bx)) = Some s'"
      "s_state (sd_snapshot s') = s_state (sd_snapshot s) \<or> session_id (bd_target bx) = session_id (bd_target b) \<and> live a \<and> \<not> live a'"
    using t p(3) unfolding touched_def by blast
  have "s_state (sd_snapshot s') = s_state (sd_snapshot s)" if "live ax"
    using s'(2) attempt_invD(3)[OF inv] x a bx(1) that unfolding exclusive_def by metis
  then have "placed db' x ax bx" using p d'(1) mem s'(1) same(2) by (auto simp: placed_def)
  moreover have "cancels_ok db' x ax" using ok cancels_ok_step[OF _ same(3)] x(1) by (auto simp: attempt_ok_def)
  moreover have "\<exists>ro. tget (v_operations db') (ad_operation_id ax) = Some ro \<and> kind_of ro = OpExecute"
    using ok ops_step_kind[OF same(3)] unfolding attempt_ok_def by metis
  ultimately show ?thesis using ok bx(1) same(1) by (auto simp: attempt_ok_def)
qed

lemma touched_own:
  assumes inv: "attempt_inv db" and a: "tget (v_attempts db) aid = Some a" "tget (v_bindings db) aid = Some b"
    and t: "touched aid a a' b db db'"
    and a': "va_attempt_id (ad_snapshot a') = aid" "ad_operation_id a' = ad_operation_id a" "live a' \<Longrightarrow> live a" "cancels_ok db' aid a'"
  shows "attempt_ok db' aid a'"
proof -
  have same: "v_bindings db' = v_bindings db" "v_runtimes db' = v_runtimes db" "ops_step (Some aid) db db'"
    using t by (auto simp: touched_def)
  have ok: "attempt_ok db aid a" using attempt_invD(1)[OF inv a(1)] .
  then obtain d s where p: "attempt_id (bd_target b) = aid" "get_workspace (workspace_id (bd_target b)) db = Some d"
      "tget (v_sessions db) (session_id (bd_target b)) = Some s" "aid \<in> set (actives d) \<longleftrightarrow> live a"
      "live a \<longrightarrow> s_state (sd_snapshot s) = SessActive \<and> owned_by (tget (v_runtimes db) (workspace_id (bd_target b))) (bd_target b)"
    using a(2) by (auto simp: attempt_ok_def placed_def)
  obtain d' where d': "get_workspace (workspace_id (bd_target b)) db' = Some d'"
      "actives d' = (if \<not> live a' then remove1 aid (actives d) else actives d)"
    using t p(2) unfolding touched_def by force
  have mem: "aid \<in> set (actives d') \<longleftrightarrow> live a'"
    using p(4) a'(3) d'(2) attempt_invD(2)[OF inv p(2)] by (auto simp: actives_ok_def set_remove1_eq)
  obtain s' where s': "tget (v_sessions db') (session_id (bd_target b)) = Some s'"
      "live a' \<Longrightarrow> s_state (sd_snapshot s') = s_state (sd_snapshot s)"
    using t p(3) unfolding touched_def by blast
  have "placed db' aid a' b" using p d'(1) mem s' a'(3) same(2) by (auto simp: placed_def)
  moreover have "\<exists>ro. tget (v_operations db') (ad_operation_id a') = Some ro \<and> kind_of ro = OpExecute"
    using ok ops_step_kind[OF same(3)] unfolding attempt_ok_def a'(2) by metis
  ultimately show ?thesis using a a' same(1) by (auto simp: attempt_ok_def)
qed

lemma attempt_inv_touched:
  assumes inv: "attempt_inv db" and a: "tget (v_attempts db) aid = Some a" "tget (v_bindings db) aid = Some b"
    and t: "touched aid a a' b db db'"
    and a': "va_attempt_id (ad_snapshot a') = aid" "ad_operation_id a' = ad_operation_id a" "live a' \<Longrightarrow> live a" "cancels_ok db' aid a'"
  shows "attempt_inv db'"
proof -
  have att: "\<And>x. tget (v_attempts db') x = (if x = aid then Some a' else tget (v_attempts db) x)"
    and same: "v_bindings db' = v_bindings db" "ops_step (Some aid) db db'"
    using t by (auto simp: touched_def)
  have "attempt_ok db' x ax" if "tget (v_attempts db') x = Some ax" for x ax
    using that touched_own[OF inv a t a'] touched_other[OF inv a t] by (auto simp: att split: if_splits)
  moreover have "actives_ok db' k d'" if g: "get_workspace k db' = Some d'" for k d'
  proof -
    obtain d where d: "get_workspace k db = Some d" using t g unfolding touched_def by blast
    have ok: "actives_ok db k d" using attempt_invD(2)[OF inv d] .
    have "actives d' = (if k = workspace_id (bd_target b) \<and> \<not> live a' then remove1 aid (actives d) else actives d)"
      using t d g unfolding touched_def by (metis (no_types, lifting) option.inject)
    then show ?thesis using ok same(1) by (auto simp: actives_ok_def att dest: notin_set_remove1 set_remove1_subset[THEN subsetD])
  qed
  moreover have "exclusive db'"
    using attempt_invD(3)[OF inv] a'(3) a(1) unfolding exclusive_def same(1) att by (metis option.inject)
  moreover have "session_keys db'" using attempt_invD(4)[OF inv] t by (simp add: touched_def)
  moreover have "steering_ok db' cid c'" if g: "tget (v_steering db') cid = Some c'" for cid c'
  proof -
    obtain c where c: "tget (v_steering db) cid = Some c" "sc_command c' = sc_command c"
        "sc_status c' = StPending \<longrightarrow> sc_status c = StPending \<and> (attempt_id (target (sc_command c)) = aid \<longrightarrow> live a')"
      using t g unfolding touched_def by blast
    have ok: "steering_ok db cid c" using attempt_invD(5)[OF inv c(1)] .
    then have "\<exists>cs msg r. body (sc_command c) = Steer cs msg \<and> tget (v_operations db') (cause_operation_id cs) = Some r \<and> kind_of r = OpSteer"
      using ops_step_kind[OF same(2)] unfolding steering_ok_def by metis
    then show ?thesis using ok c(2,3) same(1) by (auto simp: steering_ok_def att)
  qed
  ultimately show ?thesis by (auto simp: attempt_inv_def)
qed

end
