(* ===== verification/Vcp_Execution_Inv.thy ===== *)
theory Vcp_Execution_Inv
  imports Vcp_Attempt_Inv
begin

text \<open>Execute, cancel and steer keep the lifecycle and the execution invariant.\<close>

section \<open>Execute\<close>

lemma select_sessionD:
  assumes "select_session ds wid runtime e db = Inr s"
  obtains (fresh) "er_session e = SelNew" "s_session_id s = identity ''session_'' (d_uuid (ds 1))"
  | (stored) sid doc where "er_session e = SelContinue sid" "tget (v_sessions db) sid = Some doc" "s = sd_snapshot doc"
      "s_state s = SessIdle" "s_workspace_id s = wid" "s_runtime_generation s = rd_generation runtime"
  using assms by (auto simp: select_session_def Let_def split: selection.splits option.splits if_splits)

lemma admitD:
  assumes "admit cfg ds rq e db = Inr (d, runtime, s)"
  shows "get_workspace (rq_workspace_id rq) db = Some d" "wd_active_operation_id d = None"
    "tget (v_runtimes db) (rq_workspace_id rq) = Some runtime" "running_runtime (wd_snapshot d) (Some runtime)"
    "select_session ds (rq_workspace_id rq) runtime e db = Inr s"
    "\<exists>st. tget (v_status db) (rd_runtime_id runtime) = Some st \<and> status_ready (rq_workspace_id rq) runtime (Some st)
       \<and> length (w_active_attempt_ids (wd_snapshot d)) < rs_max_concurrent_attempts st \<and> runner (er_agent e) \<in> set (rs_executors st)"
proof -
  define wid where "wid = rq_workspace_id rq"
  obtain d0 where d0: "load_workspace rq db = Inr d0" "wd_active_operation_id d0 = None"
    using assms by (auto simp: admit_def sbind_eq_Inr require_idle_None)
  obtain r where r: "tget (v_runtimes db) wid = Some r"
    using assms d0 by (cases "tget (v_runtimes db) wid") (auto simp: admit_def sbind_eq_Inr wid_def Let_def)
  obtain st where st: "tget (v_status db) (rd_runtime_id r) = Some st"
    using assms d0 r by (cases "tget (v_status db) (rd_runtime_id r)") (auto simp: admit_def sbind_eq_Inr wid_def Let_def split: if_split_asm)
  have "running_runtime (wd_snapshot d0) (Some r)" "status_ready wid r (Some st)" "runner (er_agent e) \<in> set (rs_executors st)"
      "length (actives d0) < rs_max_concurrent_attempts st" "select_session ds wid r e db = Inr s" "d = d0" "runtime = r"
    using assms d0 r st by (auto simp: admit_def sbind_eq_Inr wid_def Let_def split: if_split_asm)
  then show "get_workspace (rq_workspace_id rq) db = Some d" "wd_active_operation_id d = None"
    "tget (v_runtimes db) (rq_workspace_id rq) = Some runtime" "running_runtime (wd_snapshot d) (Some runtime)"
    "select_session ds (rq_workspace_id rq) runtime e db = Inr s"
    "\<exists>st. tget (v_status db) (rd_runtime_id runtime) = Some st \<and> status_ready (rq_workspace_id rq) runtime (Some st)
       \<and> length (w_active_attempt_ids (wd_snapshot d)) < rs_max_concurrent_attempts st \<and> runner (er_agent e) \<in> set (rs_executors st)"
    using d0 r st load_workspace_get[OF d0(1)] by (auto simp: wid_def)
qed

lemma execution_partsD:
  assumes "execution_parts ds rq runtime s c e = (t, op, m)"
  shows "workspace_id t = rq_workspace_id rq" "runtime_id t = rd_runtime_id runtime" "runtime_generation t = rd_generation runtime"
    "session_id t = s_session_id s" "attempt_id t = identity ''attempt_'' (d_uuid (ds 4))"
    "o_operation_id op = identity ''op_'' (d_uuid (ds 6))" "o_operation op = OpExecute" "o_status op = OpPending"
    "command_id m = identity ''rtc_'' (d_uuid (ds 5))" "target m = t"
  using assms by (auto simp: execution_parts_def Let_def new_operation_def)

lemma write_execution_effect:
  assumes "write_execution ds rq d s t op m e db = Inr db'"
  obtains session1 hist a b d1 where
    "v_sessions db' = tput (s_session_id s) \<lparr>sd_snapshot = session1, sd_history_sequence = hist\<rparr> (v_sessions db)"
    "s_session_id session1 = s_session_id s" "s_state session1 = SessActive"
    "v_attempts db' = tput (attempt_id t) a (v_attempts db)" "ad_snapshot a = new_vattempt t (jobj (jget (er_task e) ''instruction''))"
    "ad_operation_id a = o_operation_id op" "ad_cancel a = None"
    "v_bindings db' = v_bindings db @ [(attempt_id t, b)]" "bd_target b = t" "tget (v_bindings db) (attempt_id t) = None"
    "v_operations db' = tput (o_operation_id op) (operation_record op (rq_causal_path rq)) (v_operations db)"
    "v_workspaces db' = tput (rq_workspace_id rq) (Managed d1) (v_workspaces db)" "ws_core d1 = ws_core d"
    "actives d1 = actives d @ [attempt_id t]" "w_version (wd_snapshot d1) = w_version (wd_snapshot d) + 1"
    "v_runtimes db' = v_runtimes db" "v_steering db' = v_steering db" "v_receipts db' = v_receipts db" "v_updates db' = v_updates db"
    "v_status db' = v_status db"
  using assms by (auto simp: write_execution_def sbind_eq_Inr Let_def put_defs ws_core_def dest!: put_binding_bindings append_command_commands)

lemma execute_frame:
  assumes "write_execution ds rq d s t op m e db = Inr db'" and "get_workspace (rq_workspace_id rq) db = Some d"
    and "tget (v_operations db) (o_operation_id op) = None" and "o_operation op = OpExecute"
  shows "exec_frame db db'"
  using assms(1)
proof (cases rule: write_execution_effect)
  case (1 session1 hist a b d1)
  define db1 where "db1 = db\<lparr>v_operations := v_operations db'\<rparr>"
  have "exec_frame db db1"
    by (rule exec_frame_ops[where K = "{OpExecute}"])
      (use 1 assms(3,4) in \<open>auto simp: db1_def operation_record_def op_keys_def intro!: ops_frame_put\<close>)
  moreover have "exec_frame db1 db'"
    by (rule exec_frame_workspace[where k = "rq_workspace_id rq" and d = d and d' = d1]) (use 1 assms(2) in \<open>simp_all add: db1_def\<close>)
  ultimately show ?thesis by (rule exec_frame_trans)
qed

lemma session_dormant:
  assumes inv: "attempt_inv db" and sel: "select_session ds wid runtime e db = Inr s" and fresh: "fresh_draws db ds"
    and x: "tget (v_attempts db) x = Some ax" "tget (v_bindings db) x = Some bx" "live ax"
  shows "session_id (bd_target bx) \<noteq> s_session_id s"
proof -
  obtain sx where sx: "tget (v_sessions db) (session_id (bd_target bx)) = Some sx" "s_state (sd_snapshot sx) = SessActive"
    using attempt_invD(1)[OF inv x(1)] x(2,3) by (auto simp: attempt_ok_def placed_def)
  from sel show ?thesis
  proof (cases rule: select_sessionD)
    case fresh
    then show ?thesis using sx(1) fresh_drawsD[OF assms(3), of 1] by (auto simp: fresh_uuid_def)
  next
    case (stored sid doc)
    then have "s_session_id s = sid" using attempt_invD(4)[OF inv] by (simp add: session_keys_def)
    then show ?thesis using stored sx by auto
  qed
qed

lemma execute_attempt_inv:
  assumes inv: "attempt_inv db" and fresh: "fresh_draws db ds" and adm: "admit cfg ds rq e db = Inr (d, runtime, s)"
    and parts: "execution_parts ds rq runtime s c e = (t, op, m)" and run: "write_execution ds rq d s t op m e db = Inr db'"
  shows "attempt_inv db'"
  using run
proof (cases rule: write_execution_effect)
  case w: (1 session1 hist a b d1)
  note p = execution_partsD[OF parts] and ad = admitD[OF adm]
  have fr: "tget (v_attempts db) (attempt_id t) = None" "tget (v_bindings db) (attempt_id t) = None" "tget (v_operations db) (o_operation_id op) = None"
    using fresh_drawsD[OF fresh, of 4] fresh_drawsD[OF fresh, of 6] by (simp_all add: p fresh_uuid_def)
  have step: "ops_step None db db'" using fr(3) w(11) p(7) by (auto simp: ops_step_def)
  have gw: "get_workspace k db' = (if k = rq_workspace_id rq then Some d1 else get_workspace k db)" for k
    by (simp add: get_workspace_def w(12))
  have bnd: "tget (v_bindings db') x = (if x = attempt_id t then Some b else tget (v_bindings db) x)" for x
    by (simp only: w(8) tget_append_fresh[OF w(10)])
  have dorm: "session_id (bd_target bx) \<noteq> s_session_id s" if "tget (v_attempts db) x = Some ax" "tget (v_bindings db) x = Some bx" "live ax" for x ax bx
    using session_dormant[OF inv ad(5) fresh that] .
  have livea: "live a" by (simp add: w(5) new_vattempt_def ended_state_def)
  have new: "attempt_ok db' (attempt_id t) a"
    using ad(3) fr p w livea by (auto simp: attempt_ok_def cancels_ok_def placed_def bnd gw owned_by_def operation_record_def new_vattempt_def)
  have old: "attempt_ok db' x ax" if x: "tget (v_attempts db) x = Some ax" for x ax
  proof -
    have ne: "x \<noteq> attempt_id t" using x fr(1) by auto
    have ok: "attempt_ok db x ax" using attempt_invD(1)[OF inv x] .
    then obtain bx where bx: "tget (v_bindings db) x = Some bx" "placed db x ax bx" by (auto simp: attempt_ok_def)
    then have "placed db' x ax bx"
      using ne dorm[OF x bx(1)] ad(1) by (auto simp: placed_def gw w(1,3,14,16))
    moreover have "\<exists>ro. tget (v_operations db') (ad_operation_id ax) = Some ro \<and> kind_of ro = OpExecute"
      using ok ops_step_kind[OF step] unfolding attempt_ok_def by metis
    ultimately show ?thesis using ok bx(1) ne cancels_ok_step[OF _ step] by (auto simp: attempt_ok_def bnd)
  qed
  have "attempt_ok db' x ax" if "tget (v_attempts db') x = Some ax" for x ax
    using that new old by (auto simp: w(4) split: if_splits)
  moreover have "actives_ok db' k dk" if g: "get_workspace k db' = Some dk" for k dk
  proof (cases "k = rq_workspace_id rq")
    case True
    have "actives_ok db k d" using attempt_invD(2)[OF inv] ad(1) True by simp
    moreover from this have "attempt_id t \<notin> set (actives d)" using fr(1) by (auto simp: actives_ok_def)
    ultimately show ?thesis using g True w(4,9,14) p(1) by (auto simp: gw actives_ok_def bnd)
  next
    case False
    then have "actives_ok db k dk" using attempt_invD(2)[OF inv] g by (simp add: gw)
    moreover from this have "attempt_id t \<notin> set (actives dk)" using fr(1) by (auto simp: actives_ok_def)
    ultimately show ?thesis using w(4) by (auto simp: actives_ok_def bnd)
  qed
  moreover have "exclusive db'"
    using attempt_invD(3)[OF inv] dorm w(9) p(4) unfolding exclusive_def w(4) bnd
    by (auto split: if_splits) (metis+)
  moreover have "session_keys db'" using attempt_invD(4)[OF inv] w(1,2) by (auto simp: session_keys_def)
  moreover have "steering_ok db' cid x" if g: "tget (v_steering db') cid = Some x" for cid x
  proof -
    have ok: "steering_ok db cid x" using attempt_invD(5)[OF inv] g w(17) by simp
    then have "\<exists>cs msg r. body (sc_command x) = Steer cs msg \<and> tget (v_operations db') (cause_operation_id cs) = Some r \<and> kind_of r = OpSteer"
      using ops_step_kind[OF step] unfolding steering_ok_def by metis
    then show ?thesis using ok fr by (auto simp: steering_ok_def w(4) bnd)
  qed
  ultimately show ?thesis by (auto simp: attempt_inv_def)
qed

section \<open>Cancel\<close>

definition cancel_operation :: "(nat \<Rightarrow> draw) \<Rightarrow> request \<Rightarrow> binding_doc \<Rightarrow> operation \<Rightarrow> bool" where
  "cancel_operation ds rq b op \<longleftrightarrow> o_operation_id op = identity ''op_'' (d_uuid (ds 1)) \<and> o_operation op = OpCancel
     \<and> o_resources op = resources_of (bd_target b) \<and> o_command_id op = rq_command_id rq"

text \<open>
  The three ways a cancel is accepted: the attempt has ended, another cancel is already on its way,
  or this one is the first and a runtime command is sent.
\<close>

lemma accept_cancel_effect:
  assumes "accept_cancel cfg ds rq db = Inr (resp, db')"
  obtains (ended) aid r b op where "tget (v_attempts db) aid = Some r" "tget (v_bindings db) aid = Some b" "cancel_operation ds rq b op"
      "\<not> live r" "o_status op = OpSucceeded" "db' = put_operation (o_operation_id op) (operation_record op (rq_causal_path rq)) (put_attempt aid r db)"
  | (joined) aid r b op c where "tget (v_attempts db) aid = Some r" "tget (v_bindings db) aid = Some b" "cancel_operation ds rq b op"
      "live r" "o_status op = OpPending" "ad_cancel r = Some c"
      "db' = put_operation (o_operation_id op) (operation_record op (rq_causal_path rq))
         (put_attempt aid (r\<lparr>ad_cancel := Some (c\<lparr>cn_operation_ids := cn_operation_ids c @ [o_operation_id op]\<rparr>)\<rparr>) db)"
  | (won) aid r b op c s s' rows a1 where "tget (v_attempts db) aid = Some r" "tget (v_bindings db) aid = Some b" "cancel_operation ds rq b op"
      "live r" "o_status op = OpPending" "ad_cancel r = None" "cn_operation_ids c = [o_operation_id op]"
      "cn_command_id c = identity ''rtc_'' (d_uuid (ds 2))" "cn_cause c = cause_of op rq"
      "tget (v_sessions db) (session_id (bd_target b)) = Some s" "s_state (sd_snapshot s') = s_state (sd_snapshot s)"
      "s_session_id (sd_snapshot s') = s_session_id (sd_snapshot s)" "a1 = r\<lparr>ad_snapshot := (ad_snapshot r)\<lparr>va_state := VCancelling\<rparr>, ad_cancel := Some c\<rparr>"
      "db' = put_operation (o_operation_id op) (operation_record op (rq_causal_path rq))
         (put_attempt aid a1 ((put_session (session_id (bd_target b)) s' db)\<lparr>v_commands := rows\<rparr>))"
proof -
  obtain aid reason where pl: "rq_payload rq = PCancel aid reason" using assms by (cases "rq_payload rq") (auto simp: accept_cancel_def)
  obtain r where r: "tget (v_attempts db) aid = Some r"
    using assms pl by (cases "tget (v_attempts db) aid") (auto simp: accept_cancel_def service_bind_eq_Inr Let_def)
  obtain b where b: "tget (v_bindings db) aid = Some b"
    using assms pl r by (cases "tget (v_bindings db) aid") (auto simp: accept_cancel_def service_bind_eq_Inr Let_def)
  define op where "op = (new_operation (ds 1) rq OpCancel (rq_workspace_id rq) (d_now (ds 0)) OpPending)\<lparr>o_resources := resources_of (bd_target b)\<rparr>"
  have op: "cancel_operation ds rq b op" "o_status op = OpPending" by (simp_all add: op_def cancel_operation_def new_operation_def)
  show thesis
  proof (cases "live r")
    case False
    define op1 where "op1 = op\<lparr>o_status := OpSucceeded, o_result := Some [(''attempt_id'', JStr aid),
        (''final_state'', JStr (vattempt_state_name (va_state (ad_snapshot r))))]\<rparr>"
    have "cancel_operation ds rq b op1" "o_status op1 = OpSucceeded" using op by (simp_all add: op1_def cancel_operation_def)
    moreover have "db' = put_operation (o_operation_id op1) (operation_record op1 (rq_causal_path rq)) (put_attempt aid r db)"
      using assms pl r b False by (auto simp: accept_cancel_def service_bind_eq_Inr Let_def op1_def op_def put_cancel_def split: if_split_asm)
    ultimately show ?thesis using False r b by (intro ended) auto
  next
    case True
    show ?thesis
    proof (cases "ad_cancel r")
      case (Some c)
      have "db' = put_operation (o_operation_id op) (operation_record op (rq_causal_path rq))
         (put_attempt aid (r\<lparr>ad_cancel := Some (c\<lparr>cn_operation_ids := cn_operation_ids c @ [o_operation_id op]\<rparr>)\<rparr>) db)"
        using assms pl r b True Some by (auto simp: accept_cancel_def service_bind_eq_Inr Let_def op_def put_cancel_def split: if_split_asm)
      then show ?thesis using True r b op Some by (intro joined) auto
    next
      case None
      define m where "m = cancel_message (ds 2) b op rq reason"
      define c where "c = \<lparr>cn_command_id = command_id m, cn_cause = cause_of op rq, cn_operation_ids = [o_operation_id op]\<rparr>"
      define a1 where "a1 = r\<lparr>ad_snapshot := (ad_snapshot r)\<lparr>va_state := VCancelling\<rparr>, ad_cancel := Some c\<rparr>"
      have win: "win_cancel cfg ds aid r b op rq reason db = Inr (resp, db')"
        using assms pl r b True None by (auto simp: accept_cancel_def service_bind_eq_Inr Let_def op_def split: if_split_asm)
      then obtain s where s: "tget (v_sessions db) (session_id (bd_target b)) = Some s"
        by (cases "tget (v_sessions db) (session_id (bd_target b))") (auto simp: win_cancel_def service_bind_eq_Inr Let_def)
      define s' where "s' = s\<lparr>sd_snapshot := replace_attempt (d_now (ds 0)) (ad_snapshot a1) (sd_snapshot s)\<rparr>"
      obtain rows where "db' = put_operation (o_operation_id op) (operation_record op (rq_causal_path rq))
         (put_attempt aid a1 ((put_session (session_id (bd_target b)) s' db)\<lparr>v_commands := rows\<rparr>))"
        using win s by (auto simp: win_cancel_def service_bind_eq_Inr sbind_eq_Inr Let_def put_cancel_def m_def c_def a1_def s'_def
            dest!: append_command_commands)
      then show ?thesis using True r b op None s
        by (intro won[of aid r b op c s s' a1 rows]) (auto simp: c_def m_def cancel_message_def a1_def s'_def replace_attempt_def)
    qed
  qed
qed

lemma new_op_attempt: "cancel_operation ds rq b op \<Longrightarrow> op_attempt (operation_record op path) = Some (attempt_id (bd_target b))"
  by (simp add: cancel_operation_def op_attempt_def operation_record_def resources_of_def)

lemma cancel_touched:
  assumes inv: "attempt_inv db" and r: "tget (v_attempts db) aid = Some r" "tget (v_bindings db) aid = Some b"
    and op: "cancel_operation ds rq b op" "tget (v_operations db) (o_operation_id op) = None"
    and r': "live r' = live r" "ad_snapshot r' = (ad_snapshot r)\<lparr>va_state := va_state (ad_snapshot r')\<rparr>" "ad_operation_id r' = ad_operation_id r"
    and canc: "cancels_ok (put_operation (o_operation_id op) (operation_record op path) db) aid r'"
    and ses: "v_sessions db1 = v_sessions db \<or> (\<exists>s s'. tget (v_sessions db) sid = Some s \<and> v_sessions db1 = tput sid s' (v_sessions db)
        \<and> s_state (sd_snapshot s') = s_state (sd_snapshot s) \<and> s_session_id (sd_snapshot s') = s_session_id (sd_snapshot s))"
    and db1: "v_attempts db1 = v_attempts db" "v_bindings db1 = v_bindings db" "v_operations db1 = v_operations db"
      "v_runtimes db1 = v_runtimes db" "v_workspaces db1 = v_workspaces db" "v_steering db1 = v_steering db"
  shows "attempt_inv (put_operation (o_operation_id op) (operation_record op path) (put_attempt aid r' db1))"
proof -
  define db' where "db' = put_operation (o_operation_id op) (operation_record op path) (put_attempt aid r' db1)"
  have tabs: "v_attempts db' = tput aid r' (v_attempts db)" "v_bindings db' = v_bindings db" "v_runtimes db' = v_runtimes db"
      "v_operations db' = tput (o_operation_id op) (operation_record op path) (v_operations db)" "v_steering db' = v_steering db"
      "v_sessions db' = v_sessions db1" "v_workspaces db' = v_workspaces db"
    by (simp_all add: db'_def put_defs db1)
  have ok: "attempt_ok db aid r" using attempt_invD(1)[OF inv r(1)] .
  then obtain d where d: "get_workspace (workspace_id (bd_target b)) db = Some d" "aid \<in> set (actives d) \<longleftrightarrow> live r"
    using r(2) by (auto simp: attempt_ok_def placed_def)
  have gw: "get_workspace k db' = get_workspace k db" for k by (simp add: get_workspace_def tabs(7))
  have keys: "session_keys db'" using ses attempt_invD(4)[OF inv] by (auto simp: session_keys_def tabs(6) split: if_split_asm)
  have sess: "\<exists>s'. tget (v_sessions db') x = Some s' \<and> (s_state (sd_snapshot s') = s_state (sd_snapshot s)
      \<or> x = session_id (bd_target b) \<and> live r \<and> \<not> live r')"
    if "tget (v_sessions db) x = Some s" for x s
    using ses that by (auto simp: tabs(6))
  have steer: "attempt_id (target (sc_command c)) = aid \<longrightarrow> live r'" if "tget (v_steering db) cid = Some c" "sc_status c = StPending" for cid c
    using attempt_invD(5)[OF inv that(1)] that(2) r(1) r'(1) by (auto simp: steering_ok_def)
  have act: "remove1 aid (actives dk) = actives dk" if "get_workspace (workspace_id (bd_target b)) db = Some dk" "\<not> live r'" for dk
    using that d r'(1) by (simp add: remove1_idem)
  have "touched aid r r' b db db'" unfolding touched_def
    by (intro conjI allI impI) (use op(2) keys sess steer act in \<open>auto simp: tabs gw ops_step_def\<close>)
  moreover have "va_attempt_id (ad_snapshot r') = aid" using ok by (subst r'(2)) (simp add: attempt_ok_def)
  moreover have "cancels_ok db' aid r'" using canc by (subst cancels_ok_same) (auto simp: tabs(4) put_operation_def)
  ultimately show ?thesis unfolding db'_def[symmetric] using r'(1,3) by (intro attempt_inv_touched[OF inv r]) auto
qed

lemma accept_cancel_attempt_inv:
  assumes inv: "attempt_inv db" and fresh: "fresh_draws db ds" and run: "accept_cancel cfg ds rq db = Inr (resp, db')"
  shows "attempt_inv db'"
proof -
  have fr: "tget (v_operations db) (o_operation_id op) = None" if "cancel_operation ds rq b op" for b op
    using fresh_drawsD[OF fresh, of 1] that by (simp add: cancel_operation_def fresh_uuid_def)
  have ok: "cancels_ok db aid r" "va_attempt_id (ad_snapshot r) = aid" "\<And>b. tget (v_bindings db) aid = Some b \<Longrightarrow> attempt_id (bd_target b) = aid"
    if "tget (v_attempts db) aid = Some r" for aid r
    using attempt_invD(1)[OF inv that] by (auto simp: attempt_ok_def placed_def)
  from run show ?thesis
  proof (cases rule: accept_cancel_effect)
    case (ended aid r b op)
    show ?thesis unfolding ended(6)
      by (rule cancel_touched[OF inv ended(1,2,3) fr[OF ended(3)]])
        (use ok[OF ended(1)] fr[OF ended(3)] in \<open>auto simp: cancels_ok_def put_operation_def split: option.splits\<close>)
  next
    case (joined aid r b op c)
    have "cancels_ok (put_operation (o_operation_id op) (operation_record op (rq_causal_path rq)) db) aid
        (r\<lparr>ad_cancel := Some (c\<lparr>cn_operation_ids := cn_operation_ids c @ [o_operation_id op]\<rparr>)\<rparr>)"
      using ok[OF joined(1)] joined(2-6) fr[OF joined(3)] new_op_attempt[OF joined(3)]
      by (auto simp: cancels_ok_def put_operation_def cancel_operation_def operation_record_def op_attempt_def)
    then show ?thesis unfolding joined(7) by (intro cancel_touched[OF inv joined(1,2,3) fr[OF joined(3)]]) auto
  next
    case (won aid r b op c s s' rows a1)
    have canc: "cancels_ok (put_operation (o_operation_id op) (operation_record op (rq_causal_path rq)) db) aid a1"
      using ok[OF won(1)] won(2-7) fr[OF won(3)] new_op_attempt[OF won(3)]
      by (auto simp: won(13) cancels_ok_def put_operation_def cancel_operation_def operation_record_def op_attempt_def ended_state_def)
    show ?thesis unfolding won(14)
      by (rule cancel_touched[OF inv won(1,2,3) fr[OF won(3)] _ _ _ canc, where sid = "session_id (bd_target b)"])
        (use won(4,10,11,12) in \<open>auto simp: won(13) put_session_def ended_state_def\<close>)
  qed
qed

lemma accept_cancel_frame:
  assumes fresh: "fresh_draws db ds" and run: "accept_cancel cfg ds rq db = Inr (resp, db')"
  shows "exec_frame db db'"
proof -
  have "\<exists>op b. cancel_operation ds rq b op \<and> v_operations db' = tput (o_operation_id op) (operation_record op (rq_causal_path rq)) (v_operations db)
      \<and> v_runtimes db' = v_runtimes db \<and> v_workspaces db' = v_workspaces db"
    using run by (cases rule: accept_cancel_effect) (auto simp: put_defs)
  then obtain op b where op: "cancel_operation ds rq b op" "v_runtimes db' = v_runtimes db" "v_workspaces db' = v_workspaces db"
      "v_operations db' = tput (o_operation_id op) (operation_record op (rq_causal_path rq)) (v_operations db)" by blast
  have "tget (v_operations db) (o_operation_id op) = None"
    using fresh_drawsD[OF fresh, of 1] op(1) by (simp add: cancel_operation_def fresh_uuid_def)
  then show ?thesis
    by (intro exec_frame_ops[where K = "{OpCancel}"])
      (use op in \<open>auto simp: cancel_operation_def operation_record_def op_keys_def intro!: ops_frame_put\<close>)
qed

section \<open>Steer\<close>

lemma steer_checkD:
  assumes "steer_check cfg ds rq sid restore db = Inr (aid, b)"
  obtains a where "tget (v_attempts db) aid = Some a" "tget (v_bindings db) aid = Some b" "va_state (ad_snapshot a) = VRunning"
    "session_id (bd_target b) = sid" "workspace_id (bd_target b) = rq_workspace_id rq"
    "owned_by (tget (v_runtimes db) (rq_workspace_id rq)) (bd_target b)"
proof -
  obtain d where d: "load_workspace rq db = Inr d" using assms by (auto simp: steer_check_def sbind_eq_Inr)
  obtain stored where stored: "tget (v_sessions db) sid = Some stored"
    using assms d by (cases "tget (v_sessions db) sid") (auto simp: steer_check_def sbind_eq_Inr Let_def)
  obtain r where r: "tget (v_runtimes db) (rq_workspace_id rq) = Some r"
    using assms d stored by (cases "tget (v_runtimes db) (rq_workspace_id rq)") (auto simp: steer_check_def sbind_eq_Inr Let_def)
  define x where "x = va_attempt_id (hd (filter (\<lambda>a. va_state a \<in> {VStarting, VRunning, VCancelling}) (s_attempts (sd_snapshot stored))))"
  obtain a where a: "tget (v_attempts db) x = Some a"
    using assms d stored r by (cases "tget (v_attempts db) x") (auto simp: steer_check_def sbind_eq_Inr Let_def x_def)
  obtain b' where b: "tget (v_bindings db) x = Some b'"
    using assms d stored r a by (cases "tget (v_bindings db) x") (auto simp: steer_check_def sbind_eq_Inr Let_def x_def)
  have "aid = x" "b = b'" "va_state (ad_snapshot a) = VRunning" "session_id (bd_target b') = sid"
      "workspace_id (bd_target b') = rq_workspace_id rq" "owned_by (Some r) (bd_target b')"
    using assms d stored r a b by (auto simp: steer_check_def sbind_eq_Inr Let_def x_def)
  with a b r show ?thesis by (intro that) auto
qed

lemma accept_steer_effect:
  assumes "accept_steer cfg ds rq db = Inr (resp, db')"
  obtains aid b a op m cs msg rows where "tget (v_attempts db) aid = Some a" "tget (v_bindings db) aid = Some b"
    "va_state (ad_snapshot a) = VRunning"
    "o_operation op = OpSteer" "o_operation_id op = identity ''op_'' (d_uuid (ds 1))" "command_id m = identity ''rtc_'' (d_uuid (ds 2))"
    "body m = Steer cs msg" "cause_operation_id cs = o_operation_id op" "target m = bd_target b"
    "db' = (put_steering (command_id m) \<lparr>sc_command = m, sc_status = StPending\<rparr>
              (put_operation (o_operation_id op) (operation_record op (rq_causal_path rq)) db))\<lparr>v_commands := rows\<rparr>"
proof -
  obtain sid msg restore where pl: "rq_payload rq = PSteer sid msg restore" using assms by (cases "rq_payload rq") (auto simp: accept_steer_def)
  obtain aid b where chk: "steer_check cfg ds rq sid restore db = Inr (aid, b)"
    using assms pl by (auto simp: accept_steer_def service_bind_eq_Inr)
  obtain a where a: "tget (v_attempts db) aid = Some a" "tget (v_bindings db) aid = Some b" "va_state (ad_snapshot a) = VRunning"
    using steer_checkD[OF chk] by metis
  define op where "op = (new_operation (ds 1) rq OpSteer (rq_workspace_id rq) (d_now (ds 0)) OpPending)\<lparr>o_resources := resources_of (bd_target b)\<rparr>"
  define m where "m = \<lparr>command_id = identity ''rtc_'' (d_uuid (ds 2)), target = bd_target b, execution_of = bd_execution b,
                     body = Steer (cause_of op rq) msg\<rparr>"
  obtain rows where "db' = (put_steering (command_id m) \<lparr>sc_command = m, sc_status = StPending\<rparr>
              (put_operation (o_operation_id op) (operation_record op (rq_causal_path rq)) db))\<lparr>v_commands := rows\<rparr>"
    using assms pl chk
    by (auto simp: accept_steer_def service_bind_eq_Inr sbind_eq_Inr Let_def op_def m_def dest!: append_command_commands)
  then show ?thesis using a
    by (intro that[of aid a b op m "cause_of op rq" msg rows]) (auto simp: op_def m_def new_operation_def cause_of_def)
qed

lemma accept_steer_attempt_inv:
  assumes inv: "attempt_inv db" and fresh: "fresh_draws db ds" and run: "accept_steer cfg ds rq db = Inr (resp, db')"
  shows "attempt_inv db'"
  using run
proof (cases rule: accept_steer_effect)
  case e: (1 aid b a op m cs msg rows)
  have fr: "tget (v_operations db) (o_operation_id op) = None" "tget (v_steering db) (command_id m) = None"
    using fresh_drawsD[OF fresh, of 1] fresh_drawsD[OF fresh, of 2] by (simp_all add: e(5,6) fresh_uuid_def)
  define db1 where "db1 = put_operation (o_operation_id op) (operation_record op (rq_causal_path rq)) db"
  have "quiet db db1" using fr(1) by (auto simp: quiet_def db1_def put_defs ops_step_def session_keys_def)
  then have inv1: "attempt_inv db1" by (rule attempt_inv_quiet[OF inv])
  have tabs: "v_attempts db' = v_attempts db1" "v_bindings db' = v_bindings db1" "v_operations db' = v_operations db1"
      "v_runtimes db' = v_runtimes db1" "v_sessions db' = v_sessions db1" "v_workspaces db' = v_workspaces db1"
      "v_steering db' = tput (command_id m) \<lparr>sc_command = m, sc_status = StPending\<rparr> (v_steering db1)"
    by (simp_all add: e(10) db1_def put_defs)
  have "attempt_id (bd_target b) = aid" using attempt_invD(1)[OF inv e(1)] e(2) by (auto simp: attempt_ok_def placed_def)
  then have "steering_ok db' (command_id m) \<lparr>sc_command = m, sc_status = StPending\<rparr>"
    using e(1-4,7-9) by (auto simp: steering_ok_def tabs db1_def put_defs operation_record_def ended_state_def)
  then show ?thesis
    using inv1 by (auto simp: attempt_inv_def attempt_ok_def placed_def actives_ok_def exclusive_def session_keys_def steering_ok_def
        tabs get_workspace_def cancels_ok_same[OF tabs(3)] split: if_split_asm)
qed

lemma accept_steer_frame:
  assumes fresh: "fresh_draws db ds" and run: "accept_steer cfg ds rq db = Inr (resp, db')"
  shows "exec_frame db db'"
  using run
proof (cases rule: accept_steer_effect)
  case e: (1 aid b a op m cs msg rows)
  have fr: "tget (v_operations db) (o_operation_id op) = None"
    using fresh_drawsD[OF fresh, of 1] by (simp add: e(5) fresh_uuid_def)
  show ?thesis
    by (rule exec_frame_ops[where K = "{OpSteer}"])
      (use fr e(4) in \<open>auto simp: e(10) put_defs operation_record_def op_keys_def intro!: ops_frame_put\<close>)
qed

end
