(* ===== verification/Vcp_Projection_Inv.thy ===== *)
theory Vcp_Projection_Inv
  imports Vcp_Execution_Inv
begin

text \<open>
  The projections of runtime updates keep the invariants: a steering outcome touches its own
  command, operation and history; a transition moves one attempt and, when it ends, settles
  everything that waited for it.
\<close>

section \<open>Steering outcomes\<close>

lemma quiet_refl [simp]: "quiet db db"
  by (auto simp: quiet_def ops_step_def)

lemma quiet_trans:
  assumes "quiet db db1" and "quiet db1 db2"
  shows "quiet db db2"
  unfolding quiet_def
proof (intro conjI allI impI)
  show "ops_step None db db2" using assms ops_step_trans by (auto simp: quiet_def)
next
  fix k d assume "get_workspace k db = Some d"
  then show "\<exists>d'. get_workspace k db2 = Some d' \<and> actives d' = actives d"
    using assms unfolding quiet_def by metis
next
  fix k d' assume "get_workspace k db2 = Some d'" "get_workspace k db = None"
  then show "actives d' = []" using assms unfolding quiet_def by (metis option.exhaust option.inject)
next
  fix k d t assume a: "get_workspace k db = Some d" "actives d \<noteq> []" "owned_by (tget (v_runtimes db) k) t"
  obtain d1 where "get_workspace k db1 = Some d1" "actives d1 = actives d" using assms(1) a(1) unfolding quiet_def by blast
  moreover have "owned_by (tget (v_runtimes db1) k) t" using assms(1) a unfolding quiet_def by blast
  ultimately show "owned_by (tget (v_runtimes db2) k) t" using assms(2) a(2) unfolding quiet_def by metis
next
  fix sid s assume "tget (v_sessions db) sid = Some s"
  then show "\<exists>s'. tget (v_sessions db2) sid = Some s' \<and> s_state (sd_snapshot s') = s_state (sd_snapshot s)"
    using assms unfolding quiet_def by metis
next
  fix cid c2 assume "tget (v_steering db2) cid = Some c2"
  then obtain c1 where c1: "tget (v_steering db1) cid = Some c1" "sc_command c2 = sc_command c1" "sc_status c2 = StPending \<longrightarrow> sc_status c1 = StPending"
    using assms(2) unfolding quiet_def by blast
  then obtain c where "tget (v_steering db) cid = Some c" "sc_command c1 = sc_command c" "sc_status c1 = StPending \<longrightarrow> sc_status c = StPending"
    using assms(1) unfolding quiet_def by blast
  then show "\<exists>c. tget (v_steering db) cid = Some c \<and> sc_command c2 = sc_command c \<and> (sc_status c2 = StPending \<longrightarrow> sc_status c = StPending)"
    using c1 by auto
qed (use assms in \<open>auto simp: quiet_def\<close>)

lemma append_history_effect:
  assumes "append_history sid e db = Inr (n, db')"
  obtains s rows where "tget (v_sessions db) sid = Some s" "n = sd_history_sequence s + 1"
    "db' = db\<lparr>v_sessions := tput sid (s\<lparr>sd_history_sequence := n\<rparr>) (v_sessions db), v_history := rows\<rparr>"
  using assms by (auto simp: append_history_def Let_def put_session_def tinsert_Some_iff split: option.split_asm if_split_asm)

lemma retire_effect: "\<exists>rows. retire_runtime_command cid db = db\<lparr>v_commands := rows\<rparr>"
  unfolding retire_runtime_command_def by (auto split: option.splits) (metis vcp_db.surjective vcp_db.update_convs(10))+

lemma steering_operation_same [simp]:
  "o_operation (steering_operation ts t x op) = o_operation op" "o_operation_id (steering_operation ts t x op) = o_operation_id op"
  by (simp_all add: steering_operation_def split: steering_outcome.splits)

lemma project_effect:
  assumes "project cfg ds cid outcome claimed db = Inr (known, db')"
  obtains (same) "db' = db" "claimed = None \<Longrightarrow> (\<exists>c. tget (v_steering db) cid = Some c \<and> sc_status c = StPending) \<Longrightarrow> False"
  | (projected) c cs msg r r' s n rows hist cmds where "tget (v_steering db) cid = Some c" "body (sc_command c) = Steer cs msg"
      "sc_status c = StPending" "known" "tget (v_operations db) (cause_operation_id cs) = Some r" "kind_of r' = kind_of r"
      "o_operation_id (od_snapshot r') = o_operation_id (od_snapshot r)"
      "tget (v_sessions db) (session_id (target (sc_command c))) = Some s"
      "db' = db\<lparr>v_outbox := rows, v_sessions := tput (session_id (target (sc_command c))) (s\<lparr>sd_history_sequence := n\<rparr>) (v_sessions db),
         v_history := hist, v_steering := tput cid (c\<lparr>sc_status := (if outcome = Applied then StApplied else StFailed)\<rparr>) (v_steering db),
         v_operations := tput (cause_operation_id cs) r' (v_operations db), v_commands := cmds\<rparr>"
proof (cases "tget (v_steering db) cid")
  case c: (Some c)
  obtain cs msg where m: "body (sc_command c) = Steer cs msg"
    using assms c by (cases "body (sc_command c)") (auto simp: project_def)
  define foreign where "foreign \<longleftrightarrow> (case claimed of None \<Rightarrow> False | Some (t, x) \<Rightarrow> target (sc_command c) \<noteq> t \<or> cs \<noteq> x)"
  show ?thesis
  proof (cases "foreign \<or> sc_status c \<noteq> StPending")
    case True
    then show ?thesis using assms c m by (intro same) (auto simp: project_def foreign_def split: option.splits if_split_asm)
  next
    case False
    then have nf: "\<not> foreign" and pend: "sc_status c = StPending" by auto
    have body: "(case tget (v_operations db) (cause_operation_id cs) of None \<Rightarrow> Inl VTypeError | Some r \<Rightarrow>
        sbind (append_event (vc_event_ok cfg) (steering_event (ds 1) (d_now (ds 0)) c cs outcome) db) (\<lambda>db1.
        sbind (append_history (session_id (target (sc_command c))) \<lparr>he_kind = HSteering, he_attempt_id = attempt_id (target (sc_command c)),
              he_sequence = 0, he_occurred_at = d_now (ds 0), he_content = [(''message'', msg),
              (''status'', outcome_name outcome), (''operation_id'', cause_operation_id cs)]\<rparr> db1) (\<lambda>(n, db2).
        Inr (True, retire_runtime_command cid
            (put_operation (cause_operation_id cs) (r\<lparr>od_snapshot := steering_operation (d_now (ds 0)) (target (sc_command c)) outcome (od_snapshot r)\<rparr>)
              (put_steering cid (c\<lparr>sc_status := (if outcome = Applied then StApplied else StFailed)\<rparr>) db2)))))) = Inr (known, db')"
      using assms c m nf pend by (simp add: project_def Let_def foreign_def[symmetric])
    obtain r where r: "tget (v_operations db) (cause_operation_id cs) = Some r"
      using body by (cases "tget (v_operations db) (cause_operation_id cs)") auto
  define t where "t = target (sc_command c)"
  define r' where "r' = r\<lparr>od_snapshot := steering_operation (d_now (ds 0)) t outcome (od_snapshot r)\<rparr>"
  define ent where "ent = \<lparr>he_kind = HSteering, he_attempt_id = attempt_id t, he_sequence = 0,
                              he_occurred_at = d_now (ds 0), he_content = [(''message'', msg),
                              (''status'', outcome_name outcome), (''operation_id'', cause_operation_id cs)]\<rparr>"
  obtain db1 db2 n where ev: "append_event (vc_event_ok cfg) (steering_event (ds 1) (d_now (ds 0)) c cs outcome) db = Inr db1"
      and hi: "append_history (session_id t) ent db1 = Inr (n, db2)" and k: "known" "sc_status c = StPending"
      and fin: "db' = retire_runtime_command cid (put_operation (cause_operation_id cs) r'
         (put_steering cid (c\<lparr>sc_status := (if outcome = Applied then StApplied else StFailed)\<rparr>) db2))"
    using body r pend by (auto simp: sbind_eq_Inr r'_def ent_def t_def)
  obtain rows where db1: "db1 = db\<lparr>v_outbox := rows\<rparr>" using append_event_outbox[OF ev] by metis
  obtain s hist where s: "tget (v_sessions db1) (session_id t) = Some s"
      "db2 = db1\<lparr>v_sessions := tput (session_id t) (s\<lparr>sd_history_sequence := n\<rparr>) (v_sessions db1), v_history := hist\<rparr>"
    using append_history_effect[OF hi] by metis
  obtain cmds where cm: "db' = (put_operation (cause_operation_id cs) r'
         (put_steering cid (c\<lparr>sc_status := (if outcome = Applied then StApplied else StFailed)\<rparr>) db2))\<lparr>v_commands := cmds\<rparr>"
    using fin retire_effect by metis
  show ?thesis
    by (rule projected[OF c m k(2,1) r, where r' = r' and s = s and rows = rows and n = n and hist = hist and cmds = cmds])
      (use s db1 cm in \<open>auto simp: r'_def t_def put_defs\<close>)
  qed
qed (use assms in \<open>auto simp: project_def intro: same\<close>)

lemma project_quiet:
  assumes inv: "attempt_inv db" and run: "project cfg ds cid outcome claimed db = Inr (known, db')"
  shows "quiet db db'" and "exec_frame db db'"
proof -
  from run have "quiet db db' \<and> exec_frame db db'"
  proof (cases rule: project_effect)
    case p: (projected c cs msg r r' s n rows hist cmds)
    have "steering_ok db cid c" using attempt_invD(5)[OF inv p(1)] .
    then have k: "kind_of r = OpSteer" using p(2,5) by (auto simp: steering_ok_def)
    have keys: "session_keys db \<Longrightarrow> session_keys db'" using p(8) by (auto simp: p(9) session_keys_def split: if_split_asm)
    have "quiet db db'" unfolding quiet_def
      by (intro conjI allI impI) (use p(1,3,5-8) k keys in \<open>auto simp: p(9) ops_step_def split: if_split_asm\<close>)
    moreover have "exec_frame db db'"
      by (rule exec_frame_ops[where K = "{OpSteer}"])
        (use p(5-7) k in \<open>auto simp: p(9) op_keys_def intro!: ops_frame_put\<close>)
    ultimately show ?thesis by simp
  qed simp
  then show "quiet db db'" "exec_frame db db'" by auto
qed

text \<open>Steering commands keep their content and are settled at most once.\<close>

definition steering_mono :: "vcp_db \<Rightarrow> vcp_db \<Rightarrow> bool" where
  "steering_mono db db' \<longleftrightarrow> (\<forall>cid c. tget (v_steering db) cid = Some c \<longrightarrow>
     (\<exists>c'. tget (v_steering db') cid = Some c' \<and> sc_command c' = sc_command c \<and> (sc_status c \<noteq> StPending \<longrightarrow> c' = c)))"

lemma steering_mono_refl [simp]: "steering_mono db db"
  by (simp add: steering_mono_def)

lemma steering_mono_trans: "steering_mono db db1 \<Longrightarrow> steering_mono db1 db2 \<Longrightarrow> steering_mono db db2"
  unfolding steering_mono_def by metis

lemma project_steering:
  assumes "project cfg ds cid outcome claimed db = Inr (known, db')"
  shows "steering_mono db db'"
  using assms by (cases rule: project_effect) (auto simp: steering_mono_def)

lemma project_settles:
  assumes run: "project cfg ds cid outcome None db = Inr (known, db')"
    and c: "tget (v_steering db) cid = Some c"
  shows "\<exists>c'. tget (v_steering db') cid = Some c' \<and> sc_status c' \<noteq> StPending"
proof (cases "sc_status c = StPending")
  case True
  from run show ?thesis
  proof (cases rule: project_effect)
    case same
    then show ?thesis using c True by blast
  qed (use c in auto)
next
  case False
  then show ?thesis using project_steering[OF run] c unfolding steering_mono_def by blast
qed

lemma terminate_each_effect:
  assumes "attempt_inv db" and "terminate_each cfg ds i cs db = Inr db'"
  shows "quiet db db' \<and> exec_frame db db' \<and> steering_mono db db'
    \<and> (\<forall>c \<in> set cs. (\<exists>x. tget (v_steering db) (command_id (sc_command c)) = Some x) \<longrightarrow>
         (\<exists>c'. tget (v_steering db') (command_id (sc_command c)) = Some c' \<and> sc_status c' \<noteq> StPending))"
  using assms
proof (induction cs arbitrary: i db)
  case (Cons c cs)
  obtain known db1 where p: "project cfg (\<lambda>k. ds (i + k)) (command_id (sc_command c)) (Failed_with None) None db = Inr (known, db1)"
      and rest: "terminate_each cfg ds (i + 2) cs db1 = Inr db'"
    using Cons.prems(2) by (auto simp: sbind_eq_Inr)
  have f: "quiet db db1" "exec_frame db db1" "steering_mono db db1"
    using project_quiet[OF Cons.prems(1) p] project_steering[OF p] by auto
  have IH: "quiet db1 db'" "exec_frame db1 db'" "steering_mono db1 db'"
      "\<And>x. x \<in> set cs \<Longrightarrow> \<exists>y. tget (v_steering db1) (command_id (sc_command x)) = Some y \<Longrightarrow>
        \<exists>c'. tget (v_steering db') (command_id (sc_command x)) = Some c' \<and> sc_status c' \<noteq> StPending"
    using Cons.IH[OF attempt_inv_quiet[OF Cons.prems(1) f(1)] rest] by auto
  have "\<exists>c'. tget (v_steering db') (command_id (sc_command x)) = Some c' \<and> sc_status c' \<noteq> StPending"
    if x: "x \<in> set (c # cs)" "tget (v_steering db) (command_id (sc_command x)) = Some y" for x y
  proof (cases "x = c")
    case True
    then obtain c1 where "tget (v_steering db1) (command_id (sc_command x)) = Some c1" "sc_status c1 \<noteq> StPending"
      using project_settles[OF p] x(2) by auto
    then show ?thesis using IH(3) unfolding steering_mono_def by metis
  next
    case False
    moreover have "\<exists>y. tget (v_steering db1) (command_id (sc_command x)) = Some y" using f(3) x(2) unfolding steering_mono_def by blast
    ultimately show ?thesis using IH(4) x(1) by auto
  qed
  then show ?case using quiet_trans[OF f(1) IH(1)] exec_frame_trans[OF f(2) IH(2)] steering_mono_trans[OF f(3) IH(3)] by blast
qed simp

lemma pending_steering_mem:
  assumes "tget (v_steering db) cid = Some c" and "attempt_id (target (sc_command c)) = aid" "sc_status c = StPending"
  shows "c \<in> set (pending_steering aid db)"
  using assms tget_Some_in[OF assms(1)] by (force simp: pending_steering_def)

text \<open>When an attempt ends, no steering command of it stays pending.\<close>

lemma terminate_effect:
  assumes inv: "attempt_inv db" and run: "terminate cfg ds aid db = Inr db'"
  shows "quiet db db'" "exec_frame db db'"
    "tget (v_steering db') cid = Some c \<Longrightarrow> attempt_id (target (sc_command c)) = aid \<Longrightarrow> sc_status c \<noteq> StPending"
proof -
  note t = terminate_each_effect[OF inv run[unfolded terminate_def]]
  show q: "quiet db db'" "exec_frame db db'" using t by auto
  assume c: "tget (v_steering db') cid = Some c" "attempt_id (target (sc_command c)) = aid"
  show "sc_status c \<noteq> StPending"
  proof
    assume "sc_status c = StPending"
    then obtain c0 where c0: "tget (v_steering db) cid = Some c0" "sc_command c = sc_command c0" "sc_status c0 = StPending"
      using q(1) c(1) unfolding quiet_def by blast
    have "command_id (sc_command c0) = cid" using attempt_invD(5)[OF inv c0(1)] by (simp add: steering_ok_def)
    moreover have "c0 \<in> set (pending_steering aid db)" using c0 c(2) by (intro pending_steering_mem) auto
    ultimately obtain c' where "tget (v_steering db') cid = Some c'" "sc_status c' \<noteq> StPending" using t c0(1) by metis
    then show False using c(1) \<open>sc_status c = StPending\<close> by simp
  qed
qed

section \<open>Cancels\<close>

definition cancels_settled :: "string \<Rightarrow> string list \<Rightarrow> vcp_db \<Rightarrow> vcp_db \<Rightarrow> bool" where
  "cancels_settled aid oids db db' \<longleftrightarrow> (\<exists>t. db' = db\<lparr>v_operations := t\<rparr>) \<and> ops_step (Some aid) db db' \<and> ops_frame {OpCancel} db db'
     \<and> (op_keys db \<longrightarrow> op_keys db')
     \<and> (\<forall>oid r. tget (v_operations db) oid = Some r \<longrightarrow> (\<exists>r'. tget (v_operations db') oid = Some r' \<and> kind_of r' = kind_of r
          \<and> op_attempt r' = op_attempt r
          \<and> (oid \<in> set oids \<or> o_status (od_snapshot r) = OpSucceeded \<longrightarrow> o_status (od_snapshot r') = OpSucceeded)))"

definition of_cancel :: "string \<Rightarrow> operation_doc option \<Rightarrow> bool" where
  "of_cancel aid x \<longleftrightarrow> (\<exists>r. x = Some r \<and> kind_of r = OpCancel \<and> op_attempt r = Some aid)"

lemma cancels_settled_Nil: "cancels_settled aid [] db db"
  unfolding cancels_settled_def by (auto simp: ops_step_def ops_frame_def intro!: exI[of _ "v_operations db"])

lemma cancels_settled_one:
  assumes "tget (v_operations db) oid = Some r" "kind_of r = OpCancel" "op_attempt r = Some aid"
    and "kind_of r1 = OpCancel" "op_attempt r1 = Some aid" "o_status (od_snapshot r1) = OpSucceeded"
    and "o_operation_id (od_snapshot r1) = o_operation_id (od_snapshot r)"
  shows "cancels_settled aid [oid] db (put_operation oid r1 db)"
proof -
  have "ops_frame {OpCancel} db (put_operation oid r1 db)"
    by (rule ops_frame_put[where oid = oid and r' = r1]) (use assms in \<open>auto simp: put_operation_def\<close>)
  moreover have "ops_step (Some aid) db (put_operation oid r1 db)" using assms by (auto simp: ops_step_def put_operation_def)
  moreover have "op_keys db \<longrightarrow> op_keys (put_operation oid r1 db)" using assms by (auto simp: op_keys_def put_operation_def)
  ultimately show ?thesis using assms unfolding cancels_settled_def by (auto simp: put_operation_def)
qed

lemma cancels_settled_append:
  assumes "cancels_settled aid xs db db1" and "cancels_settled aid ys db1 db2"
  shows "cancels_settled aid (xs @ ys) db db2"
proof -
  have "\<exists>t. db2 = db\<lparr>v_operations := t\<rparr>" using assms unfolding cancels_settled_def by auto
  moreover have "\<exists>r2. tget (v_operations db2) oid = Some r2 \<and> kind_of r2 = kind_of r \<and> op_attempt r2 = op_attempt r
      \<and> (oid \<in> set (xs @ ys) \<or> o_status (od_snapshot r) = OpSucceeded \<longrightarrow> o_status (od_snapshot r2) = OpSucceeded)"
    if x: "tget (v_operations db) oid = Some r" for oid r
  proof -
    obtain r1 where r1: "tget (v_operations db1) oid = Some r1" "kind_of r1 = kind_of r" "op_attempt r1 = op_attempt r"
        "oid \<in> set xs \<or> o_status (od_snapshot r) = OpSucceeded \<longrightarrow> o_status (od_snapshot r1) = OpSucceeded"
      using assms(1) x unfolding cancels_settled_def by blast
    obtain r2 where "tget (v_operations db2) oid = Some r2" "kind_of r2 = kind_of r1" "op_attempt r2 = op_attempt r1"
        "oid \<in> set ys \<or> o_status (od_snapshot r1) = OpSucceeded \<longrightarrow> o_status (od_snapshot r2) = OpSucceeded"
      using assms(2) r1(1) unfolding cancels_settled_def by blast
    then show ?thesis using r1 by auto
  qed
  ultimately show ?thesis
    using assms ops_step_trans[of "Some aid" db db1 db2] ops_frame_trans[of "{OpCancel}" db db1 db2] unfolding cancels_settled_def by blast
qed

lemma settle_cancels_effect:
  assumes "settle_cancels ts aid state oids db = Inr db'"
    and "\<And>oid. oid \<in> set oids \<Longrightarrow> of_cancel aid (tget (v_operations db) oid)"
  shows "cancels_settled aid oids db db'"
  using assms
proof (induction oids arbitrary: db)
  case (Cons oid oids)
  obtain r where r: "tget (v_operations db) oid = Some r" "kind_of r = OpCancel" "op_attempt r = Some aid"
    using Cons.prems(2)[of oid] by (auto simp: of_cancel_def)
  define r1 where "r1 = r\<lparr>od_snapshot := (od_snapshot r)\<lparr>o_status := OpSucceeded, o_updated_at := ts,
    o_result := Some [(''attempt_id'', JStr aid), (''final_state'', JStr (vattempt_state_name state))]\<rparr>\<rparr>"
  have r1: "kind_of r1 = OpCancel" "op_attempt r1 = Some aid" "o_status (od_snapshot r1) = OpSucceeded"
      "o_operation_id (od_snapshot r1) = o_operation_id (od_snapshot r)"
    using r by (simp_all add: r1_def op_attempt_def)
  have "of_cancel aid (tget (v_operations (put_operation oid r1 db)) x)" if "x \<in> set oids" for x
    using that Cons.prems(2)[of x] r1 by (auto simp: put_operation_def of_cancel_def)
  moreover have "settle_cancels ts aid state oids (put_operation oid r1 db) = Inr db'" using Cons.prems(1) r(1) by (simp add: r1_def)
  ultimately have "cancels_settled aid oids (put_operation oid r1 db) db'" by (rule Cons.IH[rotated])
  from cancels_settled_append[OF cancels_settled_one[OF r r1] this] show ?case by simp
qed (simp add: cancels_settled_Nil)

section \<open>Transitions\<close>

lemma vallowed_live: "state \<in> set (vallowed x) \<Longrightarrow> \<not> ended_state x \<and> (ended_state state \<or> state = VRunning)"
  by (cases x) (auto simp: ended_state_def)

lemma attempt_after_same [simp]:
  "va_attempt_id (attempt_after ts st e res b a) = va_attempt_id a"
  "va_state (attempt_after ts st e res b a) = (if st = VRunning then if b then VCancelling else VRunning else st)"
  by (simp_all add: attempt_after_def)

lemma execute_operation_after_same [simp]:
  "o_operation (execute_operation_after ts st e b op) = o_operation op"
  "o_operation_id (execute_operation_after ts st e b op) = o_operation_id op"
  by (simp_all add: execute_operation_after_def)

text \<open>
  What a transition that returns did: the steering commands of an ended attempt were terminated, its
  cancels settled, and the new attempt, session, workspace and operation were written.
\<close>

lemma transition_effect:
  assumes "transition cfg ds aid state err result claim db = Inr db'"
  obtains r b db1 d s ro a db2 d1 s1 ro1 rows where "tget (v_attempts db) aid = Some r" "\<not> transition_refused r state err result claim"
    "tget (v_bindings db) aid = Some b" "owned_by (tget (v_runtimes db) (workspace_id (bd_target b))) (bd_target b)"
    "if ended_state state then terminate cfg ds aid db = Inr db1 else db1 = db"
    "get_workspace (workspace_id (bd_target b)) db1 = Some d" "tget (v_sessions db1) (session_id (bd_target b)) = Some s"
    "tget (v_operations db1) (ad_operation_id r) = Some ro"
    "if ended_state state then settle_cancels (d_now (ds 0)) aid state (case ad_cancel r of None \<Rightarrow> [] | Some c \<Rightarrow> cn_operation_ids c) db1 = Inr db2
     else db2 = db1"
    "ended_state state \<longrightarrow> aid \<in> set (actives d)"
    "a = attempt_after (d_now (ds 0)) state err result (ad_cancel r \<noteq> None) (ad_snapshot r)"
    "kind_of ro1 = kind_of ro" "o_operation_id (od_snapshot ro1) = o_operation_id (od_snapshot ro)"
    "ws_core d1 = ws_core d" "actives d1 = (if ended_state state then remove1 aid (actives d) else actives d)"
    "w_version (wd_snapshot d1) \<ge> w_version (wd_snapshot d)"
    "s_session_id (sd_snapshot s1) = s_session_id (sd_snapshot s)"
    "s_state (sd_snapshot s1) = (if ended_state state then SessIdle else s_state (sd_snapshot s))"
    "db' = put_operation (o_operation_id (od_snapshot ro1)) ro1 (put_workspace (workspace_id (bd_target b)) d1
         (put_session (session_id (bd_target b)) s1 (put_attempt aid (r\<lparr>ad_snapshot := a\<rparr>) (db2\<lparr>v_outbox := rows\<rparr>))))"
    "sd_history_sequence s1 = sd_history_sequence s"
proof -
  obtain r where r: "tget (v_attempts db) aid = Some r" "\<not> transition_refused r state err result claim"
    using assms by (cases "tget (v_attempts db) aid") (auto simp: transition_def split: if_split_asm)
  obtain b where b: "tget (v_bindings db) aid = Some b"
    using assms r by (cases "tget (v_bindings db) aid") (auto simp: transition_def)
  define wid sid where defs: "wid = workspace_id (bd_target b)" "sid = session_id (bd_target b)"
  have own: "owned_by (tget (v_runtimes db) wid) (bd_target b)" using assms r b by (auto simp: transition_def defs Let_def split: if_split_asm)
  obtain db1 where db1: "(if ended_state state then terminate cfg ds aid db else Inr db) = Inr db1"
    using assms r b own by (auto simp: transition_def Let_def sbind_eq_Inr defs)
  obtain d where d: "get_workspace wid db1 = Some d"
    using assms r b own db1 by (cases "get_workspace wid db1") (auto simp: transition_def Let_def defs)
  obtain s where s: "tget (v_sessions db1) sid = Some s"
    using assms r b own db1 d by (cases "tget (v_sessions db1) sid") (auto simp: transition_def Let_def defs)
  obtain ro where ro: "tget (v_operations db1) (ad_operation_id r) = Some ro"
    using assms r b own db1 d s by (cases "tget (v_operations db1) (ad_operation_id r)") (auto simp: transition_def Let_def defs)
  define a where "a = attempt_after (d_now (ds 0)) state err result (ad_cancel r \<noteq> None) (ad_snapshot r)"
  define ro1 where "ro1 = ro\<lparr>od_snapshot := execute_operation_after (d_now (ds 0)) state err b (od_snapshot ro)\<rparr>"
  define w where "w = wd_snapshot d"
  define d1 where "d1 = (if ended_state state then d\<lparr>wd_snapshot := w\<lparr>w_active_attempt_ids := remove1 aid (w_active_attempt_ids w),
      w_version := w_version w + 1, w_updated_at := (d_now (ds 0))\<rparr>\<rparr> else d)"
  define s1 where "s1 = s\<lparr>sd_snapshot := replace_attempt (d_now (ds 0)) a (if ended_state state then (sd_snapshot s)\<lparr>s_state := SessIdle\<rparr> else sd_snapshot s)\<rparr>"
  obtain db2 where db2: "(if ended_state state then settle_cancels (d_now (ds 0)) aid state (case ad_cancel r of None \<Rightarrow> [] | Some c \<Rightarrow> cn_operation_ids c) db1
      else Inr db1) = Inr db2"
    using assms r b own db1 d s ro by (auto simp: transition_def Let_def sbind_eq_Inr defs)
  have act: "ended_state state \<longrightarrow> aid \<in> set (actives d)"
    using assms r b own db1 d s ro db2 by (auto simp: transition_def Let_def sbind_eq_Inr defs split: if_split_asm)
  obtain rows where fin: "db' = put_operation (o_operation_id (od_snapshot ro1)) ro1 (put_workspace wid d1
         (put_session sid s1 (put_attempt aid (r\<lparr>ad_snapshot := a\<rparr>) (db2\<lparr>v_outbox := rows\<rparr>))))"
    using assms r b own db1 d s ro db2 act
    by (auto simp: transition_def Let_def sbind_eq_Inr defs a_def ro1_def d1_def s1_def w_def dest!: append_event_outbox split: if_split_asm)
  show ?thesis
    by (rule that[of r b db1 d s ro db2 a ro1 d1 s1 rows])
      (use r b own db1 d s ro db2 act fin in
        \<open>auto simp: defs a_def ro1_def d1_def s1_def w_def ws_core_def replace_attempt_def split: if_split_asm\<close>)
qed

lemma exec_frame_op_keys: "exec_frame db db' \<Longrightarrow> op_keys db \<Longrightarrow> op_keys db'"
  by (simp add: exec_frame_def)

text \<open>The part of a transition before its own writes: nothing of any attempt changes yet.\<close>

lemma transition_prelude:
  assumes inv: "attempt_inv db" and r: "tget (v_attempts db) aid = Some r"
    and t: "if ended_state state then terminate cfg ds aid db = Inr db1 else db1 = db"
    and c: "if ended_state state then settle_cancels ts aid state (case ad_cancel r of None \<Rightarrow> [] | Some c \<Rightarrow> cn_operation_ids c) db1 = Inr db2 else db2 = db1"
  shows "quiet db db1" "exec_frame db db1" "\<exists>x. db2 = db1\<lparr>v_operations := x\<rparr>" "ops_step (Some aid) db1 db2" "exec_frame db1 db2"
    "ops_frame {OpCancel} db1 db2"
    "ended_state state \<Longrightarrow> tget (v_steering db1) cid = Some st \<Longrightarrow> attempt_id (target (sc_command st)) = aid \<Longrightarrow> sc_status st \<noteq> StPending"
    "ended_state state \<Longrightarrow> ad_cancel r = Some cn \<Longrightarrow> oid \<in> set (cn_operation_ids cn) \<Longrightarrow>
       \<exists>x. tget (v_operations db2) oid = Some x \<and> kind_of x = OpCancel \<and> op_attempt x = Some aid \<and> o_status (od_snapshot x) = OpSucceeded"
proof -
  show q: "quiet db db1" "exec_frame db db1" using t terminate_effect(1,2)[OF inv] by (auto split: if_split_asm)
  show "ended_state state \<Longrightarrow> tget (v_steering db1) cid = Some st \<Longrightarrow> attempt_id (target (sc_command st)) = aid \<Longrightarrow> sc_status st \<noteq> StPending"
    using t terminate_effect(3)[OF inv] by auto
  have inv1: "attempt_inv db1" using attempt_inv_quiet[OF inv q(1)] .
  have r1: "tget (v_attempts db1) aid = Some r" using q(1) r by (simp add: quiet_def)
  have own: "of_cancel aid (tget (v_operations db1) oid)" if m: "oid \<in> set (case ad_cancel r of None \<Rightarrow> [] | Some c \<Rightarrow> cn_operation_ids c)" for oid
  proof -
    have "cancels_ok db1 aid r" using attempt_invD(1)[OF inv1 r1] by (simp add: attempt_ok_def)
    then show ?thesis using m by (auto simp: cancels_ok_def of_cancel_def split: option.splits)
  qed
  have s: "if ended_state state then cancels_settled aid (case ad_cancel r of None \<Rightarrow> [] | Some c \<Rightarrow> cn_operation_ids c) db1 db2 else db2 = db1"
  proof (cases "ended_state state")
    case True
    then have "settle_cancels ts aid state (case ad_cancel r of None \<Rightarrow> [] | Some c \<Rightarrow> cn_operation_ids c) db1 = Inr db2" using c by simp
    from settle_cancels_effect[OF this own] show ?thesis using True by simp
  qed (use c in simp)
  show step: "\<exists>x. db2 = db1\<lparr>v_operations := x\<rparr>" "ops_step (Some aid) db1 db2" "ops_frame {OpCancel} db1 db2"
    using s by (auto simp: cancels_settled_def ops_step_def ops_frame_def intro!: exI[of _ "v_operations db1"] split: if_split_asm)
  have "op_keys db1 \<Longrightarrow> op_keys db2" using s by (auto simp: cancels_settled_def split: if_split_asm)
  then show "exec_frame db1 db2" using step by (intro exec_frame_ops[OF step(3)]) auto
  show "\<exists>x. tget (v_operations db2) oid = Some x \<and> kind_of x = OpCancel \<and> op_attempt x = Some aid \<and> o_status (od_snapshot x) = OpSucceeded"
    if e: "ended_state state" "ad_cancel r = Some cn" "oid \<in> set (cn_operation_ids cn)"
  proof -
    obtain x where "tget (v_operations db1) oid = Some x" "kind_of x = OpCancel" "op_attempt x = Some aid"
      using own[of oid] e(2,3) by (auto simp: of_cancel_def)
    then show ?thesis using s e unfolding cancels_settled_def by fastforce
  qed
qed

lemma transition_inv:
  assumes inv: "attempt_inv db" and keys: "op_keys db" and run: "transition cfg ds aid state err result claim db = Inr db'"
  shows "attempt_inv db'" and "exec_frame db db'"
  and "v_bindings db' = v_bindings db" and "\<exists>r b a. tget (v_attempts db) aid = Some r \<and> tget (v_bindings db) aid = Some b
     \<and> v_attempts db' = tput aid (r\<lparr>ad_snapshot := a\<rparr>) (v_attempts db)
     \<and> a = attempt_after (d_now (ds 0)) state err result (ad_cancel r \<noteq> None) (ad_snapshot r)
     \<and> \<not> transition_refused r state err result claim"
proof -
  from run have "attempt_inv db' \<and> exec_frame db db' \<and> v_bindings db' = v_bindings db \<and> (\<exists>r b a. tget (v_attempts db) aid = Some r \<and> tget (v_bindings db) aid = Some b
     \<and> v_attempts db' = tput aid (r\<lparr>ad_snapshot := a\<rparr>) (v_attempts db)
     \<and> a = attempt_after (d_now (ds 0)) state err result (ad_cancel r \<noteq> None) (ad_snapshot r)
     \<and> \<not> transition_refused r state err result claim)"
  proof (cases rule: transition_effect)
    case e: (1 r b db1 d s ro a db2 d1 s1 ro1 rows)
    note pre = transition_prelude[OF inv e(1,5,9)]
    define r' where "r' = r\<lparr>ad_snapshot := a\<rparr>"
    have q: "v_attempts db1 = v_attempts db" "v_bindings db1 = v_bindings db" using pre(1) by (auto simp: quiet_def)
    have allowed: "state \<in> set (vallowed (va_state (ad_snapshot r)))" "state = VCancelled \<Longrightarrow> ad_cancel r \<noteq> None"
      using e(2) by (auto simp: transition_refused_def claim_wins_def split: option.splits)
    have st: "live r" "ended_state state \<or> state = VRunning" using vallowed_live[OF allowed(1)] by auto
    have live': "live r' \<longleftrightarrow> \<not> ended_state state" using st(2) by (auto simp: r'_def e(11) ended_state_def)
    have rt: "v_runtimes db1 = v_runtimes db" using pre(2) by (simp add: exec_frame_def)
    obtain ops where db2: "db2 = db1\<lparr>v_operations := ops\<rparr>" using pre(3) by blast
    have kro: "kind_of ro = OpExecute"
    proof -
      obtain r0 where "tget (v_operations db) (ad_operation_id r) = Some r0" "kind_of r0 = OpExecute"
        using attempt_invD(1)[OF inv e(1)] by (auto simp: attempt_ok_def)
      then show ?thesis using ops_step_kind[of None db db1] pre(1) e(8) by (fastforce simp: quiet_def)
    qed
    have oid: "o_operation_id (od_snapshot ro1) = ad_operation_id r"
      using exec_frame_op_keys[OF pre(2) keys] e(8,13) by (simp add: op_keys_def)
    have ro2: "tget (v_operations db2) (ad_operation_id r) = Some ro" using ops_frame_lookup[OF pre(6)] e(8) kro by simp
    have tabs: "v_attempts db' = tput aid r' (v_attempts db)" "v_bindings db' = v_bindings db" "v_runtimes db' = v_runtimes db"
        "v_operations db' = tput (ad_operation_id r) ro1 (v_operations db2)" "v_steering db' = v_steering db1"
        "v_sessions db' = tput (session_id (bd_target b)) s1 (v_sessions db1)"
        "v_workspaces db' = tput (workspace_id (bd_target b)) (Managed d1) (v_workspaces db1)"
      by (simp_all add: e(19) put_defs db2 q rt r'_def oid)
    have gw: "get_workspace k db' = (if k = workspace_id (bd_target b) then Some d1 else get_workspace k db1)" for k
      by (simp add: get_workspace_def tabs(7))
    have fin: "ops_step (Some aid) db2 db'" using ro2 kro e(12) by (auto simp: ops_step_def tabs(4))
    have ops: "ops_step (Some aid) db db'"
      using ops_step_trans[OF ops_step_trans[OF ops_step_mono pre(4)] fin] pre(1) by (simp add: quiet_def)
    have frame: "exec_frame db db'"
    proof -
      define db3 where "db3 = db2\<lparr>v_workspaces := v_workspaces db'\<rparr>"
      have "exec_frame db2 db3"
        by (rule exec_frame_workspace[where k = "workspace_id (bd_target b)" and d = d and d' = d1])
          (use e(6,14) in \<open>simp_all add: db3_def db2 tabs(7)\<close>)
      moreover have "exec_frame db3 db'"
        by (rule exec_frame_ops[where K = "{OpExecute}"])
          (use ro2 kro e(12) oid in \<open>auto simp: db3_def db2 tabs rt op_keys_def intro!: ops_frame_put\<close>)
      ultimately show ?thesis using exec_frame_trans pre(2,5) by blast
    qed
    have "touched aid r r' b db db'" unfolding touched_def
    proof (intro conjI allI impI)
      fix k dk assume g: "get_workspace k db = Some dk"
      then obtain dk1 where dk1: "get_workspace k db1 = Some dk1" "actives dk1 = actives dk" using pre(1) unfolding quiet_def by blast
      then show "\<exists>d'. get_workspace k db' = Some d' \<and> actives d' = (if k = workspace_id (bd_target b) \<and> \<not> live r' then remove1 aid (actives dk) else actives dk)"
        using e(6,15) live' by (auto simp: gw)
    next
      fix k d' assume "get_workspace k db' = Some d'"
      then have "get_workspace k db1 \<noteq> None" using e(6) by (auto simp: gw split: if_split_asm)
      then show "get_workspace k db \<noteq> None" using exec_frame_get(2)[OF pre(2)] by blast
    next
      fix sid x assume g: "tget (v_sessions db) sid = Some x"
      then obtain x1 where "tget (v_sessions db1) sid = Some x1" "s_state (sd_snapshot x1) = s_state (sd_snapshot x)"
        using pre(1) unfolding quiet_def by blast
      then show "\<exists>s'. tget (v_sessions db') sid = Some s' \<and> (s_state (sd_snapshot s') = s_state (sd_snapshot x)
          \<or> sid = session_id (bd_target b) \<and> live r \<and> \<not> live r')"
        using e(7,18) live' st by (auto simp: tabs(6))
    next
      assume "session_keys db"
      then have "session_keys db1" using pre(1) by (simp add: quiet_def)
      then show "session_keys db'" using e(7,17) by (auto simp: session_keys_def tabs(6))
    next
      fix cid c' assume g: "tget (v_steering db') cid = Some c'"
      then have g1: "tget (v_steering db1) cid = Some c'" by (simp add: tabs(5))
      then obtain c where "tget (v_steering db) cid = Some c" "sc_command c' = sc_command c" "sc_status c' = StPending \<longrightarrow> sc_status c = StPending"
        using pre(1) unfolding quiet_def by blast
      then show "\<exists>c. tget (v_steering db) cid = Some c \<and> sc_command c' = sc_command c
          \<and> (sc_status c' = StPending \<longrightarrow> sc_status c = StPending \<and> (attempt_id (target (sc_command c)) = aid \<longrightarrow> live r'))"
        using pre(7)[OF _ g1] live' by auto
    qed (use ops tabs in auto)
    moreover have "cancels_ok db' aid r'"
    proof (cases "ended_state state")
      case True
      have "\<exists>x. tget (v_operations db') oid = Some x \<and> kind_of x = OpCancel \<and> op_attempt x = Some aid \<and> o_status (od_snapshot x) = OpSucceeded"
        if m: "ad_cancel r = Some cn" "oid \<in> set (cn_operation_ids cn)" for cn oid
        using pre(8)[OF True m] kro ro2 by (auto simp: tabs(4))
      moreover have "va_state a = state" using True by (auto simp: e(11) ended_state_def)
      ultimately show ?thesis using True allowed(2) by (auto simp: cancels_ok_def r'_def ended_state_def split: option.splits)
    next
      case False
      then have run: "state = VRunning" using st(2) by simp
      have same: "db2 = db" using False e(5,9) by auto
      have ok: "cancels_ok db aid r" using attempt_invD(1)[OF inv e(1)] by (simp add: attempt_ok_def)
      have "\<exists>x. tget (v_operations db') oid = Some x \<and> kind_of x = OpCancel \<and> op_attempt x = Some aid \<and> o_status (od_snapshot x) = OpPending"
        if m: "ad_cancel r = Some cn" "oid \<in> set (cn_operation_ids cn)" for cn oid
      proof -
        obtain x where "tget (v_operations db) oid = Some x" "kind_of x = OpCancel" "op_attempt x = Some aid" "o_status (od_snapshot x) = OpPending"
          using ok m st(1) by (auto simp: cancels_ok_def)
        then show ?thesis using kro ro2 by (auto simp: tabs(4) same)
      qed
      moreover have "va_state a = (if ad_cancel r \<noteq> None then VCancelling else VRunning)" by (simp add: e(11) run)
      ultimately show ?thesis by (auto simp: cancels_ok_def r'_def ended_state_def split: option.splits)
    qed
    moreover have "va_attempt_id (ad_snapshot r') = aid" using attempt_invD(1)[OF inv e(1)] by (simp add: r'_def e(11) attempt_ok_def)
    ultimately have "attempt_inv db'" using st(1) by (intro attempt_inv_touched[OF inv e(1,3)]) (auto simp: r'_def)
    then show ?thesis using frame e(1,2,3,11) tabs(1,2) unfolding r'_def by blast
  qed
  then show "attempt_inv db'" "exec_frame db db'" "v_bindings db' = v_bindings db" "\<exists>r b a. tget (v_attempts db) aid = Some r \<and> tget (v_bindings db) aid = Some b
     \<and> v_attempts db' = tput aid (r\<lparr>ad_snapshot := a\<rparr>) (v_attempts db)
     \<and> a = attempt_after (d_now (ds 0)) state err result (ad_cancel r \<noteq> None) (ad_snapshot r)
     \<and> \<not> transition_refused r state err result claim" by blast+
qed

section \<open>Progress\<close>

text \<open>A new version of an attempt in the same state, with its session's records.\<close>

lemma attempt_rewrite_inv:
  assumes inv: "attempt_inv db" and r: "tget (v_attempts db) aid = Some r" "tget (v_bindings db) aid = Some b"
    and r': "va_state (ad_snapshot r') = va_state (ad_snapshot r)" "va_attempt_id (ad_snapshot r') = va_attempt_id (ad_snapshot r)"
      "ad_operation_id r' = ad_operation_id r" "ad_cancel r' = ad_cancel r"
    and tabs: "v_attempts db' = tput aid r' (v_attempts db)" "v_bindings db' = v_bindings db" "v_runtimes db' = v_runtimes db"
      "v_operations db' = v_operations db" "v_steering db' = v_steering db" "v_workspaces db' = v_workspaces db"
    and ses: "v_sessions db' = v_sessions db \<or> (\<exists>s s'. tget (v_sessions db) sid = Some s \<and> v_sessions db' = tput sid s' (v_sessions db)
        \<and> s_state (sd_snapshot s') = s_state (sd_snapshot s) \<and> s_session_id (sd_snapshot s') = s_session_id (sd_snapshot s))"
  shows "attempt_inv db'" "exec_frame db db'"
proof -
  show "exec_frame db db'" using tabs by (intro exec_frame_same) auto
  have ok: "attempt_ok db aid r" using attempt_invD(1)[OF inv r(1)] .
  then obtain d where d: "get_workspace (workspace_id (bd_target b)) db = Some d" "aid \<in> set (actives d) \<longleftrightarrow> live r"
    using r(2) by (auto simp: attempt_ok_def placed_def)
  have gw: "get_workspace k db' = get_workspace k db" for k by (simp add: get_workspace_def tabs(6))
  have keys: "session_keys db'" using ses attempt_invD(4)[OF inv] by (auto simp: session_keys_def split: if_split_asm)
  have sess: "\<exists>s'. tget (v_sessions db') x = Some s' \<and> (s_state (sd_snapshot s') = s_state (sd_snapshot s)
      \<or> x = session_id (bd_target b) \<and> live r \<and> \<not> live r')" if "tget (v_sessions db) x = Some s" for x s
    using ses that by auto
  have steer: "attempt_id (target (sc_command c)) = aid \<longrightarrow> live r'" if "tget (v_steering db) cid = Some c" "sc_status c = StPending" for cid c
    using attempt_invD(5)[OF inv that(1)] that(2) r(1) r'(1) by (auto simp: steering_ok_def)
  have act: "remove1 aid (actives dk) = actives dk" if "get_workspace (workspace_id (bd_target b)) db = Some dk" "\<not> live r'" for dk
    using that d r'(1) by (simp add: remove1_idem)
  have "touched aid r r' b db db'" unfolding touched_def
    by (intro conjI allI impI) (use keys sess steer act in \<open>auto simp: tabs gw ops_step_def\<close>)
  moreover have "cancels_ok db' aid r'"
    using ok r'(1,4) by (subst cancels_ok_same[OF tabs(4)]) (auto simp: attempt_ok_def cancels_ok_def split: option.splits)
  ultimately show "attempt_inv db'" using ok r' by (intro attempt_inv_touched[OF inv r]) (auto simp: attempt_ok_def)
qed

lemma progress_inv:
  assumes inv: "attempt_inv db" and run: "vcp_progress cfg dr aid p db = Inr db'"
  shows "attempt_inv db'" "exec_frame db db'" "v_bindings db' = v_bindings db"
    "\<exists>r r'. tget (v_attempts db) aid = Some r \<and> v_attempts db' = tput aid r' (v_attempts db) \<and> va_state (ad_snapshot r') = va_state (ad_snapshot r)
       \<and> ad_cancel r' = ad_cancel r \<and> ad_attempt_sequence r' = ad_attempt_sequence r"
proof -
  obtain r where r: "tget (v_attempts db) aid = Some r"
    using run by (cases "tget (v_attempts db) aid") (auto simp: vcp_progress_def)
  obtain b where b: "tget (v_bindings db) aid = Some b"
    using run r by (cases "tget (v_bindings db) aid") (auto simp: vcp_progress_def split: if_split_asm)
  obtain s where s: "tget (v_sessions db) (session_id (bd_target b)) = Some s"
    using run r b by (cases "tget (v_sessions db) (session_id (bd_target b))") (auto simp: vcp_progress_def Let_def split: if_split_asm)
  obtain r1 s1 ev db1 where eff: "progress_effect dr aid p r b s db = Inr (r1, s1, ev, db1)"
    using run r b s by (auto simp: vcp_progress_def Let_def sbind_eq_Inr split: if_split_asm)
  obtain db2 where fin: "db' = put_session (session_id (bd_target b))
      (s1\<lparr>sd_snapshot := replace_attempt (d_now dr) (ad_snapshot r1) (sd_snapshot s1)\<rparr>) (put_attempt aid r1 db2)"
      and out: "\<exists>rows. db2 = db1\<lparr>v_outbox := rows\<rparr>"
    using run r b s eff
    by (cases ev) (auto simp: vcp_progress_def Let_def sbind_eq_Inr dest!: append_event_outbox split: if_split_asm option.split_asm)
  have r1: "va_state (ad_snapshot r1) = va_state (ad_snapshot r)" "va_attempt_id (ad_snapshot r1) = va_attempt_id (ad_snapshot r)"
      "ad_operation_id r1 = ad_operation_id r" "ad_cancel r1 = ad_cancel r" "ad_attempt_sequence r1 = ad_attempt_sequence r"
      "sd_snapshot s1 = sd_snapshot s"
    using eff by (auto simp: progress_effect_def sbind_eq_Inr split: progress.splits if_split_asm)
  obtain h t where db1: "db1 = db \<or> db1 = db\<lparr>v_sessions := t, v_history := h\<rparr> \<and> (\<exists>x. t = tput (session_id (bd_target b)) x (v_sessions db))"
    using eff by (auto simp: progress_effect_def sbind_eq_Inr elim!: append_history_effect split: progress.splits if_split_asm)
  have ts: "v_sessions db' = tput (session_id (bd_target b)) (s1\<lparr>sd_snapshot := replace_attempt (d_now dr) (ad_snapshot r1) (sd_snapshot s1)\<rparr>) (v_sessions db)"
    using out db1 by (auto simp: fin put_defs)
  have tabs: "v_attempts db' = tput aid r1 (v_attempts db)" "v_bindings db' = v_bindings db" "v_runtimes db' = v_runtimes db"
      "v_operations db' = v_operations db" "v_steering db' = v_steering db" "v_workspaces db' = v_workspaces db"
    using out db1 by (auto simp: fin put_defs)
  have "v_sessions db' = v_sessions db \<or> (\<exists>s s'. tget (v_sessions db) (session_id (bd_target b)) = Some s
      \<and> v_sessions db' = tput (session_id (bd_target b)) s' (v_sessions db)
      \<and> s_state (sd_snapshot s') = s_state (sd_snapshot s) \<and> s_session_id (sd_snapshot s') = s_session_id (sd_snapshot s))"
    by (intro disjI2 exI[of _ s] exI[of _ "s1\<lparr>sd_snapshot := replace_attempt (d_now dr) (ad_snapshot r1) (sd_snapshot s1)\<rparr>"])
      (use s ts r1(6) in \<open>simp add: replace_attempt_def\<close>)
  note both = attempt_rewrite_inv[OF inv r b r1(1-4) tabs this]
  show "attempt_inv db'" "exec_frame db db'" by (fact both)+
  show "v_bindings db' = v_bindings db" by (fact tabs(2))
  have "v_attempts db' = tput aid r1 (v_attempts db)" by (fact tabs(1))
  then show "\<exists>r r'. tget (v_attempts db) aid = Some r \<and> v_attempts db' = tput aid r' (v_attempts db) \<and> va_state (ad_snapshot r') = va_state (ad_snapshot r)
       \<and> ad_cancel r' = ad_cancel r \<and> ad_attempt_sequence r' = ad_attempt_sequence r" using r r1 by blast
qed

end
