(* ===== verification/Vcp_Invariant.thy ===== *)
theory Vcp_Invariant
  imports Vcp_Projection_Inv
begin

text \<open>
  Both invariants hold in every reachable state of the virtual control plane. A step of the
  execution half moves attempts forward along their state machine and keeps the invariants;
  a step of the lifecycle half leaves attempts alone.
\<close>

section \<open>Attempts move forward\<close>

inductive vmove :: "vattempt_state \<Rightarrow> vattempt_state \<Rightarrow> bool" where
  "vmove VStarting VRunning"
| "vmove VStarting VFailed"
| "vmove VStarting VCancelling"
| "vmove VRunning VCompleted"
| "vmove VRunning VFailed"
| "vmove VRunning VCancelling"
| "vmove VCancelling VCompleted"
| "vmove VCancelling VFailed"
| "vmove VCancelling VCancelled"

inductive_simps vmove_simps [simp]: "vmove x y"

abbreviation vmoves :: "vattempt_state \<Rightarrow> vattempt_state \<Rightarrow> bool" where
  "vmoves \<equiv> vmove\<^sup>*\<^sup>*"

definition cancel_kept :: "attempt_doc \<Rightarrow> attempt_doc \<Rightarrow> bool" where
  "cancel_kept a a' \<longleftrightarrow> (\<forall>c. ad_cancel a = Some c \<longrightarrow> (\<exists>c'. ad_cancel a' = Some c' \<and> cn_command_id c' = cn_command_id c
     \<and> cn_cause c' = cn_cause c \<and> set (cn_operation_ids c) \<subseteq> set (cn_operation_ids c')))"

definition forward :: "attempt_doc \<Rightarrow> attempt_doc \<Rightarrow> bool" where
  "forward a a' \<longleftrightarrow> vmoves (va_state (ad_snapshot a)) (va_state (ad_snapshot a')) \<and> cancel_kept a a'
     \<and> (\<not> live a \<longrightarrow> ad_snapshot a' = ad_snapshot a)"

definition attempts_forward :: "vcp_db \<Rightarrow> vcp_db \<Rightarrow> bool" where
  "attempts_forward db db' \<longleftrightarrow> (\<forall>x a. tget (v_attempts db) x = Some a \<longrightarrow> (\<exists>a'. tget (v_attempts db') x = Some a' \<and> forward a a'))"

lemma forward_refl [simp]: "forward a a"
  by (auto simp: forward_def cancel_kept_def)

lemma forward_trans:
  assumes "forward a b" and "forward b c"
  shows "forward a c"
proof -
  have "vmoves (va_state (ad_snapshot a)) (va_state (ad_snapshot c))"
    using assms by (meson forward_def rtranclp_trans)
  moreover have "cancel_kept a c"
    unfolding cancel_kept_def
  proof (intro allI impI)
    fix x assume "ad_cancel a = Some x"
    then obtain y where y: "ad_cancel b = Some y" "cn_command_id y = cn_command_id x" "cn_cause y = cn_cause x"
        "set (cn_operation_ids x) \<subseteq> set (cn_operation_ids y)" using assms(1) by (auto simp: forward_def cancel_kept_def)
    then obtain z where "ad_cancel c = Some z" "cn_command_id z = cn_command_id y" "cn_cause z = cn_cause y"
        "set (cn_operation_ids y) \<subseteq> set (cn_operation_ids z)" using assms(2) by (auto simp: forward_def cancel_kept_def)
    with y show "\<exists>c'. ad_cancel c = Some c' \<and> cn_command_id c' = cn_command_id x \<and> cn_cause c' = cn_cause x
        \<and> set (cn_operation_ids x) \<subseteq> set (cn_operation_ids c')" by auto
  qed
  moreover have "ad_snapshot c = ad_snapshot a" if "\<not> live a"
    using assms that by (simp add: forward_def)
  ultimately show ?thesis by (simp add: forward_def)
qed

lemma attempts_forward_same: "v_attempts db' = v_attempts db \<Longrightarrow> attempts_forward db db'"
  by (auto simp: attempts_forward_def)

lemma attempts_forward_trans:
  assumes "attempts_forward db db1" and "attempts_forward db1 db2"
  shows "attempts_forward db db2"
  using assms forward_trans unfolding attempts_forward_def by metis

lemma attempts_forward_put:
  "tget (v_attempts db) aid = Some a \<Longrightarrow> v_attempts db' = tput aid a' (v_attempts db) \<Longrightarrow> forward a a' \<Longrightarrow> attempts_forward db db'"
  by (auto simp: attempts_forward_def)

section \<open>Steps of the execution half\<close>

text \<open>A step that changes attempts in place.\<close>

definition exec_step :: "vcp_db \<Rightarrow> vcp_db \<Rightarrow> bool" where
  "exec_step db db' \<longleftrightarrow> attempt_inv db' \<and> exec_frame db db' \<and> v_bindings db' = v_bindings db \<and> attempts_forward db db'
     \<and> (\<forall>x. tget (v_attempts db) x = None \<longrightarrow> tget (v_attempts db') x = None)"

definition db_inv :: "vcp_db \<Rightarrow> bool" where
  "db_inv db \<longleftrightarrow> lifecycle_inv db \<and> attempt_inv db"

lemma exec_step_trans: "exec_step db db1 \<Longrightarrow> exec_step db1 db2 \<Longrightarrow> exec_step db db2"
  unfolding exec_step_def using exec_frame_trans attempts_forward_trans by fastforce

lemma exec_step_actives:
  assumes inv: "attempt_inv db" and s: "exec_step db db'" and g: "get_workspace k db' = Some d'" and x: "x \<in> set (actives d')"
  shows "\<exists>d. get_workspace k db = Some d \<and> x \<in> set (actives d) \<and> ws_core d' = ws_core d"
proof -
  have inv': "attempt_inv db'" and same: "v_bindings db' = v_bindings db" and frame: "exec_frame db db'" using s by (auto simp: exec_step_def)
  obtain d where d: "get_workspace k db = Some d" "ws_core d' = ws_core d" using exec_frame_get(2)[OF frame g] by blast
  obtain a' b where a': "tget (v_attempts db') x = Some a'" "tget (v_bindings db') x = Some b" "workspace_id (bd_target b) = k"
    using attempt_invD(2)[OF inv' g] x by (auto simp: actives_ok_def)
  have "live a'" using attempt_invD(1)[OF inv' a'(1)] a'(2,3) g x by (auto simp: attempt_ok_def placed_def)
  obtain a where a: "tget (v_attempts db) x = Some a" using s a'(1) by (cases "tget (v_attempts db) x") (auto simp: exec_step_def)
  have "forward a a'" using s a a'(1) unfolding exec_step_def attempts_forward_def by fastforce
  then have "live a" using \<open>live a'\<close> by (auto simp: forward_def)
  then have "x \<in> set (actives d)" using attempt_invD(1)[OF inv a] a'(2,3) same d(1) by (auto simp: attempt_ok_def placed_def)
  then show ?thesis using d by blast
qed

lemma exec_step_inv:
  assumes "db_inv db" and "exec_step db db'"
  shows "db_inv db'"
proof -
  have inv: "lifecycle_inv db" "attempt_inv db" using assms(1) by (auto simp: db_inv_def)
  have "w_state (wd_snapshot d') = WReady" if g: "get_workspace k db' = Some d'" and ne: "actives d' \<noteq> []" for k d'
  proof -
    obtain x where x: "x \<in> set (actives d')" using ne by (cases "actives d'") auto
    obtain d where d: "get_workspace k db = Some d" "x \<in> set (actives d)" "ws_core d' = ws_core d"
      using exec_step_actives[OF inv(2) assms(2) g x] by blast
    then have "w_state (wd_snapshot d) = WReady" using lifecycle_invD(4)[OF inv(1) d(1)] by (auto simp: workspace_ok_def)
    then show ?thesis using ws_coreD(4)[OF d(3)] by simp
  qed
  then have "lifecycle_inv db'" using lifecycle_inv_exec_frame[OF inv(1)] assms(2) by (auto simp: exec_step_def)
  then show ?thesis using assms(2) by (simp add: db_inv_def exec_step_def)
qed

text \<open>Tables the invariants do not read.\<close>

lemma exec_step_other:
  assumes "attempt_inv db" and "v_attempts db' = v_attempts db" "v_bindings db' = v_bindings db" "v_operations db' = v_operations db"
    "v_runtimes db' = v_runtimes db" "v_workspaces db' = v_workspaces db" "v_steering db' = v_steering db" "v_sessions db' = v_sessions db"
  shows "exec_step db db'"
proof -
  have "quiet db db'" using assms by (auto simp: quiet_def ops_step_def get_workspace_def session_keys_def)
  then show ?thesis
    using assms attempt_inv_quiet exec_frame_same by (auto simp: exec_step_def intro!: attempts_forward_same)
qed

lemma project_step:
  assumes "attempt_inv db" and "project cfg ds cid outcome claimed db = Inr (known, db')"
  shows "exec_step db db'"
  using project_quiet[OF assms] attempt_inv_quiet[OF assms(1)]
  by (auto simp: exec_step_def quiet_def intro!: attempts_forward_same)

lemma transition_forward:
  assumes ok: "cancels_ok db aid r" and t: "\<not> transition_refused r state err result claim"
    and a: "a = attempt_after ts state err result (ad_cancel r \<noteq> None) (ad_snapshot r)"
  shows "forward r (r\<lparr>ad_snapshot := a\<rparr>)"
proof -
  have al: "state \<in> set (vallowed (va_state (ad_snapshot r)))" using t by (auto simp: transition_refused_def)
  have "va_state (ad_snapshot r) = va_state a \<or> vmove (va_state (ad_snapshot r)) (va_state a)"
    using al ok by (cases "va_state (ad_snapshot r)") (auto simp: a cancels_ok_def split: option.splits)
  then have "vmoves (va_state (ad_snapshot r)) (va_state a)" by auto
  then show ?thesis using vallowed_live[OF al] by (auto simp: forward_def cancel_kept_def)
qed

lemma transition_step:
  assumes inv: "attempt_inv db" and keys: "op_keys db" and run: "transition cfg ds aid state err result claim db = Inr db'"
  shows "exec_step db db'"
proof -
  note t = transition_inv[OF inv keys run]
  obtain r b a where r: "tget (v_attempts db) aid = Some r" "v_attempts db' = tput aid (r\<lparr>ad_snapshot := a\<rparr>) (v_attempts db)"
      "a = attempt_after (d_now (ds 0)) state err result (ad_cancel r \<noteq> None) (ad_snapshot r)" "\<not> transition_refused r state err result claim"
    using t(4) by blast
  have "cancels_ok db aid r" using attempt_invD(1)[OF inv r(1)] by (simp add: attempt_ok_def)
  from attempts_forward_put[OF r(1,2) transition_forward[OF this r(4,3)]] have "attempts_forward db db'" .
  then show ?thesis using t r(1,2) by (auto simp: exec_step_def)
qed

lemma exec_step_keys: "exec_step db db' \<Longrightarrow> op_keys db \<Longrightarrow> op_keys db'"
  by (simp add: exec_step_def exec_frame_def)

lemma exec_step_refl: "attempt_inv db \<Longrightarrow> exec_step db db"
  by (rule exec_step_other) auto

lemma progress_step:
  assumes inv: "attempt_inv db" and run: "vcp_progress cfg dr aid p db = Inr db'"
  shows "exec_step db db'"
proof -
  note t = progress_inv[OF inv run]
  obtain r r' where r: "tget (v_attempts db) aid = Some r" "v_attempts db' = tput aid r' (v_attempts db)"
      "va_state (ad_snapshot r') = va_state (ad_snapshot r)" "ad_cancel r' = ad_cancel r" using t(4) by blast
  have "live r" using run r(1) by (auto simp: vcp_progress_def ended_state_def split: if_split_asm)
  then have "forward r r'" using r(3,4) by (auto simp: forward_def cancel_kept_def)
  from attempts_forward_put[OF r(1,2) this] show ?thesis using t r(1,2) by (auto simp: exec_step_def)
qed

lemma project_body_step:
  assumes inv: "attempt_inv db" and keys: "op_keys db" and run: "project_body cfg ds u t kinds db = Inr db'"
  shows "exec_step db db'"
  using run unfolding project_body_def Let_def
  by (auto split: update_body.split_asm if_split_asm simp: steering_result_def sbind_eq_Inr
      intro: transition_step[OF inv keys] progress_step[OF inv] project_step[OF inv])

lemma project_update_step:
  assumes inv: "attempt_inv db" and keys: "op_keys db" and run: "project_update cfg ds u kinds db = Inr db'"
  shows "exec_step db db'"
proof -
  obtain t where t: "u_target u = AttemptTarget t" using run by (cases "u_target u") (auto simp: project_update_def)
  obtain r n where r: "tget (v_attempts db) (attempt_id t) = Some r"
    using run t by (cases "tget (v_attempts db) (attempt_id t)") (auto simp: project_update_def Let_def split: if_split_asm)
  obtain db1 where db1: "project_body cfg ds u t kinds db = Inr db1"
      and fin: "\<exists>r1. tget (v_attempts db1) (attempt_id t) = Some r1
        \<and> db' = put_attempt (attempt_id t) (r1\<lparr>ad_attempt_sequence := ad_attempt_sequence r + 1\<rparr>) db1"
    using run t r by (auto simp: project_update_def Let_def sbind_eq_Inr catch_transition_def split: if_split_asm sum.split_asm vcp_exn.split_asm option.split_asm)
  have s1: "exec_step db db1" using project_body_step[OF inv keys db1] .
  then have inv1: "attempt_inv db1" by (simp add: exec_step_def)
  obtain r1 where r1: "tget (v_attempts db1) (attempt_id t) = Some r1"
      and db': "db' = put_attempt (attempt_id t) (r1\<lparr>ad_attempt_sequence := ad_attempt_sequence r + 1\<rparr>) db1" using fin by blast
  obtain b where b: "tget (v_bindings db1) (attempt_id t) = Some b" using attempt_invD(1)[OF inv1 r1] by (auto simp: attempt_ok_def)
  have rw: "attempt_inv db'" "exec_frame db1 db'"
    by (rule attempt_rewrite_inv[OF inv1 r1 b, where r' = "r1\<lparr>ad_attempt_sequence := ad_attempt_sequence r + 1\<rparr>"]; simp add: db' put_attempt_def)+
  have "attempts_forward db1 db'"
    by (rule attempts_forward_put[OF r1, where a' = "r1\<lparr>ad_attempt_sequence := ad_attempt_sequence r + 1\<rparr>"])
      (auto simp: db' put_attempt_def forward_def cancel_kept_def)
  then have "exec_step db1 db'" using rw r1 by (auto simp: exec_step_def db' put_attempt_def)
  then show ?thesis by (rule exec_step_trans[OF s1])
qed

lemma finish_update_step:
  assumes "attempt_inv db" and "finish_update cfg u st db = Inr db'"
  shows "exec_step db db'"
  using assms(2) by (intro exec_step_other[OF assms(1)])
    (auto simp: finish_update_def Let_def record_runtime_update_def put_status_def split: if_split_asm option.split_asm)

text \<open>A committed update is a duplicate of one on record, or the next one of its runtime's stream.\<close>

lemma commit_update_cases:
  assumes "commit_update cfg ds u db = Inr (x, db')"
  obtains (duplicate) "runtime_update (runtime_id (claimed_target u)) (u_event_id u) db = Some (vc_digest cfg u)" "db' = db"
  | (applied) "runtime_update (runtime_id (claimed_target u)) (u_event_id u) db = None"
      "\<not> rs_quarantined (status_of (runtime_id (claimed_target u)) db)"
      "u_sequence u = rs_sequence (status_of (runtime_id (claimed_target u)) db) + 1"
      "apply_update cfg ds u (status_of (runtime_id (claimed_target u)) db) db = Inr db'"
proof (cases "runtime_update (runtime_id (claimed_target u)) (u_event_id u) db")
  case None
  then have "order_update cfg ds u (status_of (runtime_id (claimed_target u)) db) db = Inr db'"
    using assms by (auto simp: commit_update_def Let_def sbind_eq_Inr split: if_split_asm option.split_asm)
  then show ?thesis using None by (intro applied) (auto simp: order_update_def Let_def split: if_split_asm)
next
  case (Some previous)
  then have "previous = vc_digest cfg u \<and> db' = db"
    using assms unfolding commit_update_def Let_def Some
    by (simp split: if_split_asm option.split_asm)
  with Some show ?thesis by (intro duplicate) auto
qed

lemma commit_update_step:
  assumes inv: "attempt_inv db" and keys: "op_keys db" and run: "commit_update cfg ds u db = Inr (x, db')"
  shows "exec_step db db'"
proof -
  have app: "exec_step db db1" if ap: "apply_update cfg ds u st db = Inr db1" for st db1
  proof (cases "is_ready (u_body u)")
    case True
    then obtain p where p: "u_body u = Ready p" by (cases "u_body u") auto
    show ?thesis using ap p finish_update_step[OF inv] by (auto simp: apply_update_def split: if_split_asm)
  next
    case False
    then obtain db2 where db2: "project_update cfg ds u (rs_progress_kinds st) db = Inr db2" "finish_update cfg u st db2 = Inr db1"
      using ap by (cases "u_body u") (auto simp: apply_update_def sbind_eq_Inr split: if_split_asm)
    have s: "exec_step db db2" using project_update_step[OF inv keys db2(1)] .
    then have "exec_step db2 db1" using finish_update_step[OF _ db2(2)] by (simp add: exec_step_def)
    then show ?thesis by (rule exec_step_trans[OF s])
  qed
  from run show ?thesis
    by (cases rule: commit_update_cases) (use app exec_step_refl[OF inv] in auto)
qed

lemma quarantine_step:
  assumes "attempt_inv db"
  shows "exec_step db (quarantine u code db)"
  by (rule exec_step_other[OF assms]) (auto simp: quarantine_def put_status_def Let_def split: option.splits)

lemma receive_step:
  assumes inv: "attempt_inv db" and keys: "op_keys db" and run: "receive cfg ds subject u db = (r, db')"
  shows "exec_step db db'"
  using run inv keys by (auto simp: receive_def run_tx_def split: if_split_asm sum.split_asm prod.split_asm vcp_exn.split_asm
      intro: commit_update_step exec_step_refl quarantine_step)

lemma settle_command_step:
  assumes "attempt_inv db" and "settle_runtime_command cid st a db = Inr (x, db')"
  shows "exec_step db db'"
  using assms(2) by (intro exec_step_other[OF assms(1)])
    (auto simp: settle_runtime_command_def split: if_split_asm option.split_asm)

lemma deliver_settle_step:
  assumes inv: "attempt_inv db" and keys: "op_keys db" and run: "deliver_settle cfg ds m a db = Inr (x, db')"
  shows "exec_step db db'"
proof -
  obtain st db1 where d1: "(case blocked_execute m a of None \<Rightarrow> Inr (if ack_status a = Accepted then DAcknowledged else DBlocked, db)
      | Some e \<Rightarrow> (case transition cfg ds (attempt_id (target m)) VFailed (Some e) None None db of
           Inl InvalidTransition \<Rightarrow> Inr (DBlocked, db) | Inl x \<Rightarrow> Inl x | Inr db1 \<Rightarrow> Inr (DRejected, db1))) = Inr (st, db1)"
    and r1: "sbind (case (st, body m) of
                   (DBlocked, Steer _ _) \<Rightarrow> sbind (project cfg ds (command_id m) (Failed_with None) None db1) (\<lambda>(_, db2). Inr (DRejected, db2))
                 | _ \<Rightarrow> Inr (st, db1)) (\<lambda>(st2, db2). settle_runtime_command (command_id m) st2 a db2) = Inr (x, db')"
    using run by (auto simp: deliver_settle_def sbind_eq_Inr)
  have s1: "exec_step db db1"
    using d1 transition_step[OF inv keys] exec_step_refl[OF inv]
    by (auto split: option.split_asm sum.split_asm vcp_exn.split_asm)
  then have inv1: "attempt_inv db1" by (simp add: exec_step_def)
  obtain st2 db2 where d2: "(case (st, body m) of
                   (DBlocked, Steer _ _) \<Rightarrow> sbind (project cfg ds (command_id m) (Failed_with None) None db1) (\<lambda>(_, db2). Inr (DRejected, db2))
                 | _ \<Rightarrow> Inr (st, db1)) = Inr (st2, db2)" and r2: "settle_runtime_command (command_id m) st2 a db2 = Inr (x, db')"
    using r1 by (auto simp: sbind_eq_Inr)
  have s2: "exec_step db1 db2"
    using d2 project_step[OF inv1] exec_step_refl[OF inv1]
    by (auto simp: sbind_eq_Inr split: delivery.split_asm command_body.split_asm)
  then have "exec_step db2 db'" using settle_command_step[OF _ r2] by (simp add: exec_step_def)
  then show ?thesis using exec_step_trans[OF exec_step_trans[OF s1 s2]] by simp
qed

lemma deliver_step:
  assumes inv: "attempt_inv db" and keys: "op_keys db" and run: "deliver cfg ds subject m sch a db = (r, db')"
  shows "exec_step db db'"
  using run inv keys by (auto simp: deliver_def run_tx_def split: if_split_asm sum.split_asm prod.split_asm
      intro: deliver_settle_step exec_step_refl)

section \<open>Steps of the lifecycle half\<close>

lemma life_quiet:
  assumes same: "v_attempts db' = v_attempts db" "v_bindings db' = v_bindings db" "v_sessions db' = v_sessions db" "v_steering db' = v_steering db"
    and gw: "\<And>k'. get_workspace k' db' = (if k' = k then Some d' else get_workspace k' db)"
    and act: "actives d' = (case get_workspace k db of None \<Rightarrow> [] | Some d \<Rightarrow> actives d)"
    and go: "\<And>o'. tget (v_operations db') o' = (if o' = oid then Some r' else tget (v_operations db) o')"
    and old: "\<And>r. tget (v_operations db) oid = Some r \<Longrightarrow> kind_of r' = kind_of r \<and> kind_of r \<noteq> OpCancel"
    and gr: "\<And>k'. k' \<noteq> k \<Longrightarrow> tget (v_runtimes db') k' = tget (v_runtimes db) k'"
    and own: "\<And>d t. get_workspace k db = Some d \<Longrightarrow> actives d \<noteq> [] \<Longrightarrow> owned_by (tget (v_runtimes db) k) t \<Longrightarrow> owned_by (tget (v_runtimes db') k) t"
  shows "quiet db db'"
  unfolding quiet_def
proof (intro conjI allI impI)
  show "ops_step None db db'" using go old by (auto simp: ops_step_def)
next
  fix k' d assume "get_workspace k' db = Some d"
  then show "\<exists>d'. get_workspace k' db' = Some d' \<and> actives d' = actives d" using act by (auto simp: gw)
next
  fix k' x assume "get_workspace k' db' = Some x" "get_workspace k' db = None"
  then show "actives x = []" using act by (auto simp: gw split: if_split_asm)
next
  fix k' d t assume "get_workspace k' db = Some d" "actives d \<noteq> []" "owned_by (tget (v_runtimes db) k') t"
  then show "owned_by (tget (v_runtimes db') k') t" using own gr by (cases "k' = k") auto
qed (use same in \<open>auto simp: session_keys_def\<close>)

lemma apply_new_quiet:
  assumes fresh: "fresh_draws db ds" and run: "apply_new cfg ds rq doc db = Inr (r, db')"
  shows "quiet db db'"
proof -
  have f: "get_workspace (identity ''ws_'' (d_uuid (ds 0))) db = None" "tget (v_operations db) (identity ''op_'' (d_uuid (ds 3))) = None"
    using fresh_drawsD[OF fresh, of 0] fresh_drawsD[OF fresh, of 3] fresh_workspace by (auto simp: fresh_uuid_def)
  obtain rows where db': "db' = (put_runtime (identity ''ws_'' (d_uuid (ds 0)))
      \<lparr>rd_runtime_id = identity ''rt_'' (d_uuid (ds 1)), rd_generation = 1, rd_provider = jstr (jget (spec_of doc) ''provider''), rd_locator = None\<rparr>
      (put_operation (identity ''op_'' (d_uuid (ds 3)))
        (operation_record (new_operation (ds 3) rq OpApply (identity ''ws_'' (d_uuid (ds 0))) (d_now (ds 2)) OpPending) (rq_causal_path rq))
        (put_workspace (identity ''ws_'' (d_uuid (ds 0)))
          \<lparr>wd_snapshot = new_workspace (identity ''ws_'' (d_uuid (ds 0))) (d_now (ds 2)) doc, wd_specification = doc,
           wd_operation_id = identity ''op_'' (d_uuid (ds 3)), wd_active_operation_id = Some (identity ''op_'' (d_uuid (ds 3)))\<rparr> db)))\<lparr>v_outbox := rows\<rparr>"
    using apply_new_effect[OF run] by blast
  show ?thesis
    by (rule life_quiet[where k = "identity ''ws_'' (d_uuid (ds 0))" and oid = "identity ''op_'' (d_uuid (ds 3))"])
      (use f in \<open>auto simp: db' put_defs new_workspace_def Let_def\<close>)
qed

lemma accept_apply_quiet: "fresh_draws db ds \<Longrightarrow> accept_apply cfg ds rq db = Inr (r, db') \<Longrightarrow> quiet db db'"
  by (auto simp: accept_apply_def Let_def split: vcp_payload.split_asm option.split_asm intro: apply_new_quiet)

lemma accept_ensure_quiet:
  assumes fresh: "fresh_draws db ds" and run: "accept_ensure cfg ds rq db = Inr (r, db')"
  shows "quiet db db'"
proof -
  define op where "op = new_operation (ds 1) rq OpEnsure (rq_workspace_id rq) (d_now (ds 0)) OpPending"
  obtain restore d where chk: "ensure_check cfg ds rq restore db = Inr d"
      and db': "db' = put_operation (o_operation_id op) (operation_record op (rq_causal_path rq))
        (put_workspace (rq_workspace_id rq) (d\<lparr>wd_active_operation_id := Some (o_operation_id op)\<rparr>) db)"
    using run by (auto simp: accept_ensure_def service_bind_eq_Inr Let_def op_def split: vcp_payload.splits)
  have f: "tget (v_operations db) (o_operation_id op) = None"
    using fresh_drawsD[OF fresh, of 1] by (simp add: op_def new_operation_def fresh_uuid_def)
  show ?thesis
    by (rule life_quiet[where k = "rq_workspace_id rq" and oid = "o_operation_id op" and d' = "d\<lparr>wd_active_operation_id := Some (o_operation_id op)\<rparr>"])
      (use f ensure_checkD(1)[OF chk] in \<open>auto simp: db' put_defs\<close>)
qed

lemma accept_destroy_quiet:
  assumes fresh: "fresh_draws db ds" and run: "accept_destroy cfg ds rq db = Inr (r, db')"
  shows "quiet db db'"
proof -
  obtain retention d where chk: "destroy_check cfg ds rq db = Inr d"
      and db': "db' = put_operation (o_operation_id (destroy_operation ds rq retention d))
          ((operation_record (destroy_operation ds rq retention d) (rq_causal_path rq))\<lparr>od_retention := Some retention\<rparr>)
          (put_workspace (rq_workspace_id rq) (destroying_doc (d_now (ds 0)) (o_operation_id (destroy_operation ds rq retention d)) d) db)"
    using run by (auto simp: accept_destroy_def service_bind_eq_Inr Let_def split: vcp_payload.splits)
  have f: "tget (v_operations db) (o_operation_id (destroy_operation ds rq retention d)) = None"
    using fresh_drawsD[OF fresh, of 1] by (simp add: destroy_operation_def new_operation_def fresh_uuid_def)
  have "actives (destroying_doc ts oid d) = actives d" for ts oid by (simp add: destroying_doc_def)
  then show ?thesis
    by (intro life_quiet[where k = "rq_workspace_id rq" and oid = "o_operation_id (destroy_operation ds rq retention d)"
          and d' = "destroying_doc (d_now (ds 0)) (o_operation_id (destroy_operation ds rq retention d)) d"])
      (use f destroy_checkD(1)[OF chk] in \<open>auto simp: db' put_defs\<close>)
qed

lemma rewrite_operation_quiet:
  assumes "tget (v_operations db) oid = Some r" "kind_of r' = kind_of r" "kind_of r \<noteq> OpCancel"
  shows "quiet db (put_operation oid r' db)"
  using assms by (auto simp: quiet_def put_operation_def ops_step_def session_keys_def)

lemma save_completion_tables:
  assumes "o_operation_id (od_snapshot r') = oid"
  shows "v_attempts (save_completion k d' r' rt db) = v_attempts db" "v_bindings (save_completion k d' r' rt db) = v_bindings db"
    "v_sessions (save_completion k d' r' rt db) = v_sessions db" "v_steering (save_completion k d' r' rt db) = v_steering db"
    "v_receipts (save_completion k d' r' rt db) = v_receipts db" "v_updates (save_completion k d' r' rt db) = v_updates db"
    "v_status (save_completion k d' r' rt db) = v_status db"
    "v_operations (save_completion k d' r' rt db) = tput oid r' (v_operations db)"
    "v_runtimes (save_completion k d' r' rt db) = (case rt of None \<Rightarrow> v_runtimes db | Some x \<Rightarrow> tput k x (v_runtimes db))"
    "get_workspace k' (save_completion k d' r' rt db) = (if k' = k then Some d' else get_workspace k' db)"
  using assms by (auto simp: save_completion_def put_defs Let_def get_workspace_def split: option.splits)

lemma finished_kind [simp]: "kind_of (finished_operation ts err r) = kind_of r"
  by (simp add: finished_operation_def)

text \<open>What a completed operation leaves alone.\<close>

lemma complete_quiet:
  assumes inv: "lifecycle_inv db" and r: "tget (v_operations db) oid = Some r" "unfinished r"
    and verb: "verb_of (kind_of r) = Some verb" and run: "complete cfg ds r verb locator err db = Inr db'"
  shows "quiet db db'" "\<exists>r'. \<not> unfinished r' \<and> (\<forall>o'. tget (v_operations db') o' = (if o' = oid then Some r' else tget (v_operations db) o'))"
    "k' \<noteq> workspace_of r \<Longrightarrow> tget (v_runtimes db') k' = tget (v_runtimes db) k'" "v_receipts db' = v_receipts db"
    "v_updates db' = v_updates db" "v_status db' = v_status db"
proof -
  obtain d where d: "get_workspace (workspace_of r) db = Some d" "wd_active_operation_id d = Some oid"
    "lock_state (kind_of r) = Some (w_state (wd_snapshot d))" "workspace_ok db (workspace_of r) d"
    and oid: "o_operation_id (od_snapshot r) = oid" using held_workspace[OF inv r] .
  have idle: "actives d = []" if "verb \<noteq> VEnsure"
    using that verb d(3,4) by (cases "kind_of r") (auto simp: workspace_ok_def)
  have nc: "kind_of r \<noteq> OpCancel" using unfinished_kind[OF r(2)] by auto
  have main: "\<exists>d' r' rt db0. db' = save_completion (workspace_of r) d' r' rt db0 \<and> actives d' = actives d \<and> kind_of r' = kind_of r
      \<and> o_operation_id (od_snapshot r') = oid \<and> \<not> unfinished r' \<and> v_attempts db0 = v_attempts db \<and> v_bindings db0 = v_bindings db
      \<and> v_sessions db0 = v_sessions db \<and> v_steering db0 = v_steering db \<and> v_operations db0 = v_operations db \<and> v_receipts db0 = v_receipts db
      \<and> v_updates db0 = v_updates db \<and> v_status db0 = v_status db \<and> (\<forall>k'. get_workspace k' db0 = get_workspace k' db)
      \<and> (\<forall>k'. k' \<noteq> workspace_of r \<longrightarrow> tget (v_runtimes db0) k' = tget (v_runtimes db) k')
      \<and> (actives d \<noteq> [] \<longrightarrow> v_runtimes db0 = v_runtimes db \<and> (\<forall>t. owned_by (tget (v_runtimes db) (workspace_of r)) t \<longrightarrow>
            (case rt of None \<Rightarrow> True | Some x \<Rightarrow> owned_by (Some x) t)))"
    using run d(1)
  proof (cases rule: complete_saved)
    case (ensured runtime r1)
    have "kind_of r1 = kind_of r" "o_operation_id (od_snapshot r1) = oid" "\<not> unfinished r1"
      using ensured(2) oid by (auto simp: complete_ensure_def finished_operation_done split: if_split_asm option.split_asm)
    moreover have "case runtime of None \<Rightarrow> True | Some x \<Rightarrow> owned_by (Some x) t"
      if "owned_by (tget (v_runtimes db) (workspace_of r)) t" for t
      using ensured(2) that by (auto simp: complete_ensure_def owned_by_def split: if_split_asm option.split_asm option.splits)
    ultimately show ?thesis unfolding ensured(3)
      by (intro exI[of _ "release_lock (o_operation_id (od_snapshot r)) d"] exI[of _ r1] exI[of _ runtime] exI[of _ db]) auto
  next
    case (failed e runtime rows w)
    then show ?thesis unfolding failed(5) using idle oid
      by (intro exI[of _ "(release_lock (o_operation_id (od_snapshot r)) d)\<lparr>wd_snapshot := w\<rparr>"] exI[of _ "finished_operation (d_now (ds 0)) err r"]
          exI[of _ "Some runtime"] exI[of _ "db\<lparr>v_outbox := rows\<rparr>"])
        (auto simp: bump_version_def finished_operation_done)
  next
    case (destroyed x rows w)
    then show ?thesis unfolding destroyed(4) using idle oid
      by (intro exI[of _ "(release_lock (o_operation_id (od_snapshot r)) d)\<lparr>wd_snapshot := w\<rparr>"]
          exI[of _ "with_result x (finished_operation (d_now (ds 0)) err r)"] exI[of _ None]
          exI[of _ "(delete_runtime (workspace_of r) db)\<lparr>v_outbox := rows\<rparr>"])
        (auto simp: bump_version_def finished_operation_done delete_runtime_def)
  next
    case (ready runtime x rows w)
    then show ?thesis unfolding ready(5) using idle oid
      by (intro exI[of _ "(release_lock (o_operation_id (od_snapshot r)) d)\<lparr>wd_snapshot := w\<rparr>"]
          exI[of _ "with_result x (finished_operation (d_now (ds 0)) err r)"] exI[of _ "Some (runtime\<lparr>rd_locator := locator\<rparr>)"]
          exI[of _ "db\<lparr>v_outbox := rows\<rparr>"])
        (auto simp: bump_version_def finished_operation_done)
  qed
  then obtain d' r' rt db0 where m: "db' = save_completion (workspace_of r) d' r' rt db0" "actives d' = actives d" "kind_of r' = kind_of r"
      "o_operation_id (od_snapshot r') = oid" "\<not> unfinished r'" "v_attempts db0 = v_attempts db" "v_bindings db0 = v_bindings db"
      "v_sessions db0 = v_sessions db" "v_steering db0 = v_steering db" "v_operations db0 = v_operations db" "v_receipts db0 = v_receipts db"
      "v_updates db0 = v_updates db" "v_status db0 = v_status db" "\<And>k'. get_workspace k' db0 = get_workspace k' db"
      "\<And>k'. k' \<noteq> workspace_of r \<Longrightarrow> tget (v_runtimes db0) k' = tget (v_runtimes db) k'"
      "actives d \<noteq> [] \<Longrightarrow> v_runtimes db0 = v_runtimes db"
      "\<And>t. actives d \<noteq> [] \<Longrightarrow> owned_by (tget (v_runtimes db) (workspace_of r)) t \<Longrightarrow> (case rt of None \<Rightarrow> True | Some x \<Rightarrow> owned_by (Some x) t)"
    by blast
  note T = save_completion_tables[OF m(4), where k = "workspace_of r" and d' = d' and rt = rt and db = db0, folded m(1)]
  show "quiet db db'"
    by (rule life_quiet[where k = "workspace_of r" and d' = d' and oid = oid and r' = r'])
      (use T m d(1) r(1) nc in \<open>auto split: option.splits\<close>)
  show "\<exists>r'. \<not> unfinished r' \<and> (\<forall>o'. tget (v_operations db') o' = (if o' = oid then Some r' else tget (v_operations db) o'))"
    using m(5,10) T(8) by auto
  show "k' \<noteq> workspace_of r \<Longrightarrow> tget (v_runtimes db') k' = tget (v_runtimes db) k'" using T(9) m(15) by (auto split: option.splits)
  show "v_receipts db' = v_receipts db" "v_updates db' = v_updates db" "v_status db' = v_status db" using T m by auto
qed

end
