(* ===== verification/Vcp_Reachable.thy ===== *)
theory Vcp_Reachable
  imports Vcp_Invariant
begin

text \<open>
  Every step of the virtual control plane keeps the invariants, and the worker's tasks stay
  consistent with the database: a task holds the current record of an unfinished operation and
  the ownership its workspace has, so no two provider calls in flight concern one workspace.
\<close>

section \<open>Public commands\<close>

text \<open>What a step leaves to the worker's tasks: unfinished operations and runtime records as they were.\<close>

definition tasks_frame :: "vcp_db \<Rightarrow> vcp_db \<Rightarrow> bool" where
  "tasks_frame db db' \<longleftrightarrow> (\<forall>oid r. tget (v_operations db) oid = Some r \<longrightarrow> unfinished r \<longrightarrow> tget (v_operations db') oid = Some r)
     \<and> (\<forall>k rt. tget (v_runtimes db) k = Some rt \<longrightarrow> tget (v_runtimes db') k = Some rt)"

lemma tasks_frame_exec: "exec_frame db db' \<Longrightarrow> tasks_frame db db'"
  using exec_frame_unfinished by (auto simp: tasks_frame_def exec_frame_def)

lemma tasks_frame_new:
  "tget (v_operations db) oid = None \<Longrightarrow> v_operations db' = tput oid r (v_operations db) \<Longrightarrow> v_runtimes db' = v_runtimes db \<Longrightarrow> tasks_frame db db'"
  by (auto simp: tasks_frame_def)

definition life_step :: "vcp_db \<Rightarrow> vcp_db \<Rightarrow> bool" where
  "life_step db db' \<longleftrightarrow> lifecycle_inv db' \<and> quiet db db' \<and> tasks_frame db db'"

lemma accept_apply_step:
  assumes inv: "lifecycle_inv db" and fresh: "fresh_draws db ds" and run: "accept_apply cfg ds rq db = Inr (r, db')"
  shows "life_step db db'"
proof -
  have new: "tasks_frame db db1" if "apply_new cfg ds rq doc db = Inr (r, db1)" for doc db1
    using apply_new_effect[OF that] fresh_drawsD[OF fresh, of 0] fresh_drawsD[OF fresh, of 3]
    by (auto simp: tasks_frame_def put_defs fresh_uuid_def)
  have "tasks_frame db db'"
    using run new by (auto simp: accept_apply_def Let_def tasks_frame_def split: vcp_payload.split_asm option.split_asm)
  then show ?thesis using accept_apply_inv[OF inv fresh run] accept_apply_quiet[OF fresh run] by (simp add: life_step_def)
qed

lemma accept_ensure_step:
  assumes inv: "lifecycle_inv db" and fresh: "fresh_draws db ds" and run: "accept_ensure cfg ds rq db = Inr (r, db')"
  shows "life_step db db'"
proof -
  have "tasks_frame db db'"
    using run fresh_drawsD[OF fresh, of 1]
    by (auto simp: accept_ensure_def service_bind_eq_Inr Let_def put_defs tasks_frame_def new_operation_def fresh_uuid_def
        split: vcp_payload.split_asm)
  then show ?thesis using accept_ensure_inv[OF inv fresh run] accept_ensure_quiet[OF fresh run] by (simp add: life_step_def)
qed

lemma accept_destroy_step:
  assumes inv: "lifecycle_inv db" and fresh: "fresh_draws db ds" and run: "accept_destroy cfg ds rq db = Inr (r, db')"
  shows "life_step db db'"
proof -
  have "o_operation_id (destroy_operation ds rq x d) = identity ''op_'' (d_uuid (ds 1))" for x d
    by (simp add: destroy_operation_def new_operation_def)
  then have "tasks_frame db db'"
    using run fresh_drawsD[OF fresh, of 1]
    by (auto simp: accept_destroy_def service_bind_eq_Inr Let_def put_defs tasks_frame_def fresh_uuid_def split: vcp_payload.split_asm)
  then show ?thesis using accept_destroy_inv[OF inv fresh run] accept_destroy_quiet[OF fresh run] by (simp add: life_step_def)
qed

lemma execute_db_inv:
  assumes inv: "db_inv db" and fresh: "fresh_draws db ds" and adm: "admit cfg ds rq e db = Inr (d, runtime, s)"
    and parts: "execution_parts ds rq runtime s c e = (t, op, m)" and run: "write_execution ds rq d s t op m e db = Inr db'"
  shows "db_inv db'" "exec_frame db db'" "attempts_forward db db'"
proof -
  have i: "lifecycle_inv db" "attempt_inv db" using inv by (auto simp: db_inv_def)
  note ad = admitD[OF adm] and p = execution_partsD[OF parts]
  have fr: "tget (v_operations db) (o_operation_id op) = None" "tget (v_attempts db) (attempt_id t) = None"
    using fresh_drawsD[OF fresh, of 6] fresh_drawsD[OF fresh, of 4] by (simp_all add: p fresh_uuid_def)
  show frame: "exec_frame db db'" by (rule execute_frame[OF run ad(1) fr(1) p(7)])
  from run show "attempts_forward db db'" by (cases rule: write_execution_effect) (use fr(2) in \<open>auto simp: attempts_forward_def\<close>)
  have "w_state (wd_snapshot d') = WReady" if g: "get_workspace k db' = Some d'" and ne: "actives d' \<noteq> []" for k d'
    using run
  proof (cases rule: write_execution_effect)
    case w: (1 session1 hist a b d1)
    have gw: "get_workspace k db' = (if k = rq_workspace_id rq then Some d1 else get_workspace k db)" by (simp add: get_workspace_def w(12))
    show ?thesis
    proof (cases "k = rq_workspace_id rq")
      case True
      then show ?thesis using g gw ad(4) ws_coreD(4)[OF w(13)] by (simp add: running_runtime_def)
    next
      case False
      then have "get_workspace k db = Some d'" using g gw by simp
      from lifecycle_invD(4)[OF i(1) this] show ?thesis using ne by (auto simp: workspace_ok_def)
    qed
  qed
  then have "lifecycle_inv db'" using lifecycle_inv_exec_frame[OF i(1) frame] by blast
  moreover have "attempt_inv db'" by (rule execute_attempt_inv[OF i(2) fresh adm parts run])
  ultimately show "db_inv db'" by (simp add: db_inv_def)
qed

lemma life_step_inv: "db_inv db \<Longrightarrow> life_step db db' \<Longrightarrow> db_inv db'"
  using attempt_inv_quiet by (auto simp: db_inv_def life_step_def)

lemma cancel_step:
  assumes inv: "db_inv db" and fresh: "fresh_draws db ds" and run: "accept_cancel cfg ds rq db = Inr (r, db')"
  shows "exec_step db db'"
proof -
  have i: "attempt_inv db" using inv by (simp add: db_inv_def)
  have "v_bindings db' = v_bindings db \<and> attempts_forward db db' \<and> (\<forall>x. tget (v_attempts db) x = None \<longrightarrow> tget (v_attempts db') x = None)"
    using run
  proof (cases rule: accept_cancel_effect)
    case (ended aid a b op)
    have "attempts_forward db db'" by (rule attempts_forward_put[OF ended(1), where a' = a]) (auto simp: ended(6) put_defs)
    then show ?thesis using ended(1) by (auto simp: ended(6) put_defs)
  next
    case (joined aid a b op c)
    have "attempts_forward db db'"
      by (rule attempts_forward_put[OF joined(1)]) (auto simp: joined(6,7) put_defs forward_def cancel_kept_def)
    then show ?thesis using joined(1) by (auto simp: joined(7) put_defs)
  next
    case (won aid a b op c s s' rows a1)
    have "va_state (ad_snapshot a) \<in> {VStarting, VRunning}"
      using attempt_invD(1)[OF i won(1)] won(4,6)
      by (cases "va_state (ad_snapshot a)") (auto simp: attempt_ok_def cancels_ok_def ended_state_def)
    then have "forward a a1" using won(4,6) by (auto simp: won(13) forward_def cancel_kept_def intro!: r_into_rtranclp)
    then have "attempts_forward db db'" by (intro attempts_forward_put[OF won(1), where a' = a1]) (auto simp: won(14) put_defs)
    then show ?thesis using won(1) by (auto simp: won(14) put_defs)
  qed
  then show ?thesis
    using accept_cancel_attempt_inv[OF i fresh run] accept_cancel_frame[OF fresh run] by (simp add: exec_step_def)
qed

lemma steer_step:
  assumes inv: "db_inv db" and fresh: "fresh_draws db ds" and run: "accept_steer cfg ds rq db = Inr (r, db')"
  shows "exec_step db db'"
proof -
  have i: "attempt_inv db" using inv by (simp add: db_inv_def)
  have "v_bindings db' = v_bindings db \<and> v_attempts db' = v_attempts db"
    using run by (cases rule: accept_steer_effect) (auto simp: put_defs)
  then show ?thesis
    using accept_steer_attempt_inv[OF i fresh run] accept_steer_frame[OF fresh run] by (auto simp: exec_step_def intro: attempts_forward_same)
qed

text \<open>All public commands together.\<close>

definition vcp_change :: "vcp_db \<Rightarrow> vcp_db \<Rightarrow> bool" where
  "vcp_change db db' \<longleftrightarrow> db_inv db' \<and> tasks_frame db db' \<and> attempts_forward db db'"

lemma exec_step_change: "db_inv db \<Longrightarrow> exec_step db db' \<Longrightarrow> vcp_change db db'"
  using exec_step_inv tasks_frame_exec by (auto simp: vcp_change_def exec_step_def)

lemma life_step_change: "db_inv db \<Longrightarrow> life_step db db' \<Longrightarrow> vcp_change db db'"
  using life_step_inv by (auto simp: vcp_change_def life_step_def quiet_def intro!: attempts_forward_same)

lemma accept_change:
  assumes inv: "db_inv db" and fresh: "fresh_draws db (draws_of c)" and run: "accept_of cfg c rq db = Inr (r, db')"
  shows "vcp_change db db'"
proof -
  have l: "lifecycle_inv db" using inv by (simp add: db_inv_def)
  show ?thesis
  proof (cases c)
    case (CExecute ds pre e)
    with run have "accept_execute cfg ds pre e rq db = Inr (r, db')" by simp
    then show ?thesis
    proof (cases rule: accept_execute_effect)
      case replayed
      then show ?thesis using inv by (auto simp: vcp_change_def tasks_frame_def intro: attempts_forward_same)
    next
      case (written previous runtime c' d s t op m)
      from execute_db_inv[OF inv _ written(2,3,5)] fresh CExecute tasks_frame_exec show ?thesis by (auto simp: vcp_change_def)
    qed
  qed (use run fresh inv l in \<open>auto intro: life_step_change accept_apply_step accept_ensure_step accept_destroy_step
      exec_step_change cancel_step steer_step\<close>)
qed

lemma vcp_change_receipts: "db_inv db \<Longrightarrow> vcp_change db (db\<lparr>v_receipts := t\<rparr>)"
  by (intro exec_step_change exec_step_other) (auto simp: db_inv_def)

lemma vcp_change_trans: "vcp_change db db1 \<Longrightarrow> vcp_change db1 db2 \<Longrightarrow> vcp_change db db2"
  unfolding vcp_change_def using attempts_forward_trans by (auto simp: tasks_frame_def)

lemma vcp_change_refl: "db_inv db \<Longrightarrow> vcp_change db db"
  by (auto simp: vcp_change_def tasks_frame_def intro: attempts_forward_same)

lemma serve_change:
  assumes inv: "db_inv db" and fresh: "fresh_draws db (draws_of c)" and run: "serve cfg c rq db = (r, db')"
  shows "vcp_change db db'"
proof (cases r)
  case (Inl e)
  then show ?thesis using run serve_Inl inv vcp_change_refl by metis
next
  case (Inr resp)
  with run have "serve cfg c rq db = (Inr resp, db')" by simp
  then show ?thesis
  proof (cases rule: serve_cases)
    case stored
    then show ?thesis using inv vcp_change_refl by simp
  next
    case (new db1)
    have c1: "vcp_change db db1" by (rule accept_change[OF inv fresh new(2)])
    then have "vcp_change db1 db'" using new(3) vcp_change_receipts vcp_change_refl by (auto simp: vcp_change_def)
    then show ?thesis by (rule vcp_change_trans[OF c1])
  next
    case (refused e)
    then show ?thesis using inv vcp_change_receipts vcp_change_refl by simp
  qed
qed

section \<open>The worker's tasks\<close>

definition task_ok :: "vcp_db \<Rightarrow> string \<Rightarrow> string \<Rightarrow> provider_task \<Rightarrow> bool" where
  "task_ok db after oid t \<longleftrightarrow> oid \<le> after \<and> tget (v_operations db) oid = Some (task_record t) \<and> unfinished (task_record t)
     \<and> (\<forall>r rt. t = Calling r rt \<longrightarrow> tget (v_runtimes db) (workspace_of r) = Some rt)"

definition tasks_ok :: "vcp \<Rightarrow> bool" where
  "tasks_ok s \<longleftrightarrow> twf (vm_tasks s) \<and> length (vm_tasks s) \<le> max_tasks
     \<and> (\<forall>oid t. tget (vm_tasks s) oid = Some t \<longrightarrow> task_ok (vm_db s) (vm_after s) oid t)"

definition vcp_inv :: "vcp \<Rightarrow> bool" where
  "vcp_inv s \<longleftrightarrow> db_inv (vm_db s) \<and> tasks_ok s"

lemma task_ok_frame: "tasks_frame db db' \<Longrightarrow> task_ok db after oid t \<Longrightarrow> task_ok db' after oid t"
  by (auto simp: task_ok_def tasks_frame_def)

lemma vcp_inv_change:
  assumes "vcp_inv s" and "vcp_change (vm_db s) db"
  shows "vcp_inv (s\<lparr>vm_db := db\<rparr>)"
  using assms task_ok_frame by (auto simp: vcp_inv_def vcp_change_def tasks_ok_def)

lemma vcp_inv_new_pass: "vcp_inv s \<Longrightarrow> vcp_inv (new_pass s)"
  by (simp add: vcp_inv_def tasks_ok_def new_pass_def)

subsection \<open>A page of operations\<close>

lemma sorted_le_last: "sorted xs \<Longrightarrow> x \<in> set xs \<Longrightarrow> x \<le> last xs"
  by (induction xs) (auto split: if_splits)

lemma tsorted_keys: "twf t \<Longrightarrow> sorted (map fst (tsorted t)) \<and> distinct (map fst (tsorted t))"
  by (simp add: tsorted_def twf_def tkeys_def distinct_map)

abbreviation oid_of :: "operation_doc \<Rightarrow> string" where
  "oid_of r \<equiv> o_operation_id (od_snapshot r)"

lemma pending_allocations_facts:
  assumes keys: "op_keys db" and page: "page = pending_allocations limit after db"
  shows "\<And>r. r \<in> set page \<Longrightarrow> tget (v_operations db) (oid_of r) = Some r \<and> unfinished r \<and> after < oid_of r \<and> oid_of r \<le> oid_of (last page)"
    and "length page \<le> limit" "distinct (map oid_of page)"
proof -
  define L where "L = take limit (filter (\<lambda>(k, d). unfinished d \<and> after < k) (tsorted (v_operations db)))"
  have p: "page = map snd L" by (simp add: page pending_allocations_def L_def)
  have twf: "twf (v_operations db)" using keys by (simp add: op_keys_def)
  have inL: "tget (v_operations db) k = Some r \<and> unfinished r \<and> after < k \<and> oid_of r = k" if "(k, r) \<in> set L" for k r
  proof -
    have "(k, r) \<in> set (v_operations db)" "unfinished r" "after < k" using that by (auto simp: L_def dest!: in_set_takeD)
    then show ?thesis using keys twf_tget[OF twf, of k r] by (auto simp: op_keys_def)
  qed
  have ids: "map oid_of page = map fst L" using inL by (auto simp: p)
  have so: "sorted (map fst L)" "distinct (map fst L)"
    using tsorted_keys[OF twf] by (auto simp: L_def take_map[symmetric] sorted_filter distinct_map_filter intro: sorted_wrt_take)
  show "distinct (map oid_of page)" using so ids by simp
  show "length page \<le> limit" by (simp add: p L_def)
  fix r assume r: "r \<in> set page"
  then have ne: "page \<noteq> []" by auto
  have "oid_of r \<in> set (map fst L)" using r ids by (metis image_eqI list.set_map)
  then have "oid_of r \<le> last (map fst L)" using so(1) by (intro sorted_le_last)
  moreover have "last (map fst L) = oid_of (last page)" using ids ne by (metis last_map)
  moreover obtain k where "(k, r) \<in> set L" using r by (auto simp: p)
  ultimately show "tget (v_operations db) (oid_of r) = Some r \<and> unfinished r \<and> after < oid_of r \<and> oid_of r \<le> oid_of (last page)"
    using inL by auto
qed

lemma add_tasks_get:
  assumes "tget (add_tasks rs ts) oid = Some t"
  shows "tget ts oid = Some t \<or> (\<exists>r \<in> set rs. t = Picked r \<and> oid = oid_of r)"
  using assms
proof (induction rs arbitrary: ts)
  case (Cons r rs)
  from Cons.IH[of "tput (oid_of r) (Picked r) ts"] Cons.prems show ?case by (auto split: if_split_asm)
qed simp

lemma length_tput: "length (tput k v t) \<le> length t + 1"
  by (induction t) (auto simp: tput_def)

lemma add_tasks_length: "length (add_tasks rs ts) \<le> length ts + length rs"
proof (induction rs arbitrary: ts)
  case (Cons r rs)
  have "length (add_tasks (r # rs) ts) \<le> length (tput (oid_of r) (Picked r) ts) + length rs" using Cons.IH by simp
  also have "\<dots> \<le> length ts + length (r # rs)" using length_tput[of "oid_of r" "Picked r" ts] by simp
  finally show ?case .
qed simp

lemma add_tasks_twf: "twf ts \<Longrightarrow> twf (add_tasks rs ts)"
  by (induction rs arbitrary: ts) auto

lemma page_inv:
  assumes inv: "vcp_inv s" and few: "length (vm_tasks s) < max_tasks"
    and page: "reconcile_page (max_tasks - length (vm_tasks s)) (vm_after s) due (vm_db s) = (rs, after, none_left)"
  shows "vcp_inv (s\<lparr>vm_tasks := add_tasks rs (vm_tasks s), vm_after := after, vm_exhausted := none_left\<rparr>)"
proof -
  define pg where "pg = pending_allocations (max_tasks - length (vm_tasks s)) (vm_after s) (vm_db s)"
  have keys: "op_keys (vm_db s)" using inv by (simp add: vcp_inv_def db_inv_def lifecycle_inv_def)
  note facts = pending_allocations_facts[OF keys pg_def]
  have rs: "rs = filter (\<lambda>r. od_not_before r \<le> due) pg" and after: "after = (if pg = [] then vm_after s else oid_of (last pg))"
    using page by (auto simp: reconcile_page_def pg_def Let_def)
  have le: "vm_after s \<le> after" using facts(1)[of "last pg"] after by (cases "pg = []") auto
  have "length rs \<le> max_tasks - length (vm_tasks s)" unfolding rs by (rule order_trans[OF length_filter_le facts(2)])
  then have len: "length (add_tasks rs (vm_tasks s)) \<le> max_tasks" using add_tasks_length[of rs "vm_tasks s"] few by linarith
  have "task_ok (vm_db s) after oid t" if g: "tget (add_tasks rs (vm_tasks s)) oid = Some t" for oid t
    using add_tasks_get[OF g]
  proof
    assume "tget (vm_tasks s) oid = Some t"
    then have "task_ok (vm_db s) (vm_after s) oid t" using inv by (auto simp: vcp_inv_def tasks_ok_def)
    then show ?thesis using le by (auto simp: task_ok_def)
  next
    assume "\<exists>r\<in>set rs. t = Picked r \<and> oid = oid_of r"
    then obtain r where "r \<in> set pg" "t = Picked r" "oid = oid_of r" by (auto simp: rs)
    then show ?thesis using facts(1)[of r] after by (auto simp: task_ok_def)
  qed
  then show ?thesis using inv len by (auto simp: vcp_inv_def tasks_ok_def intro: add_tasks_twf)
qed

subsection \<open>Claim and completion\<close>

text \<open>The workspace of an unfinished operation still owns a runtime.\<close>

lemma unfinished_owned:
  assumes inv: "lifecycle_inv db" and r: "tget (v_operations db) oid = Some r" "unfinished r"
  obtains rt where "tget (v_runtimes db) (workspace_of r) = Some rt"
proof -
  obtain d where d: "lock_state (kind_of r) = Some (w_state (wd_snapshot d))" "workspace_ok db (workspace_of r) d"
    using held_workspace[OF inv r] by metis
  then have "w_state (wd_snapshot d) \<noteq> WDestroyed" by (cases "kind_of r") auto
  then show ?thesis using d(2) that by (auto simp: workspace_ok_def runtime_ok_def)
qed

lemma task_ofD:
  assumes "vcp_inv s" and "tget (vm_tasks s) oid = Some t"
  shows "tget (v_operations (vm_db s)) oid = Some (task_record t)" "unfinished (task_record t)" "oid \<le> vm_after s"
    "lifecycle_inv (vm_db s)" "attempt_inv (vm_db s)" "op_keys (vm_db s)"
  using assms by (auto simp: vcp_inv_def tasks_ok_def task_ok_def db_inv_def lifecycle_inv_def)

lemma tput_present_length: "tget t k \<noteq> None \<Longrightarrow> length (tput k v t) = length t"
  using tput_present_keys[of t k v] by (metis length_map tkeys_def)

lemma vcp_claim_inv:
  assumes inv: "vcp_inv s" and t: "tget (vm_tasks s) oid = Some (Picked r)" and run: "claim_operation d r (vm_db s) = (r1, db)"
  shows "vcp_inv (claim_task oid r1 (s\<lparr>vm_db := db\<rparr>))" "attempts_forward (vm_db s) db"
proof -
  note T = task_ofD[OF inv t, simplified]
  note C = claim_operation_inv[OF T(4,1,2) run]
  have k: "kind_of r \<noteq> OpCancel" using unfinished_kind[OF T(2)] by auto
  have q: "quiet (vm_db s) db" using C(6) rewrite_operation_quiet[OF T(1) C(5) k] by auto
  have ainv: "attempt_inv db" by (rule attempt_inv_quiet[OF T(5) q])
  show "attempts_forward (vm_db s) db" using q by (intro attempts_forward_same) (simp add: quiet_def)
  have rts: "v_runtimes db = v_runtimes (vm_db s)" using C(6) by (auto simp: put_operation_def)
  obtain rt where rt: "tget (v_runtimes db) (workspace_of r1) = Some rt" using unfinished_owned[OF C(1,2,3)] .
  have other: "task_ok db (vm_after s) x tx" if "x \<noteq> oid" "tget (vm_tasks s) x = Some tx" for x tx
  proof -
    have "task_ok (vm_db s) (vm_after s) x tx" using inv that by (auto simp: vcp_inv_def tasks_ok_def)
    then show ?thesis using C(6) that(1) by (auto simp: task_ok_def put_operation_def)
  qed
  have "task_ok db (vm_after s) oid (Calling r1 rt)" using C(2,3) T(3) rt by (simp add: task_ok_def)
  then show "vcp_inv (claim_task oid r1 (s\<lparr>vm_db := db\<rparr>))"
    using inv C(1) ainv other t rt
    by (auto simp: vcp_inv_def claim_task_def db_inv_def tasks_ok_def tput_present_length split: if_split_asm)
qed

lemma settle_inv:
  assumes inv: "vcp_inv s" and t: "tget (vm_tasks s) oid = Some (Calling r rt)" and run: "settle_call cfg ds r rt result (vm_db s) = Inr db"
  shows "vcp_inv (s\<lparr>vm_db := db, vm_tasks := tdel oid (vm_tasks s)\<rparr>)" "attempts_forward (vm_db s) db"
proof -
  note T = task_ofD[OF inv t, simplified]
  have l: "lifecycle_inv db" by (rule settle_call_inv[OF T(4,1,2) run])
  have oid: "oid_of r = oid" using T(1,6) by (simp add: op_keys_def)
  have k: "kind_of r \<noteq> OpCancel" using unfinished_kind[OF T(2)] by auto
  have "quiet (vm_db s) db \<and> (\<forall>o'. o' \<noteq> oid \<longrightarrow> tget (v_operations db) o' = tget (v_operations (vm_db s)) o')
      \<and> (\<forall>k'. k' \<noteq> workspace_of r \<longrightarrow> tget (v_runtimes db) k' = tget (v_runtimes (vm_db s)) k')"
    using run
  proof (cases rule: settle_call_cases)
    case (completed verb locator err)
    then show ?thesis using complete_quiet[OF T(4,1,2) completed] by auto
  next
    case (later r')
    then have kr: "kind_of r' = kind_of r" by (simp add: retried_operation_def)
    show ?thesis using rewrite_operation_quiet[OF T(1) kr k] later(2) by (auto simp: oid put_operation_def)
  qed
  then have q: "quiet (vm_db s) db" and ops: "\<And>o'. o' \<noteq> oid \<Longrightarrow> tget (v_operations db) o' = tget (v_operations (vm_db s)) o'"
      and rts: "\<And>k'. k' \<noteq> workspace_of r \<Longrightarrow> tget (v_runtimes db) k' = tget (v_runtimes (vm_db s)) k'" by auto
  show "attempts_forward (vm_db s) db" using q by (intro attempts_forward_same) (simp add: quiet_def)
  have ainv: "attempt_inv db" by (rule attempt_inv_quiet[OF T(5) q])
  have other: "task_ok db (vm_after s) x tx" if x: "x \<noteq> oid" "tget (vm_tasks s) x = Some tx" for x tx
  proof -
    have ok: "task_ok (vm_db s) (vm_after s) x tx" using inv x by (auto simp: vcp_inv_def tasks_ok_def)
    have "workspace_of (task_record tx) \<noteq> workspace_of r"
      using one_unfinished[OF T(4) task_ofD(1,2)[OF inv x(2)] T(1,2)] x(1) by auto
    then show ?thesis using ok x(1) ops rts by (auto simp: task_ok_def)
  qed
  have "length (tdel oid (vm_tasks s)) \<le> length (vm_tasks s)" by (simp add: tdel_def AList.delete_eq)
  then show "vcp_inv (s\<lparr>vm_db := db, vm_tasks := tdel oid (vm_tasks s)\<rparr>)"
    using inv l ainv other by (auto simp: vcp_inv_def db_inv_def tasks_ok_def split: if_split_asm)
qed

section \<open>All steps\<close>

lemma mark_published_step: "attempt_inv db \<Longrightarrow> exec_step db (mark_published n db)"
  by (rule exec_step_other) (auto simp: mark_published_def split: option.splits)

lemma vcp_step_inv:
  assumes "vcp_step cfg s t" and "vcp_inv s"
  shows "vcp_inv t" "attempts_forward (vm_db s) (vm_db t)"
proof -
  have dbi: "db_inv (vm_db s)" "attempt_inv (vm_db s)" "op_keys (vm_db s)"
    using assms(2) by (auto simp: vcp_inv_def db_inv_def lifecycle_inv_def)
  have ch: "vcp_inv (s\<lparr>vm_db := db\<rparr>) \<and> attempts_forward (vm_db s) db" if "vcp_change (vm_db s) db" for db
    using vcp_inv_change[OF assms(2) that] that by (simp add: vcp_change_def)
  have "vcp_inv t \<and> attempts_forward (vm_db s) (vm_db t)"
    using assms(1)
  proof cases
    case (public c rq r db)
    then show ?thesis using ch serve_change[OF dbi(1)] by simp
  next
    case (page due rs after none_left)
    then show ?thesis using page_inv[OF assms(2)] by (simp add: attempts_forward_same)
  next
    case (claim oid r d r1 db)
    then show ?thesis using vcp_claim_inv[OF assms(2)] by (auto simp: claim_task_def new_pass_def split: option.splits)
  next
    case (settle oid r rt ds result db)
    then show ?thesis using settle_inv[OF assms(2)] by simp
  next
    case pass_ends
    then show ?thesis using vcp_inv_new_pass[OF assms(2)] by (simp add: attempts_forward_same new_pass_def)
  next
    case pass_aborted
    then show ?thesis using vcp_inv_new_pass[OF assms(2)] by (simp add: attempts_forward_same new_pass_def)
  next
    case (update ds subject u r db)
    then show ?thesis using ch exec_step_change[OF dbi(1) receive_step[OF dbi(2,3)]] by simp
  next
    case (delivery cid e ds schema a r db)
    then show ?thesis using ch exec_step_change[OF dbi(1) deliver_step[OF dbi(2,3)]] by simp
  next
    case (publication n)
    then show ?thesis using ch exec_step_change[OF dbi(1) mark_published_step[OF dbi(2)]] by simp
  qed
  then show "vcp_inv t" "attempts_forward (vm_db s) (vm_db t)" by auto
qed

lemma vcp_inv_initial: "vcp_inv initial_vcp"
  by (simp add: vcp_inv_def initial_vcp_def db_inv_def lifecycle_inv_def attempt_inv_def empty_vcp_def op_keys_def names_unique_def
      get_workspace_def exclusive_def session_keys_def tasks_ok_def)

lemma vcp_reachable_inv: "vcp_reachable cfg s \<Longrightarrow> vcp_inv s"
  by (induction rule: vcp_reachable_induct) (auto intro: vcp_inv_initial vcp_step_inv)

lemma vcp_steps_forward:
  assumes "vcp_steps cfg s t" and "vcp_inv s"
  shows "vcp_inv t \<and> attempts_forward (vm_db s) (vm_db t)"
  using assms unfolding vcp_steps_def
proof (induction rule: rtranclp_induct)
  case base
  then show ?case by (simp add: attempts_forward_same)
next
  case (step y z)
  then have "vcp_inv y" "attempts_forward (vm_db s) (vm_db y)" by auto
  then show ?case using vcp_step_inv[OF step(2)] attempts_forward_trans by blast
qed

end
