(* ===== verification/Vcp_Updates.thy ===== *)
theory Vcp_Updates
  imports Vcp_Reachable
begin

text \<open>
  Receipts and the update log across all steps: only a public command writes a receipt, only a
  committed update extends its runtime's log, and the log is numbered without gaps.
\<close>

section \<open>Silent steps\<close>

lemma silent_refl [simp]: "silent db db"
  by (simp add: silent_def)

lemma silent_trans: "silent db db1 \<Longrightarrow> silent db1 db2 \<Longrightarrow> silent db db2"
  by (simp add: silent_def)

lemma project_silent: "project cfg ds cid outcome claimed db = Inr (known, db') \<Longrightarrow> silent db db'"
  by (erule project_effect) (auto simp: silent_def)

lemma terminate_each_silent: "terminate_each cfg ds i cs db = Inr db' \<Longrightarrow> silent db db'"
proof (induction cs arbitrary: i db)
  case (Cons c cs)
  then obtain known db1 where "project cfg (\<lambda>k. ds (i + k)) (command_id (sc_command c)) (Failed_with None) None db = Inr (known, db1)"
      "terminate_each cfg ds (i + 2) cs db1 = Inr db'" by (auto simp: sbind_eq_Inr)
  then show ?case using Cons.IH project_silent silent_trans by blast
qed simp

lemma settle_cancels_silent: "settle_cancels ts aid state oids db = Inr db' \<Longrightarrow> silent db db'"
proof (induction oids arbitrary: db)
  case (Cons oid oids)
  then obtain r where "settle_cancels ts aid state oids (put_operation oid r db) = Inr db'" by (auto split: option.split_asm)
  then have "silent (put_operation oid r db) db'" by (rule Cons.IH)
  then show ?case by (simp add: silent_def put_operation_def)
qed simp

lemma transition_silent:
  assumes "transition cfg ds aid state err result claim db = Inr db'"
  shows "silent db db'"
  using assms
proof (cases rule: transition_effect)
  case e: (1 r b db1 d s ro a db2 d1 s1 ro1 rows)
  have "silent db db1" using e(5) terminate_each_silent by (auto simp: terminate_def split: if_split_asm)
  moreover have "silent db1 db2" using e(9) settle_cancels_silent by (auto split: if_split_asm)
  moreover have "silent db2 db'" by (simp add: e(19) silent_def put_defs)
  ultimately show ?thesis using silent_trans by blast
qed

lemma progress_silent:
  assumes run: "vcp_progress cfg dr aid p db = Inr db'"
  shows "silent db db'"
proof -
  have eff: "silent db db1" if "progress_effect dr aid p r b s db = Inr (r1, s1, ev, db1)" for r b s r1 s1 ev db1
    using that by (auto simp: progress_effect_def sbind_eq_Inr silent_def elim!: append_history_effect split: progress.split_asm if_split_asm)
  obtain r b s r1 s1 ev db1 where "progress_effect dr aid p r b s db = Inr (r1, s1, ev, db1)" "silent db1 db'"
    using run by (auto simp: vcp_progress_def Let_def sbind_eq_Inr put_defs silent_def split: option.split_asm if_split_asm dest!: append_event_outbox)
  then show ?thesis using eff silent_trans by blast
qed

lemma project_update_silent:
  assumes "project_update cfg ds u kinds db = Inr db'"
  shows "silent db db'"
proof -
  have body: "silent db db1" if "project_body cfg ds u t kinds db = Inr db1" for t db1
    using that unfolding project_body_def Let_def
    by (auto split: update_body.split_asm if_split_asm simp: steering_result_def sbind_eq_Inr
        intro: transition_silent progress_silent project_silent)
  obtain t db1 r1 where "project_body cfg ds u t kinds db = Inr db1" "db' = put_attempt (attempt_id t) r1 db1"
    using assms by (auto simp: project_update_def Let_def sbind_eq_Inr catch_transition_def
        split: update_target.split_asm if_split_asm option.split_asm sum.split_asm vcp_exn.split_asm)
  then show ?thesis using body silent_trans[of db db1] by (auto simp: silent_def put_attempt_def)
qed

lemma deliver_silent:
  assumes "deliver cfg ds subject m sch a db = (r, db')"
  shows "silent db db'"
proof -
  have st: "silent db db1" if "settle_runtime_command cid x a db = Inr (y, db1)" for db db1 x y cid
    using that by (auto simp: settle_runtime_command_def silent_def split: if_split_asm option.split_asm)
  have "silent db db1" if "deliver_settle cfg ds m a db = Inr (x, db1)" for x db1
    using that unfolding deliver_settle_def
    by (auto simp: sbind_eq_Inr split: option.split_asm sum.split_asm vcp_exn.split_asm delivery.split_asm command_body.split_asm
        dest!: transition_silent project_silent st intro: silent_trans)
  then show ?thesis using assms
    by (auto simp: deliver_def run_tx_def split: if_split_asm sum.split_asm prod.split_asm)
qed

section \<open>Receipts\<close>

lemma vcp_receipts_kept_refl [simp]: "vcp_receipts_kept db db"
  by (simp add: vcp_receipts_kept_def)

lemma vcp_receipts_kept_trans: "vcp_receipts_kept db db1 \<Longrightarrow> vcp_receipts_kept db1 db2 \<Longrightarrow> vcp_receipts_kept db db2"
  by (simp add: vcp_receipts_kept_def)

lemma silent_kept: "silent db db' \<Longrightarrow> vcp_receipts_kept db db'"
  by (simp add: silent_def vcp_receipts_kept_def)

lemma serve_kept:
  assumes "serve cfg c rq db = (r, db')"
  shows "vcp_receipts_kept db db'"
proof (cases r)
  case (Inr resp)
  with assms have "serve cfg c rq db = (Inr resp, db')" by simp
  then show ?thesis
    by (cases rule: serve_cases) (auto simp: vcp_receipts_kept_def dest: accept_receipts)
qed (use assms serve_Inl in fastforce)

lemma finish_update_log:
  assumes "finish_update cfg u st db = Inr db'"
  shows "v_receipts db' = v_receipts db"
    "v_updates db' = v_updates db @ [((runtime_id (claimed_target u), u_event_id u), (u_sequence u, vc_digest cfg u))]"
    "tget (v_updates db) (runtime_id (claimed_target u), u_event_id u) = None"
    "v_status db' = tput (runtime_id (claimed_target u)) (st\<lparr>rs_sequence := u_sequence u, rs_boot_id := u_boot_id u\<rparr>) (v_status db)"
  using assms by (auto simp: finish_update_def Let_def record_runtime_update_def put_status_def tinsert_Some_iff
      split: if_split_asm option.split_asm)

lemma apply_update_log:
  assumes "apply_update cfg ds u st db = Inr db'"
  obtains st' where "v_receipts db' = v_receipts db"
    "v_updates db' = v_updates db @ [((runtime_id (claimed_target u), u_event_id u), (u_sequence u, vc_digest cfg u))]"
    "tget (v_updates db) (runtime_id (claimed_target u), u_event_id u) = None"
    "v_status db' = tput (runtime_id (claimed_target u)) st' (v_status db)" "rs_sequence st' = u_sequence u" "rs_quarantined st' = rs_quarantined st"
proof (cases "is_ready (u_body u)")
  case True
  then obtain p where p: "u_body u = Ready p" by (cases "u_body u") auto
  then have "finish_update cfg u (register_ready (claimed_target u) p st) db = Inr db'"
    using assms by (auto simp: apply_update_def split: if_split_asm)
  note l = finish_update_log[OF this]
  show ?thesis by (rule that[OF l]) (simp_all add: register_ready_def)
next
  case False
  then obtain db1 where d: "project_update cfg ds u (rs_progress_kinds st) db = Inr db1" "finish_update cfg u st db1 = Inr db'"
    using assms by (cases "u_body u") (auto simp: apply_update_def sbind_eq_Inr split: if_split_asm)
  note l = finish_update_log[OF d(2)]
  have "v_receipts db1 = v_receipts db" "v_updates db1 = v_updates db" "v_status db1 = v_status db"
    using project_update_silent[OF d(1)] by (auto simp: silent_def)
  then show ?thesis using l by (intro that[where st' = "st\<lparr>rs_sequence := u_sequence u, rs_boot_id := u_boot_id u\<rparr>"]) auto
qed

lemma receive_cases:
  assumes "receive cfg ds subject u db = (r, db')"
  obtains (unchanged) "db' = db"
  | (applied) "apply_update cfg ds u (status_of (runtime_id (claimed_target u)) db) db = Inr db'"
      "\<not> rs_quarantined (status_of (runtime_id (claimed_target u)) db)"
      "u_sequence u = rs_sequence (status_of (runtime_id (claimed_target u)) db) + 1"
      "runtime_update (runtime_id (claimed_target u)) (u_event_id u) db = None"
      "r = Inr (Some (update_reply u Committed None None))"
  | (quarantined) code where "db' = quarantine u code db"
proof -
  consider "db' = db" | x where "commit_update cfg ds u db = Inr (x, db')" "r = Inr (Some (update_reply u Committed None None))"
    | code where "db' = quarantine u code db"
    using assms by (auto simp: receive_def run_tx_def split: if_split_asm sum.split_asm prod.split_asm vcp_exn.split_asm)
  then show ?thesis
  proof cases
    case (2 x)
    from 2(1) show ?thesis by (cases rule: commit_update_cases) (use unchanged applied 2(2) in auto)
  qed (use unchanged quarantined in auto)
qed

lemma receive_kept:
  assumes "receive cfg ds subject u db = (r, db')"
  shows "vcp_receipts_kept db db'"
  using assms
proof (cases rule: receive_cases)
  case applied
  from applied(1) show ?thesis by (cases rule: apply_update_log) (simp add: vcp_receipts_kept_def)
qed (auto simp: vcp_receipts_kept_def quarantine_def put_status_def Let_def split: option.splits)

lemma mark_published_silent: "silent db (mark_published n db)"
  by (auto simp: silent_def mark_published_def split: option.splits)

lemma settle_silent:
  assumes inv: "vcp_inv s" and t: "tget (vm_tasks s) oid = Some (Calling r rt)" and run: "settle_call cfg ds r rt result (vm_db s) = Inr db"
  shows "silent (vm_db s) db"
proof -
  note T = task_ofD[OF inv t, simplified]
  from run show ?thesis
  proof (cases rule: settle_call_cases)
    case (completed verb locator err)
    then show ?thesis using complete_quiet(4-6)[OF T(4,1,2) completed] by (simp add: silent_def)
  qed (simp add: silent_def put_operation_def)
qed

lemma claim_silent: "claim_operation d r db = (r1, db') \<Longrightarrow> silent db db'"
  by (auto simp: claim_operation_def Let_def silent_def put_operation_def split: if_split_asm)

lemma vcp_step_kept:
  assumes "vcp_step cfg s t" and "vcp_inv s"
  shows "vcp_receipts_kept (vm_db s) (vm_db t)"
  using assms(1)
proof cases
  case (claim oid r d r1 db)
  then show ?thesis using claim_silent silent_kept by (auto simp: claim_task_def new_pass_def split: option.splits)
qed (use serve_kept receive_kept deliver_silent silent_kept mark_published_silent settle_silent[OF assms(2)] in \<open>auto simp: new_pass_def\<close>)

lemma vcp_steps_kept:
  assumes "vcp_steps cfg s t" and "vcp_inv s"
  shows "vcp_receipts_kept (vm_db s) (vm_db t)"
  using assms(1) unfolding vcp_steps_def
proof (induction rule: rtranclp_induct)
  case (step y z)
  have "vcp_inv y" using vcp_steps_forward[of cfg s y] step(1) assms(2) by (simp add: vcp_steps_def)
  then show ?case using vcp_step_kept[OF step(2)] step(3) vcp_receipts_kept_trans by blast
qed simp

section \<open>The update log\<close>

text \<open>The sequence numbers committed for a runtime, in the order of their commits.\<close>

definition committed :: "string \<Rightarrow> vcp_db \<Rightarrow> nat list" where
  "committed rid db = map (fst \<circ> snd) (filter (\<lambda>p. fst (fst p) = rid) (v_updates db))"

definition log_ok :: "vcp_db \<Rightarrow> bool" where
  "log_ok db \<longleftrightarrow> twf (v_updates db) \<and> (\<forall>rid. committed rid db = [1..<rs_sequence (status_of rid db) + 1])"

lemma log_ok_silent: "silent db db' \<Longrightarrow> log_ok db' = log_ok db"
  by (simp add: silent_def log_ok_def committed_def status_of_def)

lemma receive_log:
  assumes "receive cfg ds subject u db = (r, db')" and "log_ok db"
  shows "log_ok db'"
  using assms(1)
proof (cases rule: receive_cases)
  case applied
  from applied(1) show ?thesis
  proof (cases rule: apply_update_log)
    case l: (1 st')
    define rid where "rid = runtime_id (claimed_target u)"
    have "status_of x db' = (if x = rid then st' else status_of x db)" for x by (simp add: status_of_def l(4) rid_def)
    moreover have "committed x db' = (if x = rid then committed x db @ [u_sequence u] else committed x db)" for x
      by (simp add: committed_def l(2) rid_def)
    ultimately have "committed x db' = [1..<rs_sequence (status_of x db') + 1]" for x
      using assms(2) applied(3) l(5) by (auto simp: log_ok_def rid_def)
    moreover have "twf (v_updates db')" using assms(2) l(2,3) twf_append_single by (auto simp: log_ok_def)
    ultimately show ?thesis by (simp add: log_ok_def)
  qed
next
  case (quarantined code)
  define rid where "rid = runtime_id (claimed_target u)"
  show ?thesis
  proof (cases "tget (v_status db) rid")
    case (Some st)
    then have "rs_sequence (status_of x db') = rs_sequence (status_of x db)" for x
      by (simp add: quarantined quarantine_def rid_def Let_def put_status_def status_of_def)
    moreover have "v_updates db' = v_updates db" using Some by (simp add: quarantined quarantine_def rid_def Let_def put_status_def)
    ultimately show ?thesis using assms(2) by (simp add: log_ok_def committed_def)
  qed (use quarantined assms(2) in \<open>simp add: quarantine_def rid_def Let_def\<close>)
qed (use assms(2) in simp)

lemma serve_log:
  assumes "serve cfg c rq db = (r, db')"
  shows "v_updates db' = v_updates db \<and> v_status db' = v_status db"
proof (cases r)
  case (Inr resp)
  with assms have "serve cfg c rq db = (Inr resp, db')" by simp
  then show ?thesis
    by (cases rule: serve_cases) (auto simp: silent_def dest: accept_silent)
qed (use assms serve_Inl in fastforce)

text \<open>The log of a runtime only grows.\<close>

definition log_grows :: "vcp_db \<Rightarrow> vcp_db \<Rightarrow> bool" where
  "log_grows db db' \<longleftrightarrow> (\<exists>rows. v_updates db' = v_updates db @ rows)"

lemma receive_grows:
  assumes "receive cfg ds subject u db = (r, db')"
  shows "log_grows db db'"
  using assms
proof (cases rule: receive_cases)
  case applied
  from applied(1) show ?thesis by (cases rule: apply_update_log) (auto simp: log_grows_def)
qed (auto simp: log_grows_def quarantine_def Let_def put_status_def split: option.splits)

lemma vcp_step_log:
  assumes "vcp_step cfg s t" and "vcp_inv s"
  shows "log_ok (vm_db s) \<Longrightarrow> log_ok (vm_db t)" "log_grows (vm_db s) (vm_db t)"
proof -
  have quiet: "(log_ok (vm_db s) \<longrightarrow> log_ok db) \<and> log_grows (vm_db s) db"
    if "v_updates db = v_updates (vm_db s)" "v_status db = v_status (vm_db s)" for db
    using that by (simp add: log_ok_def committed_def status_of_def log_grows_def)
  have "(log_ok (vm_db s) \<longrightarrow> log_ok (vm_db t)) \<and> log_grows (vm_db s) (vm_db t)"
    using assms(1)
  proof cases
    case (public c rq r db)
    then show ?thesis using quiet serve_log by simp
  next
    case (claim oid r d r1 db)
    then have "vm_db t = db" by (simp add: claim_task_def new_pass_def split: option.splits)
    then show ?thesis using quiet claim_silent[OF claim(3)] by (simp add: silent_def)
  next
    case (settle oid r rt ds result db)
    then show ?thesis using quiet settle_silent[OF assms(2)] by (simp add: silent_def)
  next
    case (update ds subject u r db)
    then show ?thesis using receive_log receive_grows by simp
  next
    case (delivery cid e ds schema a r db)
    then show ?thesis using quiet deliver_silent by (simp add: silent_def)
  next
    case (publication n)
    then show ?thesis using quiet mark_published_silent by (simp add: silent_def)
  qed (use quiet in \<open>auto simp: new_pass_def\<close>)
  then show "log_ok (vm_db s) \<Longrightarrow> log_ok (vm_db t)" "log_grows (vm_db s) (vm_db t)" by auto
qed

lemma vcp_reachable_log: "vcp_reachable cfg s \<Longrightarrow> log_ok (vm_db s)"
proof (induction rule: vcp_reachable_induct)
  case init
  then show ?case
    by (simp add: log_ok_def initial_vcp_def empty_vcp_def committed_def status_of_def unregistered_status_def)
next
  case (step s t)
  then show ?case using vcp_step_log(1) vcp_reachable_inv by blast
qed

end
