(* ===== verification/Vcp_Properties.thy ===== *)
theory Vcp_Properties
  imports Vcp_Updates
begin

text \<open>
  The properties of the virtual control plane: its commands are idempotent and atomic, lifecycle
  operations exclude each other per workspace, its view of the attempts is exact, and the update
  handler commits each runtime's stream once and in order.
\<close>

section \<open>Commands\<close>

lemma vcp_execute_replayed: "stored_response rq db0 = Some r \<Longrightarrow> vcp_execute cfg ds prepare inside rq e db0 db = (Inr r, db)"
  using replay_Some_iff[of rq db0 r] by (simp add: vcp_execute_def execute_preflight_def)

text \<open>
  C15: a public command that changed anything is answered with the same response, and nothing
  changes, whenever it is sent again: after any further steps of the service, aborted worker
  passes and restarts included, and with other draws. For execute this covers both halves, the
  preflight and the acceptance, with any steps in between.
\<close>

theorem vcp_command_redelivered:
  assumes "vcp_reachable cfg s" and "fresh_draws (vm_db s) (draws_of c)"
    and "serve cfg c rq (vm_db s) = (Inr r, db)" and "db \<noteq> vm_db s"
    and "vcp_steps cfg (s\<lparr>vm_db := db\<rparr>) t" and "vcp_steps cfg t t'"
  shows "serve cfg c' rq (vm_db t) = (Inr r, vm_db t)
    \<and> vcp_execute cfg ds prepare inside rq e (vm_db t) (vm_db t') = (Inr r, vm_db t')"
proof -
  have inv: "vcp_inv s" by (rule vcp_reachable_inv[OF assms(1)])
  then have "vcp_inv (s\<lparr>vm_db := db\<rparr>)"
    using vcp_inv_change serve_change[OF _ assms(2,3)] by (simp add: vcp_inv_def)
  then have k: "vcp_receipts_kept db (vm_db t)" using vcp_steps_kept[OF assms(5)] by simp
  have "stored_response rq (vm_db t) = Some r"
    using vcp_receiver.changed_once[OF assms(3,4)] vcp_receiver.kept[OF k] by auto
  then show ?thesis using vcp_receiver.redelivered[OF assms(3,4) k] vcp_execute_replayed by simp
qed


section \<open>Lifecycle\<close>

text \<open>
  C17: the worker never has two provider calls in flight for one workspace and never more than
  eight in all; each call acts for an operation that is unfinished on disk, with the ownership
  record the workspace has now.
\<close>

theorem one_call_per_workspace:
  assumes "vcp_reachable cfg s"
  shows "length (vm_tasks s) \<le> 8
    \<and> (\<forall>o1 o2 t1 t2. tget (vm_tasks s) o1 = Some t1 \<and> tget (vm_tasks s) o2 = Some t2
         \<and> workspace_of (task_record t1) = workspace_of (task_record t2) \<longrightarrow> o1 = o2)
    \<and> (\<forall>oid r rt. tget (vm_tasks s) oid = Some (Calling r rt) \<longrightarrow> tget (v_operations (vm_db s)) oid = Some r \<and> unfinished r
         \<and> tget (v_runtimes (vm_db s)) (workspace_of r) = Some rt)"
proof -
  have inv: "vcp_inv s" by (rule vcp_reachable_inv[OF assms])
  have "o1 = o2" if "tget (vm_tasks s) o1 = Some t1" "tget (vm_tasks s) o2 = Some t2"
      "workspace_of (task_record t1) = workspace_of (task_record t2)" for o1 o2 t1 t2
    using one_unfinished[OF task_ofD(4)[OF inv that(1)] task_ofD(1,2)[OF inv that(1)] task_ofD(1,2)[OF inv that(2)] that(3)] .
  moreover have "tget (v_operations (vm_db s)) oid = Some r \<and> unfinished r \<and> tget (v_runtimes (vm_db s)) (workspace_of r) = Some rt"
    if "tget (vm_tasks s) oid = Some (Calling r rt)" for oid r rt
    using task_ofD(1,2)[OF inv that] inv that by (auto simp: vcp_inv_def tasks_ok_def task_ok_def)
  ultimately show ?thesis using inv by (auto simp: vcp_inv_def tasks_ok_def max_tasks_def)
qed

text \<open>
  C18: a workspace is locked by at most one unfinished lifecycle operation, which is on disk, its
  own, and of the kind its state shows; an unfinished lifecycle operation always holds its
  workspace. A workspace owns a runtime record until it is destroyed, a ready workspace shows the
  runtime it owns, and names identify workspaces.
\<close>

theorem workspace_lifecycle:
  assumes "vcp_reachable cfg s" and "get_workspace k (vm_db s) = Some d"
  shows "(case wd_active_operation_id d of
       None \<Rightarrow> w_state (wd_snapshot d) \<notin> {WProvisioning, WDestroying}
     | Some oid \<Rightarrow> \<exists>r. tget (v_operations (vm_db s)) oid = Some r \<and> unfinished r \<and> workspace_of r = k
         \<and> lock_state (o_operation (od_snapshot r)) = Some (w_state (wd_snapshot d)))
    \<and> (\<forall>oid r. tget (v_operations (vm_db s)) oid = Some r \<and> unfinished r \<and> workspace_of r = k \<longrightarrow> wd_active_operation_id d = Some oid)
    \<and> (tget (v_runtimes (vm_db s)) k = None \<longleftrightarrow> w_state (wd_snapshot d) = WDestroyed)
    \<and> (w_state (wd_snapshot d) = WReady \<longrightarrow> running_runtime (wd_snapshot d) (tget (v_runtimes (vm_db s)) k))
    \<and> (\<forall>k' d'. get_workspace k' (vm_db s) = Some d' \<and> w_name (wd_snapshot d') = w_name (wd_snapshot d) \<longrightarrow> k' = k)"
proof -
  have inv: "lifecycle_inv (vm_db s)" using vcp_reachable_inv[OF assms(1)] by (simp add: vcp_inv_def db_inv_def)
  have "wd_active_operation_id d = Some oid" if "tget (v_operations (vm_db s)) oid = Some r" "unfinished r" "workspace_of r = k" for oid r
    using lifecycle_invD(5)[OF inv that(1)] that(2,3) assms(2) by (auto simp: operation_ok_def)
  moreover have "k' = k" if "get_workspace k' (vm_db s) = Some d'" "w_name (wd_snapshot d') = w_name (wd_snapshot d)" for k' d'
    using lifecycle_invD(3)[OF inv] that assms(2) unfolding names_unique_def by blast
  ultimately show ?thesis
    using lifecycle_invD(4)[OF inv assms(2)] by (auto simp: workspace_ok_def lock_ok_def runtime_ok_def)
qed

section \<open>Attempts\<close>

text \<open>
  C19: the active attempts a workspace lists are exactly its unfinished attempts, each once; the
  workspace is then ready and the runtime of each is still owned. A session has at most one
  unfinished attempt, and an idle session has none.
\<close>

theorem active_attempts_exact:
  assumes "vcp_reachable cfg s" and "get_workspace k (vm_db s) = Some d"
  shows "distinct (w_active_attempt_ids (wd_snapshot d))
    \<and> (\<forall>aid. aid \<in> set (w_active_attempt_ids (wd_snapshot d)) \<longleftrightarrow>
         (\<exists>a b. tget (v_attempts (vm_db s)) aid = Some a \<and> tget (v_bindings (vm_db s)) aid = Some b
            \<and> workspace_id (bd_target b) = k \<and> \<not> ended_state (va_state (ad_snapshot a))))
    \<and> (\<forall>aid b. aid \<in> set (w_active_attempt_ids (wd_snapshot d)) \<and> tget (v_bindings (vm_db s)) aid = Some b \<longrightarrow>
         w_state (wd_snapshot d) = WReady \<and> owned_by (tget (v_runtimes (vm_db s)) k) (bd_target b))
    \<and> (\<forall>x a b y a' b'. tget (v_attempts (vm_db s)) x = Some a \<and> tget (v_bindings (vm_db s)) x = Some b
         \<and> tget (v_attempts (vm_db s)) y = Some a' \<and> tget (v_bindings (vm_db s)) y = Some b'
         \<and> \<not> ended_state (va_state (ad_snapshot a)) \<and> \<not> ended_state (va_state (ad_snapshot a'))
         \<and> session_id (bd_target b) = session_id (bd_target b') \<longrightarrow> x = y)
    \<and> (\<forall>x a b ses. tget (v_attempts (vm_db s)) x = Some a \<and> tget (v_bindings (vm_db s)) x = Some b
         \<and> tget (v_sessions (vm_db s)) (session_id (bd_target b)) = Some ses \<and> s_state (sd_snapshot ses) = SessIdle
         \<longrightarrow> ended_state (va_state (ad_snapshot a)))"
proof -
  have inv: "lifecycle_inv (vm_db s)" "attempt_inv (vm_db s)" using vcp_reachable_inv[OF assms(1)] by (auto simp: vcp_inv_def db_inv_def)
  note ok = attempt_invD(2)[OF inv(2) assms(2)] and ws = lifecycle_invD(4)[OF inv(1) assms(2)]
  have pl: "(aid \<in> set (actives d) \<longleftrightarrow> live a) \<and> (live a \<longrightarrow> owned_by (tget (v_runtimes (vm_db s)) k) (bd_target b))"
    if "tget (v_attempts (vm_db s)) aid = Some a" "tget (v_bindings (vm_db s)) aid = Some b" "workspace_id (bd_target b) = k" for aid a b
    using attempt_invD(1)[OF inv(2) that(1)] that(2,3) assms(2) by (auto simp: attempt_ok_def placed_def)
  have mem: "\<exists>a b. tget (v_attempts (vm_db s)) aid = Some a \<and> tget (v_bindings (vm_db s)) aid = Some b \<and> workspace_id (bd_target b) = k"
    if "aid \<in> set (actives d)" for aid using ok that by (auto simp: actives_ok_def)
  have idle: "\<not> live a" if "tget (v_attempts (vm_db s)) x = Some a" "tget (v_bindings (vm_db s)) x = Some b"
      "tget (v_sessions (vm_db s)) (session_id (bd_target b)) = Some ses" "s_state (sd_snapshot ses) = SessIdle" for x a b ses
    using attempt_invD(1)[OF inv(2) that(1)] that by (auto simp: attempt_ok_def placed_def)
  show ?thesis
  proof (intro conjI allI impI)
    fix aid show "aid \<in> set (actives d) \<longleftrightarrow> (\<exists>a b. tget (v_attempts (vm_db s)) aid = Some a \<and> tget (v_bindings (vm_db s)) aid = Some b
            \<and> workspace_id (bd_target b) = k \<and> live a)" using pl mem by blast
  next
    fix aid b assume a: "aid \<in> set (actives d) \<and> tget (v_bindings (vm_db s)) aid = Some b"
    then show "w_state (wd_snapshot d) = WReady" using ws by (auto simp: workspace_ok_def)
    show "owned_by (tget (v_runtimes (vm_db s)) k) (bd_target b)" using a pl mem by fastforce
  next
    fix x a b y a' b'
    assume "tget (v_attempts (vm_db s)) x = Some a \<and> tget (v_bindings (vm_db s)) x = Some b
         \<and> tget (v_attempts (vm_db s)) y = Some a' \<and> tget (v_bindings (vm_db s)) y = Some b' \<and> live a \<and> live a'
         \<and> session_id (bd_target b) = session_id (bd_target b')"
    then show "x = y" using attempt_invD(3)[OF inv(2)] unfolding exclusive_def by blast
  qed (use ok idle in \<open>auto simp: actives_ok_def\<close>)
qed

text \<open>
  C20: an attempt only moves along its state machine, across any steps of the service; an ended
  attempt's view never changes again, and the first cancel that reached an attempt stays the one
  on record.
\<close>

theorem vcp_attempt_forward:
  assumes "vcp_reachable cfg s" and "vcp_steps cfg s t" and "tget (v_attempts (vm_db s)) aid = Some a"
  shows "\<exists>a'. tget (v_attempts (vm_db t)) aid = Some a' \<and> vmoves (va_state (ad_snapshot a)) (va_state (ad_snapshot a'))
    \<and> (ended_state (va_state (ad_snapshot a)) \<longrightarrow> ad_snapshot a' = ad_snapshot a)
    \<and> (\<forall>c. ad_cancel a = Some c \<longrightarrow> (\<exists>c'. ad_cancel a' = Some c' \<and> cn_command_id c' = cn_command_id c \<and> cn_cause c' = cn_cause c))"
  using vcp_steps_forward[OF assms(2) vcp_reachable_inv[OF assms(1)]] assms(3)
  unfolding attempts_forward_def forward_def cancel_kept_def by meson

text \<open>
  C21: what waits for an attempt is settled with it. An attempt is cancelled or cancelling only by a
  recorded cancel; every cancel operation that joined it is pending while the attempt is unfinished and has
  succeeded once it ended; and no steering command of an ended attempt is pending.
\<close>

theorem cancels_and_steering_settled:
  assumes "vcp_reachable cfg s" and "tget (v_attempts (vm_db s)) aid = Some a"
  shows "(va_state (ad_snapshot a) \<in> {VCancelling, VCancelled} \<longrightarrow> ad_cancel a \<noteq> None)
    \<and> (\<forall>c oid. ad_cancel a = Some c \<and> oid \<in> set (cn_operation_ids c) \<longrightarrow>
         (\<exists>r. tget (v_operations (vm_db s)) oid = Some r \<and> o_operation (od_snapshot r) = OpCancel
            \<and> o_status (od_snapshot r) = (if ended_state (va_state (ad_snapshot a)) then OpSucceeded else OpPending)))
    \<and> (\<forall>cid c. tget (v_steering (vm_db s)) cid = Some c \<and> attempt_id (target (sc_command c)) = aid
         \<and> ended_state (va_state (ad_snapshot a)) \<longrightarrow> sc_status c \<noteq> StPending)"
proof -
  have inv: "attempt_inv (vm_db s)" using vcp_reachable_inv[OF assms(1)] by (auto simp: vcp_inv_def db_inv_def)
  have ok: "cancels_ok (vm_db s) aid a" using attempt_invD(1)[OF inv assms(2)] by (simp add: attempt_ok_def)
  have "sc_status c \<noteq> StPending" if "tget (v_steering (vm_db s)) cid = Some c" "attempt_id (target (sc_command c)) = aid" "\<not> live a" for cid c
    using attempt_invD(5)[OF inv that(1)] that(2,3) assms(2) by (auto simp: steering_ok_def)
  moreover have "\<exists>r. tget (v_operations (vm_db s)) oid = Some r \<and> o_operation (od_snapshot r) = OpCancel
      \<and> o_status (od_snapshot r) = (if ended_state (va_state (ad_snapshot a)) then OpSucceeded else OpPending)"
    if "ad_cancel a = Some c" "oid \<in> set (cn_operation_ids c)" for c oid
    using ok that by (auto simp: cancels_ok_def)
  moreover have "va_state (ad_snapshot a) \<in> {VCancelling, VCancelled} \<longrightarrow> ad_cancel a \<noteq> None"
    using ok by (cases "ad_cancel a") (auto simp: cancels_ok_def)
  ultimately show ?thesis by blast
qed

section \<open>Updates\<close>


lemma vcp_steps_grow:
  assumes "vcp_steps cfg s t" and "vcp_inv s"
  shows "log_grows (vm_db s) (vm_db t)"
  using assms(1) unfolding vcp_steps_def
proof (induction rule: rtranclp_induct)
  case (step y z)
  have "vcp_inv y" using vcp_steps_forward[of cfg s y] step(1) assms(2) by (simp add: vcp_steps_def)
  from vcp_step_log(2)[OF step(2) this] step(3) show ?case by (auto simp: log_grows_def)
qed (simp add: log_grows_def)

text \<open>
  C23: the updates committed for a runtime are numbered 1, 2, 3, ... in the order of their commits,
  up to the sequence the runtime's status shows; no event is committed twice, and nothing is ever
  taken back.
\<close>

theorem updates_committed_in_order:
  assumes "vcp_reachable cfg s" and "vcp_steps cfg s t"
  shows "committed rid (vm_db s) = [1..<rs_sequence (status_of rid (vm_db s)) + 1]
    \<and> distinct (map fst (v_updates (vm_db s))) \<and> (\<exists>later. v_updates (vm_db t) = v_updates (vm_db s) @ later)"
  using vcp_reachable_log[OF assms(1)] vcp_steps_grow[OF assms(2) vcp_reachable_inv[OF assms(1)]]
  by (auto simp: log_ok_def twf_def tkeys_def log_grows_def)

section \<open>The worker\<close>

text \<open>An event the service may append: the contract holds and its identity is new.\<close>

definition event_fresh :: "draw \<Rightarrow> vcp_db \<Rightarrow> bool" where
  "event_fresh dr db \<longleftrightarrow> list_all (\<lambda>(n, r). ox_event_id r \<noteq> identity ''evt_'' (d_uuid dr)) (v_outbox db)"

lemma append_event_ok:
  assumes "\<And>e. vc_event_ok cfg e" and "event_fresh dr db"
  shows "\<exists>db'. append_event (vc_event_ok cfg) (event dr w op path payload) db = Inr db'"
  using assms by (auto simp: append_event_def event_def event_fresh_def Let_def list_all_iff)

lemma complete_returns:
  assumes inv: "lifecycle_inv db" and r: "tget (v_operations db) oid = Some r" "unfinished r"
    and verb: "verb_of (kind_of r) = Some verb" and ok: "\<And>e. vc_event_ok cfg e" "event_fresh (ds 1) db"
  shows "\<exists>db'. complete cfg ds r verb locator err db = Inr db'"
proof -
  obtain d where d: "get_workspace (workspace_of r) db = Some d" using held_workspace[OF inv r] .
  obtain rt where rt: "tget (v_runtimes db) (workspace_of r) = Some rt" using unfinished_owned[OF inv r] .
  have ret: "od_retention r \<noteq> None" if "verb = VDestroy"
    using lifecycle_invD(5)[OF inv r(1)] r(2) verb that by (cases "kind_of r") (auto simp: operation_ok_def)
  have fin: "od_retention (finished_operation ts x r) = od_retention r" for ts x by (simp add: finished_operation_def)
  have del: "event_fresh (ds 1) (delete_runtime k db)" for k using ok(2) by (simp add: event_fresh_def delete_runtime_def)
  show ?thesis
  proof (cases verb)
    case VEnsure
    then show ?thesis using d rt by (auto simp: complete_def Let_def complete_ensure_def)
  next
    case VProvision
    then show ?thesis using d rt append_event_ok[OF ok]
      by (cases err) (auto simp: complete_def Let_def complete_ready_def complete_failed_def, (metis sbind_Inr)+)
  next
    case VDestroy
    then show ?thesis using d rt ret append_event_ok[OF ok] append_event_ok[OF ok(1) del]
      by (cases err) (auto simp: complete_def Let_def complete_destroyed_def complete_failed_def fin, (metis sbind_Inr)+)
  qed
qed

lemma verb_of_unfinished: "unfinished r \<Longrightarrow> \<exists>verb. verb_of (kind_of r) = Some verb"
  by (auto simp: unfinished_def)

lemma settle_returns:
  assumes inv: "lifecycle_inv db" and r: "tget (v_operations db) oid = Some r" "unfinished r"
    and ok: "\<And>e. vc_event_ok cfg e" "event_fresh (ds 1) db"
  shows "\<exists>db'. settle_call cfg ds r rt outcome db = Inr db'"
proof -
  obtain verb where verb: "verb_of (kind_of r) = Some verb" using verb_of_unfinished[OF r(2)] by blast
  note C = complete_returns[OF inv r verb, of cfg ds, OF ok]
  have R: "\<exists>db'. retry cfg ds r verb failure db = Inr db'" for failure using C by (simp add: retry_def Let_def)
  show ?thesis using C R by (auto simp: settle_call_def verb split: call_outcome.splits)
qed

lemma complete_outcome:
  assumes inv: "lifecycle_inv db" and r: "tget (v_operations db) oid = Some r" "unfinished r"
    and run: "complete cfg ds r verb locator err db = Inr db'"
  shows "\<exists>r' d'. tget (v_operations db') oid = Some r' \<and> o_status (od_snapshot r') = (if err = None then OpSucceeded else OpFailed)
    \<and> get_workspace (workspace_of r) db' = Some d' \<and> wd_active_operation_id d' = None"
proof -
  obtain d where d: "get_workspace (workspace_of r) db = Some d" "wd_active_operation_id d = Some oid"
    and oid: "o_operation_id (od_snapshot r) = oid" using held_workspace[OF inv r] .
  have st: "o_status (od_snapshot (finished_operation ts err r)) = (if err = None then OpSucceeded else OpFailed)" for ts
    by (simp add: finished_operation_def)
  have ws: "wd_active_operation_id (release_lock oid d) = None" using d(2) by simp
  have put: "\<exists>r'' d''. tget (v_operations (save_completion (workspace_of r) d' r' rt db0)) oid = Some r''
      \<and> o_status (od_snapshot r'') = (if err = None then OpSucceeded else OpFailed)
      \<and> get_workspace (workspace_of r) (save_completion (workspace_of r) d' r' rt db0) = Some d'' \<and> wd_active_operation_id d'' = None"
    if "o_operation_id (od_snapshot r') = oid" "o_status (od_snapshot r') = (if err = None then OpSucceeded else OpFailed)"
      "wd_active_operation_id d' = None" for d' r' rt db0
    using that save_completion_tables(8,10)[OF that(1)] by simp
  have res: "o_status (od_snapshot (with_result x y)) = o_status (od_snapshot y)" for x y by (simp add: with_result_def)
  from run d(1) show ?thesis
  proof (cases rule: complete_saved)
    case (ensured runtime r1)
    have "o_operation_id (od_snapshot r1) = oid" "o_status (od_snapshot r1) = (if err = None then OpSucceeded else OpFailed)"
      using ensured(2) oid st by (auto simp: complete_ensure_def finished_operation_done res split: if_split_asm option.split_asm)
    then show ?thesis unfolding ensured(3) using put ws oid by simp
  qed (use put ws oid st res finished_operation_done in simp_all)
qed


text \<open>The provider keeps timing out: the operation's record as it is on disk is called again, at most \<open>n\<close> times.\<close>

fun keep_failing :: "vcp_cfg \<Rightarrow> (nat \<Rightarrow> nat \<Rightarrow> draw) \<Rightarrow> string \<Rightarrow> runtime_doc \<Rightarrow> nat \<Rightarrow> vcp_db \<Rightarrow> vcp_exn + vcp_db" where
  "keep_failing cfg dss oid rt 0 db = Inr db"
| "keep_failing cfg dss oid rt (Suc n) db = (case tget (v_operations db) oid of
     None \<Rightarrow> Inl VTypeError
   | Some r \<Rightarrow> if unfinished r then sbind (settle_call cfg (dss n) r rt TimedOut db) (keep_failing cfg dss oid rt n) else Inr db)"

definition gave_up_on :: "string \<Rightarrow> string \<Rightarrow> vcp_db \<Rightarrow> bool" where
  "gave_up_on oid k db \<longleftrightarrow> (\<exists>r d. tget (v_operations db) oid = Some r \<and> o_status (od_snapshot r) = OpFailed
     \<and> get_workspace k db = Some d \<and> wd_active_operation_id d = None)"

lemma keep_failing_done: "gave_up_on oid k db \<Longrightarrow> keep_failing cfg dss oid rt n db = Inr db"
  by (cases n) (auto simp: gave_up_on_def unfinished_def split: option.splits)

lemma timed_out_cases:
  assumes inv: "lifecycle_inv db" and r: "tget (v_operations db) oid = Some r" "unfinished r"
    and run: "settle_call cfg ds r rt TimedOut db = Inr db'"
  obtains (ended) "gave_up_on oid (workspace_of r) db'"
  | (later) r' where "retried_operation r r'" "db' = put_operation oid r' db"
proof -
  have oid: "o_operation_id (od_snapshot r) = oid" using lifecycle_invD(2)[OF inv] r(1) by (simp add: op_keys_def)
  have gu: "gave_up_on oid (workspace_of r) db'" if "complete cfg ds r verb loc (Some e) db = Inr db'" for verb loc e
    using complete_outcome[OF inv r that] by (auto simp: gave_up_on_def)
  show ?thesis using run gu ended later oid
    by (auto simp: settle_call_def split: option.split_asm if_split_asm elim!: retry_cases)
qed

lemma keep_failing_ends:
  assumes "lifecycle_inv db" and "tget (v_operations db) oid = Some r" "unfinished r" "8 \<le> od_attempts r + n"
    and "\<And>e. vc_event_ok cfg e" and "\<And>i. event_fresh (dss i 1) db" and "0 < n"
  shows "\<exists>db'. keep_failing cfg dss oid rt n db = Inr db' \<and> gave_up_on oid (workspace_of r) db'"
  using assms
proof (induction n arbitrary: db r)
  case (Suc n)
  obtain db1 where db1: "settle_call cfg (dss n) r rt TimedOut db = Inr db1"
    using settle_returns[OF Suc.prems(1-3), of cfg "dss n", OF Suc.prems(5,6)] by blast
  have run: "keep_failing cfg dss oid rt (Suc n) db = keep_failing cfg dss oid rt n db1" using Suc.prems(2,3) db1 by simp
  from Suc.prems(1-3) db1 show ?case
  proof (cases rule: timed_out_cases)
    case ended
    then show ?thesis using run keep_failing_done by simp
  next
    case (later r')
    have r': "unfinished r'" "od_attempts r' = od_attempts r + 1" "od_attempts r' < 8" "workspace_of r' = workspace_of r"
      using later(1) Suc.prems(3) retried_unfinished[OF later(1)] by (auto simp: retried_operation_def workspace_of_def max_attempts_def)
    have "lifecycle_inv db1" by (rule settle_call_inv[OF Suc.prems(1-3) db1])
    moreover have "tget (v_operations db1) oid = Some r'" by (simp add: later(2) put_operation_def)
    moreover have "event_fresh (dss i 1) db1" for i using Suc.prems(6) by (simp add: later(2) put_operation_def event_fresh_def)
    ultimately show ?thesis using Suc.IH[of db1 r'] r' Suc.prems(4,5) run by auto
  qed
qed simp


end
