(* ===== verification/Vcp_Pages.thy ===== *)
theory Vcp_Pages
  imports Vcp_Reachable
begin

text \<open>
  The virtual control plane's history page, which seeks each kind of entry on its own and merges
  the bounded results, equals one bounded read of all kinds.
\<close>

section \<open>Bounded reads of sorted lists\<close>

lemma take_filter_prefix:
  assumes "\<And>x. x \<in> set (take n xs) \<Longrightarrow> P x"
  shows "take n (filter P xs) = take n xs"
proof -
  have "filter P xs = filter P (take n xs) @ filter P (drop n xs)" by (metis append_take_drop_id filter_append)
  also have "filter P (take n xs) = take n xs" using assms by (simp add: filter_id_conv)
  finally have "take n (filter P xs) = take n (take n xs @ filter P (drop n xs))" by simp
  then show ?thesis by (cases "n \<le> length xs") auto
qed

lemma sorted_key_unique:
  assumes "inj_on f (set xs)" and "set xs = set ys" and "distinct xs" "distinct ys"
    and "sorted (map f xs)" "sorted (map f ys)"
  shows "xs = ys"
proof -
  have d: "distinct (map f xs)" "distinct (map f ys)" using assms by (auto simp: distinct_map)
  have "map f xs = map f ys"
    using sorted_distinct_set_unique[OF assms(5) d(1) assms(6) d(2)] assms(2) by simp
  then show ?thesis using map_inj_on assms(1,2) by (metis Un_absorb)
qed

text \<open>A sorted sublist that contains the first elements has the same first elements.\<close>

lemma take_sorted_sublist:
  assumes inj: "inj_on f (set xs)" and d: "distinct xs" "distinct ys" and s: "sorted (map f xs)" "sorted (map f ys)"
    and sub: "set ys \<subseteq> set xs" and first: "set (take n xs) \<subseteq> set ys"
  shows "take n ys = take n xs"
proof -
  have "ys = filter (\<lambda>x. x \<in> set ys) xs"
    by (rule sorted_key_unique[where f = f]) (use assms in \<open>auto simp: sorted_filter intro: inj_on_subset\<close>)
  moreover have "take n (filter (\<lambda>x. x \<in> set ys) xs) = take n xs" by (rule take_filter_prefix) (use first in auto)
  ultimately show ?thesis by simp
qed

text \<open>An element among the first of a list is among the first of each sublist that contains it.\<close>

lemma in_take_filter:
  assumes "x \<in> set (take n xs)" and "P x"
  shows "x \<in> set (take n (filter P xs))"
proof -
  obtain i where i: "i < n" "i < length xs" "xs ! i = x" using assms(1) by (auto simp: in_set_conv_nth)
  have "xs = take i xs @ x # drop (Suc i) xs" using i id_take_nth_drop by metis
  then have "filter P xs = filter P (take i xs) @ x # filter P (drop (Suc i) xs)" using assms(2) by (metis filter.simps(2) filter_append)
  moreover have "length (filter P (take i xs)) < n" using i by (metis length_filter_le length_take less_imp_le min.absorb2 order_le_less_trans)
  ultimately show ?thesis by (auto simp: take_Cons' )
qed

text \<open>The merge of bounded reads of disjoint classes is the bounded read of their union.\<close>

lemma merge_bounded:
  assumes inj: "inj_on f (set xs)" and d: "distinct xs" "distinct ks"
    and disj: "\<And>x j k. x \<in> set xs \<Longrightarrow> j \<in> set ks \<Longrightarrow> k \<in> set ks \<Longrightarrow> P j x \<Longrightarrow> P k x \<Longrightarrow> j = k"
  shows "take n (sort_key f (concat (map (\<lambda>k. take n (sort_key f (filter (P k) xs))) ks)))
    = take n (sort_key f (filter (\<lambda>x. \<exists>k \<in> set ks. P k x) xs))"
    (is "take n ?merged = take n ?all")
proof (rule take_sorted_sublist[where f = f])
  have in_page: "x \<in> set xs \<and> P k x" if "x \<in> set (take n (sort_key f (filter (P k) xs)))" for k x
    using that by (auto dest: in_set_takeD)
  have "distinct (concat (map (\<lambda>k. take n (sort_key f (filter (P k) xs))) js))" if "distinct js" "set js \<subseteq> set ks" for js
    using that
  proof (induction js)
    case (Cons j js)
    have "x \<notin> set (take n (sort_key f (filter (P i) xs)))"
      if x: "x \<in> set (take n (sort_key f (filter (P j) xs)))" and i: "i \<in> set js" for x i
    proof
      assume "x \<in> set (take n (sort_key f (filter (P i) xs)))"
      then have "i = j" using in_page[OF x] in_page[of x i] disj[of x i j] i Cons.prems(2) by auto
      then show False using i Cons.prems(1) by simp
    qed
    moreover have "distinct (concat (map (\<lambda>k. take n (sort_key f (filter (P k) xs))) js))"
      using Cons by simp
    ultimately show ?case using d(1) by auto
  qed simp
  then show "distinct ?merged" using d(2) by simp
  show "set ?merged \<subseteq> set ?all"
  proof
    fix x assume "x \<in> set ?merged"
    then obtain k where k: "k \<in> set ks" "x \<in> set (take n (sort_key f (filter (P k) xs)))" by auto
    then show "x \<in> set ?all" using in_page[OF k(2)] by auto
  qed
  show "inj_on f (set ?all)" using inj by (auto intro: inj_on_subset)
  show "set (take n ?all) \<subseteq> set ?merged"
  proof
    fix x assume x: "x \<in> set (take n ?all)"
    then obtain k where k: "k \<in> set ks" "P k x" by (auto dest!: in_set_takeD)
    have "filter (P k) ?all = sort_key f (filter (P k) xs)"
      by (rule sorted_key_unique[where f = f]) (use inj d k in \<open>auto simp: sorted_filter intro: inj_on_subset\<close>)
    then have "x \<in> set (take n (sort_key f (filter (P k) xs)))" using in_take_filter[OF x, of "P k"] k(2) by simp
    then show "x \<in> set ?merged" using k(1) by auto
  qed
qed (use d in auto)

section \<open>The history page\<close>

text \<open>Every entry carries the number it is stored under; \<open>append_history\<close> keeps it so.\<close>

definition history_ok :: "vcp_db \<Rightarrow> bool" where
  "history_ok db \<longleftrightarrow> twf (v_history db) \<and> list_all (\<lambda>((s, n), e). he_sequence e = n) (v_history db)"

lemma append_history_ok: "append_history sid e db = Inr (n, db') \<Longrightarrow> history_ok db \<Longrightarrow> history_ok db'"
  by (auto simp: append_history_def history_ok_def Let_def put_session_def tinsert_Some_iff twf_append_single
      split: option.split_asm if_split_asm)

text \<open>The reference: one read of the session's entries of the selected kinds, bounded once.\<close>

definition history_reference ::
  "string \<Rightarrow> history_kind list \<Rightarrow> string option \<Rightarrow> nat \<Rightarrow> nat \<Rightarrow> vcp_db \<Rightarrow> history_entry list" where
  "history_reference sid kinds aid after limit db =
     take limit (sort_key he_sequence (map snd (filter (\<lambda>r. history_match sid aid after r
       \<and> (kinds = [] \<or> he_kind (snd r) \<in> set kinds)) (v_history db))))"

lemma session_entries_inj:
  assumes "history_ok db"
  shows "distinct (map snd (filter (history_match sid aid after) (v_history db)))"
    and "inj_on he_sequence (set (map snd (filter (history_match sid aid after) (v_history db))))"
proof -
  define rows where "rows = filter (history_match sid aid after) (v_history db)"
  have key: "fst r = (sid, he_sequence (snd r))" if "r \<in> set rows" for r
  proof -
    obtain s n e where "r = ((s, n), e)" by (metis surj_pair)
    then show ?thesis using that assms by (auto simp: rows_def history_match_def history_ok_def list_all_iff)
  qed
  have "distinct (map fst rows)" using assms by (simp add: rows_def history_ok_def twf_def tkeys_def distinct_map_filter)
  moreover have "map fst rows = map (Pair sid) (map he_sequence (map snd rows))" using key by simp
  ultimately have "distinct (map he_sequence (map snd rows))" by (metis distinct_map)
  then have "distinct (map snd rows) \<and> inj_on he_sequence (set (map snd rows))" by (simp only: distinct_map)
  then show "distinct (map snd (filter (history_match sid aid after) (v_history db)))"
    and "inj_on he_sequence (set (map snd (filter (history_match sid aid after) (v_history db))))"
    by (simp_all only: rows_def)
qed

lemma history_rows_entries:
  "history_rows sid aid after kind db = sort_key he_sequence (filter (\<lambda>e. case kind of None \<Rightarrow> True | Some k \<Rightarrow> he_kind e = k)
     (map snd (filter (history_match sid aid after) (v_history db))))"
  by (simp add: history_rows_def filter_map o_def conj_commute)

text \<open>
  The store seeks each requested kind on its own, keeps at most \<open>limit\<close> rows of each, merges them by
  sequence and keeps \<open>limit\<close> again; that is exactly the first \<open>limit\<close> entries of one read of all
  requested kinds (all entries when no kind is given).
\<close>

lemma history_page_exact:
  assumes "history_ok db" and "distinct kinds"
  shows "history_page sid kinds aid after limit db = history_reference sid kinds aid after limit db"
proof (cases "kinds = []")
  case True
  then show ?thesis
    by (simp add: history_page_def history_reference_def seeks_def history_rows_def)
       (metis (no_types, lifting) sorted_sort_key sort_key_id_if_sorted sorted_map take_map sorted_wrt_take)
next
  case False
  let ?rows = "map snd (filter (history_match sid aid after) (v_history db))"
  have "history_page sid kinds aid after limit db = take limit (sort_key he_sequence (concat
      (map (\<lambda>k. take limit (sort_key he_sequence (filter (\<lambda>e. he_kind e = k) ?rows))) kinds)))"
    using False by (simp add: history_page_def seeks_def history_rows_entries o_def)
  also have "\<dots> = take limit (sort_key he_sequence (filter (\<lambda>e. \<exists>k \<in> set kinds. he_kind e = k) ?rows))"
    by (rule merge_bounded) (use session_entries_inj[OF assms(1)] assms(2) in auto)
  also have "filter (\<lambda>e. \<exists>k \<in> set kinds. he_kind e = k) ?rows
      = map snd (filter (\<lambda>r. history_match sid aid after r \<and> he_kind (snd r) \<in> set kinds) (v_history db))"
    by (simp add: filter_map o_def conj_commute)
  finally show ?thesis using False by (simp add: history_reference_def)
qed

end
