(* ===== verification/Vcp_History.thy ===== *)
theory Vcp_History
  imports Vcp_Updates Vcp_Pages
begin

text \<open>
  The session queries of the virtual control plane: \<open>Steering.history\<close> with its stored cursors
  (\<open>application/steering.py\<close>, \<open>persistence/durable.py\<close>), \<open>Execution.get\<close> and \<open>Execution.list\<close>
  (\<open>application/execution.py\<close>). The history of a session is append-only and numbered without gaps
  whatever steps the service takes, and a client that follows the cursors of the history query
  while the service goes on sees every matching entry once, in order.

  The collection \<open>history_cursors\<close> is a table of its own here: no command, update or worker
  touches it. Instants of \<open>time.time()\<close> are rational numbers of seconds.
\<close>

section \<open>Stored cursors\<close>

record history_scope =
  hs_tenant :: "string option"
  hs_session_id :: string
  hs_kind :: "history_kind list"
  hs_attempt_id :: "string option"

record history_cursor =
  hc_scope :: history_scope
  hc_after :: nat
  hc_expires_at :: "rat option"

type_synonym cursors = "(string, history_cursor) table"

definition history_cursor_lifetime :: rat where "history_cursor_lifetime = 24 * 60 * 60"

text \<open>
  \<open>save_history_cursor\<close>: cursors are immutable, so a used key is an integrity failure; the expired
  ones go. A cursor without \<open>expires_at\<close> compares as NULL and stays.
\<close>

definition expired :: "rat \<Rightarrow> history_cursor \<Rightarrow> bool" where
  "expired now c = (case hc_expires_at c of None \<Rightarrow> False | Some t \<Rightarrow> t < now)"

definition save_history_cursor :: "rat \<Rightarrow> string \<Rightarrow> history_cursor \<Rightarrow> cursors \<Rightarrow> vcp_exn + cursors" where
  "save_history_cursor now key c cs =
     (case tinsert key (c\<lparr>hc_expires_at := Some (now + history_cursor_lifetime)\<rparr>) cs of
        None \<Rightarrow> Inl IntegrityFailure
      | Some cs1 \<Rightarrow> Inr (filter (\<lambda>(k, x). \<not> expired now x) cs1))"

section \<open>The size of an encoded entry\<close>

text \<open>
  \<open>len(envelopes.encode(entry))\<close>: \<open>json.dumps\<close> without spaces. Every character outside the
  printable ASCII range is escaped, a few of them by two characters and the others by six.
\<close>

definition char_size :: "char \<Rightarrow> nat" where
  "char_size c = (let n = (of_char c :: nat) in
     if n \<in> {34, 92, 8, 9, 10, 12, 13} then 2 else if 32 \<le> n \<and> n \<le> 126 then 1 else 6)"

definition string_size :: "string \<Rightarrow> nat" where
  "string_size s = sum_list (map char_size s) + 2"

fun kind_name :: "history_kind \<Rightarrow> string" where
  "kind_name HMessage = ''message''"
| "kind_name HSteering = ''steering''"
| "kind_name HTool_call = ''tool_call''"
| "kind_name HUsage = ''usage''"

definition entry_fields :: "history_entry \<Rightarrow> (string \<times> string) list" where
  "entry_fields e = [(''kind'', kind_name (he_kind e)), (''attempt_id'', he_attempt_id e), (''occurred_at'', he_occurred_at e)]
     @ he_content e"

text \<open>Each field is its key, a colon, its value and a comma; the last, the number, has no comma.\<close>

definition encoded_size :: "history_entry \<Rightarrow> nat" where
  "encoded_size e = sum_list (map (\<lambda>(k, v). string_size k + string_size v + 2) (entry_fields e))
     + string_size ''sequence'' + 1 + length (show_nat (he_sequence e)) + 2"

section \<open>The history query\<close>

record history_params =
  hp_kind :: "history_kind list"
  hp_attempt_id :: "string option"
  hp_limit :: "nat option"
  hp_cursor :: "string option"

record history_draw =
  hd_checked :: rat
  hd_saved :: rat
  hd_uuid :: string

text \<open>The expression \<open>CURSOR\<close>: \<open>v1_\<close> and 32 lower-case hexadecimal digits.\<close>

definition cursor_digit :: "char \<Rightarrow> bool" where
  "cursor_digit c \<longleftrightarrow> c \<in> set ''0123456789abcdef''"

definition CURSOR :: "string \<Rightarrow> bool" where
  "CURSOR c \<longleftrightarrow> take 3 c = ''v1_'' \<and> length c = 35 \<and> list_all cursor_digit (drop 3 c)"

definition scope_of :: "string option \<Rightarrow> string \<Rightarrow> history_params \<Rightarrow> history_scope" where
  "scope_of tenant sid p = \<lparr>hs_tenant = tenant, hs_session_id = sid, hs_kind = sort_key kind_name (hp_kind p),
     hs_attempt_id = hp_attempt_id p\<rparr>"

definition history_cursor_error :: svc_error where
  "history_cursor_error = service_error INVALID_CURSOR ''invalid session history cursor'' (Some [(''reason'', JStr ''malformed'')])"

definition history_after :: "rat \<Rightarrow> history_scope \<Rightarrow> string option \<Rightarrow> cursors \<Rightarrow> svc_error + nat" where
  "history_after now scope cursor cs =
     (case cursor of
        None \<Rightarrow> Inr 0
      | Some c \<Rightarrow>
          if c = [] then Inr 0
          else (case (if CURSOR c then tget cs c else None) of
                  None \<Rightarrow> Inl history_cursor_error
                | Some stored \<Rightarrow> if hc_scope stored \<noteq> scope \<or> expired now stored then Inl history_cursor_error
                                 else Inr (hc_after stored)))"

definition read_session :: "string \<Rightarrow> vcp_db \<Rightarrow> svc_error + session" where
  "read_session key db = (case tget (v_sessions db) key of
     None \<Rightarrow> Inl (not_found ''resource does not exist'' ''sessions'' key) | Some d \<Rightarrow> Inr (sd_snapshot d))"

definition too_large :: "string \<Rightarrow> svc_error" where
  "too_large sid = service_error INVALID_STATE ''history entry exceeds the transport size limit''
     (Some [(''resource_type'', JStr ''session''), (''resource_id'', JStr sid),
       (''current_state'', JStr ''history_entry_too_large''), (''allowed_states'', JList [])])"

definition entry_ceiling :: nat where "entry_ceiling = 1024 * 1024 - 4096"

definition page_budget :: nat where "page_budget = 900 * 1024"

text \<open>The loop that fills the page: \<open>page\<close> and \<open>used\<close> (the code's \<open>size\<close>) are its variables.\<close>

fun fill_page :: "string \<Rightarrow> history_entry list \<Rightarrow> nat \<Rightarrow> history_entry list \<Rightarrow> svc_error + history_entry list" where
  "fill_page sid page used [] = Inr page"
| "fill_page sid page used (e # es) =
     (let n = encoded_size e + 1 in
      if n > entry_ceiling then (if page \<noteq> [] then Inr page else Inl (too_large sid))
      else if page \<noteq> [] \<and> used + n > page_budget then Inr page
      else fill_page sid (page @ [e]) (used + n) es)"

definition history ::
  "history_draw \<Rightarrow> string option \<Rightarrow> string \<Rightarrow> history_params \<Rightarrow> cursors \<Rightarrow> vcp_db
   \<Rightarrow> vcp_exn + (history_entry list \<times> string option) \<times> cursors" where
  "history d tenant sid p cs db =
     (let scope = scope_of tenant sid p in
      service_bind (history_after (hd_checked d) scope (hp_cursor p) cs) (\<lambda>after.
      service_bind (read_session sid db) (\<lambda>_.
      let limit = (case hp_limit p of None \<Rightarrow> 50 | Some n \<Rightarrow> n);
          entries = history_page sid (hs_kind scope) (hs_attempt_id scope) after (limit + 1) db
      in service_bind (fill_page sid [] 0 (take limit entries)) (\<lambda>page.
           if page \<noteq> [] \<and> length entries > length page
           then (let cursor = identity ''v1_'' (hd_uuid d) in
                 sbind (save_history_cursor (hd_saved d) cursor
                   \<lparr>hc_scope = scope, hc_after = he_sequence (last page), hc_expires_at = None\<rparr> cs)
                   (\<lambda>cs1. Inr ((page, Some cursor), cs1)))
           else Inr ((page, None), cs)))))"

section \<open>The session listing\<close>

text \<open>As for the workspaces, the argument is the decoded cursor: its filters and its position.\<close>

datatype session_cursor = First_page | Bad_cursor | After "string \<times> session_state list" "string \<times> string"

definition session_cursor_error :: svc_error where
  "session_cursor_error = service_error INVALID_CURSOR ''invalid session cursor'' (Some [(''reason'', JStr ''malformed'')])"

definition list_sessions ::
  "string \<Rightarrow> session_state list \<Rightarrow> session_cursor \<Rightarrow> nat option \<Rightarrow> vcp_db \<Rightarrow> svc_error + session list \<times> session_cursor" where
  "list_sessions wid states c limit db =
     sbind (read_workspace wid db) (\<lambda>_.
     let filters = (wid, sort_key session_state_name states) in
     sbind (case c of First_page \<Rightarrow> Inr None | Bad_cursor \<Rightarrow> Inl session_cursor_error
            | After g a \<Rightarrow> if g = filters then Inr (Some a) else Inl session_cursor_error) (\<lambda>after.
     let n = (case limit of None \<Rightarrow> 50 | Some n \<Rightarrow> n);
         sessions = session_page wid (snd filters) after (n + 1) db;
         page = take n sessions
     in Inr (page, if length sessions > n
                   then After filters (s_created_at (last page), s_session_id (last page)) else First_page)))"

section \<open>The history grows by whole entries\<close>

text \<open>
  A session's history number, the numbers its rows carry, and what every step of the service does
  to them: rows are only added at the end, and those of a session continue its numbering.
\<close>

definition history_number :: "string \<Rightarrow> vcp_db \<Rightarrow> nat" where
  "history_number sid db = (case tget (v_sessions db) sid of None \<Rightarrow> 0 | Some s \<Rightarrow> sd_history_sequence s)"

definition numbers :: "string \<Rightarrow> ((string \<times> nat) \<times> history_entry) list \<Rightarrow> nat list" where
  "numbers sid rows = map (snd \<circ> fst) (filter (\<lambda>r. fst (fst r) = sid) rows)"

definition numbered :: "((string \<times> nat) \<times> history_entry) list \<Rightarrow> bool" where
  "numbered rows \<longleftrightarrow> list_all (\<lambda>((s, n), e). he_sequence e = n) rows"

definition history_grows :: "vcp_db \<Rightarrow> vcp_db \<Rightarrow> bool" where
  "history_grows db db' \<longleftrightarrow> (\<exists>rows. v_history db' = v_history db @ rows \<and> numbered rows
     \<and> (\<forall>sid. history_number sid db \<le> history_number sid db'
          \<and> numbers sid rows = [history_number sid db + 1..<history_number sid db' + 1]))"

definition history_inv :: "vcp_db \<Rightarrow> bool" where
  "history_inv db \<longleftrightarrow> numbered (v_history db) \<and> (\<forall>sid. numbers sid (v_history db) = [1..<history_number sid db + 1])"

lemma numbers_append [simp]: "numbers sid (xs @ ys) = numbers sid xs @ numbers sid ys"
  by (simp add: numbers_def)

lemma numbered_append [simp]: "numbered (xs @ ys) \<longleftrightarrow> numbered xs \<and> numbered ys"
  by (simp add: numbered_def)

lemma numbered_Nil [simp]: "numbered []" "numbers sid [] = []"
  by (simp_all add: numbered_def numbers_def)

lemma history_grows_same:
  "v_history db' = v_history db \<Longrightarrow> (\<And>sid. history_number sid db' = history_number sid db) \<Longrightarrow> history_grows db db'"
  by (simp add: history_grows_def)

lemma history_grows_refl [simp]: "history_grows db db"
  by (simp add: history_grows_same)

lemma history_grows_trans:
  assumes "history_grows db db1" and "history_grows db1 db2"
  shows "history_grows db db2"
proof -
  obtain xs ys where rows: "v_history db2 = v_history db @ xs @ ys" "numbered (xs @ ys)"
    and n: "\<And>sid. history_number sid db \<le> history_number sid db1 \<and> numbers sid xs = [history_number sid db + 1..<history_number sid db1 + 1]"
      "\<And>sid. history_number sid db1 \<le> history_number sid db2 \<and> numbers sid ys = [history_number sid db1 + 1..<history_number sid db2 + 1]"
    using assms unfolding history_grows_def by auto
  have "history_number sid db \<le> history_number sid db2
      \<and> numbers sid (xs @ ys) = [history_number sid db + 1..<history_number sid db2 + 1]" for sid
  proof -
    have "[history_number sid db + 1..<history_number sid db1 + 1] @ [history_number sid db1 + 1..<history_number sid db2 + 1]
        = [history_number sid db + 1..<history_number sid db2 + 1]"
      using n[of sid] upt_add_eq_append[of "history_number sid db + 1" "history_number sid db1 + 1" "history_number sid db2 - history_number sid db1"]
      by simp
    then show ?thesis using n[of sid] by (metis le_trans numbers_append)
  qed
  then show ?thesis unfolding history_grows_def using rows by blast
qed

lemma history_inv_grows:
  assumes "history_inv db" and "history_grows db db'"
  shows "history_inv db'"
proof -
  obtain rows where rows: "v_history db' = v_history db @ rows" "numbered rows"
    and n: "\<And>sid. history_number sid db \<le> history_number sid db' \<and> numbers sid rows = [history_number sid db + 1..<history_number sid db' + 1]"
    using assms(2) unfolding history_grows_def by auto
  have "numbers sid (v_history db') = [1..<history_number sid db' + 1]" for sid
    using assms(1) rows(1) n[of sid] upt_add_eq_append[of 1 "history_number sid db + 1" "history_number sid db' - history_number sid db"]
    by (simp add: history_inv_def)
  then show ?thesis using assms(1) rows by (simp add: history_inv_def)
qed

subsection \<open>Every step\<close>

lemma history_number_put:
  "history_number sid (put_session k s db) = (if sid = k then sd_history_sequence s else history_number sid db)"
  by (simp add: history_number_def put_session_def)

lemma history_number_puts [simp]:
  "history_number sid (put_workspace k1 x1 db) = history_number sid db" "history_number sid (put_operation k2 x2 db) = history_number sid db"
  "history_number sid (put_runtime k3 x3 db) = history_number sid db" "history_number sid (delete_runtime k4 db) = history_number sid db"
  "history_number sid (put_attempt k5 x5 db) = history_number sid db" "history_number sid (put_status k6 x6 db) = history_number sid db"
  "history_number sid (put_steering k7 x7 db) = history_number sid db" "history_number sid (db\<lparr>v_outbox := o8\<rparr>) = history_number sid db"
  "history_number sid (db\<lparr>v_commands := o9\<rparr>) = history_number sid db" "history_number sid (db\<lparr>v_bindings := o10\<rparr>) = history_number sid db"
  "history_number sid (db\<lparr>v_receipts := o11\<rparr>) = history_number sid db" "history_number sid (db\<lparr>v_updates := o12\<rparr>) = history_number sid db"
  "history_number sid (db\<lparr>v_history := o13\<rparr>) = history_number sid db"
  by (simp_all add: history_number_def put_defs)

lemma v_history_puts [simp]:
  "v_history (put_workspace k1 x1 db) = v_history db" "v_history (put_operation k2 x2 db) = v_history db"
  "v_history (put_runtime k3 x3 db) = v_history db" "v_history (delete_runtime k4 db) = v_history db"
  "v_history (put_attempt k5 x5 db) = v_history db" "v_history (put_status k6 x6 db) = v_history db"
  "v_history (put_steering k7 x7 db) = v_history db" "v_history (put_session k8 x8 db) = v_history db"
  by (simp_all add: put_defs)

lemma append_history_grows:
  assumes "append_history sid e db = Inr (n, db')"
  shows "history_grows db db'" and "history_number sid db' = n"
proof -
  obtain s where s: "tget (v_sessions db) sid = Some s" "n = sd_history_sequence s + 1"
    "db' = (put_session sid (s\<lparr>sd_history_sequence := n\<rparr>) db)\<lparr>v_history := v_history db @ [((sid, n), e\<lparr>he_sequence := n\<rparr>)]\<rparr>"
    using assms by (auto simp: append_history_def Let_def tinsert_Some_iff split: option.split_asm if_split_asm)
  then have "history_number sid db + 1 = n" by (simp add: history_number_def)
  then show "history_grows db db'" unfolding history_grows_def
    by (intro exI[of _ "[((sid, n), e\<lparr>he_sequence := n\<rparr>)]"]) (auto simp: s(3) history_number_put numbered_def numbers_def)
  show "history_number sid db' = n" by (simp add: s(3) history_number_put)
qed

lemma project_grows:
  assumes "project cfg ds cid outcome claimed db = Inr (known, db')"
  shows "history_grows db db'"
proof -
  have retire: "history_grows db (retire_runtime_command cid db1)" if "history_grows db db1" for db1
    by (rule history_grows_trans[OF that], rule history_grows_same)
       (use retire_effect[of cid db1] in auto)
  have put: "history_grows db (put_operation k r (put_steering k' c db1))" if "history_grows db db1" for db1 k r k' c
    by (rule history_grows_trans[OF that], rule history_grows_same) auto
  have ev: "history_grows db db1" if "append_event ok e db = Inr db1" for ok e db1
    using append_event_outbox[OF that] by (auto intro: history_grows_same)
  show ?thesis using assms
    by (auto simp: project_def Let_def sbind_eq_Inr split: option.split_asm command_body.split_asm if_split_asm prod.split_asm
        intro!: retire put dest: ev append_history_grows(1) intro: history_grows_trans)
qed

lemma terminate_each_grows: "terminate_each cfg ds i cs db = Inr db' \<Longrightarrow> history_grows db db'"
proof (induction cs arbitrary: i db)
  case (Cons c cs)
  then obtain known db1 where "project cfg (\<lambda>k. ds (i + k)) (command_id (sc_command c)) (Failed_with None) None db = Inr (known, db1)"
      "terminate_each cfg ds (i + 2) cs db1 = Inr db'" by (auto simp: sbind_eq_Inr)
  then show ?case using Cons.IH project_grows history_grows_trans by blast
qed simp

lemma settle_cancels_grows: "settle_cancels ts aid state oids db = Inr db' \<Longrightarrow> history_grows db db'"
proof (induction oids arbitrary: db)
  case (Cons oid oids)
  then obtain r where "settle_cancels ts aid state oids (put_operation oid r db) = Inr db'" by (auto split: option.split_asm)
  then have "history_grows (put_operation oid r db) db'" by (rule Cons.IH)
  moreover have "history_grows db (put_operation oid r db)" by (rule history_grows_same) simp_all
  ultimately show ?case using history_grows_trans by blast
qed simp

lemma settle_cancels_sessions: "settle_cancels ts aid state oids db = Inr db' \<Longrightarrow> v_sessions db' = v_sessions db"
  by (induction oids arbitrary: db) (auto simp: put_operation_def split: option.split_asm)

lemma transition_grows:
  assumes "transition cfg ds aid state err result claim db = Inr db'"
  shows "history_grows db db'"
  using assms
proof (cases rule: transition_effect)
  case e: (1 r b db1 d s ro a db2 d1 s1 ro1 rows)
  have "history_grows db db1" using e(5) terminate_each_grows by (auto simp: terminate_def split: if_split_asm)
  moreover have "history_grows db1 db2" using e(9) settle_cancels_grows by (auto split: if_split_asm)
  moreover have "history_grows db2 db'"
  proof (rule history_grows_same)
    have "tget (v_sessions db2) (session_id (bd_target b)) = Some s"
      using e(7,9) settle_cancels_sessions by (auto split: if_split_asm)
    then show "history_number sid db' = history_number sid db2" for sid
      using e(20) by (simp add: e(19) history_number_put) (simp add: history_number_def)
  qed (simp add: e(19))
  ultimately show ?thesis using history_grows_trans by blast
qed

lemma progress_grows:
  assumes run: "vcp_progress cfg dr aid p db = Inr db'"
  shows "history_grows db db'"
proof -
  obtain r where r: "tget (v_attempts db) aid = Some r" using run by (auto simp: vcp_progress_def split: option.split_asm)
  obtain b where b: "tget (v_bindings db) aid = Some b"
    using run r by (auto simp: vcp_progress_def split: option.split_asm if_split_asm)
  obtain s where s: "tget (v_sessions db) (session_id (bd_target b)) = Some s"
    using run r b by (auto simp: vcp_progress_def Let_def split: option.split_asm if_split_asm)
  obtain r1 s1 ev db1 where eff: "progress_effect dr aid p r b s db = Inr (r1, s1, ev, db1)"
    using run r b s by (auto simp: vcp_progress_def Let_def sbind_eq_Inr split: if_split_asm)
  obtain db2 where out: "\<exists>rows. db2 = db1\<lparr>v_outbox := rows\<rparr>" and fin: "db' = put_session (session_id (bd_target b))
      (s1\<lparr>sd_snapshot := replace_attempt (d_now dr) (ad_snapshot r1) (sd_snapshot s1)\<rparr>) (put_attempt aid r1 db2)"
    using run r b s eff
    by (cases ev) (auto simp: vcp_progress_def Let_def sbind_eq_Inr dest!: append_event_outbox split: if_split_asm option.split_asm)
  have "history_grows db db1 \<and> sd_history_sequence s1 = history_number (session_id (bd_target b)) db1"
  proof (cases p)
    case (Conversation mid role said)
    then obtain e n where h: "append_history (session_id (bd_target b)) e db = Inr (n, db1)" "s1 = s\<lparr>sd_history_sequence := n\<rparr>"
      using eff by (auto simp: progress_effect_def sbind_eq_Inr)
    then show ?thesis using append_history_grows[OF h(1)] by simp
  qed (use eff s in \<open>auto simp: progress_effect_def history_number_def split: if_split_asm\<close>)
  moreover have "history_grows db1 db'"
    by (rule history_grows_same) (use out calculation in \<open>auto simp: fin history_number_put\<close>)
  ultimately show ?thesis using history_grows_trans by blast
qed

lemma project_update_grows:
  assumes "project_update cfg ds u kinds db = Inr db'"
  shows "history_grows db db'"
proof -
  have body: "history_grows db db1" if "project_body cfg ds u t kinds db = Inr db1" for t db1
    using that unfolding project_body_def Let_def
    by (auto split: update_body.split_asm if_split_asm simp: steering_result_def sbind_eq_Inr
        intro: transition_grows progress_grows project_grows)
  obtain t db1 r1 where run: "project_body cfg ds u t kinds db = Inr db1" "db' = put_attempt (attempt_id t) r1 db1"
    using assms by (auto simp: project_update_def Let_def sbind_eq_Inr catch_transition_def
        split: update_target.split_asm if_split_asm option.split_asm sum.split_asm vcp_exn.split_asm)
  have "history_grows db1 db'" by (rule history_grows_same) (simp_all add: run(2))
  then show ?thesis using body[OF run(1)] history_grows_trans by blast
qed

lemma receive_grows_history:
  assumes "receive cfg ds subject u db = (r, db')"
  shows "history_grows db db'"
  using assms
proof (cases rule: receive_cases)
  case applied
  have fin: "history_grows db1 db'" if "finish_update cfg u st db1 = Inr db'" for st db1
    using that by (intro history_grows_same)
      (auto simp: finish_update_def Let_def record_runtime_update_def split: if_split_asm option.split_asm)
  from applied(1) show ?thesis
    by (auto simp: apply_update_def sbind_eq_Inr split: update_body.split_asm if_split_asm
        intro: fin history_grows_trans[OF project_update_grows])
next
  case (quarantined code)
  show ?thesis by (rule history_grows_same) (auto simp: quarantined quarantine_def Let_def split: option.splits)
qed simp

lemma deliver_grows:
  assumes "deliver cfg ds subject m sch a db = (r, db')"
  shows "history_grows db db'"
proof -
  have st: "history_grows db db1" if "settle_runtime_command cid x a db = Inr (y, db1)" for db db1 x y cid
    using that by (intro history_grows_same) (auto simp: settle_runtime_command_def split: if_split_asm option.split_asm)
  have "history_grows db db1" if "deliver_settle cfg ds m a db = Inr (x, db1)" for x db1
    using that unfolding deliver_settle_def
    by (auto simp: sbind_eq_Inr split: option.split_asm sum.split_asm vcp_exn.split_asm delivery.split_asm command_body.split_asm
        dest!: transition_grows project_grows st intro: history_grows_trans)
  then show ?thesis using assms
    by (auto simp: deliver_def run_tx_def split: if_split_asm sum.split_asm prod.split_asm)
qed

lemma append_command_grows: "append_command m aid db = Inr db' \<Longrightarrow> history_grows db0 db \<Longrightarrow> history_grows db0 db'"
  by (rule history_grows_trans, assumption, rule history_grows_same) (auto dest!: append_command_commands)

lemma write_execution_grows: "write_execution ds rq d s t op m e db = Inr db' \<Longrightarrow> history_grows db db'"
  by (auto simp: write_execution_def sbind_eq_Inr Let_def history_number_put dest!: put_binding_bindings
      elim!: append_command_grows intro!: history_grows_same split: option.splits) (auto simp: history_number_def)

lemma win_cancel_grows: "win_cancel cfg ds aid a b op rq reason db = Inr (r, db') \<Longrightarrow> history_grows db db'"
  by (auto simp: win_cancel_def put_cancel_def service_bind_eq_Inr sbind_eq_Inr Let_def history_number_put
      split: option.splits dest!: append_command_commands intro!: history_grows_same) (auto simp: history_number_def)

lemma accept_grows:
  assumes "accept_of cfg c rq db = Inr (r, db')"
  shows "history_grows db db'"
proof (cases c)
  case (CApply ds)
  then show ?thesis using assms
    by (intro history_grows_same) (auto simp: accept_apply_def apply_new_def sbind_eq_Inr Let_def
        split: vcp_payload.splits option.splits dest!: append_event_outbox)
next
  case (CEnsure ds)
  then show ?thesis using assms
    by (intro history_grows_same) (auto simp: accept_ensure_def service_bind_eq_Inr Let_def split: vcp_payload.splits)
next
  case (CDestroy ds)
  then show ?thesis using assms
    by (intro history_grows_same) (auto simp: accept_destroy_def service_bind_eq_Inr Let_def split: vcp_payload.splits)
next
  case (CExecute ds pre e)
  then show ?thesis using assms by (auto elim!: accept_execute_effect intro: write_execution_grows)
next
  case (CCancel ds)
  then show ?thesis using assms
    by (auto simp: accept_cancel_def put_cancel_def service_bind_eq_Inr Let_def split: vcp_payload.splits option.splits if_splits
        intro: win_cancel_grows history_grows_same)
next
  case (CSteer ds)
  then show ?thesis using assms
    by (intro history_grows_same) (auto simp: accept_steer_def service_bind_eq_Inr sbind_eq_Inr Let_def
        split: vcp_payload.splits dest!: append_command_commands)
qed

lemma serve_grows:
  assumes "serve cfg c rq db = (r, db')"
  shows "history_grows db db'"
proof (cases r)
  case (Inr resp)
  with assms have "serve cfg c rq db = (Inr resp, db')" by simp
  then show ?thesis
  proof (cases rule: serve_cases)
    case (new db1)
    have "history_grows db1 db'" by (rule history_grows_same) (auto simp: new(3))
    then show ?thesis using accept_grows[OF new(2)] history_grows_trans by blast
  qed (auto intro: history_grows_same)
qed (use assms serve_Inl in fastforce)

lemma complete_grows:
  assumes "complete cfg ds r verb locator err db = Inr db'" and "get_workspace (workspace_of r) db = Some d"
  shows "history_grows db db'"
  using assms
  by (cases rule: complete_saved) (auto intro!: history_grows_same simp: save_completion_def Let_def split: option.splits)

lemma vcp_step_grows:
  assumes "vcp_step cfg s t" and "vcp_inv s"
  shows "history_grows (vm_db s) (vm_db t)"
  using assms(1)
proof cases
  case (claim oid r d r1 db)
  then show ?thesis
    by (intro history_grows_same) (auto simp: claim_operation_def claim_task_def new_pass_def Let_def split: option.splits if_split_asm)
next
  case (settle oid r rt ds result db)
  note T = task_ofD[OF assms(2) settle(2), simplified]
  obtain d where d: "get_workspace (workspace_of r) (vm_db s) = Some d" using held_workspace[OF T(4,1,2)] by blast
  from settle(3) have "history_grows (vm_db s) db"
    by (cases rule: settle_call_cases) (use complete_grows[OF _ d] in \<open>auto intro: history_grows_same\<close>)
  then show ?thesis using settle by simp
next
  case (publication n)
  then show ?thesis by (intro history_grows_same) (auto simp: mark_published_def split: option.splits)
qed (use serve_grows receive_grows_history deliver_grows in \<open>auto simp: new_pass_def\<close>)

lemma vcp_reachable_history: "vcp_reachable cfg s \<Longrightarrow> history_inv (vm_db s)"
proof (induction rule: vcp_reachable_induct)
  case init
  then show ?case by (simp add: history_inv_def initial_vcp_def empty_vcp_def history_number_def)
next
  case (step s t)
  then show ?case using vcp_step_grows vcp_reachable_inv history_inv_grows by blast
qed

section \<open>The entries a query asks for\<close>

definition session_entries :: "string \<Rightarrow> vcp_db \<Rightarrow> history_entry list" where
  "session_entries sid db = map snd (filter (\<lambda>r. fst (fst r) = sid) (v_history db))"

definition wanted :: "history_params \<Rightarrow> history_entry \<Rightarrow> bool" where
  "wanted p e \<longleftrightarrow> (hp_kind p = [] \<or> he_kind e \<in> set (hp_kind p))
     \<and> (case hp_attempt_id p of None \<Rightarrow> True | Some a \<Rightarrow> a = [] \<or> he_attempt_id e = a)"

definition matching :: "string \<Rightarrow> history_params \<Rightarrow> vcp_db \<Rightarrow> history_entry list" where
  "matching sid p db = filter (wanted p) (session_entries sid db)"

lemma session_entries_numbers: "numbered (v_history db) \<Longrightarrow> map he_sequence (session_entries sid db) = numbers sid (v_history db)"
  by (auto simp: session_entries_def numbers_def numbered_def list_all_iff)

lemma session_entries_inv: "history_inv db \<Longrightarrow> map he_sequence (session_entries sid db) = [1..<history_number sid db + 1]"
  by (simp add: history_inv_def session_entries_numbers)

lemma distinct_numbers: "(\<And>sid. distinct (numbers sid rows)) \<Longrightarrow> distinct (map fst rows)"
proof (induction rows)
  case (Cons r rows)
  have "distinct (numbers sid rows)" for sid using Cons.prems[of sid] by (auto simp: numbers_def split: if_split_asm)
  moreover have "fst r \<notin> set (map fst rows)"
    using Cons.prems[of "fst (fst r)"] by (force simp: numbers_def)
  ultimately show ?case using Cons.IH by simp
qed simp

lemma history_inv_ok: "history_inv db \<Longrightarrow> history_ok db"
  using distinct_numbers[of "v_history db"] by (simp add: history_inv_def history_ok_def twf_def tkeys_def numbered_def)

lemma matching_sorted:
  assumes "history_inv db"
  shows "sorted_wrt (\<lambda>x y. he_sequence x < he_sequence y) (matching sid p db)"
proof -
  have "sorted_wrt (<) (map he_sequence (session_entries sid db))" unfolding session_entries_inv[OF assms] by (rule sorted_wrt_upt)
  then show ?thesis by (simp add: matching_def sorted_wrt_map sorted_wrt_filter)
qed

lemma matching_bound:
  assumes "history_inv db" and "e \<in> set (matching sid p db)"
  shows "1 \<le> he_sequence e" and "he_sequence e \<le> history_number sid db"
proof -
  have "he_sequence e \<in> set (map he_sequence (session_entries sid db))" using assms(2) by (simp add: matching_def)
  then show "1 \<le> he_sequence e" "he_sequence e \<le> history_number sid db" unfolding session_entries_inv[OF assms(1)] by auto
qed

text \<open>New entries follow the old ones, with larger numbers.\<close>

lemma matching_grows:
  assumes "history_inv db" and "history_grows db db'"
  obtains new where "matching sid p db' = matching sid p db @ new" "\<And>e. e \<in> set new \<Longrightarrow> he_sequence e > history_number sid db"
proof -
  obtain rows where rows: "v_history db' = v_history db @ rows" "numbered rows"
    "numbers sid rows = [history_number sid db + 1..<history_number sid db' + 1]"
    using assms(2) unfolding history_grows_def by auto
  define new where "new = filter (wanted p) (map snd (filter (\<lambda>r. fst (fst r) = sid) rows))"
  have "map he_sequence (map snd (filter (\<lambda>r. fst (fst r) = sid) rows)) = numbers sid rows"
    using rows(2) by (auto simp: numbers_def numbered_def list_all_iff)
  then have "he_sequence e \<in> set (numbers sid rows)" if "e \<in> set new" for e
    using that by (metis (no_types, lifting) filter_is_subset image_eqI image_set in_mono new_def)
  then have "he_sequence e > history_number sid db" if "e \<in> set new" for e using that rows(3) by fastforce
  then show ?thesis using that[of new] rows(1) by (simp add: matching_def session_entries_def new_def)
qed

text \<open>On a numbered history the page is a slice of the entries asked for.\<close>

lemma history_page_slice:
  assumes inv: "history_inv db" and kinds: "distinct (hp_kind p)"
  shows "history_page sid (sort_key kind_name (hp_kind p)) (hp_attempt_id p) after limit db
    = take limit (filter (\<lambda>e. he_sequence e > after) (matching sid p db))"
proof -
  have nil: "sort_key kind_name (hp_kind p) = [] \<longleftrightarrow> hp_kind p = []" by (metis length_0_conv length_sort)
  have num: "he_sequence (snd r) = snd (fst r)" if "r \<in> set (v_history db)" for r
    using that inv by (cases r, cases "fst r") (auto simp: history_inv_def numbered_def list_all_iff)
  have "history_match sid (hp_attempt_id p) after r \<and> (hp_kind p = [] \<or> he_kind (snd r) \<in> set (hp_kind p))
      \<longleftrightarrow> fst (fst r) = sid \<and> wanted p (snd r) \<and> he_sequence (snd r) > after" if "r \<in> set (v_history db)" for r
    using num[OF that] by (cases r, cases "fst r") (auto simp: history_match_def wanted_def)
  then have "filter (\<lambda>r. history_match sid (hp_attempt_id p) after r \<and> (hp_kind p = [] \<or> he_kind (snd r) \<in> set (hp_kind p))) (v_history db)
      = filter (\<lambda>r. fst (fst r) = sid \<and> wanted p (snd r) \<and> he_sequence (snd r) > after) (v_history db)"
    by (intro filter_cong) auto
  then have "map snd (filter (\<lambda>r. history_match sid (hp_attempt_id p) after r \<and> (hp_kind p = [] \<or> he_kind (snd r) \<in> set (hp_kind p))) (v_history db))
      = filter (\<lambda>e. he_sequence e > after) (matching sid p db)"
    by (simp add: matching_def session_entries_def filter_map o_def conj_ac)
  moreover have "sorted (map he_sequence (filter (\<lambda>e. he_sequence e > after) (matching sid p db)))"
    using sorted_wrt_filter[OF matching_sorted[OF inv, of sid p], of "\<lambda>e. he_sequence e > after"]
    by (auto simp: sorted_map intro: sorted_wrt_mono_rel[rotated])
  ultimately show ?thesis
    using history_page_exact[OF history_inv_ok[OF inv], of "sort_key kind_name (hp_kind p)"] kinds
    by (simp add: history_reference_def nil sort_key_id_if_sorted)
qed

section \<open>Following the cursors\<close>

lemma fill_page_prefix:
  "fill_page sid page used es = Inr out \<Longrightarrow> \<exists>k \<le> length es. out = page @ take k es \<and> (page = [] \<longrightarrow> es \<noteq> [] \<longrightarrow> 0 < k)"
proof (induction es arbitrary: page used)
  case (Cons e es)
  let ?n = "encoded_size e + 1"
  show ?case
  proof (cases "out = page \<and> page \<noteq> []")
    case False
    then have "fill_page sid (page @ [e]) (used + ?n) es = Inr out" using Cons.prems by (auto simp: Let_def split: if_split_asm)
    then obtain k where "k \<le> length es" "out = (page @ [e]) @ take k es" using Cons.IH by blast
    then show ?thesis by (intro exI[of _ "Suc k"]) simp
  qed (intro exI[of _ 0], simp)
qed simp

lemma fill_page_total: "list_all (\<lambda>e. encoded_size e + 1 \<le> entry_ceiling) es \<Longrightarrow> \<exists>out. fill_page sid page used es = Inr out"
  by (induction es arbitrary: page used) (auto simp: Let_def)

text \<open>What one read returns: a non-empty prefix of the rest, and a cursor exactly when more is left.\<close>

lemma history_read:
  assumes inv: "history_inv db" and kinds: "distinct (hp_kind p)" and limit: "hp_limit p \<noteq> Some 0"
    and run: "history d tenant sid p cs db = Inr ((page, nxt), cs')"
  obtains after where "history_after (hd_checked d) (scope_of tenant sid p) (hp_cursor p) cs = Inr after"
    and "nxt = None \<Longrightarrow> cs' = cs \<and> page = filter (\<lambda>e. he_sequence e > after) (matching sid p db)"
    and "nxt \<noteq> None \<Longrightarrow> nxt = Some (identity ''v1_'' (hd_uuid d)) \<and> save_history_cursor (hd_saved d) (identity ''v1_'' (hd_uuid d))
        \<lparr>hc_scope = scope_of tenant sid p, hc_after = he_sequence (last page), hc_expires_at = None\<rparr> cs = Inr cs'"
    and "nxt \<noteq> None \<Longrightarrow> \<exists>rest. rest \<noteq> [] \<and> filter (\<lambda>e. he_sequence e > after) (matching sid p db) = page @ rest \<and> page \<noteq> []"
proof -
  define n where "n = (case hp_limit p of None \<Rightarrow> 50 | Some x \<Rightarrow> x)"
  have n: "0 < n" using limit by (auto simp: n_def split: option.splits)
  obtain after where after: "history_after (hd_checked d) (scope_of tenant sid p) (hp_cursor p) cs = Inr after"
    using run by (auto simp: history_def Let_def service_bind_eq_Inr)
  define rest where "rest = filter (\<lambda>e. he_sequence e > after) (matching sid p db)"
  have page: "history_page sid (hs_kind (scope_of tenant sid p)) (hs_attempt_id (scope_of tenant sid p)) after (Suc n) db = take (Suc n) rest"
    using history_page_slice[OF inv kinds] by (simp add: scope_of_def rest_def)
  have fill: "fill_page sid [] 0 (take n rest) = Inr page" and
    out: "(if page \<noteq> [] \<and> length (take (Suc n) rest) > length page
           then sbind (save_history_cursor (hd_saved d) (identity ''v1_'' (hd_uuid d))
                   \<lparr>hc_scope = scope_of tenant sid p, hc_after = he_sequence (last page), hc_expires_at = None\<rparr> cs)
                   (\<lambda>cs1. Inr ((page, Some (identity ''v1_'' (hd_uuid d))), cs1))
           else Inr ((page, None), cs)) = (Inr ((page, nxt), cs') :: vcp_exn + _)"
    using run after by (auto simp: history_def Let_def service_bind_eq_Inr n_def[symmetric] page sbind_eq_Inr split: if_split_asm)
  obtain k where k: "k \<le> length (take n rest)" "page = take k (take n rest)" "take n rest \<noteq> [] \<longrightarrow> 0 < k"
    using fill_page_prefix[OF fill] by (metis append_Nil)
  then have "k \<le> n \<and> k \<le> length rest" by simp
  with k(2) have pre: "page = take k rest" "k \<le> n" "k \<le> length rest" by simp_all
  show ?thesis
  proof (rule that[OF after])
    assume "nxt = None"
    then have "cs' = cs" "page = [] \<or> length (take (Suc n) rest) \<le> length page"
      using out by (auto simp: sbind_eq_Inr split: if_split_asm)
    then show "cs' = cs \<and> page = filter (\<lambda>e. he_sequence e > after) (matching sid p db)"
      using pre k(3) n unfolding rest_def[symmetric] by auto
  next
    assume "nxt \<noteq> None"
    then have more: "page \<noteq> []" "length (take (Suc n) rest) > length page" and "nxt = Some (identity ''v1_'' (hd_uuid d))
        \<and> save_history_cursor (hd_saved d) (identity ''v1_'' (hd_uuid d))
        \<lparr>hc_scope = scope_of tenant sid p, hc_after = he_sequence (last page), hc_expires_at = None\<rparr> cs = Inr cs'"
      using out by (auto simp: sbind_eq_Inr split: if_split_asm)
    then show "nxt = Some (identity ''v1_'' (hd_uuid d)) \<and> save_history_cursor (hd_saved d) (identity ''v1_'' (hd_uuid d))
        \<lparr>hc_scope = scope_of tenant sid p, hc_after = he_sequence (last page), hc_expires_at = None\<rparr> cs = Inr cs'" by simp
    have "rest = page @ drop k rest" "drop k rest \<noteq> []" using pre more(2) by auto
    then show "\<exists>rest. rest \<noteq> [] \<and> filter (\<lambda>e. he_sequence e > after) (matching sid p db) = page @ rest \<and> page \<noteq> []"
      using more(1) unfolding rest_def[symmetric] by blast
  qed
qed

text \<open>
  A client reads the first page without a cursor and then follows the cursors it is given. Between
  its reads the service takes any of its steps, and other queries save cursors of their own.
\<close>

inductive follows ::
  "vcp_cfg \<Rightarrow> string option \<Rightarrow> string \<Rightarrow> history_params \<Rightarrow> vcp \<Rightarrow> cursors \<Rightarrow> history_entry list \<Rightarrow> string option \<Rightarrow> bool"
  for cfg tenant sid p where
  first: "vcp_reachable cfg s \<Longrightarrow> twf cs \<Longrightarrow> history d tenant sid (p\<lparr>hp_cursor := None\<rparr>) cs (vm_db s) = Inr ((page, nxt), cs') \<Longrightarrow>
     follows cfg tenant sid p s cs' page nxt"
| service: "follows cfg tenant sid p s cs pages (Some c) \<Longrightarrow> vcp_step cfg s t \<Longrightarrow> follows cfg tenant sid p t cs pages (Some c)"
| other: "follows cfg tenant sid p s cs pages (Some c) \<Longrightarrow> k \<noteq> c \<Longrightarrow> save_history_cursor now k v cs = Inr cs' \<Longrightarrow>
     follows cfg tenant sid p s cs' pages (Some c)"
| more: "follows cfg tenant sid p s cs pages (Some c) \<Longrightarrow>
     history d tenant sid (p\<lparr>hp_cursor := Some c\<rparr>) cs (vm_db s) = Inr ((page, nxt), cs') \<Longrightarrow>
     follows cfg tenant sid p s cs' (pages @ page) nxt"

lemma tget_filter: "twf t \<Longrightarrow> tget (filter (\<lambda>(k, x). P x) t) k = (case tget t k of None \<Rightarrow> None | Some x \<Rightarrow> if P x then Some x else None)"
  by (induction t) (auto simp: twf_def tkeys_def tget_def image_iff split: option.splits dest: map_of_SomeD)

lemma save_history_cursor_tables:
  assumes "save_history_cursor now k v cs = Inr cs'" and "twf cs"
  shows "twf cs'" and "tget cs' k = Some (v\<lparr>hc_expires_at := Some (now + history_cursor_lifetime)\<rparr>)"
    and "c \<noteq> k \<Longrightarrow> tget cs' c = None \<or> tget cs' c = tget cs c"
proof -
  define cs1 where "cs1 = cs @ [(k, v\<lparr>hc_expires_at := Some (now + history_cursor_lifetime)\<rparr>)]"
  have none: "tget cs k = None" and cs': "cs' = filter (\<lambda>(k, x). \<not> expired now x) cs1"
    using assms(1) by (auto simp: save_history_cursor_def tinsert_Some_iff cs1_def split: option.split_asm)
  have wf: "twf cs1" using none assms(2) by (simp add: cs1_def twf_append_single)
  then show "twf cs'" by (simp add: cs' twf_def tkeys_def distinct_map_filter)
  have "tget cs1 x = (if x = k then Some (v\<lparr>hc_expires_at := Some (now + history_cursor_lifetime)\<rparr>) else tget cs x)" for x
    using none by (auto simp: cs1_def tget_def map_add_def split: option.splits)
  then show "tget cs' k = Some (v\<lparr>hc_expires_at := Some (now + history_cursor_lifetime)\<rparr>)"
    and "c \<noteq> k \<Longrightarrow> tget cs' c = None \<or> tget cs' c = tget cs c"
    unfolding cs' tget_filter[OF wf] by (auto simp: expired_def history_cursor_lifetime_def split: option.splits)
qed

text \<open>The client's position: everything up to \<open>after\<close> was returned, more is left, and the cursor says so.\<close>

definition at_cursor :: "string option \<Rightarrow> string \<Rightarrow> history_params \<Rightarrow> vcp_db \<Rightarrow> cursors \<Rightarrow> history_entry list \<Rightarrow> string \<Rightarrow> bool" where
  "at_cursor tenant sid p db cs pages c \<longleftrightarrow> c \<noteq> [] \<and> twf cs \<and> pages \<noteq> []
     \<and> (\<exists>rest. rest \<noteq> [] \<and> matching sid p db = pages @ rest)
     \<and> (\<forall>st. tget cs c = Some st \<longrightarrow> hc_scope st = scope_of tenant sid p \<and> hc_after st = he_sequence (last pages))"

lemma matching_cursor [simp]: "matching sid (p\<lparr>hp_cursor := c\<rparr>) db = matching sid p db" "scope_of tenant sid (p\<lparr>hp_cursor := c\<rparr>) = scope_of tenant sid p"
proof -
  have "wanted (p\<lparr>hp_cursor := c\<rparr>) = wanted p" by (simp add: fun_eq_iff wanted_def)
  then show "matching sid (p\<lparr>hp_cursor := c\<rparr>) db = matching sid p db" by (simp add: matching_def)
qed (simp add: scope_of_def)

text \<open>What is left after the last entry of a prefix.\<close>

lemma rest_after:
  assumes "sorted_wrt (\<lambda>x y. he_sequence x < he_sequence y) (pages @ rest)" and "pages \<noteq> []"
  shows "filter (\<lambda>e. he_sequence e > he_sequence (last pages)) (pages @ rest) = rest"
    and "filter (\<lambda>e. he_sequence e \<le> he_sequence (last pages)) (pages @ rest) = pages"
proof -
  have "pages = butlast pages @ [last pages]" using assms(2) by simp
  then have le: "he_sequence e \<le> he_sequence (last pages)" if "e \<in> set pages" for e
    using that assms(1) by (metis (no_types, lifting) Un_iff in_set_conv_decomp less_imp_le list.set_intros(1) order_refl set_append
        set_ConsD sorted_wrt_append empty_iff list.set(1))
  have gt: "he_sequence e > he_sequence (last pages)" if "e \<in> set rest" for e
    using that assms by (auto simp: sorted_wrt_append)
  show "filter (\<lambda>e. he_sequence e > he_sequence (last pages)) (pages @ rest) = rest"
    using le gt by (auto simp: filter_id_conv filter_empty_conv dest: leD)
  show "filter (\<lambda>e. he_sequence e \<le> he_sequence (last pages)) (pages @ rest) = pages"
    using le gt by (auto simp: filter_id_conv filter_empty_conv dest: leD)
qed

lemma read_at_cursor:
  assumes inv: "history_inv db" and kinds: "distinct (hp_kind p)" and limit: "hp_limit p \<noteq> Some 0" and wf: "twf cs"
    and run: "history d tenant sid p' cs db = Inr ((page, nxt), cs')" and p': "p' = p\<lparr>hp_cursor := c\<rparr>"
    and split: "matching sid p db = pages @ rest"
    and after: "\<And>a. history_after (hd_checked d) (scope_of tenant sid p) c cs = Inr a \<Longrightarrow>
      filter (\<lambda>e. he_sequence e > a) (matching sid p db) = rest"
  shows "case nxt of None \<Rightarrow> pages @ page = matching sid p db | Some c' \<Rightarrow> at_cursor tenant sid p db cs' (pages @ page) c'"
proof -
  have "distinct (hp_kind p')" "hp_limit p' \<noteq> Some 0" using kinds limit by (simp_all add: p')
  then obtain a where r: "history_after (hd_checked d) (scope_of tenant sid p') (hp_cursor p') cs = Inr a"
      "nxt = None \<Longrightarrow> cs' = cs \<and> page = filter (\<lambda>e. he_sequence e > a) (matching sid p' db)"
      "nxt \<noteq> None \<Longrightarrow> nxt = Some (identity ''v1_'' (hd_uuid d)) \<and> save_history_cursor (hd_saved d) (identity ''v1_'' (hd_uuid d))
        \<lparr>hc_scope = scope_of tenant sid p', hc_after = he_sequence (last page), hc_expires_at = None\<rparr> cs = Inr cs'"
      "nxt \<noteq> None \<Longrightarrow> \<exists>rest. rest \<noteq> [] \<and> filter (\<lambda>e. he_sequence e > a) (matching sid p' db) = page @ rest \<and> page \<noteq> []"
    using history_read[OF inv _ _ run] by metis
  have rest: "filter (\<lambda>e. he_sequence e > a) (matching sid p' db) = rest" using r(1) after by (simp add: p')
  show ?thesis
  proof (cases nxt)
    case None
    then show ?thesis using r(2) rest split by simp
  next
    case (Some c')
    obtain rest' where rest': "rest' \<noteq> []" "rest = page @ rest'" "page \<noteq> []" using r(4) rest Some by auto
    have c': "c' = identity ''v1_'' (hd_uuid d)" "save_history_cursor (hd_saved d) c' \<lparr>hc_scope = scope_of tenant sid p,
        hc_after = he_sequence (last page), hc_expires_at = None\<rparr> cs = Inr cs'"
      using r(3) Some by (simp_all add: p')
    note T = save_history_cursor_tables(1,2)[OF c'(2) wf]
    show ?thesis using T rest' split c'(1) by (simp add: Some at_cursor_def identity_def)
  qed
qed

lemma follows_position:
  assumes "follows cfg tenant sid p s cs pages nxt" and kinds: "distinct (hp_kind p)" and limit: "hp_limit p \<noteq> Some 0"
  shows "vcp_reachable cfg s \<and> (case nxt of None \<Rightarrow> pages = matching sid p (vm_db s) | Some c \<Rightarrow> at_cursor tenant sid p (vm_db s) cs pages c)"
  using assms(1)
proof (induction rule: follows.induct)
  case (first s cs d page nxt cs')
  have "case nxt of None \<Rightarrow> [] @ page = matching sid p (vm_db s) | Some c' \<Rightarrow> at_cursor tenant sid p (vm_db s) cs' ([] @ page) c'"
    by (rule read_at_cursor[OF vcp_reachable_history[OF first(1)] kinds limit first(2,3) refl, where rest = "matching sid p (vm_db s)"])
       (use matching_bound(1)[OF vcp_reachable_history[OF first(1)], of _ sid p] in \<open>fastforce simp: history_after_def filter_id_conv\<close>)+
  then show ?case using first(1) by (simp split: option.splits)
next
  case (service s cs pages c t)
  then have pos: "at_cursor tenant sid p (vm_db s) cs pages c" and reach: "vcp_reachable cfg s" by simp_all
  have "history_grows (vm_db s) (vm_db t)" using vcp_step_grows[OF service(2)] vcp_reachable_inv[OF reach] .
  then obtain new where "matching sid p (vm_db t) = matching sid p (vm_db s) @ new"
    using matching_grows[OF vcp_reachable_history[OF reach]] by metis
  moreover have "vcp_reachable cfg t" using reach service(2) by (simp add: vcp_reachable_def vcp_steps_def)
  ultimately show ?case using pos by (auto simp: at_cursor_def)
next
  case (other s cs pages c k now v cs')
  then have pos: "at_cursor tenant sid p (vm_db s) cs pages c" and reach: "vcp_reachable cfg s" by simp_all
  then have wf: "twf cs" by (simp add: at_cursor_def)
  have "tget cs' c = None \<or> tget cs' c = tget cs c" using save_history_cursor_tables(3)[OF other(3) wf] other(2) by simp
  then show ?case using pos reach save_history_cursor_tables(1)[OF other(3) wf] by (auto simp: at_cursor_def)
next
  case (more s cs pages c d page nxt cs')
  then have pos: "at_cursor tenant sid p (vm_db s) cs pages c" and reach: "vcp_reachable cfg s" by simp_all
  then obtain rest where rest: "matching sid p (vm_db s) = pages @ rest" "pages \<noteq> []" "twf cs" "c \<noteq> []"
    and st: "\<And>st. tget cs c = Some st \<Longrightarrow> hc_after st = he_sequence (last pages)" by (auto simp: at_cursor_def)
  note inv = vcp_reachable_history[OF reach]
  have tail: "filter (\<lambda>e. he_sequence e > he_sequence (last pages)) (matching sid p (vm_db s)) = rest"
    using rest_after(1)[of pages rest] matching_sorted[OF inv, of sid p] rest(1,2) by simp
  have "case nxt of None \<Rightarrow> pages @ page = matching sid p (vm_db s) | Some c' \<Rightarrow> at_cursor tenant sid p (vm_db s) cs' (pages @ page) c'"
    by (rule read_at_cursor[OF inv kinds limit rest(3) more(2) refl rest(1)])
       (use tail st rest(4) in \<open>auto simp: history_after_def split: if_split_asm option.split_asm\<close>)
  then show ?case using reach by simp
qed

text \<open>A stored, unexpired cursor always leads on, unless an entry is too large to be sent at all.\<close>

lemma cursor_leads_on:
  assumes inv: "history_inv db" and kinds: "distinct (hp_kind p)" and limit: "hp_limit p \<noteq> Some 0"
    and pos: "at_cursor tenant sid p db cs pages c" and c: "CURSOR c" "tget cs c = Some st" "\<not> expired (hd_checked d) st"
    and fresh: "tget cs (identity ''v1_'' (hd_uuid d)) = None"
    and small: "list_all (\<lambda>e. encoded_size e + 1 \<le> entry_ceiling) (matching sid p db)"
  shows "\<exists>page nxt cs'. history d tenant sid (p\<lparr>hp_cursor := Some c\<rparr>) cs db = Inr ((page, nxt), cs') \<and> page \<noteq> []"
proof -
  obtain rest where rest: "matching sid p db = pages @ rest" "rest \<noteq> []" "pages \<noteq> []" "c \<noteq> []" "hc_scope st = scope_of tenant sid p"
      "hc_after st = he_sequence (last pages)" using pos c(2) by (auto simp: at_cursor_def)
  define n where "n = (case hp_limit p of None \<Rightarrow> 50 | Some x \<Rightarrow> x)"
  have n: "0 < n" using limit by (auto simp: n_def split: option.splits)
  have "filter (\<lambda>e. he_sequence e > hc_after st) (matching sid p db) = rest"
    using rest_after(1)[of pages rest] matching_sorted[OF inv, of sid p] rest by simp
  then have page: "history_page sid (hs_kind (scope_of tenant sid p)) (hs_attempt_id (scope_of tenant sid p)) (hc_after st) (Suc n) db = take (Suc n) rest"
    using history_page_slice[OF inv kinds] by (simp add: scope_of_def)
  have "list_all (\<lambda>e. encoded_size e + 1 \<le> entry_ceiling) (take n rest)"
    using small rest(1) by (auto simp: list_all_iff dest: in_set_takeD)
  then obtain out where out: "fill_page sid [] 0 (take n rest) = Inr out" using fill_page_total by blast
  then have ne: "out \<noteq> []" using fill_page_prefix[OF out] n rest(2) by auto
  have save: "\<exists>cs'. save_history_cursor now (identity ''v1_'' (hd_uuid d)) v cs = Inr cs'" for now v
    using fresh by (auto simp: save_history_cursor_def tinsert_def tget_def tkeys_def map_of_eq_None_iff)
  have "history_after (hd_checked d) (scope_of tenant sid p) (Some c) cs = Inr (hc_after st)"
    using c rest(4,5) by (simp add: history_after_def)
  moreover have "history_number sid db \<noteq> 0"
    using matching_bound[OF inv, of "hd rest" sid p] rest(1,2) by (auto simp: le_Suc_eq)
  then obtain x where "read_session sid db = Inr x" by (auto simp: history_number_def read_session_def split: option.splits)
  ultimately show ?thesis using out ne save page
    by (auto simp: history_def Let_def service_bind_eq_Inr n_def[symmetric] sbind_eq_Inr)
qed

text \<open>The conditions under which a client's next read is bound to succeed.\<close>

definition cursor_usable :: "history_draw \<Rightarrow> string \<Rightarrow> string \<Rightarrow> history_params \<Rightarrow> cursors \<Rightarrow> vcp_db \<Rightarrow> bool" where
  "cursor_usable d c sid p cs db \<longleftrightarrow> CURSOR c \<and> (case tget cs c of None \<Rightarrow> False | Some st \<Rightarrow> \<not> expired (hd_checked d) st)
     \<and> tget cs (identity ''v1_'' (hd_uuid d)) = None
     \<and> list_all (\<lambda>e. encoded_size e + 1 \<le> entry_ceiling) (matching sid p db)"


end
