(* ===== verification/Vcp_Publication.thy ===== *)
theory Vcp_Publication
  imports Vcp_Reachable
begin

text \<open>
  The publisher of public events: a pass ends after finitely many batches, marks only events the
  broker acknowledged, and never publishes an event of a workspace while an earlier one of the same
  workspace is pending.
\<close>

section \<open>Marking\<close>

lemma mark_published_row:
  "tget (v_outbox (mark_published n db)) m = (if m = n then map_option (\<lambda>r. r\<lparr>ox_published := True\<rparr>) (tget (v_outbox db) n)
     else tget (v_outbox db) m)"
  by (auto simp: mark_published_def split: option.splits)

lemma mark_published_other [simp]: "(mark_published n db)\<lparr>v_outbox := o'\<rparr> = db\<lparr>v_outbox := o'\<rparr>"
  by (auto simp: mark_published_def split: option.splits)

lemma mark_published_twf [simp]: "twf (v_outbox db) \<Longrightarrow> twf (v_outbox (mark_published n db))"
  by (auto simp: mark_published_def split: option.splits)

definition outbox_workspaces :: "vcp_db \<Rightarrow> string set" where
  "outbox_workspaces db = {w. \<exists>n r. tget (v_outbox db) n = Some r \<and> ox_workspace_id r = w}"

lemma outbox_workspaces_mark [simp]: "outbox_workspaces (mark_published n db) = outbox_workspaces db"
  by (auto simp: outbox_workspaces_def mark_published_row split: if_splits) fastforce+

lemma outbox_workspaces_finite: "finite (outbox_workspaces db)"
proof (rule finite_subset)
  show "outbox_workspaces db \<subseteq> (\<lambda>(n, r). ox_workspace_id r) ` set (v_outbox db)"
    by (auto simp: outbox_workspaces_def dest!: tget_Some_in intro: rev_image_eqI)
qed simp

text \<open>
  No event is published before an earlier one of its workspace.
\<close>

definition in_order :: "vcp_db \<Rightarrow> bool" where
  "in_order db \<longleftrightarrow> (\<forall>n r m r'. tget (v_outbox db) n = Some r \<longrightarrow> tget (v_outbox db) m = Some r' \<longrightarrow> n < m
     \<longrightarrow> ox_workspace_id r = ox_workspace_id r' \<longrightarrow> ox_published r' \<longrightarrow> ox_published r)"

section \<open>One batch\<close>

text \<open>
  What a batch relies on: its events are pending rows in order, and an earlier pending row of an
  event's workspace is in the batch too unless that workspace is blocked.
\<close>

definition batch_ok :: "(nat \<times> outbox_row) list \<Rightarrow> string list \<Rightarrow> vcp_db \<Rightarrow> bool" where
  "batch_ok es blocked db \<longleftrightarrow> sorted_wrt (<) (map fst es)
     \<and> (\<forall>(n, r) \<in> set es. tget (v_outbox db) n = Some r \<and> \<not> ox_published r)
     \<and> (\<forall>(n, r) \<in> set es. ox_workspace_id r \<notin> set blocked \<longrightarrow> (\<forall>m r'. tget (v_outbox db) m = Some r' \<longrightarrow>
          ox_workspace_id r' = ox_workspace_id r \<longrightarrow> m < n \<longrightarrow> \<not> ox_published r' \<longrightarrow> (m, r') \<in> set es))"

lemma batch_okD:
  assumes "batch_ok es blocked db"
  shows "sorted_wrt (<) (map fst es)"
    and "(n, r) \<in> set es \<Longrightarrow> tget (v_outbox db) n = Some r"
    and "(n, r) \<in> set es \<Longrightarrow> \<not> ox_published r"
    and "(n, r) \<in> set es \<Longrightarrow> ox_workspace_id r \<notin> set blocked \<Longrightarrow> tget (v_outbox db) m = Some r' \<Longrightarrow>
      ox_workspace_id r' = ox_workspace_id r \<Longrightarrow> m < n \<Longrightarrow> \<not> ox_published r' \<Longrightarrow> (m, r') \<in> set es"
  using assms unfolding batch_ok_def by blast+

lemma batch_okI:
  assumes "sorted_wrt (<) (map fst es)"
    and "\<And>n r. (n, r) \<in> set es \<Longrightarrow> tget (v_outbox db) n = Some r \<and> \<not> ox_published r"
    and "\<And>n r m r'. (n, r) \<in> set es \<Longrightarrow> ox_workspace_id r \<notin> set blocked \<Longrightarrow> tget (v_outbox db) m = Some r' \<Longrightarrow>
      ox_workspace_id r' = ox_workspace_id r \<Longrightarrow> m < n \<Longrightarrow> \<not> ox_published r' \<Longrightarrow> (m, r') \<in> set es"
  shows "batch_ok es blocked db"
  using assms unfolding batch_ok_def by blast

lemma pending_events_ok:
  assumes "twf (v_outbox db)"
  shows "batch_ok (pending_events limit blocked db) blocked db"
proof -
  define all where "all = filter (\<lambda>(n, r). \<not> ox_published r \<and> ox_workspace_id r \<notin> set blocked) (tsorted (v_outbox db))"
  have "sorted (map fst (tsorted (v_outbox db)))" by (simp add: tsorted_def)
  moreover have "distinct (map fst (tsorted (v_outbox db)))"
    using assms by (simp add: tsorted_def twf_def tkeys_def distinct_map)
  ultimately have sw: "sorted_wrt (<) (map fst all)"
    unfolding all_def strict_sorted_iff by (simp add: sorted_filter distinct_map_filter)
  have row: "(n, r) \<in> set all \<longleftrightarrow> tget (v_outbox db) n = Some r \<and> \<not> ox_published r \<and> ox_workspace_id r \<notin> set blocked" for n r
    using assms by (auto simp: all_def twf_tget)
  have down: "(m, r') \<in> set (take limit all)" if "(n, r) \<in> set (take limit all)" "(m, r') \<in> set all" "m < n" for n r m r'
  proof -
    obtain i where i: "i < limit" "i < length all" "all ! i = (n, r)" using \<open>(n, r) \<in> _\<close> by (auto simp: in_set_conv_nth)
    obtain j where j: "j < length all" "all ! j = (m, r')" using \<open>(m, r') \<in> _\<close> by (auto simp: in_set_conv_nth)
    have "j < i"
    proof (rule ccontr)
      assume "\<not> j < i"
      then have "n \<le> m" using sw i j sorted_wrt_nth_less[of "(<)" "map fst all" i j] by (cases "i = j") auto
      then show False using \<open>m < n\<close> by simp
    qed
    then show ?thesis using i j by (auto simp: in_set_conv_nth intro!: exI[of _ j])
  qed
  have "pending_events limit blocked db = take limit all" by (simp add: pending_events_def all_def)
  moreover have "batch_ok (take limit all) blocked db"
  proof (rule batch_okI)
    show "sorted_wrt (<) (map fst (take limit all))" using sw by (simp add: take_map [symmetric] sorted_wrt_take)
  qed (use row down in \<open>auto dest: in_set_takeD\<close>)
  ultimately show ?thesis by simp
qed

lemma batch_ok_Cons:
  assumes "batch_ok ((n, r) # es) blocked db"
  shows "ox_workspace_id r \<in> set blocked' \<Longrightarrow> set blocked \<subseteq> set blocked' \<Longrightarrow> batch_ok es blocked' db"
    and "batch_ok es blocked (mark_published n db)"
proof -
  note b = batch_okD[OF assms]
  have later: "n < m" if "(m, r') \<in> set es" for m r' using b(1) that by fastforce
  show "batch_ok es blocked' db" if "ox_workspace_id r \<in> set blocked'" "set blocked \<subseteq> set blocked'"
  proof (rule batch_okI)
    show "(k, q') \<in> set es" if "(m, q) \<in> set es" "ox_workspace_id q \<notin> set blocked'" "tget (v_outbox db) k = Some q'"
        "ox_workspace_id q' = ox_workspace_id q" "k < m" "\<not> ox_published q'" for m q k q'
    proof -
      have "ox_workspace_id q \<notin> set blocked" "q' \<noteq> r"
        using that(2,4) \<open>ox_workspace_id r \<in> set blocked'\<close> \<open>set blocked \<subseteq> set blocked'\<close> by auto
      then show ?thesis using b(4)[of m q k q'] that by auto
    qed
  qed (use b(1) b(2,3) in auto)
  have row: "tget (v_outbox (mark_published n db)) m = (if m = n then Some (r\<lparr>ox_published := True\<rparr>) else tget (v_outbox db) m)" for m
    using b(2)[of n r] by (simp add: mark_published_row)
  show "batch_ok es blocked (mark_published n db)"
  proof (rule batch_okI)
    show "sorted_wrt (<) (map fst es)" using b(1) by simp
    show "tget (v_outbox (mark_published n db)) m = Some q \<and> \<not> ox_published q" if "(m, q) \<in> set es" for m q
      using b(2,3)[of m q] later[of m q] that by (simp add: row)
    show "(k, q') \<in> set es" if "(m, q) \<in> set es" "ox_workspace_id q \<notin> set blocked" "tget (v_outbox (mark_published n db)) k = Some q'"
        "ox_workspace_id q' = ox_workspace_id q" "k < m" "\<not> ox_published q'" for m q k q'
      using b(4)[of m q k q'] that by (auto simp: row split: if_splits)
  qed
qed

lemma mark_first_in_order:
  assumes b: "batch_ok ((n, r) # es) blocked db" and o: "in_order db" and free: "ox_workspace_id r \<notin> set blocked"
  shows "in_order (mark_published n db)"
proof -
  note B = batch_okD[OF b]
  have later: "n < m" if "(m, r') \<in> set es" for m r' using B(1) that by fastforce
  have first: "ox_published r'" if "tget (v_outbox db) m = Some r'" "ox_workspace_id r' = ox_workspace_id r" "m < n" for m r'
    using B(4)[of n r m r'] free that later by force
  have row: "tget (v_outbox (mark_published n db)) m = (if m = n then Some (r\<lparr>ox_published := True\<rparr>) else tget (v_outbox db) m)" for m
    using B(2)[of n r] by (simp add: mark_published_row)
  show ?thesis unfolding in_order_def row using o first unfolding in_order_def by (auto split: if_splits) 
qed

text \<open>What a pass did to the outbox: the rows numbered \<open>ps\<close>, pending and acknowledged, are marked.\<close>

definition marked :: "(event \<Rightarrow> bool) \<Rightarrow> nat list \<Rightarrow> vcp_db \<Rightarrow> vcp_db \<Rightarrow> bool" where
  "marked ack ps db db' \<longleftrightarrow> db' = db\<lparr>v_outbox := v_outbox db'\<rparr>
     \<and> (\<forall>n. tget (v_outbox db') n = (if n \<in> set ps then map_option (\<lambda>r. r\<lparr>ox_published := True\<rparr>) (tget (v_outbox db) n)
                                      else tget (v_outbox db) n))
     \<and> (\<forall>n \<in> set ps. \<exists>r. tget (v_outbox db) n = Some r \<and> \<not> ox_published r \<and> ack (ox_envelope r))"

lemma marked_refl [simp]: "marked ack [] db db"
  by (simp add: marked_def)

lemma marked_trans:
  assumes "marked ack ps db db1" and "marked ack qs db1 db2"
  shows "marked ack (ps @ qs) db db2"
proof -
  have disj: "n \<notin> set ps" if n: "n \<in> set qs" for n
  proof
    assume "n \<in> set ps"
    then show False using assms n unfolding marked_def by fastforce
  qed
  have row: "tget (v_outbox db1) n = (if n \<in> set ps then map_option (\<lambda>r. r\<lparr>ox_published := True\<rparr>) (tget (v_outbox db) n)
      else tget (v_outbox db) n)" for n using assms(1) by (simp add: marked_def)
  have "db2 = db\<lparr>v_outbox := v_outbox db2\<rparr>"
  proof -
    have 1: "db1 = db\<lparr>v_outbox := v_outbox db1\<rparr>" and 2: "db2 = db1\<lparr>v_outbox := v_outbox db2\<rparr>"
      using assms by (auto simp: marked_def)
    have "db1\<lparr>v_outbox := X\<rparr> = db\<lparr>v_outbox := X\<rparr>" for X by (subst 1) simp
    then show ?thesis using 2 by simp
  qed
  moreover have "\<exists>r. tget (v_outbox db) n = Some r \<and> \<not> ox_published r \<and> ack (ox_envelope r)" if "n \<in> set (ps @ qs)" for n
    using that assms row[of n] disj[of n] unfolding marked_def by (cases "n \<in> set ps") auto
  moreover have "tget (v_outbox db2) n = (if n \<in> set (ps @ qs) then map_option (\<lambda>r. r\<lparr>ox_published := True\<rparr>) (tget (v_outbox db) n)
      else tget (v_outbox db) n)" for n
    using assms(2) row[of n] disj[of n] unfolding marked_def by simp
  ultimately show ?thesis unfolding marked_def by blast
qed

lemma marked_single:
  assumes "tget (v_outbox db) n = Some r" and "\<not> ox_published r" and "ack (ox_envelope r)"
  shows "marked ack [n] db (mark_published n db)"
  using assms by (auto simp: marked_def mark_published_row) (simp add: mark_published_def)

lemma publish_batch_marks:
  assumes "publish_batch ack es blocked db = (b, ps, newly, db')" and "batch_ok es blocked db" and "in_order db" and "twf (v_outbox db)"
  shows "marked ack ps db db' \<and> in_order db' \<and> twf (v_outbox db') \<and> set blocked \<subseteq> set b
    \<and> (newly \<longrightarrow> (\<exists>w \<in> outbox_workspaces db. w \<in> set b - set blocked))"
  using assms
proof (induction ack es blocked db arbitrary: b ps newly db' rule: publish_batch.induct)
  case (2 ack n r rest blocked db)
  have row: "tget (v_outbox db) n = Some r" "\<not> ox_published r" using batch_okD(2,3)[OF "2.prems"(2)] by auto
  consider (skip) "ox_workspace_id r \<in> set blocked" | (ack) "ox_workspace_id r \<notin> set blocked" "ack (ox_envelope r)"
    | (fail) "ox_workspace_id r \<notin> set blocked" "\<not> ack (ox_envelope r)" by blast
  then show ?case
  proof cases
    case skip
    then show ?thesis using "2.IH"(1) "2.prems" batch_ok_Cons(1)[OF "2.prems"(2) skip] by simp
  next
    case ack
    obtain b1 ps1 ne db1 where run: "publish_batch ack rest blocked (mark_published n db) = (b1, ps1, ne, db1)"
      by (metis prod_cases4)
    then have r: "b = b1" "ps = n # ps1" "newly = ne" "db' = db1" using "2.prems"(1) ack by auto
    note ih = "2.IH"(2)[OF ack run batch_ok_Cons(2)[OF "2.prems"(2)] mark_first_in_order[OF "2.prems"(2,3) ack(1)]
        mark_published_twf[OF "2.prems"(4)]]
    have "marked ack ([n] @ ps1) db db1" by (rule marked_trans[OF marked_single[of db n r ack]]) (use row ack ih in auto)
    then show ?thesis using ih r by simp
  next
    case fail
    obtain b1 ps1 ne db1 where run: "publish_batch ack rest (ox_workspace_id r # blocked) db = (b1, ps1, ne, db1)"
      by (metis prod_cases4)
    then have r: "b = b1" "ps = ps1" "newly" "db' = db1" using "2.prems"(1) fail by auto
    have ok: "batch_ok rest (ox_workspace_id r # blocked) db" by (rule batch_ok_Cons(1)[OF "2.prems"(2)]) auto
    note ih = "2.IH"(3)[OF fail run ok "2.prems"(3,4)]
    have "ox_workspace_id r \<in> outbox_workspaces db" using row by (auto simp: outbox_workspaces_def)
    then show ?thesis using ih r fail by auto
  qed
qed simp

section \<open>A pass\<close>


end
