(* ===== verification/Vcp_Witnesses.thy ===== *)
theory Vcp_Witnesses
  imports Vcp_Properties Vcp_History Vcp_Publication
begin

text \<open>
  A concrete run of the virtual control plane: a workspace is applied, its provider call is claimed
  and returns, its runtime reports ready, an execution is accepted and starts, and a cancel ends
  it. Each property with hypotheses is applied to this run.
\<close>

section \<open>Configuration and messages\<close>

definition vdemo_provider :: provider where
  "vdemo_provider = \<lparr>pv_checkpoint = False, pv_suspend = False, pv_isolation = ''none'', pv_restore = ''none'',
     pv_tools = [], pv_max_resources = [(''cpu_millis'', 4000)], pv_validate = (\<lambda>_. None)\<rparr>"

definition vdemo_cfg :: vcp_cfg where
  "vdemo_cfg = \<lparr>vc_providers = [(''worktree'', vdemo_provider)], vc_event_ok = (\<lambda>_. True), vc_expired = (\<lambda>_ _. False),
     vc_later = (\<lambda>t _. t), vc_digest = u_event_id, vc_command_schema = (\<lambda>_. None), vc_enabled = True\<rparr>"

definition vdraws :: "string \<Rightarrow> nat \<Rightarrow> draw" where
  "vdraws p i = \<lparr>d_uuid = p @ replicate i (CHR ''x''), d_now = ''2026-01-01T00:00:00Z''\<rparr>"

definition vdemo_document :: json where
  "vdemo_document = JObj [(''metadata'', JObj [(''name'', JStr ''demo'')]), (''spec'', JObj [(''provider'', JStr ''worktree'')])]"

definition vdemo_request :: "string \<Rightarrow> vcp_payload \<Rightarrow> request" where
  "vdemo_request cid p = \<lparr>rq_subject = ''oe.v1.vcp'', rq_workspace_id = ''ws_a'', rq_command_id = cid, rq_payload = p,
     rq_expected_version = None, rq_causal_path = [cid], rq_deadline_at = None, rq_schema_error = None\<rparr>"

definition vdemo_apply :: request where "vdemo_apply = vdemo_request ''c1'' (PApply vdemo_document)"

definition vdemo_task :: execute_request where
  "vdemo_task = \<lparr>er_agent = \<lparr>runner = ''fake'', agent_model = None, settings = []\<rparr>,
     er_task = JObj [(''instruction'', JStr ''go'')], er_session = SelNew\<rparr>"

definition vdemo_execute :: request where "vdemo_execute = vdemo_request ''c2'' (PExecute vdemo_task)"
definition vdemo_cancel :: request where "vdemo_cancel = vdemo_request ''c3'' (PCancel ''attempt_exxxx'' None)"

definition vdemo_runtime :: runtime_target where
  "vdemo_runtime = \<lparr>workspace_id = ''ws_a'', runtime_id = ''rt_ax'', runtime_generation = 1\<rparr>"

definition vdemo_target :: attempt_target where
  "vdemo_target = \<lparr>workspace_id = ''ws_a'', runtime_id = ''rt_ax'', runtime_generation = 1,
     session_id = ''session_ex'', attempt_id = ''attempt_exxxx''\<rparr>"

definition vdemo_updates :: string where "vdemo_updates = subject_for ''vcp'' ''rt_ax'' ''updates''"

definition vdemo_ready :: update where
  "vdemo_ready = \<lparr>u_event_id = ''e1'', u_body = Ready \<lparr>rp_executors = [''fake''], rp_steering_executors = [],
       rp_max_concurrent_attempts = 1, rp_progress_kinds = [''conversation''], rp_journal_id = ''j1''\<rparr>,
     u_target = RuntimeTarget vdemo_runtime, u_boot_id = ''b1'', u_sequence = 1, u_occurred_at = ''2026-01-01T00:00:00Z'',
     u_execution = None, u_attempt_sequence = None, u_termination = None, u_cancel = None\<rparr>"

section \<open>Databases of the run\<close>

definition vdemo_1 :: vcp_db where "vdemo_1 = snd (serve vdemo_cfg (CApply (vdraws ''a'')) vdemo_apply empty_vcp)"

definition vdemo_page :: "operation_doc list \<times> string \<times> bool" where "vdemo_page = reconcile_page 8 [] [] vdemo_1"

definition vdemo_claim :: "operation_doc \<times> vcp_db" where
  "vdemo_claim = claim_operation (vdraws ''b'' 0) (hd (fst vdemo_page)) vdemo_1"

definition vdemo_2 :: vcp_db where "vdemo_2 = snd vdemo_claim"

definition vdemo_owned :: runtime_doc where "vdemo_owned = the (tget (v_runtimes vdemo_2) ''ws_a'')"

definition vdemo_3 :: vcp_db where
  "vdemo_3 = projr (settle_call vdemo_cfg (vdraws ''c'') (fst vdemo_claim) vdemo_owned (Returned (Some (JStr ''path''))) vdemo_2)"

definition vdemo_4 :: vcp_db where "vdemo_4 = snd (receive vdemo_cfg (vdraws ''d'') vdemo_updates vdemo_ready vdemo_3)"

definition vdemo_preflight :: preflight where
  "vdemo_preflight = Prepared \<lparr>wd_snapshot = new_workspace ''ws_a'' ''2026-01-01T00:00:00Z'' vdemo_document,
       wd_specification = vdemo_document, wd_operation_id = ''op_axxx'', wd_active_operation_id = None\<rparr>
     \<lparr>rd_runtime_id = ''rt_ax'', rd_generation = 1, rd_provider = ''worktree'', rd_locator = Some (JStr ''path'')\<rparr>
     \<lparr>working_directory = ''.'', instruction_files = [], references = []\<rparr>"

definition vdemo_5 :: vcp_db where
  "vdemo_5 = snd (serve vdemo_cfg (CExecute (vdraws ''e'') vdemo_preflight vdemo_task) vdemo_execute vdemo_4)"

definition vdemo_started :: update where
  "vdemo_started = vdemo_ready\<lparr>u_event_id := ''e2'', u_body := Started, u_target := AttemptTarget vdemo_target, u_sequence := 2,
     u_execution := Some \<lparr>exec_command_id = ''rtc_exxxxx'', exec_cause = \<lparr>cause_operation_id = ''op_exxxxxx'',
       cause_command_id = ''c2'', causal_path = [''c2'']\<rparr>\<rparr>, u_attempt_sequence := Some 1\<rparr>"

definition vdemo_6 :: vcp_db where "vdemo_6 = snd (receive vdemo_cfg (vdraws ''f'') vdemo_updates vdemo_started vdemo_5)"

definition vdemo_7 :: vcp_db where "vdemo_7 = snd (serve vdemo_cfg (CCancel (vdraws ''g'')) vdemo_cancel vdemo_6)"

definition vdemo_cancelled :: update where
  "vdemo_cancelled = vdemo_started\<lparr>u_event_id := ''e3'', u_body := Cancelled None, u_sequence := 3, u_attempt_sequence := Some 2,
     u_termination := Some Killed,
     u_cancel := Some (''rtc_gxx'', \<lparr>cause_operation_id = ''op_gx'', cause_command_id = ''c3'', causal_path = [''c3'']\<rparr>)\<rparr>"

definition vdemo_8 :: vcp_db where "vdemo_8 = snd (receive vdemo_cfg (vdraws ''h'') vdemo_updates vdemo_cancelled vdemo_7)"

section \<open>The run\<close>

definition vdemo_state :: "vcp_db \<Rightarrow> vcp" where
  "vdemo_state db = \<lparr>vm_db = db, vm_tasks = [], vm_after = [], vm_exhausted = False\<rparr>"

definition vdemo_calling :: vcp where
  "vdemo_calling = \<lparr>vm_db = vdemo_2, vm_tasks = [(''op_axxx'', Calling (fst vdemo_claim) vdemo_owned)], vm_after = ''op_axxx'',
     vm_exhausted = False\<rparr>"

lemma vdemo_state_simps [simp]: "vm_db (vdemo_state db) = db" "(vdemo_state db)\<lparr>vm_db := db'\<rparr> = vdemo_state db'"
  by (simp_all add: vdemo_state_def)

lemma vdemo_public:
  assumes "fresh_draws db (draws_of c)"
  shows "vcp_step cfg (vdemo_state db) (vdemo_state (snd (serve cfg c rq db)))"
  using vcp_step.public[of "vdemo_state db" c cfg rq "fst (serve cfg c rq db)" "snd (serve cfg c rq db)"] assms by simp

lemma vdemo_update: "vcp_step cfg (vdemo_state db) (vdemo_state (snd (receive cfg ds subject u db)))"
  using vcp_step.update[of cfg ds subject u "vdemo_state db" "fst (receive cfg ds subject u db)" "snd (receive cfg ds subject u db)"] by simp

lemma vdemo_fresh:
  "fresh_draws empty_vcp (draws_of (CApply (vdraws ''a'')))"
  "fresh_draws vdemo_4 (draws_of (CExecute (vdraws ''e'') vdemo_preflight vdemo_task))"
  "fresh_draws vdemo_6 (draws_of (CCancel (vdraws ''g'')))"
  by code_simp+

lemma vdemo_step_apply: "vcp_step vdemo_cfg initial_vcp (vdemo_state vdemo_1)"
  using vdemo_public[OF vdemo_fresh(1), of vdemo_cfg vdemo_apply] by (simp add: vdemo_1_def initial_vcp_def vdemo_state_def)

lemma vdemo_paged: "reconcile_page 8 [] [] vdemo_1 = ([hd (fst vdemo_page)], ''op_axxx'', False)"
  "add_tasks [hd (fst vdemo_page)] [] = [(''op_axxx'', Picked (hd (fst vdemo_page)))]"
  by code_simp+

lemma vdemo_called: "tget (v_runtimes vdemo_2) (workspace_of (fst vdemo_claim)) = Some vdemo_owned"
  by code_simp

lemma vdemo_settled:
  "settle_call vdemo_cfg (vdraws ''c'') (fst vdemo_claim) vdemo_owned (Returned (Some (JStr ''path''))) vdemo_2 = Inr vdemo_3"
  by code_simp

lemma vdemo_step_call: "vcp_steps vdemo_cfg (vdemo_state vdemo_1) vdemo_calling"
proof -
  let ?s = "\<lparr>vm_db = vdemo_1, vm_tasks = [(''op_axxx'', Picked (hd (fst vdemo_page)))], vm_after = ''op_axxx'', vm_exhausted = False\<rparr>"
  have "vcp_step vdemo_cfg (vdemo_state vdemo_1) ?s"
    using vcp_step.page[of "vdemo_state vdemo_1" "[]" "[hd (fst vdemo_page)]" "''op_axxx''" False vdemo_cfg] vdemo_paged
    by (simp add: vdemo_state_def max_tasks_def)
  moreover have "vcp_step vdemo_cfg ?s vdemo_calling"
    using vcp_step.claim[of ?s "''op_axxx''" "hd (fst vdemo_page)" "vdraws ''b'' 0" "fst vdemo_claim" vdemo_2 vdemo_cfg] vdemo_called
    by (simp add: vdemo_claim_def vdemo_2_def vdemo_calling_def claim_task_def tget_def tput_def)
  ultimately show ?thesis unfolding vcp_steps_def by auto
qed

lemma vdemo_step_ready: "vcp_steps vdemo_cfg vdemo_calling (vdemo_state vdemo_3)"
proof -
  let ?s = "vdemo_calling\<lparr>vm_db := vdemo_3, vm_tasks := []\<rparr>"
  have "vcp_step vdemo_cfg vdemo_calling ?s"
    using vcp_step.settle[of vdemo_calling "''op_axxx''" "fst vdemo_claim" vdemo_owned vdemo_cfg "vdraws ''c''" "Returned (Some (JStr ''path''))"
        vdemo_3] vdemo_settled by (simp add: vdemo_calling_def tget_def tdel_def)
  moreover have "vcp_step vdemo_cfg ?s (vdemo_state vdemo_3)"
    using vcp_step.pass_aborted[of vdemo_cfg ?s] by (simp add: new_pass_def vdemo_calling_def vdemo_state_def)
  ultimately show ?thesis unfolding vcp_steps_def by auto
qed

lemma vdemo_step_rest:
  "vcp_step vdemo_cfg (vdemo_state vdemo_3) (vdemo_state vdemo_4)" "vcp_step vdemo_cfg (vdemo_state vdemo_4) (vdemo_state vdemo_5)"
  "vcp_step vdemo_cfg (vdemo_state vdemo_5) (vdemo_state vdemo_6)" "vcp_step vdemo_cfg (vdemo_state vdemo_6) (vdemo_state vdemo_7)"
  "vcp_step vdemo_cfg (vdemo_state vdemo_7) (vdemo_state vdemo_8)"
  using vdemo_update vdemo_public[OF vdemo_fresh(2), of vdemo_cfg vdemo_execute] vdemo_public[OF vdemo_fresh(3), of vdemo_cfg vdemo_cancel]
  by (simp_all add: vdemo_4_def vdemo_5_def vdemo_6_def vdemo_7_def vdemo_8_def)

lemma vdemo_reachable:
  "vcp_reachable vdemo_cfg (vdemo_state vdemo_1)" "vcp_reachable vdemo_cfg vdemo_calling" "vcp_reachable vdemo_cfg (vdemo_state vdemo_4)"
  "vcp_reachable vdemo_cfg (vdemo_state vdemo_6)" "vcp_reachable vdemo_cfg (vdemo_state vdemo_8)"
  unfolding vcp_reachable_def vcp_steps_def
  using vdemo_step_apply vdemo_step_call vdemo_step_ready vdemo_step_rest unfolding vcp_steps_def
  by (meson rtranclp.rtrancl_into_rtrancl rtranclp_trans rtranclp.rtrancl_refl)+

lemma vdemo_later: "vcp_steps vdemo_cfg (vdemo_state vdemo_6) (vdemo_state vdemo_8)" "vcp_steps vdemo_cfg (vdemo_state vdemo_5) (vdemo_state vdemo_7)"
  "vcp_steps vdemo_cfg (vdemo_state vdemo_7) (vdemo_state vdemo_8)"
  using vdemo_step_rest unfolding vcp_steps_def by (meson rtranclp.rtrancl_into_rtrancl rtranclp.rtrancl_refl)+

definition vdemo_attempt :: "vcp_db \<Rightarrow> attempt_doc" where
  "vdemo_attempt db = the (tget (v_attempts db) ''attempt_exxxx'')"

lemma vdemo_facts:
  "tget (v_attempts vdemo_6) ''attempt_exxxx'' = Some (vdemo_attempt vdemo_6)"
  "va_state (ad_snapshot (vdemo_attempt vdemo_6)) = VRunning"
  "tget (v_attempts vdemo_8) ''attempt_exxxx'' = Some (vdemo_attempt vdemo_8)"
  "va_state (ad_snapshot (vdemo_attempt vdemo_8)) = VCancelled"
  by code_simp+

definition vdemo_workspace :: "vcp_db \<Rightarrow> workspace_doc" where
  "vdemo_workspace db = the (get_workspace ''ws_a'' db)"

lemma vdemo_workspaces:
  "get_workspace ''ws_a'' vdemo_1 = Some (vdemo_workspace vdemo_1)" "get_workspace ''ws_a'' vdemo_6 = Some (vdemo_workspace vdemo_6)"
  "w_state (wd_snapshot (vdemo_workspace vdemo_6)) = WReady" "w_active_attempt_ids (wd_snapshot (vdemo_workspace vdemo_6)) = [''attempt_exxxx'']"
  "wd_active_operation_id (vdemo_workspace vdemo_1) = Some ''op_axxx''"
  by code_simp+

section \<open>Witnesses\<close>

lemma vdemo_replies:
  "serve vdemo_cfg (CCancel (vdraws ''g'')) vdemo_cancel vdemo_6
   = (Inr (accepted vdemo_cancel ''op_gx'' ''attempt_exxxx''), vdemo_7)"
  "tget (v_receipts vdemo_6) ''c3'' = None" "tget (v_receipts vdemo_7) ''c3'' \<noteq> None"
  by code_simp+

theorem vcp_command_redelivered_witness:
  "serve vdemo_cfg (CCancel (vdraws ''z'')) vdemo_cancel vdemo_8 = (Inr (accepted vdemo_cancel ''op_gx'' ''attempt_exxxx''), vdemo_8)"
proof -
  have "vdemo_7 \<noteq> vdemo_6" using vdemo_replies(2,3) by metis
  then show ?thesis
    using vcp_command_redelivered[OF vdemo_reachable(4), of "CCancel (vdraws ''g'')" vdemo_cancel _ vdemo_7 "vdemo_state vdemo_8" "vdemo_state vdemo_8"]
      vdemo_replies(1) vdemo_later(3) vdemo_fresh(3) by (simp add: vcp_steps_def)
qed


theorem one_call_per_workspace_witness:
  "length (vm_tasks vdemo_calling) = 1 \<and> tget (v_runtimes vdemo_2) (workspace_of (fst vdemo_claim)) = Some vdemo_owned"
proof -
  have "tget (vm_tasks vdemo_calling) ''op_axxx'' = Some (Calling (fst vdemo_claim) vdemo_owned)"
    by (simp add: vdemo_calling_def tget_def)
  with one_call_per_workspace[OF vdemo_reachable(2), THEN conjunct2, THEN conjunct2] 
  have "tget (v_runtimes (vm_db vdemo_calling)) (workspace_of (fst vdemo_claim)) = Some vdemo_owned" by blast
  then show ?thesis by (simp add: vdemo_calling_def)
qed

theorem workspace_lifecycle_witness:
  "\<exists>r. tget (v_operations vdemo_1) ''op_axxx'' = Some r \<and> unfinished r \<and> workspace_of r = ''ws_a''"
  using workspace_lifecycle[OF vdemo_reachable(1), of "''ws_a''" "vdemo_workspace vdemo_1"] vdemo_workspaces(1,5) by auto

theorem active_attempts_exact_witness:
  "\<exists>a. tget (v_attempts vdemo_6) ''attempt_exxxx'' = Some a \<and> \<not> ended_state (va_state (ad_snapshot a))"
proof -
  have w: "get_workspace ''ws_a'' (vm_db (vdemo_state vdemo_6)) = Some (vdemo_workspace vdemo_6)" by (simp add: vdemo_workspaces(2))
  show ?thesis
    using active_attempts_exact[OF vdemo_reachable(4) w, THEN conjunct2, THEN conjunct1, THEN spec, of "''attempt_exxxx''"] vdemo_workspaces(4)
    by auto
qed

theorem vcp_attempt_forward_witness: "vmoves VRunning VCancelled"
  using vcp_attempt_forward[OF vdemo_reachable(4) vdemo_later(1), of "''attempt_exxxx''" "vdemo_attempt vdemo_6"] vdemo_facts by auto

theorem cancels_and_steering_settled_witness: "ad_cancel (vdemo_attempt vdemo_8) \<noteq> None"
  using cancels_and_steering_settled[OF vdemo_reachable(5), of "''attempt_exxxx''" "vdemo_attempt vdemo_8"] vdemo_facts by simp

lemma vdemo_branch:
  "validate_update None vdemo_updates (vdemo_ready\<lparr>u_event_id := ''e9'', u_sequence := 7\<rparr>) = []"
  "fence (tget (v_runtimes vdemo_6) ''ws_a'') (Some (wd_snapshot (vdemo_workspace vdemo_6))) vdemo_runtime = None"
  "runtime_update ''rt_ax'' ''e9'' vdemo_6 = None" "rs_quarantined (status_of ''rt_ax'' vdemo_6) = False" "rs_sequence (status_of ''rt_ax'' vdemo_6) = 2"
  by code_simp+


theorem updates_committed_in_order_witness: "committed ''rt_ax'' vdemo_6 = [1, 2]"
  using updates_committed_in_order[OF vdemo_reachable(4) vdemo_later(1), of "''rt_ax''"] vdemo_branch(5) by (simp add: upt_rec)

lemma vdemo_unsettled:
  "tget (v_operations vdemo_2) ''op_axxx'' = Some (fst vdemo_claim)" "unfinished (fst vdemo_claim)" "od_attempts (fst vdemo_claim) = 0"
  "event_fresh (vdraws ''y'' 1) vdemo_2" "workspace_of (fst vdemo_claim) = ''ws_a''"
  by code_simp+



text \<open>
  The running attempt says three things. A client reads the history one entry at a time: its first
  page when two are there, the others after the third arrived.
\<close>

definition vdemo_said :: "string \<Rightarrow> nat \<Rightarrow> update" where
  "vdemo_said eid n = vdemo_started\<lparr>u_event_id := eid, u_body := Progress (Conversation eid ''agent'' ''hello''), u_sequence := n,
     u_attempt_sequence := Some (n - 1)\<rparr>"

definition vdemo_say :: "string \<Rightarrow> nat \<Rightarrow> vcp_db \<Rightarrow> vcp_db" where
  "vdemo_say eid n db = snd (receive vdemo_cfg (vdraws eid) vdemo_updates (vdemo_said eid n) db)"

definition vdemo_two :: vcp_db where "vdemo_two = vdemo_say ''e4'' 4 (vdemo_say ''e3'' 3 vdemo_6)"
definition vdemo_three :: vcp_db where "vdemo_three = vdemo_say ''e5'' 5 vdemo_two"

definition vdemo_params :: history_params where
  "vdemo_params = \<lparr>hp_kind = [HSteering, HMessage], hp_attempt_id = None, hp_limit = Some 1, hp_cursor = None\<rparr>"

definition vdemo_hdraw :: "char \<Rightarrow> history_draw" where
  "vdemo_hdraw c = \<lparr>hd_checked = 5, hd_saved = 5, hd_uuid = replicate 32 c\<rparr>"

definition vdemo_cursor :: "char \<Rightarrow> string" where "vdemo_cursor c = identity ''v1_'' (replicate 32 c)"

definition vdemo_row :: "string \<Rightarrow> nat \<Rightarrow> (string \<times> nat) \<times> history_entry" where
  "vdemo_row eid n = ((''session_ex'', n), \<lparr>he_kind = HMessage, he_attempt_id = ''attempt_exxxx'', he_sequence = n,
     he_occurred_at = ''2026-01-01T00:00:00Z'', he_content = [(''message_id'', eid), (''role'', ''agent''), (''text'', ''hello'')]\<rparr>)"

lemma vdemo_rows:
  "v_history vdemo_two = [vdemo_row ''e3'' 1, vdemo_row ''e4'' 2]"
  "v_history vdemo_three = [vdemo_row ''e3'' 1, vdemo_row ''e4'' 2, vdemo_row ''e5'' 3]"
  "tget (v_sessions vdemo_two) ''session_ex'' \<noteq> None" "tget (v_sessions vdemo_three) ''session_ex'' \<noteq> None"
  by code_simp+

text \<open>A read of one small entry, and what the store holds for each read of the run.\<close>

lemma one_entry_read:
  assumes "history_after (hd_checked d) (scope_of t sid p) (hp_cursor p) cs = Inr a" and "tget (v_sessions db) sid \<noteq> None"
    and "hp_limit p = Some 1" and "history_page sid (hs_kind (scope_of t sid p)) (hs_attempt_id (scope_of t sid p)) a 2 db = e # rest"
    and "encoded_size e < 1000"
  shows "rest = [] \<Longrightarrow> history d t sid p cs db = Inr (([e], None), cs)"
    and "rest \<noteq> [] \<Longrightarrow> save_history_cursor (hd_saved d) (identity ''v1_'' (hd_uuid d))
        \<lparr>hc_scope = scope_of t sid p, hc_after = he_sequence e, hc_expires_at = None\<rparr> cs = Inr cs' \<Longrightarrow>
      history d t sid p cs db = Inr (([e], Some (identity ''v1_'' (hd_uuid d))), cs')"
proof -
  obtain x where "read_session sid db = Inr x" using assms(2) by (auto simp: read_session_def)
  moreover have "fill_page sid [] 0 [e] = Inr [e]" using assms(5) by (simp add: entry_ceiling_def)
  ultimately show "rest = [] \<Longrightarrow> history d t sid p cs db = Inr (([e], None), cs)"
    and "rest \<noteq> [] \<Longrightarrow> save_history_cursor (hd_saved d) (identity ''v1_'' (hd_uuid d))
        \<lparr>hc_scope = scope_of t sid p, hc_after = he_sequence e, hc_expires_at = None\<rparr> cs = Inr cs' \<Longrightarrow>
      history d t sid p cs db = Inr (([e], Some (identity ''v1_'' (hd_uuid d))), cs')"
    using assms by (simp_all add: history_def service_bind_def numeral_2_eq_2)
qed

definition vdemo_saved :: "char \<Rightarrow> nat \<Rightarrow> cursors \<Rightarrow> cursors" where
  "vdemo_saved c n cs = projr (save_history_cursor 5 (vdemo_cursor c)
     \<lparr>hc_scope = scope_of None ''session_ex'' vdemo_params, hc_after = n, hc_expires_at = None\<rparr> cs)"

abbreviation "vdemo_cs1 \<equiv> vdemo_saved (CHR ''a'') 1 []"
abbreviation "vdemo_cs2 \<equiv> vdemo_saved (CHR ''b'') 2 vdemo_cs1"

lemma vdemo_saves:
  "save_history_cursor 5 (vdemo_cursor (CHR ''a'')) \<lparr>hc_scope = scope_of None ''session_ex'' vdemo_params, hc_after = 1, hc_expires_at = None\<rparr> []
   = Inr vdemo_cs1"
  "save_history_cursor 5 (vdemo_cursor (CHR ''b'')) \<lparr>hc_scope = scope_of None ''session_ex'' vdemo_params, hc_after = 2, hc_expires_at = None\<rparr>
     vdemo_cs1 = Inr vdemo_cs2"
  "history_after 5 (scope_of None ''session_ex'' vdemo_params) (Some (vdemo_cursor (CHR ''a''))) vdemo_cs1 = Inr 1"
  "history_after 5 (scope_of None ''session_ex'' vdemo_params) (Some (vdemo_cursor (CHR ''b''))) vdemo_cs2 = Inr 2"
  by code_simp+

definition vdemo_seek :: "nat \<Rightarrow> ((string \<times> nat) \<times> history_entry) list \<Rightarrow> history_entry list" where
  "vdemo_seek a rows = history_page ''session_ex'' [HMessage, HSteering] None a 2 (empty_vcp\<lparr>v_history := rows\<rparr>)"

lemma vdemo_seeks:
  "vdemo_seek 0 [vdemo_row ''e3'' 1, vdemo_row ''e4'' 2] = snd (vdemo_row ''e3'' 1) # [snd (vdemo_row ''e4'' 2)]"
  "vdemo_seek 1 [vdemo_row ''e3'' 1, vdemo_row ''e4'' 2, vdemo_row ''e5'' 3] = snd (vdemo_row ''e4'' 2) # [snd (vdemo_row ''e5'' 3)]"
  "vdemo_seek 2 [vdemo_row ''e3'' 1, vdemo_row ''e4'' 2, vdemo_row ''e5'' 3] = snd (vdemo_row ''e5'' 3) # []"
  "sort_key kind_name [HSteering, HMessage] = [HMessage, HSteering]"
  "encoded_size (snd (vdemo_row ''e3'' 1)) = 145" "encoded_size (snd (vdemo_row ''e4'' 2)) = 145" "encoded_size (snd (vdemo_row ''e5'' 3)) = 145"
  by code_simp+

lemma vdemo_seek_page:
  "history_page ''session_ex'' (hs_kind (scope_of None ''session_ex'' (vdemo_params\<lparr>hp_cursor := c\<rparr>)))
     (hs_attempt_id (scope_of None ''session_ex'' (vdemo_params\<lparr>hp_cursor := c\<rparr>))) a 2 db = vdemo_seek a (v_history db)"
  by (simp add: scope_of_def vdemo_params_def vdemo_seeks(4) vdemo_seek_def history_page_def history_rows_def)

lemma vdemo_reads:
  "history (vdemo_hdraw (CHR ''a'')) None ''session_ex'' (vdemo_params\<lparr>hp_cursor := None\<rparr>) [] vdemo_two
   = Inr (([snd (vdemo_row ''e3'' 1)], Some (vdemo_cursor (CHR ''a''))), vdemo_cs1)"
  "history (vdemo_hdraw (CHR ''b'')) None ''session_ex'' (vdemo_params\<lparr>hp_cursor := Some (vdemo_cursor (CHR ''a''))\<rparr>) vdemo_cs1 vdemo_three
   = Inr (([snd (vdemo_row ''e4'' 2)], Some (vdemo_cursor (CHR ''b''))), vdemo_cs2)"
  "history (vdemo_hdraw (CHR ''c'')) None ''session_ex'' (vdemo_params\<lparr>hp_cursor := Some (vdemo_cursor (CHR ''b''))\<rparr>) vdemo_cs2 vdemo_three
   = Inr (([snd (vdemo_row ''e5'' 3)], None), vdemo_cs2)"
proof -
  have d: "hd_checked (vdemo_hdraw c) = 5" "hd_saved (vdemo_hdraw c) = 5" "identity ''v1_'' (hd_uuid (vdemo_hdraw c)) = vdemo_cursor c" for c
    by (simp_all add: vdemo_hdraw_def vdemo_cursor_def)
  have n: "he_sequence (snd (vdemo_row eid n)) = n" for eid n by (simp add: vdemo_row_def)
  note page = vdemo_seek_page[of _ 0 vdemo_two, unfolded vdemo_rows(1) vdemo_seeks(1)]
    vdemo_seek_page[of _ 1 vdemo_three, unfolded vdemo_rows(2) vdemo_seeks(2)] vdemo_seek_page[of _ 2 vdemo_three, unfolded vdemo_rows(2) vdemo_seeks(3)]
  have l: "hp_limit (vdemo_params\<lparr>hp_cursor := c\<rparr>) = Some 1" for c by (simp add: vdemo_params_def)
  show "history (vdemo_hdraw (CHR ''a'')) None ''session_ex'' (vdemo_params\<lparr>hp_cursor := None\<rparr>) [] vdemo_two
      = Inr (([snd (vdemo_row ''e3'' 1)], Some (vdemo_cursor (CHR ''a''))), vdemo_cs1)"
    using one_entry_read(2)[of "vdemo_hdraw (CHR ''a'')" None "''session_ex''" "vdemo_params\<lparr>hp_cursor := None\<rparr>" "[]" 0 vdemo_two,
        OF _ vdemo_rows(3) l page(1)]
    by (simp add: d n vdemo_saves(1)[unfolded One_nat_def] vdemo_seeks(5)[unfolded One_nat_def] history_after_def)
  show "history (vdemo_hdraw (CHR ''b'')) None ''session_ex'' (vdemo_params\<lparr>hp_cursor := Some (vdemo_cursor (CHR ''a''))\<rparr>) vdemo_cs1 vdemo_three
      = Inr (([snd (vdemo_row ''e4'' 2)], Some (vdemo_cursor (CHR ''b''))), vdemo_cs2)"
    using one_entry_read(2)[of "vdemo_hdraw (CHR ''b'')" None "''session_ex''" "vdemo_params\<lparr>hp_cursor := Some (vdemo_cursor (CHR ''a''))\<rparr>"
        vdemo_cs1 1 vdemo_three, OF _ vdemo_rows(4) l page(2)]
    by (simp add: d n vdemo_saves(2,3)[unfolded One_nat_def] vdemo_seeks(6))
  show "history (vdemo_hdraw (CHR ''c'')) None ''session_ex'' (vdemo_params\<lparr>hp_cursor := Some (vdemo_cursor (CHR ''b''))\<rparr>) vdemo_cs2 vdemo_three
      = Inr (([snd (vdemo_row ''e5'' 3)], None), vdemo_cs2)"
    using one_entry_read(1)[of "vdemo_hdraw (CHR ''c'')" None "''session_ex''" "vdemo_params\<lparr>hp_cursor := Some (vdemo_cursor (CHR ''b''))\<rparr>"
        vdemo_cs2 2 vdemo_three, OF _ vdemo_rows(4) l page(3)]
    by (simp add: d n vdemo_saves(4)[unfolded One_nat_def] vdemo_seeks(7))
qed

lemma vdemo_speaks: "vcp_step vdemo_cfg (vdemo_state db) (vdemo_state (vdemo_say eid n db))"
  unfolding vdemo_say_def by (rule vdemo_update)

lemma vdemo_two_reachable: "vcp_reachable vdemo_cfg (vdemo_state vdemo_two)"
  using vdemo_reachable(4) vdemo_speaks unfolding vcp_reachable_def vcp_steps_def vdemo_two_def
  by (meson rtranclp.rtrancl_into_rtrancl)

lemma vdemo_follows:
  "follows vdemo_cfg None ''session_ex'' vdemo_params (vdemo_state vdemo_three) vdemo_cs2
     (([snd (vdemo_row ''e3'' 1)] @ [snd (vdemo_row ''e4'' 2)]) @ [snd (vdemo_row ''e5'' 3)]) None"
proof -
  have "follows vdemo_cfg None ''session_ex'' vdemo_params (vdemo_state vdemo_two) vdemo_cs1 [snd (vdemo_row ''e3'' 1)] (Some (vdemo_cursor (CHR ''a'')))"
    by (rule follows.first[OF vdemo_two_reachable, where cs = "[]" and d = "vdemo_hdraw (CHR ''a'')"])
       (simp_all add: twf_def tkeys_def vdemo_reads(1)[unfolded One_nat_def])
  then have "follows vdemo_cfg None ''session_ex'' vdemo_params (vdemo_state vdemo_three) vdemo_cs1 [snd (vdemo_row ''e3'' 1)] (Some (vdemo_cursor (CHR ''a'')))"
    using follows.service vdemo_speaks unfolding vdemo_three_def by blast
  then have "follows vdemo_cfg None ''session_ex'' vdemo_params (vdemo_state vdemo_three) vdemo_cs2
      ([snd (vdemo_row ''e3'' 1)] @ [snd (vdemo_row ''e4'' 2)]) (Some (vdemo_cursor (CHR ''b'')))"
    by (rule follows.more) (use vdemo_reads(2) in simp)
  then show ?thesis by (rule follows.more) (use vdemo_reads(3) in simp)
qed


definition vdemo_outbox :: vcp_db where
  "vdemo_outbox = empty_vcp\<lparr>v_outbox := map (\<lambda>(n, w). (n, \<lparr>ox_workspace_id = w, ox_event_id = w, ox_envelope =
     \<lparr>ev_event_id = w, ev_event_type = [], ev_occurred_at = [], ev_causal_path = [], ev_resources = [], ev_resource_version = None,
      ev_payload = []\<rparr>, ox_published = False\<rparr>)) [(1, ''w1''), (2, ''w2''), (3, ''w1'')]\<rparr>"

lemma vdemo_outbox_ok: "twf (v_outbox vdemo_outbox)" "in_order vdemo_outbox" "card (outbox_workspaces vdemo_outbox - set []) < 4"
proof -
  show "twf (v_outbox vdemo_outbox)" by code_simp
  show "in_order vdemo_outbox" by (auto simp: in_order_def vdemo_outbox_def tget_def split: if_splits)
  have "outbox_workspaces vdemo_outbox \<subseteq> {''w1'', ''w2''}"
    by (auto simp: outbox_workspaces_def vdemo_outbox_def tget_def split: if_splits)
  then have "card (outbox_workspaces vdemo_outbox) \<le> card {''w1'', ''w2''}" by (intro card_mono) auto
  then show "card (outbox_workspaces vdemo_outbox - set []) < 4" by (simp add: card_insert_if split: if_splits)
qed


end
