(* ===== verification/Graph_Search.thy ===== *)
theory Graph_Search
  imports Prelude
begin

text \<open>
  The two searches of \<open>v2/packages/contracts\<close>, \<open>contracts/graphs.py\<close>: \<open>_reach\<close>, the names reachable
  from one, and \<open>_cycle\<close>, one cycle of a graph. A graph is a dict from names to sets of names: an
  association list of lists without duplicates. The order in which Python iterates a set does not
  matter to \<open>_reach\<close>, and \<open>_cycle\<close> sorts. \<open>_reach\<close> is proved to compute the reflexive transitive
  closure, \<open>_cycle\<close> to return a cycle if and only if there is one.
\<close>

section \<open>Graphs\<close>

type_synonym adjacency = "(string, string list) table"

definition succs :: "adjacency \<Rightarrow> string \<Rightarrow> string list" where
  "succs g n = (case tget g n of None \<Rightarrow> [] | Some ts \<Rightarrow> ts)"

text \<open>\<open>graph.setdefault(source, set()).add(target)\<close>.\<close>

definition add_edge :: "string \<Rightarrow> string \<Rightarrow> adjacency \<Rightarrow> adjacency" where
  "add_edge s t g = tput s (if t \<in> set (succs g s) then succs g s else succs g s @ [t]) g"

definition edge_rel :: "adjacency \<Rightarrow> (string \<times> string) set" where
  "edge_rel g = {(s, t). t \<in> set (succs g s)}"

lemma edge_rel_iff [simp]: "(s, t) \<in> edge_rel g \<longleftrightarrow> t \<in> set (succs g s)"
  by (simp add: edge_rel_def)

lemma succs_Nil [simp]: "succs [] n = []"
  by (simp add: succs_def)

lemma edge_rel_Nil [simp]: "edge_rel [] = {}"
  by (auto simp: edge_rel_def)

lemma edge_rel_add [simp]: "edge_rel (add_edge s t g) = insert (s, t) (edge_rel g)"
  by (auto simp: edge_rel_def add_edge_def succs_def split: option.splits if_splits)

definition edge_targets :: "adjacency \<Rightarrow> string set" where
  "edge_targets g = (\<Union>(n, ts) \<in> set g. set ts)"

lemma finite_targets [simp]: "finite (edge_targets g)"
  by (auto simp: edge_targets_def)

lemma succs_Cons [simp]: "succs ((s, ts) # g) n = (if n = s then ts else succs g n)"
  by (simp add: succs_def tget_def)

lemma succs_targets:
  assumes "t \<in> set (succs g n)"
  shows "t \<in> edge_targets g"
proof -
  obtain ts where "tget g n = Some ts" using assms by (cases "tget g n") (auto simp: succs_def)
  then show ?thesis using assms tget_Some_in[of g n ts] by (force simp: edge_targets_def succs_def)
qed

lemma succs_source: "succs g n \<noteq> [] \<Longrightarrow> n \<in> set (tkeys g)"
  by (auto simp: succs_def split: option.splits dest: tget_Some_keys)

section \<open>Reachability\<close>

text \<open>The inner loop of \<open>_reach\<close>: new successors are seen and pushed.\<close>

fun push_new :: "string list \<Rightarrow> string list \<Rightarrow> string list \<Rightarrow> string list \<times> string list" where
  "push_new [] seen stack = (seen, stack)"
| "push_new (f # fs) seen stack =
     (if f \<in> set seen then push_new fs seen stack else push_new fs (f # seen) (f # stack))"

lemma push_new_both:
  assumes "push_new fs seen stack = (seen', stack')"
  shows "set seen' = set seen \<union> set fs \<and> (\<exists>ps. stack' = ps @ stack \<and> set ps = set fs - set seen \<and> (ps = [] \<longrightarrow> seen' = seen))"
  using assms
proof (induction fs arbitrary: seen stack)
  case (Cons f fs)
  show ?case
  proof (cases "f \<in> set seen")
    case True
    then show ?thesis using Cons.IH[of seen stack] Cons.prems by auto
  next
    case False
    have run: "push_new fs (f # seen) (f # stack) = (seen', stack')" using Cons.prems False by simp
    obtain ps where ps: "stack' = ps @ f # stack" "set ps = set fs - set (f # seen)" using Cons.IH[OF run] by blast
    have "set seen' = set (f # seen) \<union> set fs" using Cons.IH[OF run] by blast
    then show ?thesis using False ps by (intro conjI exI[of _ "ps @ [f]"]) auto
  qed
qed simp

lemmas push_new_effect = push_new_both[THEN conjunct1] push_new_both[THEN conjunct2]

lemma reach_loop_decreases:
  assumes "push_new (succs g n) seen stack = (seen', stack')"
  shows "card (edge_targets g - set seen') < card (edge_targets g - set seen) \<or>
    card (edge_targets g - set seen') = card (edge_targets g - set seen) \<and> length stack' < length (n # stack)"
proof -
  obtain ps where ps: "stack' = ps @ stack" "set ps = set (succs g n) - set seen" "ps = [] \<longrightarrow> seen' = seen"
    using push_new_effect(2)[OF assms] by blast
  show ?thesis
  proof (cases ps)
    case Nil
    then show ?thesis using ps by simp
  next
    case (Cons p qs)
    then have "p \<in> set (succs g n)" "p \<notin> set seen" using ps(2) by auto
    then have "edge_targets g - set seen' \<subset> edge_targets g - set seen"
      using push_new_effect(1)[OF assms] succs_targets[of p g n] by auto
    then show ?thesis using psubset_card_mono[of "edge_targets g - set seen"] by auto
  qed
qed

function reach_loop :: "adjacency \<Rightarrow> string list \<Rightarrow> string list \<Rightarrow> string list" where
  "reach_loop g seen [] = seen"
| "reach_loop g seen (n # stack) = (case push_new (succs g n) seen stack of (seen', stack') \<Rightarrow> reach_loop g seen' stack')"
  by pat_completeness auto
termination
proof (relation "measures [\<lambda>(g, seen, stack). card (edge_targets g - set seen), \<lambda>(g, seen, stack). length stack]", goal_cases)
  case (2 g seen n stack seen' stack')
  then show ?case using reach_loop_decreases[OF "2"[symmetric]] by (auto simp flip: "2")
qed simp

definition reach :: "string \<Rightarrow> adjacency \<Rightarrow> string list" where
  "reach start g = reach_loop g [start] [start]"

text \<open>The names seen stay reachable, and what is seen but not on the stack has only seen successors.\<close>

lemma reach_loop_sound:
  assumes "set seen \<subseteq> (edge_rel g)\<^sup>* `` {a}" and "set stack \<subseteq> set seen"
  shows "set (reach_loop g seen stack) \<subseteq> (edge_rel g)\<^sup>* `` {a}"
  using assms
proof (induction g seen stack rule: reach_loop.induct)
  case (2 g seen n stack)
  obtain seen' stack' where p: "push_new (succs g n) seen stack = (seen', stack')" by (cases "push_new (succs g n) seen stack")
  obtain ps where ps: "stack' = ps @ stack" "set ps = set (succs g n) - set seen" using push_new_effect(2)[OF p] by blast
  have "(a, n) \<in> (edge_rel g)\<^sup>*" using 2(2,3) by auto
  then have "set (succs g n) \<subseteq> (edge_rel g)\<^sup>* `` {a}" by (auto intro: rtrancl_into_rtrancl)
  moreover have "set stack' \<subseteq> set seen'" using ps push_new_effect(1)[OF p] 2(3) by auto
  ultimately have "set (reach_loop g seen' stack') \<subseteq> (edge_rel g)\<^sup>* `` {a}"
    using 2(1)[OF p[symmetric]] 2(2) push_new_effect(1)[OF p] by auto
  then show ?case using p by simp
qed simp

lemma reach_loop_complete:
  assumes "\<And>x. x \<in> set seen \<Longrightarrow> x \<notin> set stack \<Longrightarrow> set (succs g x) \<subseteq> set seen"
  shows "set seen \<subseteq> set (reach_loop g seen stack)
    \<and> (\<forall>x \<in> set (reach_loop g seen stack). set (succs g x) \<subseteq> set (reach_loop g seen stack))"
  using assms
proof (induction g seen stack rule: reach_loop.induct)
  case (2 g seen n stack)
  obtain seen' stack' where p: "push_new (succs g n) seen stack = (seen', stack')" by (cases "push_new (succs g n) seen stack")
  obtain ps where ps: "stack' = ps @ stack" "set ps = set (succs g n) - set seen" using push_new_effect(2)[OF p] by blast
  have s: "set seen' = set seen \<union> set (succs g n)" by (rule push_new_effect(1)[OF p])
  have "set (succs g x) \<subseteq> set seen'" if "x \<in> set seen'" "x \<notin> set stack'" for x
    using that ps s 2(2)[of x] by (cases "x = n") auto
  from 2(1)[OF p[symmetric] this] show ?case using p s by auto
qed simp

theorem set_reach: "set (reach start g) = (edge_rel g)\<^sup>* `` {start}"
proof
  show "set (reach start g) \<subseteq> (edge_rel g)\<^sup>* `` {start}"
    unfolding reach_def by (rule reach_loop_sound) auto
  have c: "start \<in> set (reach start g)" "\<And>x y. x \<in> set (reach start g) \<Longrightarrow> y \<in> set (succs g x) \<Longrightarrow> y \<in> set (reach start g)"
    using reach_loop_complete[of "[start]" "[start]" g, folded reach_def] by auto
  have "y \<in> set (reach start g)" if "(start, y) \<in> (edge_rel g)\<^sup>*" for y
    using that by (induction rule: rtrancl_induct) (use c in auto)
  then show "(edge_rel g)\<^sup>* `` {start} \<subseteq> set (reach start g)" by auto
qed

text \<open>The graph with its edges turned round, as \<open>_structure\<close> builds it.\<close>

fun turn_targets :: "string \<Rightarrow> string list \<Rightarrow> adjacency \<Rightarrow> adjacency" where
  "turn_targets s [] b = b"
| "turn_targets s (t # ts) b = turn_targets s ts (add_edge t s b)"

fun turn_edges :: "adjacency \<Rightarrow> adjacency \<Rightarrow> adjacency" where
  "turn_edges [] b = b"
| "turn_edges ((s, ts) # g) b = turn_edges g (turn_targets s ts b)"

lemma edge_rel_turn_targets: "edge_rel (turn_targets s ts b) = edge_rel b \<union> {(t, s) |t. t \<in> set ts}"
  by (induction s ts b rule: turn_targets.induct) auto

lemma edge_rel_turn: "twf g \<Longrightarrow> edge_rel (turn_edges g b) = edge_rel b \<union> (edge_rel g)\<inverse>"
proof (induction g b rule: turn_edges.induct)
  case (2 s ts g b)
  then have g: "twf g" "s \<notin> set (tkeys g)" by (auto simp: twf_def)
  then have "succs g s = []" using succs_source by blast
  then have "edge_rel ((s, ts) # g) = edge_rel g \<union> {(s, t) |t. t \<in> set ts}"
    by (auto simp: edge_rel_def split: if_splits)
  then show ?case using 2 g by (auto simp: edge_rel_turn_targets)
qed auto

section \<open>Cycles\<close>

text \<open>
  The nested function \<open>visit\<close> of \<open>_cycle\<close> and its loop over the sorted successors. \<open>state\<close> maps a name to 1
  while it is on the trail and to 2 once it is finished. The first argument bounds the depth of
  the recursion; \<open>None\<close> would mean that the bound was too small.
\<close>

datatype mark = Entered | Finished

type_synonym dfs_result = "(string list \<times> (string, mark) table \<times> string list) option"

function visit :: "nat \<Rightarrow> adjacency \<Rightarrow> string \<Rightarrow> (string, mark) table \<Rightarrow> string list \<Rightarrow> dfs_result"
  and visit_each :: "nat \<Rightarrow> adjacency \<Rightarrow> string \<Rightarrow> string list \<Rightarrow> (string, mark) table \<Rightarrow> string list \<Rightarrow> dfs_result" where
  "visit 0 g node st tr = None"
| "visit (Suc n) g node st tr = visit_each n g node (sort (succs g node)) (tput node Entered st) (tr @ [node])"
| "visit_each n g node [] st tr = Some ([], tput node Finished st, butlast tr)"
| "visit_each n g node (f # fs) st tr =
     (if tget st f = Some Entered then Some (dropWhile (\<lambda>x. x \<noteq> f) tr @ [f], st, tr)
      else if tget st f = None
      then (case visit n g f st tr of
              None \<Rightarrow> None
            | Some (c, st1, tr1) \<Rightarrow> if c \<noteq> [] then Some (c, st1, tr1) else visit_each n g node fs st1 tr1)
      else visit_each n g node fs st tr)"
  by pat_completeness auto
termination
  by (relation "measures [\<lambda>x. case x of Inl (n, _) \<Rightarrow> n | Inr (n, _) \<Rightarrow> n,
      \<lambda>x. case x of Inl _ \<Rightarrow> 0 | Inr (n, g, node, fs, _) \<Rightarrow> Suc (length fs)]") auto

fun cycle_each :: "nat \<Rightarrow> adjacency \<Rightarrow> string list \<Rightarrow> (string, mark) table \<Rightarrow> string list \<Rightarrow> string list option" where
  "cycle_each n g [] st tr = Some []"
| "cycle_each n g (node # nodes) st tr =
     (if tget st node = None
      then (case visit n g node st tr of
              None \<Rightarrow> None
            | Some (c, st1, tr1) \<Rightarrow> if c \<noteq> [] then Some c else cycle_each n g nodes st1 tr1)
      else cycle_each n g nodes st tr)"

definition graph_nodes :: "adjacency \<Rightarrow> string list" where
  "graph_nodes g = remdups (tkeys g @ concat (map snd g))"

text \<open>No path of distinct names is longer than the number of names.\<close>

definition cycle_of :: "adjacency \<Rightarrow> string list" where
  "cycle_of g = (case cycle_each (length (graph_nodes g)) g (sort (tkeys g)) [] [] of None \<Rightarrow> [] | Some c \<Rightarrow> c)"

definition cycle_path :: "adjacency \<Rightarrow> string list \<Rightarrow> bool" where
  "cycle_path g c \<longleftrightarrow> 2 \<le> length c \<and> hd c = last c \<and> successively (\<lambda>x y. (x, y) \<in> edge_rel g) c"

lemma successively_trancl:
  "successively (\<lambda>x y. (x, y) \<in> R) c \<Longrightarrow> 2 \<le> length c \<Longrightarrow> (hd c, last c) \<in> R\<^sup>+"
proof (induction c)
  case (Cons x c)
  show ?case
  proof (cases "2 \<le> length c")
    case True
    then show ?thesis using Cons by (cases c) (auto intro: trancl_into_trancl2)
  next
    case False
    then show ?thesis using Cons.prems by (cases c rule: list.exhaust[case_product list.exhaust]) (auto simp: Suc_le_eq successively_Cons)
  qed
qed simp

lemma cycle_path_cyclic: "cycle_path g c \<Longrightarrow> (hd c, hd c) \<in> (edge_rel g)\<^sup>+"
  using successively_trancl[of "edge_rel g" c] by (simp add: cycle_path_def)

text \<open>
  What holds between calls: the trail is a path of the names entered and not finished, and the
  finished names are closed under successors and on no cycle.
\<close>

definition dfs_ok :: "adjacency \<Rightarrow> (string, mark) table \<Rightarrow> string list \<Rightarrow> bool" where
  "dfs_ok g st tr \<longleftrightarrow> distinct tr \<and> (\<forall>x. tget st x = Some Entered \<longleftrightarrow> x \<in> set tr)
     \<and> successively (\<lambda>x y. (x, y) \<in> edge_rel g) tr
     \<and> (\<forall>x y. tget st x = Some Finished \<longrightarrow> y \<in> set (succs g x) \<longrightarrow> tget st y = Some Finished)
     \<and> (\<forall>x. tget st x = Some Finished \<longrightarrow> (x, x) \<notin> (edge_rel g)\<^sup>+)"

lemma dfs_okD:
  assumes "dfs_ok g st tr"
  shows "distinct tr" "tget st x = Some Entered \<longleftrightarrow> x \<in> set tr" "successively (\<lambda>x y. (x, y) \<in> edge_rel g) tr"
    "tget st x = Some Finished \<Longrightarrow> y \<in> set (succs g x) \<Longrightarrow> tget st y = Some Finished"
    "tget st x = Some Finished \<Longrightarrow> (x, x) \<notin> (edge_rel g)\<^sup>+"
  using assms unfolding dfs_ok_def by blast+

lemma finished_closed:
  assumes "dfs_ok g st tr" and "(x, y) \<in> (edge_rel g)\<^sup>+" and "tget st x = Some Finished"
  shows "tget st y = Some Finished"
  using assms(2,3) by (induction rule: trancl_induct) (use dfs_okD(4)[OF assms(1)] in auto)

lemma dfs_ok_enter:
  assumes "dfs_ok g st tr" and "tget st node = None" and "tr = [] \<or> node \<in> set (succs g (last tr))"
  shows "dfs_ok g (tput node Entered st) (tr @ [node])"
proof -
  note ok = dfs_okD[OF assms(1)]
  have "node \<notin> set tr" using ok(2)[of node] assms(2) by simp
  moreover have "successively (\<lambda>x y. (x, y) \<in> edge_rel g) (tr @ [node])"
    using ok(3) assms(3) by (auto simp: successively_append_iff)
  moreover have "tget (tput node Entered st) y = Some Finished"
    if "tget (tput node Entered st) x = Some Finished" "y \<in> set (succs g x)" for x y
    using that ok(4)[of x y] assms(2) by (auto split: if_splits)
  ultimately show ?thesis using ok by (auto simp: dfs_ok_def split: if_splits)
qed

text \<open>A name whose successors are all finished can be finished: it is on no cycle.\<close>

lemma dfs_ok_finish:
  assumes "dfs_ok g st (tr @ [node])" and "\<And>y. y \<in> set (succs g node) \<Longrightarrow> tget st y = Some Finished"
  shows "dfs_ok g (tput node Finished st) tr"
proof -
  note ok = dfs_okD[OF assms(1)]
  have node: "tget st node = Some Entered" "node \<notin> set tr" using ok(1) ok(2)[of node] by auto
  have "(node, node) \<notin> (edge_rel g)\<^sup>+"
  proof
    assume "(node, node) \<in> (edge_rel g)\<^sup>+"
    then obtain y where y: "y \<in> set (succs g node)" "(y, node) \<in> (edge_rel g)\<^sup>*" by (auto dest: tranclD)
    have "tget st node = Some Finished"
      using y assms(2)[OF y(1)] finished_closed[OF assms(1), of y node] by (auto simp: rtrancl_eq_or_trancl)
    then show False using node(1) by simp
  qed
  moreover have "tget (tput node Finished st) y = Some Finished"
    if "tget (tput node Finished st) x = Some Finished" "y \<in> set (succs g x)" for x y
    using that ok(4)[of x y] assms(2)[of y] by (auto split: if_splits)
  moreover have "successively (\<lambda>x y. (x, y) \<in> edge_rel g) tr" using ok(3) by (auto simp: successively_append_iff)
  moreover have "tget (tput node Finished st) x = Some Entered \<longleftrightarrow> x \<in> set tr" for x using ok(2)[of x] node by auto
  ultimately show ?thesis using ok(1,5) by (auto simp: dfs_ok_def split: if_splits)
qed

lemma back_edge_cycle:
  assumes "dfs_ok g st tr" and "f \<in> set tr" and "f \<in> set (succs g (last tr))"
  shows "cycle_path g (dropWhile (\<lambda>x. x \<noteq> f) tr @ [f])"
proof -
  define c where "c = dropWhile (\<lambda>x. x \<noteq> f) tr"
  have split: "tr = takeWhile (\<lambda>x. x \<noteq> f) tr @ c" by (simp add: c_def)
  have ne: "c \<noteq> []" "hd c = f" using assms(2) hd_dropWhile[of "\<lambda>x. x \<noteq> f" tr] by (auto simp: c_def)
  have "successively (\<lambda>x y. (x, y) \<in> edge_rel g) c"
    using dfs_okD(3)[OF assms(1)] split by (metis successively_append_iff)
  moreover have "last c = last tr" using split ne(1) by (metis last_appendR)
  ultimately have "successively (\<lambda>x y. (x, y) \<in> edge_rel g) (c @ [f])"
    using assms(3) ne by (auto simp: successively_append_iff)
  then show ?thesis using ne by (cases c) (auto simp: cycle_path_def c_def)
qed

text \<open>What a call returns: a cycle, or no cycle and the name finished, with every earlier mark kept.\<close>

definition visited :: "adjacency \<Rightarrow> string \<Rightarrow> (string, mark) table \<Rightarrow> string list \<Rightarrow> dfs_result \<Rightarrow> bool" where
  "visited g node st tr res = (case res of None \<Rightarrow> False | Some (c, st1, tr1) \<Rightarrow>
     if c = [] then tr1 = tr \<and> dfs_ok g st1 tr \<and> tget st1 node = Some Finished
        \<and> (\<forall>x m. x \<noteq> node \<longrightarrow> tget st x = Some m \<longrightarrow> tget st1 x = Some m)
     else cycle_path g c)"

lemma visited_mono:
  assumes "visited g node st tr res" and "\<And>x m. x \<noteq> node \<Longrightarrow> tget st' x = Some m \<Longrightarrow> tget st x = Some m"
  shows "visited g node st' tr res"
  using assms by (cases res) (auto simp: visited_def split: if_splits)

lemma visitedE:
  assumes "visited g node st tr res"
  obtains (cycle) c st1 tr1 where "res = Some (c, st1, tr1)" "c \<noteq> []" "cycle_path g c"
  | (clean) st1 where "res = Some ([], st1, tr)" "dfs_ok g st1 tr" "tget st1 node = Some Finished"
      "\<And>x m. x \<noteq> node \<Longrightarrow> tget st x = Some m \<Longrightarrow> tget st1 x = Some m"
  using assms by (cases res) (auto simp: visited_def split: if_splits prod.splits)

definition unmarked :: "adjacency \<Rightarrow> (string, mark) table \<Rightarrow> nat" where
  "unmarked g st = card (set (graph_nodes g) - set (tkeys st))"

lemma set_graph_nodes: "set (graph_nodes g) = set (tkeys g) \<union> edge_targets g"
  by (auto simp: graph_nodes_def edge_targets_def)

lemma unmarked_enter:
  assumes "node \<in> set (graph_nodes g)" and "tget st node = None"
  shows "unmarked g (tput node m st) < unmarked g st"
proof -
  have "set (graph_nodes g) - set (tkeys (tput node m st)) \<subset> set (graph_nodes g) - set (tkeys st)"
    using assms by (auto simp: tget_None_iff)
  then show ?thesis unfolding unmarked_def by (rule psubset_card_mono[rotated]) simp
qed

lemma unmarked_mono: "set (tkeys st) \<subseteq> set (tkeys st1) \<Longrightarrow> unmarked g st1 \<le> unmarked g st"
  unfolding unmarked_def by (rule card_mono) auto

lemma kept_keys:
  assumes "\<And>x m. x \<noteq> node \<Longrightarrow> tget st x = Some m \<Longrightarrow> tget st1 x = Some m" and "tget st1 node \<noteq> None"
  shows "set (tkeys st) \<subseteq> set (tkeys st1)"
proof
  fix x assume "x \<in> set (tkeys st)"
  then obtain m where "tget st x = Some m" by (metis option.exhaust tget_None_iff)
  then have "tget st1 x \<noteq> None" using assms by (cases "x = node") auto
  then show "x \<in> set (tkeys st1)" by (simp add: tget_None_iff)
qed

lemma visit_correct:
  "dfs_ok g st tr \<Longrightarrow> tget st node = None \<Longrightarrow> node \<in> set (graph_nodes g) \<Longrightarrow> tr = [] \<or> node \<in> set (succs g (last tr)) \<Longrightarrow>
     unmarked g st \<le> n \<Longrightarrow> visited g node st tr (visit n g node st tr)"
  "tr \<noteq> [] \<Longrightarrow> last tr = node \<Longrightarrow> dfs_ok g st tr \<Longrightarrow> set fs \<subseteq> set (succs g node) \<Longrightarrow>
     (\<And>y. y \<in> set (succs g node) \<Longrightarrow> y \<notin> set fs \<Longrightarrow> tget st y = Some Finished) \<Longrightarrow>
     unmarked g st \<le> n \<Longrightarrow> visited g node st (butlast tr) (visit_each n g node fs st tr)"
proof (induction n g node st tr and n g node fs st tr rule: visit_visit_each.induct)
  case (1 g node st tr)
  then show ?case using unmarked_enter[of node g st Entered] by simp
next
  case (2 n g node st tr)
  have "visited g node (tput node Entered st) (butlast (tr @ [node]))
      (visit_each n g node (sort (succs g node)) (tput node Entered st) (tr @ [node]))"
    by (rule 2(1)) (use dfs_ok_enter[of g st tr node] 2(2-) unmarked_enter[of node g st Entered] in auto)
  then show ?case using visited_mono[of g node "tput node Entered st" tr _ st] by simp
next
  case (3 n g node st tr)
  then have "tr = butlast tr @ [node]" by (metis append_butlast_last_id)
  then have "dfs_ok g (tput node Finished st) (butlast tr)" using dfs_ok_finish[of g st "butlast tr" node] 3 by auto
  then show ?case by (simp add: visited_def)
next
  case (4 n g node f fs st tr)
  have f: "f \<in> set (succs g node)" "f \<in> set (graph_nodes g)" using 4(7) succs_targets[of f g node] by (auto simp: set_graph_nodes)
  consider (entered) "tget st f = Some Entered" | (fresh) "tget st f = None" | (finished) "tget st f = Some Finished"
    by (metis mark.exhaust option.exhaust)
  then show ?case
  proof cases
    case entered
    then have "f \<in> set tr" using dfs_okD(2)[OF 4(6)] by simp
    then show ?thesis using entered back_edge_cycle[OF 4(6), of f] f(1) 4(5) by (simp add: visited_def)
  next
    case finished
    have "visited g node st (butlast tr) (visit_each n g node fs st tr)"
      by (rule 4(3)) (use finished 4(4-) in auto)
    then show ?thesis using finished by simp
  next
    case fresh
    have "visited g f st tr (visit n g f st tr)"
      by (rule 4(1)) (use fresh f 4(4-) in auto)
    then show ?thesis
    proof (cases rule: visitedE)
      case (cycle c st1 tr1)
      then show ?thesis using fresh by (simp add: visited_def)
    next
      case (clean st1)
      have kept: "tget st1 x = Some m" if "tget st x = Some m" for x m using clean(4)[of x m] that fresh by (cases "x = f") auto
      have "unmarked g st1 \<le> unmarked g st" by (rule unmarked_mono, rule kept_keys[of f]) (use clean(3) kept in auto)
      moreover have "tget st1 y = Some Finished" if "y \<in> set (succs g node)" "y \<notin> set fs" for y
        using that 4(8)[of y] clean(3) kept by (cases "y = f") auto
      ultimately have "visited g node st1 (butlast tr) (visit_each n g node fs st1 tr)"
        using 4(2)[OF _ fresh clean(1) refl refl] clean(2) 4(4,5) 4(7,9) fresh by auto
      then show ?thesis using fresh clean(1) visited_mono[of g node st1 "butlast tr" _ st] kept by auto
    qed
  qed
qed

lemma cycle_each_correct:
  assumes "dfs_ok g st []" and "set nodes \<subseteq> set (graph_nodes g)" and "length (graph_nodes g) \<le> n"
  shows "\<exists>c. cycle_each n g nodes st [] = Some c \<and> (c \<noteq> [] \<longrightarrow> cycle_path g c)
    \<and> (c = [] \<longrightarrow> (\<exists>st1. dfs_ok g st1 [] \<and> (\<forall>x. x \<in> set nodes \<or> tget st x \<noteq> None \<longrightarrow> tget st1 x = Some Finished)))"
  using assms
proof (induction nodes arbitrary: st)
  case Nil
  then have "tget st x = Some Finished" if "tget st x \<noteq> None" for x
    using that dfs_okD(2)[of g st "[]" x] by (metis empty_iff empty_set mark.exhaust option.exhaust)
  then show ?case using Nil by auto
next
  case (Cons node nodes)
  show ?case
  proof (cases "tget st node")
    case (Some m)
    then have "cycle_each n g (node # nodes) st [] = cycle_each n g nodes st []"
      and "x \<in> set (node # nodes) \<or> tget st x \<noteq> None \<longleftrightarrow> x \<in> set nodes \<or> tget st x \<noteq> None" for x by auto
    then show ?thesis using Cons.IH[of st] Cons.prems by simp
  next
    case None
    have "unmarked g st \<le> card (set (graph_nodes g))" unfolding unmarked_def by (rule card_mono) auto
    then have "unmarked g st \<le> n" using Cons.prems(3) card_length[of "graph_nodes g"] by linarith
    then have "visited g node st [] (visit n g node st [])"
      using visit_correct(1)[of g st "[]" node n] Cons.prems None by auto
    then show ?thesis
    proof (cases rule: visitedE)
      case (cycle c st1 tr1)
      then show ?thesis using None by auto
    next
      case (clean st1)
      have kept: "tget st1 x \<noteq> None" if "tget st x \<noteq> None" for x using clean(4)[of x] that None by (cases "x = node") auto
      obtain c where c: "cycle_each n g nodes st1 [] = Some c" "c \<noteq> [] \<longrightarrow> cycle_path g c"
          "c = [] \<longrightarrow> (\<exists>st2. dfs_ok g st2 [] \<and> (\<forall>x. x \<in> set nodes \<or> tget st1 x \<noteq> None \<longrightarrow> tget st2 x = Some Finished))"
        using Cons.IH[OF clean(2)] Cons.prems by auto
      have "cycle_each n g (node # nodes) st [] = Some c" using None clean(1) c(1) by simp
      moreover have "\<exists>st2. dfs_ok g st2 [] \<and> (\<forall>x. x \<in> set (node # nodes) \<or> tget st x \<noteq> None \<longrightarrow> tget st2 x = Some Finished)" if nil: "c = []"
      proof -
        obtain st2 where st2: "dfs_ok g st2 []" "\<And>x. x \<in> set nodes \<or> tget st1 x \<noteq> None \<Longrightarrow> tget st2 x = Some Finished"
          using c(3) nil by blast
        have "tget st2 x = Some Finished" if "x \<in> set (node # nodes) \<or> tget st x \<noteq> None" for x
          using that st2(2)[of x] kept[of x] clean(3) by auto
        then show ?thesis using st2(1) by blast
      qed
      ultimately show ?thesis using c(2) by blast
    qed
  qed
qed

text \<open>\<open>_cycle\<close> returns a cycle of the graph, or nothing and the graph has none.\<close>

theorem cycle_of_correct:
  "cycle_of g \<noteq> [] \<Longrightarrow> cycle_path g (cycle_of g)"
  "cycle_of g = [] \<longleftrightarrow> acyclic (edge_rel g)"
proof -
  have empty: "dfs_ok g [] []" by (simp add: dfs_ok_def)
  obtain c where c: "cycle_each (length (graph_nodes g)) g (sort (tkeys g)) [] [] = Some c" "c \<noteq> [] \<longrightarrow> cycle_path g c"
      "c = [] \<longrightarrow> (\<exists>st1. dfs_ok g st1 [] \<and> (\<forall>x. x \<in> set (tkeys g) \<longrightarrow> tget st1 x = Some Finished))"
    using cycle_each_correct[OF empty, of "sort (tkeys g)" "length (graph_nodes g)"] by (auto simp: set_graph_nodes)
  have r: "cycle_of g = c" using c(1) by (simp add: cycle_of_def)
  show p: "cycle_of g \<noteq> [] \<Longrightarrow> cycle_path g (cycle_of g)" using c(2) r by simp
  show "cycle_of g = [] \<longleftrightarrow> acyclic (edge_rel g)"
  proof
    assume "cycle_of g = []"
    then obtain st1 where st1: "dfs_ok g st1 []" "\<And>x. x \<in> set (tkeys g) \<Longrightarrow> tget st1 x = Some Finished" using c(3) r by auto
    have "(x, x) \<notin> (edge_rel g)\<^sup>+" for x
    proof
      assume x: "(x, x) \<in> (edge_rel g)\<^sup>+"
      then have "succs g x \<noteq> []" by (auto dest!: tranclD)
      then show False using dfs_okD(5)[OF st1(1) st1(2)] succs_source[of g x] x by blast
    qed
    then show "acyclic (edge_rel g)" by (simp add: acyclic_def)
  next
    assume "acyclic (edge_rel g)"
    then show "cycle_of g = []" using p cycle_path_cyclic[of g "cycle_of g"] by (auto simp: acyclic_def)
  qed
qed

end
