(* ===== verification/Graph_Expressions.thy ===== *)
theory Graph_Expressions
  imports Prelude
begin

text \<open>
  The syntax of Graph expressions (\<open>v2/packages/contracts\<close>, \<open>contracts/expressions.py\<close>): the translation of
  the public spelling to Python's, the admission of a parsed expression, the names it reads and
  the holes of a template. Python's own parser is not modelled: what it makes of a text, a
  tree or the message of a SyntaxError, is the parameter \<open>pyparse\<close>. Text is Latin-1, the characters of \<open>string\<close>.
\<close>

section \<open>Characters\<close>

text \<open>\<open>str.isalpha\<close> and \<open>str.isalnum\<close> on one character.\<close>

definition py_alpha :: "char \<Rightarrow> bool" where
  "py_alpha c \<longleftrightarrow> (let n = of_char c :: nat in 65 \<le> n \<and> n \<le> 90 \<or> 97 \<le> n \<and> n \<le> 122 \<or> n \<in> {170, 181, 186}
     \<or> 192 \<le> n \<and> n \<noteq> 215 \<and> n \<noteq> 247)"

definition py_alnum :: "char \<Rightarrow> bool" where
  "py_alnum c \<longleftrightarrow> py_alpha c \<or> (let n = of_char c :: nat in 48 \<le> n \<and> n \<le> 57 \<or> n \<in> {178, 179, 185, 188, 189, 190})"

definition strip :: "string \<Rightarrow> string" where
  "strip s = rev (dropWhile py_space (rev (dropWhile py_space s)))"

text \<open>\<open>repr\<close> of a text: single quotes unless only they occur in it; unprintable characters escaped.\<close>

definition hex_digit :: "nat \<Rightarrow> char" where
  "hex_digit n = (if n < 10 then char_of (48 + n) else char_of (87 + n))"

definition repr_char :: "char \<Rightarrow> char \<Rightarrow> string" where
  "repr_char quote c = (let n = of_char c :: nat; slash = CHR 0x5C in
     if c = quote \<or> c = slash then [slash, c]
     else if n = 10 then [slash, CHR ''n''] else if n = 13 then [slash, CHR ''r''] else if n = 9 then [slash, CHR ''t'']
     else if n < 32 \<or> 127 \<le> n \<and> n \<le> 160 \<or> n = 173 then [slash, CHR ''x'', hex_digit (n div 16), hex_digit (n mod 16)]
     else [c])"

definition py_repr :: "string \<Rightarrow> string" where
  "py_repr s = (let quote = (if CHR 0x27 \<in> set s \<and> CHR 0x22 \<notin> set s then CHR 0x22 else CHR 0x27) in
     quote # concat (map (repr_char quote) s) @ [quote])"

section \<open>Translation\<close>

definition ROOTS :: "string list" where
  "ROOTS = [''instruction'', ''repository'', ''inputs'', ''outputs'', ''visits'', ''item'']"

definition FUNCTIONS :: "string list" where
  "FUNCTIONS = [''size'', ''json'', ''lower'', ''has'']"

definition WORDS :: "(string \<times> string) list" where
  "WORDS = [(''true'', ''True''), (''false'', ''False''), (''null'', ''None'')]"

definition python_words :: "string list" where
  "python_words = [''and'', ''or'', ''not'', ''is'', ''lambda'', ''if'', ''else'', ''for'']"

text \<open>\<open>ExpressionError(source, problem)\<close>: its message.\<close>

definition expression_error :: "string \<Rightarrow> string \<Rightarrow> string" where
  "expression_error source problem = (if strip source \<noteq> [] then py_repr source @ '': '' @ problem else problem)"

definition word_char :: "char \<Rightarrow> bool" where
  "word_char c \<longleftrightarrow> py_alnum c \<or> c = CHR ''_''"

text \<open>
  The loop of \<open>_translate\<close> from one index on: \<open>quote\<close> is the open quotation mark, the last argument what is left of the source. The
  result is the problem, or the text that is appended to \<open>out\<close>.
\<close>

function translate_from :: "char option \<Rightarrow> string \<Rightarrow> string + string" where
  "translate_from quote [] = (if quote \<noteq> None then Inl ''unterminated string'' else Inr [])"
| "translate_from (Some q) (c # cs) =
     (if c = CHR 0x5C \<and> cs \<noteq> [] then map_sum id (\<lambda>out. c # hd cs # out) (translate_from (Some q) (tl cs))
      else map_sum id (Cons c) (translate_from (if c = q then None else Some q) cs))"
| "translate_from None (c # cs) =
     (if c = CHR 0x27 \<or> c = CHR 0x22 then map_sum id (Cons c) (translate_from (Some c) cs)
      else if c = CHR ''&'' \<and> cs \<noteq> [] \<and> hd cs = CHR ''&'' then map_sum id ((@) '' and '') (translate_from None (tl cs))
      else if c = CHR ''|'' \<and> cs \<noteq> [] \<and> hd cs = CHR ''|'' then map_sum id ((@) '' or '') (translate_from None (tl cs))
      else if c = CHR ''!'' \<and> \<not> (cs \<noteq> [] \<and> hd cs = CHR ''='') then map_sum id ((@) '' not '') (translate_from None cs)
      else if py_alpha c \<or> c = CHR ''_'' then
        (let word = c # takeWhile word_char cs in
         if word \<in> set python_words then Inl (''use && || ! rather than Python's '' @ py_repr word)
         else map_sum id ((@) (case map_of WORDS word of None \<Rightarrow> word | Some w \<Rightarrow> w)) (translate_from None (dropWhile word_char cs)))
      else map_sum id (Cons c) (translate_from None cs))"
  by pat_completeness auto
termination
  by (relation "measure (length \<circ> snd)") (auto simp: less_Suc_eq_le length_dropWhile_le)

definition translate :: "string \<Rightarrow> string + string" where
  "translate source = map_sum (expression_error source) id (translate_from None source)"

section \<open>Trees\<close>

text \<open>
  A node of Python's syntax tree: what its class holds besides child nodes, and the child nodes in
  the order of \<open>iter_child_nodes\<close>. An Attribute's first child is its \<open>value\<close>, a Call's its \<open>func\<close>.
  A class without fields of interest is named only.
\<close>

datatype pykind = KName string | KAttribute string | KCall bool \<comment> \<open>whether it has keywords\<close> | KClass string

datatype pynode = PyNode pykind "pynode list"

fun kind_of_node :: "pynode \<Rightarrow> pykind" where
  "kind_of_node (PyNode k cs) = k"

fun children :: "pynode \<Rightarrow> pynode list" where
  "children (PyNode k cs) = cs"

fun class_name :: "pykind \<Rightarrow> string" where
  "class_name (KName _) = ''Name''"
| "class_name (KAttribute _) = ''Attribute''"
| "class_name (KCall _) = ''Call''"
| "class_name (KClass c) = c"

definition OPERATORS :: "(string \<times> string) list" where
  "OPERATORS = [(''And'', ''&&''), (''Or'', ''||''), (''Not'', ''!''), (''USub'', ''-''), (''Add'', ''+''), (''Sub'', ''-''),
     (''Mult'', ''*''), (''Div'', ''/''), (''Mod'', ''%''), (''Eq'', ''==''), (''NotEq'', ''!=''), (''Lt'', ''<''),
     (''LtE'', ''<=''), (''Gt'', ''>''), (''GtE'', ''>=''), (''In'', ''in'')]"

definition ALLOWED :: "string list" where
  "ALLOWED = [''Expression'', ''BoolOp'', ''UnaryOp'', ''BinOp'', ''Compare''] @ map fst OPERATORS
     @ [''NotIn'', ''Name'', ''Attribute'', ''Subscript'', ''Constant'', ''Call'', ''List'', ''Load'']"

text \<open>
  \<open>ast.walk\<close> yields the nodes breadth first. Each comes here with how its parent holds it: as the
  value of an Attribute, as the function of a Call, or otherwise; \<open>_inside_path\<close> and \<open>_is_called\<close>
  look for just that parent in the tree.
\<close>

datatype held = AsValue | AsFunc | AsOther

fun hold_children :: "pynode \<Rightarrow> (held \<times> pynode) list" where
  "hold_children (PyNode (KAttribute a) (v # cs)) = (AsValue, v) # map (Pair AsOther) cs"
| "hold_children (PyNode (KCall k) (f # cs)) = (AsFunc, f) # map (Pair AsOther) cs"
| "hold_children (PyNode k cs) = map (Pair AsOther) cs"

lemma hold_children_snd [simp]: "map snd (hold_children n) = children n"
  by (induction n rule: hold_children.induct) (auto simp: comp_def)

lemma sum_children: "sum_list (map size (children n)) < size n"
proof -
  have "sum_list (map size cs) \<le> size_list size cs" for cs :: "pynode list" by (induction cs) auto
  then show ?thesis by (cases n) (simp add: less_Suc_eq_le)
qed

function walk :: "(held \<times> pynode) list \<Rightarrow> (held \<times> pynode) list" where
  "walk [] = []"
| "walk ((h, n) # queue) = (h, n) # walk (queue @ hold_children n)"
  by pat_completeness auto
termination
proof (relation "measure (\<lambda>q. sum_list (map size (map snd q)))", goal_cases)
  case (2 h n queue)
  then show ?case using sum_children[of n] by (simp del: map_map)
qed simp

definition walk_tree :: "pynode \<Rightarrow> (held \<times> pynode) list" where
  "walk_tree tree = walk [(AsOther, tree)]"

section \<open>Parsing\<close>

text \<open>The problem of one node, if it has one: the checks of the loop in \<open>parse\<close>, in their order.\<close>

definition unknown_name :: "string \<Rightarrow> string" where
  "unknown_name name = ''unknown name '' @ py_repr name @ ''; use instruction, repository, inputs, outputs, visits or item''"

definition calls_function :: "pynode \<Rightarrow> bool" where
  "calls_function n = (case children n of PyNode (KName f) _ # _ \<Rightarrow> f \<in> set FUNCTIONS | _ \<Rightarrow> False)"

definition node_problem :: "held \<times> pynode \<Rightarrow> string option" where
  "node_problem p = (case p of (h, n) \<Rightarrow>
     if class_name (kind_of_node n) \<notin> set ALLOWED then Some (class_name (kind_of_node n) @ '' is not allowed'')
     else case kind_of_node n of
       KName name \<Rightarrow>
         if name \<notin> set ROOTS \<and> name \<notin> set FUNCTIONS then Some (unknown_name name)
         else if name \<in> set FUNCTIONS \<and> h \<noteq> AsFunc then Some (name @ '' is a function'')
         else None
     | KCall keywords \<Rightarrow>
         if \<not> calls_function n \<or> keywords then Some ''only has, json, lower, size can be called'' else None
     | KAttribute a \<Rightarrow> if a \<noteq> [] \<and> hd a = CHR ''_'' then Some (''names cannot start with '' @ [CHR 0x27, CHR ''_'', CHR 0x27]) else None
     | KClass _ \<Rightarrow> None)"

definition first_problem :: "(held \<times> pynode) list \<Rightarrow> string option" where
  "first_problem ps = (case List.map_filter node_problem ps of [] \<Rightarrow> None | x # _ \<Rightarrow> Some x)"

definition parse :: "(string \<Rightarrow> string + pynode) \<Rightarrow> string \<Rightarrow> string + pynode" where
  "parse pyparse source =
     sbind (translate (strip source)) (\<lambda>text0.
     let text = strip text0 in
     if text = [] then Inl (expression_error source ''empty expression'')
     else case pyparse text of
       Inl msg \<Rightarrow> Inl (expression_error source (''cannot parse: '' @ msg))
     | Inr tree \<Rightarrow>
         (case first_problem (walk_tree tree) of
            Some problem \<Rightarrow> Inl (expression_error source problem)
          | None \<Rightarrow> Inr tree))"

section \<open>Names read\<close>

text \<open>\<open>_path\<close>: the attribute chain from a root name, or nothing.\<close>

fun path_parts :: "pynode \<Rightarrow> (string \<times> string list) option" where
  "path_parts (PyNode (KAttribute a) (v # cs)) = map_option (\<lambda>(name, parts). (name, parts @ [a])) (path_parts v)"
| "path_parts (PyNode (KName name) cs) = Some (name, [])"
| "path_parts _ = None"

definition path_of :: "pynode \<Rightarrow> string list" where
  "path_of n = (case path_parts n of
     Some (name, parts) \<Rightarrow> if name \<in> set ROOTS then name # parts else []
   | None \<Rightarrow> [])"

fun named_node :: "pykind \<Rightarrow> bool" where
  "named_node (KName _) = True"
| "named_node (KAttribute _) = True"
| "named_node _ = False"

definition references_of :: "pynode \<Rightarrow> string list list" where
  "references_of tree = filter (\<lambda>p. p \<noteq> []) (map (path_of \<circ> snd)
     (filter (\<lambda>(h, n). named_node (kind_of_node n) \<and> h \<noteq> AsValue) (walk_tree tree)))"

section \<open>Templates\<close>

definition brace :: "char \<Rightarrow> bool" where
  "brace c \<longleftrightarrow> c = CHR 0x7B \<or> c = CHR 0x7D"

text \<open>\<open>holes\<close>: the matches of a dollar sign, an open brace, text without braces and a closing brace, left to right.\<close>

function holes :: "string \<Rightarrow> string list" where
  "holes [] = []"
| "holes (c # cs) =
     (if c = CHR ''$'' \<and> cs \<noteq> [] \<and> hd cs = CHR 0x7B then
        (let inner = takeWhile (\<lambda>x. \<not> brace x) (tl cs); rest = dropWhile (\<lambda>x. \<not> brace x) (tl cs) in
         if rest \<noteq> [] \<and> hd rest = CHR 0x7D then inner # holes (tl rest) else holes cs)
      else holes cs)"
  by pat_completeness auto
termination
proof (relation "measure length", goal_cases)
  case (2 c cs inner rest)
  then show ?case using length_dropWhile_le[of "\<lambda>x. \<not> brace x" "tl cs"] by (auto simp: less_Suc_eq_le intro: le_trans)
qed auto

end
