(* ===== verification/Graph_Check.thy ===== *)
theory Graph_Check
  imports Graph_Search Graph_Expressions
begin

text \<open>
  The rules of a Graph that span fields (\<open>v2/packages/contracts\<close>, \<open>contracts/graphs.py\<close>): \<open>check\<close> and
  everything it calls. A document is a JSON value; what of it is not well-formed enough to read is
  skipped, as in the code. The callback \<open>problem\<close> appends to a list, so each function returns the
  problems it reports, in order. Python's parser is the parameter of the expression theory.
\<close>

section \<open>Reading documents\<close>

definition STAGES :: "string list" where
  "STAGES = [''plan'', ''implementation'', ''review'']"

definition RESERVED :: "string list" where
  "RESERVED = [''start'', ''end'', ''naming'']"

definition as_list :: "json option \<Rightarrow> json list" where
  "as_list v = (case v of Some (JList xs) \<Rightarrow> xs | _ \<Rightarrow> [])"

definition as_mapping :: "json option \<Rightarrow> json" where
  "as_mapping v = (case v of Some (JObj kvs) \<Rightarrow> JObj kvs | _ \<Rightarrow> JObj [])"

fun is_mapping :: "json \<Rightarrow> bool" where
  "is_mapping (JObj kvs) = True"
| "is_mapping _ = False"

definition text_of :: "json option \<Rightarrow> string option" where
  "text_of v = (case v of Some (JStr s) \<Rightarrow> Some s | _ \<Rightarrow> None)"

text \<open>\<open>bool(value)\<close> of a value that may be missing.\<close>

fun truthy :: "json option \<Rightarrow> bool" where
  "truthy None = False"
| "truthy (Some JNull) = False"
| "truthy (Some (JBool b)) = b"
| "truthy (Some (JInt i)) = (i \<noteq> 0)"
| "truthy (Some (JFloat r)) = (r \<noteq> 0)"
| "truthy (Some (JStr s)) = (s \<noteq> [])"
| "truthy (Some (JList xs)) = (xs \<noteq> [])"
| "truthy (Some (JObj kvs)) = (kvs \<noteq> [])"

type_synonym problems = "(string \<times> string) list"

definition quoted :: "string \<Rightarrow> string" where
  "quoted s = CHR 0x27 # s @ [CHR 0x27]"

definition indexed :: "string \<Rightarrow> nat \<Rightarrow> string" where
  "indexed path i = path @ ''['' @ show_nat i @ '']''"

section \<open>Steps\<close>

record gstep =
  gs_name :: string
  gs_path :: string
  gs_body :: json

definition step_at :: "string \<Rightarrow> nat \<times> json \<Rightarrow> gstep option" where
  "step_at stage p = (case p of (i, entry) \<Rightarrow> (case jget entry ''name'' of
     Some (JStr name) \<Rightarrow> Some \<lparr>gs_name = name, gs_path = indexed (''spec.'' @ stage) i, gs_body = entry\<rparr>
   | _ \<Rightarrow> None))"

definition written :: "json \<Rightarrow> gstep list" where
  "written spec = concat (map (\<lambda>stage. List.map_filter (step_at stage) (enumerate 0 (as_list (jget spec stage)))) STAGES)"

fun steps_of :: "gstep list \<Rightarrow> (string, gstep) table \<Rightarrow> problems \<times> (string, gstep) table" where
  "steps_of [] steps = ([], steps)"
| "steps_of (s # ss) steps =
     (if gs_name s \<in> set RESERVED
      then apfst (Cons (gs_path s @ ''.name'', quoted (gs_name s) @ '' is reserved'')) (steps_of ss steps)
      else case tget steps (gs_name s) of
        Some s0 \<Rightarrow> apfst (Cons (gs_path s @ ''.name'', ''duplicate step '' @ quoted (gs_name s) @ ''; '' @ gs_path s0 @ '' has the same name''))
                    (steps_of ss steps)
      | None \<Rightarrow> steps_of ss (steps @ [(gs_name s, s)]))"

section \<open>Flow\<close>

record branch =
  br_when :: "string option"
  br_to :: "string option"
  br_path :: string

record rule =
  ru_path :: string
  ru_sources :: "string list"
  ru_targets :: "string list"
  ru_routes :: "branch list"
  ru_unknown :: bool

text \<open>The nested function \<open>known\<close>: the name if it is one, and the problem if it is not.\<close>

definition known_name :: "(string, gstep) table \<Rightarrow> bool \<Rightarrow> string \<Rightarrow> json option \<Rightarrow> string option \<times> problems" where
  "known_name steps source path v = (case text_of v of
     None \<Rightarrow> (None, [])
   | Some name \<Rightarrow>
       if name = (if source then ''start'' else ''end'') \<or> tget steps name \<noteq> None then (Some name, [])
       else if name = ''start'' then (None, [(path, ''start can only be a source'')])
       else if name = ''end'' then (None, [(path, ''end can only be a target'')])
       else (None, [(path, ''unknown step '' @ quoted name)]))"

fun known_names :: "(string, gstep) table \<Rightarrow> bool \<Rightarrow> string \<Rightarrow> json list \<Rightarrow> string list \<times> problems" where
  "known_names steps source path [] = ([], [])"
| "known_names steps source path (v # vs) =
     (case (known_name steps source path (Some v), known_names steps source path vs) of
        ((name, ps), (names, qs)) \<Rightarrow> ((case name of None \<Rightarrow> names | Some n \<Rightarrow> n # names), ps @ qs))"

fun routes_of :: "(string, gstep) table \<Rightarrow> string \<Rightarrow> nat \<Rightarrow> json list \<Rightarrow> branch list \<times> problems" where
  "routes_of steps path i [] = ([], [])"
| "routes_of steps path i (b # bs) =
     (if is_mapping b then
        (let here = indexed (path @ ''.route'') i in
         case (known_name steps False (here @ ''.to'') (jget b ''to''), routes_of steps path (Suc i) bs) of
           ((to, ps), (rs, qs)) \<Rightarrow> (\<lparr>br_when = text_of (jget b ''when''), br_to = to, br_path = here\<rparr> # rs, ps @ qs))
      else routes_of steps path (Suc i) bs)"

definition route_problems :: "string \<Rightarrow> json list \<Rightarrow> branch list \<Rightarrow> problems" where
  "route_problems path written_sources routes =
     (if routes = [] then []
      else (if length written_sources \<noteq> 1 \<or> JStr ''start'' \<in> set written_sources
            then [(path @ ''.from'', ''a route leaves exactly one step'')] else [])
        @ (if br_when (last routes) \<noteq> None
           then [(br_path (last routes) @ ''.when'', ''the last branch is the default, which has no when'')] else [])
        @ List.map_filter (\<lambda>b. if br_when b = None then Some (br_path b, ''only the last branch can leave out when'') else None)
            (butlast routes))"

definition flow_rule :: "(string, gstep) table \<Rightarrow> nat \<Rightarrow> json \<Rightarrow> rule \<times> problems" where
  "flow_rule steps i entry =
     (let path = indexed ''spec.flow'' i;
          from_list = as_list (jget entry ''from''); to_list = as_list (jget entry ''to'') in
      case (known_names steps True (path @ ''.from'') from_list, known_names steps False (path @ ''.to'') to_list,
            routes_of steps path 0 (as_list (jget entry ''route''))) of
        ((sources, ps), (targets, qs), (routes, rs)) \<Rightarrow>
          (\<lparr>ru_path = path, ru_sources = sources, ru_targets = targets, ru_routes = routes,
            ru_unknown = length targets < length to_list\<rparr>,
           ps @ (if ''start'' \<in> set sources \<and> length from_list > 1 then [(path @ ''.from'', ''start cannot be joined'')] else [])
             @ qs @ rs @ route_problems path from_list routes))"

fun flow_of :: "(string, gstep) table \<Rightarrow> nat \<Rightarrow> json list \<Rightarrow> rule list \<times> problems" where
  "flow_of steps i [] = ([], [])"
| "flow_of steps i (e # es) =
     (if is_mapping e then (case (flow_rule steps i e, flow_of steps (Suc i) es) of ((r, ps), (rs, qs)) \<Rightarrow> (r # rs, ps @ qs))
      else flow_of steps (Suc i) es)"

section \<open>Edges\<close>

text \<open>The pair of dicts \<open>plain\<close> and \<open>every\<close>.\<close>

type_synonym edges = "adjacency \<times> adjacency"

definition add_plain :: "string \<Rightarrow> string \<Rightarrow> edges \<Rightarrow> edges" where
  "add_plain s t = map_prod (add_edge s t) (add_edge s t)"

definition add_conditional :: "string \<Rightarrow> string \<Rightarrow> edges \<Rightarrow> edges" where
  "add_conditional s t = map_prod id (add_edge s t)"

definition routed_steps :: "rule list \<Rightarrow> string list" where
  "routed_steps rules = concat (map ru_sources rules)"

fun default_edges :: "string list \<Rightarrow> string list \<Rightarrow> edges \<Rightarrow> edges" where
  "default_edges routed [] es = es"
| "default_edges routed (s # rest) es = default_edges routed rest
     (if s \<in> set routed then es else add_plain s (case rest of [] \<Rightarrow> ''end'' | n # _ \<Rightarrow> n) es)"

definition source_edges :: "rule \<Rightarrow> string \<Rightarrow> edges \<Rightarrow> edges" where
  "source_edges r s es =
     (let es1 = fold (add_plain s) (ru_targets r) es;
          es2 = fold (\<lambda>b. add_conditional s (case br_to b of None \<Rightarrow> ''end'' | Some t \<Rightarrow> if t = [] then ''end'' else t)) (ru_routes r) es1
      in if ru_unknown r then add_conditional s ''end'' es2 else es2)"

definition edges_of :: "string list \<Rightarrow> rule list \<Rightarrow> edges" where
  "edges_of order rules =
     (let routed = routed_steps rules;
          es0 = (if order \<noteq> [] \<and> ''start'' \<notin> set routed then add_plain ''start'' (hd order) ([], []) else ([], []));
          es1 = default_edges routed order es0
      in fold (\<lambda>r. fold (source_edges r) (ru_sources r)) rules es1)"

section \<open>Structure\<close>

definition reach_problems :: "gstep list \<Rightarrow> adjacency \<Rightarrow> problems" where
  "reach_problems steps every =
     (let reached = reach ''start'' every; finishing = reach ''end'' (turn_edges every []) in
      List.map_filter (\<lambda>s.
        if gs_name s \<notin> set reached then Some (gs_path s, ''step '' @ quoted (gs_name s) @ '' is never reached from start'')
        else if gs_name s \<notin> set finishing then Some (gs_path s, ''step '' @ quoted (gs_name s) @ '' never reaches end'')
        else None) steps)"

definition cycle_problems :: "adjacency \<Rightarrow> problems" where
  "cycle_problems plain = (let c = cycle_of plain in
     if c = [] then [] else [(''spec.flow'', ''cycle '' @ join_with '' -> '' c @ '' does not pass through a route'')])"

definition single_route :: "rule \<Rightarrow> string option" where
  "single_route r = (if ru_routes r \<noteq> [] \<and> length (ru_sources r) = 1 then Some (hd (ru_sources r)) else None)"

fun route_twice :: "rule list \<Rightarrow> string list \<Rightarrow> problems" where
  "route_twice [] seen = []"
| "route_twice (r # rs) seen = (case single_route r of
     None \<Rightarrow> route_twice rs seen
   | Some s \<Rightarrow> (if s \<in> set seen
       then [(ru_path r, ''step '' @ quoted s @ '' has more than one route; merge them into one'')] else [])
       @ route_twice rs (s # seen))"

definition both_ways :: "rule list \<Rightarrow> problems" where
  "both_ways rules = (let routed = List.map_filter single_route rules in
     concat (map (\<lambda>r. if ru_targets r = [] then []
       else map (\<lambda>s. (ru_path r, ''step '' @ quoted s @ '' has both a route and plain edges out; use only the route''))
              (sort (remdups (filter (\<lambda>s. s \<in> set routed) (ru_sources r))))) rules))"

definition structure_problems :: "gstep list \<Rightarrow> rule list \<Rightarrow> edges \<Rightarrow> problems" where
  "structure_problems steps rules es =
     reach_problems steps (snd es) @ cycle_problems (fst es) @ route_twice rules [] @ both_ways rules"

section \<open>References\<close>

record scope =
  sp_inputs :: "string list"
  sp_steps :: "(string, gstep) table"
  sp_every :: adjacency

definition inputs_of :: "json \<Rightarrow> string list" where
  "inputs_of spec = List.map_filter (\<lambda>e. text_of (jget (as_mapping (Some e)) ''name'')) (as_list (jget spec ''inputs''))"

definition path_problem :: "scope \<Rightarrow> string \<Rightarrow> bool \<Rightarrow> string list \<Rightarrow> string option" where
  "path_problem sc here item p =
     (let base = hd p; name = (if length p > 1 then p ! 1 else []) in
      if base \<in> {''inputs'', ''outputs'', ''visits''} \<and> name = []
      then Some (base @ '' needs a name, such as '' @ base @ ''.'' @ (if base = ''inputs'' then ''NAME'' else ''STEP''))
      else if base = ''inputs'' \<and> name \<notin> set (sp_inputs sc) then Some (''undeclared input '' @ quoted name)
      else if base \<in> {''outputs'', ''visits''} \<and> tget (sp_steps sc) name = None
      then Some (''unknown step '' @ quoted name @ '' in '' @ base @ ''.'' @ name)
      else if base = ''outputs'' \<and> name \<noteq> here \<and> here \<notin> set (reach name (sp_every sc))
      then Some (''outputs.'' @ name @ '' cannot have run before '' @ here)
      else if base = ''item'' \<and> \<not> item then Some ''item is only defined in a step with facets''
      else None)"

definition check_source ::
  "(string \<Rightarrow> string + pynode) \<Rightarrow> scope \<Rightarrow> string \<Rightarrow> string \<Rightarrow> bool \<Rightarrow> string \<Rightarrow> problems" where
  "check_source pp sc loc here item source = (case parse pp source of
     Inl e \<Rightarrow> [(loc, e)]
   | Inr tree \<Rightarrow> map (Pair loc) (List.map_filter (path_problem sc here item) (references_of tree)))"

text \<open>The nested functions \<open>text\<close> and \<open>expression\<close>.\<close>

definition check_text :: "(string \<Rightarrow> string + pynode) \<Rightarrow> scope \<Rightarrow> json \<Rightarrow> string \<Rightarrow> string \<Rightarrow> string \<Rightarrow> bool \<Rightarrow> problems" where
  "check_text pp sc owner key loc here item = (case text_of (jget owner key) of
     None \<Rightarrow> []
   | Some s \<Rightarrow> concat (map (check_source pp sc (loc @ ''.'' @ key) here item) (holes s)))"

definition check_expression :: "(string \<Rightarrow> string + pynode) \<Rightarrow> scope \<Rightarrow> json \<Rightarrow> string \<Rightarrow> string \<Rightarrow> string \<Rightarrow> problems" where
  "check_expression pp sc owner key loc here = (case text_of (jget owner key) of
     None \<Rightarrow> [] | Some s \<Rightarrow> check_source pp sc (loc @ ''.'' @ key) here False s)"

definition runner_problems :: "scope \<Rightarrow> json \<Rightarrow> string \<Rightarrow> problems" where
  "runner_problems sc runner loc = List.map_filter (\<lambda>key. case text_of (jget runner key) of
       None \<Rightarrow> None
     | Some name \<Rightarrow> if tget (sp_steps sc) name = None then Some (loc @ ''.runner.'' @ key, ''unknown step '' @ quoted name) else None)
     [''sameAs'', ''differentFrom'']"

definition step_problems :: "(string \<Rightarrow> string + pynode) \<Rightarrow> scope \<Rightarrow> gstep \<Rightarrow> problems" where
  "step_problems pp sc s =
     (let agent = as_mapping (jget (gs_body s) ''agent''); human = as_mapping (jget (gs_body s) ''human'');
          loc = gs_path s @ ''.agent''; faceted = truthy (jget agent ''facets''); runner = as_mapping (jget agent ''runner'');
          here = gs_name s in
      check_text pp sc runner ''name'' (loc @ ''.runner'') here faceted @ runner_problems sc runner loc
      @ check_text pp sc agent ''model'' loc here faceted @ check_text pp sc agent ''prompt'' loc here faceted
      @ concat (map (\<lambda>(i, f). check_text pp sc (as_mapping (Some f)) ''model'' (indexed (loc @ ''.facets'') i) here True)
          (enumerate 0 (as_list (jget agent ''facets''))))
      @ check_text pp sc human ''prompt'' (gs_path s @ ''.human'') here False
      @ check_expression pp sc human ''choose'' (gs_path s @ ''.human'') here)"

definition rule_problems :: "(string \<Rightarrow> string + pynode) \<Rightarrow> scope \<Rightarrow> rule \<Rightarrow> problems" where
  "rule_problems pp sc r = concat (map (\<lambda>b. case br_when b of
       Some source \<Rightarrow> if length (ru_sources r) = 1 then check_source pp sc (br_path b @ ''.when'') (hd (ru_sources r)) False source else []
     | None \<Rightarrow> []) (ru_routes r))"

definition reference_problems ::
  "(string \<Rightarrow> string + pynode) \<Rightarrow> json \<Rightarrow> gstep list \<Rightarrow> (string, gstep) table \<Rightarrow> rule list \<Rightarrow> edges \<Rightarrow> problems" where
  "reference_problems pp spec all steps rules es =
     (let sc = \<lparr>sp_inputs = inputs_of spec, sp_steps = steps, sp_every = snd es\<rparr>; naming = as_mapping (jget spec ''naming'') in
      check_text pp sc (as_mapping (jget spec ''workspace'')) ''ref'' ''spec.workspace'' ''start'' False
      @ check_text pp sc naming ''model'' ''spec.naming'' ''start'' False
      @ check_text pp sc (as_mapping (jget naming ''runner'')) ''name'' ''spec.naming.runner'' ''start'' False
      @ concat (map (step_problems pp sc) all) @ concat (map (rule_problems pp sc) rules))"

section \<open>The check\<close>

text \<open>\<open>list(dict.fromkeys(found))\<close>: the first of any duplicates.\<close>

definition unique_first :: "'a list \<Rightarrow> 'a list" where
  "unique_first xs = rev (remdups (rev xs))"

definition graph_check :: "(string \<Rightarrow> string + pynode) \<Rightarrow> json \<Rightarrow> problems" where
  "graph_check pp document = (case jget document ''spec'' of
     Some (JObj kvs) \<Rightarrow>
       (let spec = JObj kvs; all = written spec in
        case steps_of all [] of (ps, steps) \<Rightarrow>
          (case flow_of steps 0 (as_list (jget spec ''flow'')) of (rules, qs) \<Rightarrow>
             (let es = edges_of (tkeys steps) rules in
              unique_first ((if all = [] then [(''spec'', ''the graph has no steps; add one to plan, implementation or review'')] else [])
                @ ps @ qs @ structure_problems (map snd steps) rules es @ reference_problems pp spec all steps rules es))))
   | _ \<Rightarrow> [])"

end
