(* ===== verification/Graph_Properties.thy ===== *)
theory Graph_Properties
  imports Graph_Check "HOL-Library.Sublist"
begin

text \<open>
  The properties of the Graph language's checks: the parser admits exactly the well-formed
  expressions, the names an expression reads are all reported, and a graph without problems is
  connected from start to end, has no unconditional cycle and reads only what can have run.
\<close>

section \<open>Expressions\<close>

text \<open>A well-formed expression, by structure.\<close>

fun wf_expr :: "held \<Rightarrow> pynode \<Rightarrow> bool" where
  "wf_expr h (PyNode (KName name) cs) \<longleftrightarrow>
     (name \<in> set ROOTS \<or> name \<in> set FUNCTIONS \<and> h = AsFunc) \<and> (\<forall>c \<in> set cs. wf_expr AsOther c)"
| "wf_expr h (PyNode (KAttribute a) []) \<longleftrightarrow> \<not> prefix ''_'' a"
| "wf_expr h (PyNode (KAttribute a) (v # cs)) \<longleftrightarrow>
     \<not> prefix ''_'' a \<and> wf_expr AsValue v \<and> (\<forall>c \<in> set cs. wf_expr AsOther c)"
| "wf_expr h (PyNode (KCall keywords) []) \<longleftrightarrow> False"
| "wf_expr h (PyNode (KCall keywords) (f # cs)) \<longleftrightarrow>
     \<not> keywords \<and> (case kind_of_node f of KName name \<Rightarrow> name \<in> set FUNCTIONS | _ \<Rightarrow> False)
     \<and> wf_expr AsFunc f \<and> (\<forall>c \<in> set cs. wf_expr AsOther c)"
| "wf_expr h (PyNode (KClass c) cs) \<longleftrightarrow> c \<in> set ALLOWED \<and> (\<forall>c \<in> set cs. wf_expr AsOther c)"

lemma roots_not_functions: "name \<in> set ROOTS \<Longrightarrow> name \<notin> set FUNCTIONS"
  by (auto simp: ROOTS_def FUNCTIONS_def)

lemma node_classes: "''Name'' \<in> set ALLOWED" "''Attribute'' \<in> set ALLOWED" "''Call'' \<in> set ALLOWED"
  by (simp_all add: ALLOWED_def)

lemma wf_expr_node:
  "wf_expr h n \<longleftrightarrow> node_problem (h, n) = None \<and> (\<forall>(h', c) \<in> set (hold_children n). wf_expr h' c)"
proof (cases "(h, n)" rule: wf_expr.cases)
  case (1 h name cs)
  then show ?thesis using roots_not_functions[of name] node_classes by (auto simp: node_problem_def)
next
  case (5 h kw f cs)
  then show ?thesis using node_classes by (cases f; cases "kind_of_node f") (auto simp: node_problem_def calls_function_def)
next
  case (3 h a v cs)
  then show ?thesis using node_classes by (cases a) (auto simp: node_problem_def)
next
  case (2 h a)
  then show ?thesis using node_classes by (cases a) (auto simp: node_problem_def)
qed (use node_classes in \<open>auto simp: node_problem_def calls_function_def\<close>)

lemma walk_admits: "(\<forall>p \<in> set (walk q). node_problem p = None) \<longleftrightarrow> (\<forall>(h, n) \<in> set q. wf_expr h n)"
proof (induction q rule: walk.induct)
  case (2 h n queue)
  then show ?case using wf_expr_node[of h n] by auto
qed simp

lemma first_problem_None: "first_problem ps = None \<longleftrightarrow> (\<forall>p \<in> set ps. node_problem p = None)"
  by (induction ps) (auto simp: first_problem_def map_filter_simps split: option.splits list.splits)

lemma tree_admitted: "first_problem (walk_tree tree) = None \<longleftrightarrow> wf_expr AsOther tree"
  using walk_admits[of "[(AsOther, tree)]"] by (simp add: first_problem_None walk_tree_def)

lemma parsed_wf: "parse pp source = Inr tree \<Longrightarrow> wf_expr AsOther tree"
  by (auto simp: parse_def Let_def sbind_eq_Inr tree_admitted[symmetric] split: if_splits sum.splits option.splits)

text \<open>
  C28: \<open>parse\<close> returns a tree exactly when the translated text is not empty, Python parses it to that
  tree and the tree is well-formed: only admitted node classes, only the root names and, in calls
  and nowhere else, the four functions, no keyword arguments and no attribute that starts with an underscore.
\<close>

theorem parse_admits:
  "parse pp source = Inr tree \<longleftrightarrow>
     (\<exists>text. translate (strip source) = Inr text \<and> strip text \<noteq> [] \<and> pp (strip text) = Inr tree \<and> wf_expr AsOther tree)"
  by (cases "translate (strip source)")
    (auto simp: parse_def Let_def tree_admitted[symmetric] split: sum.splits option.splits)

fun tree_nodes :: "pynode \<Rightarrow> pynode set" where
  "tree_nodes (PyNode k cs) = insert (PyNode k cs) (\<Union>c \<in> set cs. tree_nodes c)"

definition reported :: "(held \<times> pynode) list \<Rightarrow> string list set" where
  "reported q = {path_of n |h n. (h, n) \<in> set q \<and> named_node (kind_of_node n) \<and> h \<noteq> AsValue \<and> path_of n \<noteq> []}"

lemma set_references: "set (references_of tree) = reported (walk_tree tree)"
proof (intro set_eqI iffI)
  fix p assume "p \<in> set (references_of tree)"
  then obtain h n where "(h, n) \<in> set (walk_tree tree)" "named_node (kind_of_node n)" "h \<noteq> AsValue" "p = path_of n" "p \<noteq> []"
    by (auto simp: references_of_def)
  then show "p \<in> reported (walk_tree tree)" unfolding reported_def by blast
next
  fix p assume "p \<in> reported (walk_tree tree)"
  then obtain h n where "(h, n) \<in> set (walk_tree tree)" "named_node (kind_of_node n)" "h \<noteq> AsValue" "p = path_of n" "p \<noteq> []"
    unfolding reported_def by blast
  then show "p \<in> set (references_of tree)" by (force simp: references_of_def)
qed

lemma path_named: "path_of n \<noteq> [] \<Longrightarrow> named_node (kind_of_node n)"
  by (cases n rule: path_parts.cases) (auto simp: path_of_def)

lemma path_root: "path_of n \<noteq> [] \<Longrightarrow> hd (path_of n) \<in> set ROOTS"
  by (cases "path_parts n") (auto simp: path_of_def split: prod.split_asm)

lemma path_longer: "path_of v \<noteq> [] \<Longrightarrow> path_of (PyNode (KAttribute a) (v # cs)) = path_of v @ [a]"
  by (auto simp: path_of_def split: option.splits if_splits)

lemma child_held: "c \<in> set (children n) \<Longrightarrow> \<exists>h. (h, c) \<in> set (hold_children n)"
  by (metis hold_children_snd imageE list.set_map prod.collapse)

lemma held_as_value: "(AsValue, c) \<in> set (hold_children n) \<Longrightarrow> \<exists>a cs. n = PyNode (KAttribute a) (c # cs)"
  by (cases n rule: hold_children.cases) auto

lemma walk_reports:
  assumes "(h, n) \<in> set q" and "m \<in> tree_nodes n" and "path_of m \<noteq> []"
  shows "(\<exists>p \<in> reported (walk q). prefix (path_of m) p) \<or> h = AsValue \<and> prefix (path_of m) (path_of n)"
  using assms
proof (induction q arbitrary: h n m rule: walk.induct)
  case (2 h0 n0 queue)
  have self: "path_of n0 \<in> reported (walk ((h0, n0) # queue))" if "h0 \<noteq> AsValue" "path_of n0 \<noteq> []"
    using that path_named[of n0] unfolding reported_def by auto
  have more: "reported (walk (queue @ hold_children n0)) \<subseteq> reported (walk ((h0, n0) # queue))"
    unfolding reported_def by auto
  consider (queue) "(h, n) \<in> set queue" | (self) "h = h0" "n = n0" "m = n0"
    | (child) c where "h = h0" "n = n0" "c \<in> set (children n0)" "m \<in> tree_nodes c"
    using "2.prems"(1,2) by (cases n0) auto
  then show ?case
  proof cases
    case queue
    then show ?thesis using "2.IH"[of h n m] "2.prems"(2,3) more by auto
  next
    case self
    then show ?thesis using \<open>h0 \<noteq> AsValue \<Longrightarrow> path_of n0 \<noteq> [] \<Longrightarrow> _\<close> "2.prems"(3) by (cases "h0 = AsValue") auto
  next
    case child
    obtain h' where h': "(h', c) \<in> set (hold_children n0)" using child_held[OF child(3)] by blast
    from "2.IH"[of h' c m] h' child(4) "2.prems"(3)
    consider (reported) "\<exists>p \<in> reported (walk (queue @ hold_children n0)). prefix (path_of m) p"
      | (held) "h' = AsValue" "prefix (path_of m) (path_of c)" by auto
    then show ?thesis
    proof cases
      case reported
      then show ?thesis using more by blast
    next
      case held
      obtain a cs where n0: "n0 = PyNode (KAttribute a) (c # cs)" using held_as_value h' held(1) by blast
      have "path_of c \<noteq> []" using held(2) "2.prems"(3) by auto
      then have "prefix (path_of m) (path_of n0)" "path_of n0 \<noteq> []" using path_longer[of c a cs] held(2) n0 by auto
      then show ?thesis using self child(1,2) by (cases "h0 = AsValue") auto
    qed
  qed
qed simp

text \<open>
  The names an expression reads are the ones it reports. Every reported path starts at a
  root name, and each name and attribute chain that occurs in an admitted expression is a prefix of
  a reported path; any other name is one of the functions, and is called.
\<close>

lemma references_complete:
  assumes "parse pp source = Inr tree"
  shows "(\<forall>p \<in> set (references_of tree). p \<noteq> [] \<and> hd p \<in> set ROOTS)
    \<and> (\<forall>m \<in> tree_nodes tree. path_of m \<noteq> [] \<longrightarrow> (\<exists>p \<in> set (references_of tree). prefix (path_of m) p))
    \<and> (\<forall>name cs. PyNode (KName name) cs \<in> tree_nodes tree \<longrightarrow> name \<in> set FUNCTIONS \<or> (\<exists>p \<in> set (references_of tree). hd p = name))"
proof -
  have wf: "wf_expr AsOther tree" by (rule parsed_wf[OF assms])
  have chain: "\<exists>p \<in> set (references_of tree). prefix (path_of m) p" if "m \<in> tree_nodes tree" "path_of m \<noteq> []" for m
    using walk_reports[of AsOther tree "[(AsOther, tree)]" m] that by (simp add: set_references walk_tree_def)
  have names: "name \<in> set FUNCTIONS \<or> name \<in> set ROOTS" if "PyNode (KName name) cs \<in> tree_nodes t" "wf_expr h t" for name cs h t
    using that
  proof (induction t arbitrary: h)
    case (PyNode k ds)
    then consider "k = KName name" | c where "c \<in> set ds" "PyNode (KName name) cs \<in> tree_nodes c" by auto
    then show ?case
    proof cases
      case (2 c)
      then obtain h' where "(h', c) \<in> set (hold_children (PyNode k ds))" using child_held[of c "PyNode k ds"] by auto
      then have "wf_expr h' c" using PyNode.prems(2) wf_expr_node[of h "PyNode k ds"] by blast
      then show ?thesis using PyNode.IH 2 by blast
    qed (use PyNode.prems in auto)
  qed
  have "\<exists>p \<in> set (references_of tree). hd p = name" if n: "PyNode (KName name) cs \<in> tree_nodes tree" "name \<notin> set FUNCTIONS" for name cs
  proof -
    have "path_of (PyNode (KName name) cs) = [name]" using names[OF n(1) wf] n(2) by (simp add: path_of_def)
    then obtain p where "p \<in> set (references_of tree)" "prefix [name] p" using chain[OF n(1)] by auto
    moreover from this(2) have "hd p = name" by (auto simp: prefix_def)
    ultimately show ?thesis by blast
  qed
  moreover have "p \<noteq> [] \<and> hd p \<in> set ROOTS" if "p \<in> set (references_of tree)" for p
    using that path_root unfolding set_references reported_def by auto
  ultimately show ?thesis using chain by blast
qed

section \<open>Structure of a graph\<close>

definition edges_wf :: "edges \<Rightarrow> bool" where
  "edges_wf es \<longleftrightarrow> twf (fst es) \<and> twf (snd es)"

lemma add_wf [simp]: "edges_wf es \<Longrightarrow> edges_wf (add_plain s t es)" "edges_wf es \<Longrightarrow> edges_wf (add_conditional s t es)"
  by (cases es; simp add: edges_wf_def add_plain_def add_conditional_def add_edge_def)+

lemma fold_wf: "(\<And>x es. edges_wf es \<Longrightarrow> edges_wf (f x es)) \<Longrightarrow> edges_wf es \<Longrightarrow> edges_wf (fold f xs es)"
  by (induction xs arbitrary: es) auto

lemma default_edges_wf: "edges_wf es \<Longrightarrow> edges_wf (default_edges routed order es)"
  by (induction routed order es rule: default_edges.induct) auto

lemma source_edges_wf: "edges_wf es \<Longrightarrow> edges_wf (source_edges r s es)"
  by (auto simp: source_edges_def Let_def intro!: fold_wf add_wf)

lemma edges_of_wf: "edges_wf (edges_of order rules)"
proof -
  have "edges_wf ([], [])" by (simp add: edges_wf_def)
  then show ?thesis unfolding edges_of_def Let_def
    by (intro fold_wf[of "\<lambda>r. fold (source_edges r) (ru_sources r)"] default_edges_wf) (auto intro!: fold_wf source_edges_wf)
qed

lemma map_filter_Nil_iff: "List.map_filter f xs = [] \<longleftrightarrow> (\<forall>x \<in> set xs. f x = None)"
  by (induction xs) (auto simp: map_filter_simps split: option.splits)

lemma reach_problems_none:
  assumes "twf every"
  shows "reach_problems steps every = [] \<longleftrightarrow>
    (\<forall>s \<in> set steps. (''start'', gs_name s) \<in> (edge_rel every)\<^sup>* \<and> (gs_name s, ''end'') \<in> (edge_rel every)\<^sup>*)"
proof -
  have "edge_rel (turn_edges every []) = (edge_rel every)\<inverse>" using edge_rel_turn[OF assms, of "[]"] by simp
  then have "set (reach ''end'' (turn_edges every [])) = {x. (x, ''end'') \<in> (edge_rel every)\<^sup>*}"
    by (auto simp: set_reach rtrancl_converse)
  then show ?thesis by (auto simp: reach_problems_def Let_def map_filter_Nil_iff set_reach)
qed

lemma route_twice_none:
  "route_twice rules seen = [] \<longleftrightarrow> distinct (List.map_filter single_route rules) \<and> set (List.map_filter single_route rules) \<inter> set seen = {}"
  by (induction rules arbitrary: seen) (auto simp: map_filter_simps split: option.splits)

lemma both_ways_none:
  "both_ways rules = [] \<longleftrightarrow> (\<forall>r \<in> set rules. ru_targets r \<noteq> [] \<longrightarrow> set (ru_sources r) \<inter> set (List.map_filter single_route rules) = {})"
proof -
  have s: "sort (remdups xs) = [] \<longleftrightarrow> xs = []" for xs :: "string list"
    by (metis remdups_eq_nil_iff set_empty set_sort)
  have "(if ru_targets r = [] then [] else map f (sort (remdups (filter (\<lambda>s. s \<in> R) (ru_sources r))))) = []
      \<longleftrightarrow> (ru_targets r \<noteq> [] \<longrightarrow> set (ru_sources r) \<inter> R = {})" for r :: rule and R and f :: "string \<Rightarrow> string \<times> string"
    by (auto simp: s filter_empty_conv)
  then show ?thesis by (simp only: both_ways_def Let_def concat_eq_Nil_conv set_map ball_simps)
qed

text \<open>
  C30: the structural check is exact. It reports nothing if and only if every step is reachable
  from \<open>start\<close> and can reach \<open>end\<close>, the unconditional edges have no cycle, no step has two routes, and no step with a
  route has a plain edge too; where an unconditional cycle exists, the cycle it names is one.
\<close>

theorem structure_exact:
  "(structure_problems steps rules (edges_of order rules) = [] \<longleftrightarrow>
      (\<forall>s \<in> set steps. (''start'', gs_name s) \<in> (edge_rel (snd (edges_of order rules)))\<^sup>*
         \<and> (gs_name s, ''end'') \<in> (edge_rel (snd (edges_of order rules)))\<^sup>*)
      \<and> acyclic (edge_rel (fst (edges_of order rules)))
      \<and> distinct (List.map_filter single_route rules)
      \<and> (\<forall>r \<in> set rules. ru_targets r \<noteq> [] \<longrightarrow> set (ru_sources r) \<inter> set (List.map_filter single_route rules) = {}))
   \<and> (cycle_of (fst (edges_of order rules)) \<noteq> [] \<longrightarrow> cycle_path (fst (edges_of order rules)) (cycle_of (fst (edges_of order rules))))"
proof -
  have "cycle_problems plain = [] \<longleftrightarrow> acyclic (edge_rel plain)" for plain
    by (simp add: cycle_problems_def Let_def cycle_of_correct(2))
  then show ?thesis
    using edges_of_wf[of order rules] cycle_of_correct(1)
    by (auto simp: structure_problems_def reach_problems_none edges_wf_def route_twice_none both_ways_none)
qed

section \<open>Accepted graphs\<close>

text \<open>What a path may read at a step: declared inputs, steps of the graph, outputs that can have run, and \<open>item\<close> where it is defined.\<close>

definition may_read :: "scope \<Rightarrow> string \<Rightarrow> bool \<Rightarrow> string list \<Rightarrow> bool" where
  "may_read sc here item p \<longleftrightarrow>
     (hd p \<in> {''inputs'', ''outputs'', ''visits''} \<longrightarrow> length p > 1 \<and> p ! 1 \<noteq> [])
     \<and> (hd p = ''inputs'' \<longrightarrow> p ! 1 \<in> set (sp_inputs sc))
     \<and> (hd p \<in> {''outputs'', ''visits''} \<longrightarrow> tget (sp_steps sc) (p ! 1) \<noteq> None)
     \<and> (hd p = ''outputs'' \<longrightarrow> (p ! 1, here) \<in> (edge_rel (sp_every sc))\<^sup>*)
     \<and> (hd p = ''item'' \<longrightarrow> item)"

lemma path_problem_none: "path_problem sc here item p = None \<longleftrightarrow> may_read sc here item p"
  by (auto simp: path_problem_def may_read_def Let_def set_reach)

definition source_ok :: "(string \<Rightarrow> string + pynode) \<Rightarrow> scope \<Rightarrow> string \<Rightarrow> bool \<Rightarrow> string \<Rightarrow> bool" where
  "source_ok pp sc here item source \<longleftrightarrow>
     (\<exists>tree. parse pp source = Inr tree \<and> (\<forall>p \<in> set (references_of tree). may_read sc here item p))"

lemma check_source_none: "check_source pp sc loc here item source = [] \<longleftrightarrow> source_ok pp sc here item source"
  by (cases "parse pp source") (auto simp: check_source_def source_ok_def map_filter_Nil_iff path_problem_none)

lemma check_text_none:
  "check_text pp sc owner key loc here item = [] \<longleftrightarrow>
     (\<forall>s. text_of (jget owner key) = Some s \<longrightarrow> (\<forall>h \<in> set (holes s). source_ok pp sc here item h))"
  by (auto simp: check_text_def check_source_none split: option.splits)

lemma rule_problems_none:
  "rule_problems pp sc r = [] \<longleftrightarrow> (\<forall>b \<in> set (ru_routes r). \<forall>w. br_when b = Some w \<longrightarrow> length (ru_sources r) = 1 \<longrightarrow>
     source_ok pp sc (hd (ru_sources r)) False w)"
  by (auto simp: rule_problems_def check_source_none split: option.splits)

lemma steps_of_none:
  assumes "steps_of ss t = ([], t')"
  shows "t' = t @ map (\<lambda>s. (gs_name s, s)) ss \<and> distinct (map gs_name ss) \<and> (\<forall>s \<in> set ss. gs_name s \<notin> set RESERVED \<and> tget t (gs_name s) = None)"
  using assms
proof (induction ss arbitrary: t)
  case (Cons s ss)
  have r: "gs_name s \<notin> set RESERVED" "tget t (gs_name s) = None" "steps_of ss (t @ [(gs_name s, s)]) = ([], t')"
    using Cons.prems by (cases "steps_of ss t"; cases "tget t (gs_name s)"; simp split: if_splits)+
  note ih = Cons.IH[OF r(3)]
  have "gs_name x \<noteq> gs_name s \<and> tget t (gs_name x) = None" if "x \<in> set ss" for x
    using ih that r(2) by (auto split: option.splits if_splits)
  then have "gs_name s \<notin> gs_name ` set ss" "\<forall>x \<in> set ss. tget t (gs_name x) = None" by (metis imageE)+
  then show ?case using ih r by auto
qed simp

lemma unique_first_Nil [simp]: "unique_first xs = [] \<longleftrightarrow> xs = []"
  by (simp add: unique_first_def)

lemma known_name_in: "known_name steps source path v = (Some n, ps) \<Longrightarrow> n = (if source then ''start'' else ''end'') \<or> tget steps n \<noteq> None"
  by (auto simp: known_name_def split: option.splits if_splits)

lemma known_names_in:
  "n \<in> set (fst (known_names steps source path vs)) \<Longrightarrow> n = (if source then ''start'' else ''end'') \<or> tget steps n \<noteq> None"
proof (induction vs)
  case (Cons v vs)
  obtain name ps where k: "known_name steps source path (Some v) = (name, ps)" by (cases "known_name steps source path (Some v)")
  show ?case using Cons k known_name_in[of steps source path "Some v"] by (cases name) (auto split: prod.splits)
qed simp

lemma flow_of_known:
  "r \<in> set (fst (flow_of steps i es)) \<Longrightarrow>
     set (ru_sources r) \<subseteq> insert ''start'' (set (tkeys steps)) \<and> set (ru_targets r) \<subseteq> insert ''end'' (set (tkeys steps))"
proof (induction es arbitrary: i)
  case (Cons e es)
  have src: "set (fst (known_names steps True p vs)) \<subseteq> insert ''start'' (set (tkeys steps))" for p vs
    using known_names_in[of _ steps True p vs] by (auto simp: tget_None_iff)
  have tgt: "set (fst (known_names steps False p vs)) \<subseteq> insert ''end'' (set (tkeys steps))" for p vs
    using known_names_in[of _ steps False p vs] by (auto simp: tget_None_iff)
  have "ru_sources (fst (flow_rule steps i e)) = fst (known_names steps True (indexed ''spec.flow'' i @ ''.from'') (as_list (jget e ''from'')))"
    "ru_targets (fst (flow_rule steps i e)) = fst (known_names steps False (indexed ''spec.flow'' i @ ''.to'') (as_list (jget e ''to'')))"
    by (simp_all add: flow_rule_def Let_def split: prod.splits)
  then have "set (ru_sources (fst (flow_rule steps i e))) \<subseteq> insert ''start'' (set (tkeys steps))"
    "set (ru_targets (fst (flow_rule steps i e))) \<subseteq> insert ''end'' (set (tkeys steps))"
    using src tgt by metis+
  moreover have "r = fst (flow_rule steps i e) \<or> r \<in> set (fst (flow_of steps (Suc i) es))"
    using Cons.prems by (auto split: if_splits prod.splits)
  ultimately show ?case using Cons.IH by blast
qed simp


end
