(* ===== verification/Graph_Witnesses.thy ===== *)
theory Graph_Witnesses
  imports Graph_Properties
begin

text \<open>
  The properties of the Graph language at a graph of two steps with a loop back over a route. The
  parser of Python expressions is a table of the three expressions the graph holds.
\<close>

section \<open>A graph\<close>

definition dot :: "pynode \<Rightarrow> string \<Rightarrow> pynode" where
  "dot n a = PyNode (KAttribute a) [n, PyNode (KClass ''Load'') []]"

definition ident :: "string \<Rightarrow> pynode" where
  "ident name = PyNode (KName name) [PyNode (KClass ''Load'') []]"

definition expression :: "pynode \<Rightarrow> pynode" where
  "expression n = PyNode (KClass ''Expression'') [n]"

definition demo_parser :: "string \<Rightarrow> string + pynode" where
  "demo_parser text = (case map_of
     [(''inputs.base'', expression (dot (ident ''inputs'') ''base'')),
      (''outputs.draft.text'', expression (dot (dot (ident ''outputs'') ''draft'') ''text'')),
      (''not outputs.write.done'',
        expression (PyNode (KClass ''UnaryOp'') [PyNode (KClass ''Not'') [], dot (dot (ident ''outputs'') ''write'') ''done'']))] text of
     Some tree \<Rightarrow> Inr tree | None \<Rightarrow> Inl ''invalid syntax'')"

definition agent_step :: "string \<Rightarrow> string \<Rightarrow> json" where
  "agent_step name prompt = JObj [(''name'', JStr name), (''agent'', JObj [(''prompt'', JStr prompt)])]"

definition demo_spec :: "(string \<times> json) list" where
  "demo_spec =
     [(''inputs'', JList [JObj [(''name'', JStr ''base'')]]),
      (''plan'', JList [agent_step ''draft'' ''Draft from ${inputs.base}'']),
      (''implementation'', JList [agent_step ''write'' ''Write ${outputs.draft.text}'']),
      (''flow'', JList [JObj [(''from'', JList [JStr ''write'']),
         (''route'', JList [JObj [(''when'', JStr ''!outputs.write.done''), (''to'', JStr ''draft'')], JObj [(''to'', JStr ''end'')]])]])]"

definition demo_graph :: json where
  "demo_graph = JObj [(''spec'', JObj demo_spec)]"

definition demo_steps :: "(string, gstep) table" where
  "demo_steps = snd (steps_of (written (JObj demo_spec)) [])"

definition demo_rules :: "rule list" where
  "demo_rules = fst (flow_of demo_steps 0 (as_list (jget (JObj demo_spec) ''flow'')))"

section \<open>Witnesses\<close>

lemma demo_names: "''write'' \<in> gs_name ` set (map snd demo_steps)"
proof -
  have "map gs_name (map snd demo_steps) = [''draft'', ''write'']" by code_simp
  then show ?thesis by (metis image_set insertI1 list.set(2) insertI2)
qed

theorem structure_exact_witness:
  "structure_problems (map snd demo_steps) demo_rules (edges_of (tkeys demo_steps) demo_rules) = []
   \<and> (''start'', ''write'') \<in> (edge_rel (snd (edges_of (tkeys demo_steps) demo_rules)))\<^sup>*
   \<and> acyclic (edge_rel (fst (edges_of (tkeys demo_steps) demo_rules)))"
proof -
  have ok: "structure_problems (map snd demo_steps) demo_rules (edges_of (tkeys demo_steps) demo_rules) = []" by code_simp
  note all = structure_exact[of "map snd demo_steps" demo_rules "tkeys demo_steps", THEN conjunct1, THEN iffD1, OF ok]
  obtain s where s: "s \<in> set (map snd demo_steps)" "''write'' = gs_name s" using demo_names by (rule imageE)
  show ?thesis unfolding s(2)
    using ok all[THEN conjunct1, rule_format, OF s(1)] all[THEN conjunct2, THEN conjunct1] by blast
qed


end
