(* ===== verification/Messaging.thy ===== *)
theory Messaging
  imports Service_Errors
begin

text \<open>
  Request and reply between services (\<open>v2/packages/messaging\<close>): envelopes (\<open>envelopes.py\<close>), the
  tenant a request belongs to (\<open>tenancy.py\<close>), and the server that checks, authorizes and routes a
  request (\<open>server.py\<close>). JSON Schema validation is a library over the contract files; its
  violations are the parameter \<open>ct_violations\<close>, and \<open>repr\<close> of a JSON value is \<open>ct_repr\<close>. Decoding is
  done by the JSON library: a request comes in as the decoded value or the decoder's message.
  Telemetry, logging and the NATS connection's own life cycle have no part in a reply.
\<close>

section \<open>Subjects as text\<close>

text \<open>\<open>str.split\<close> at a character, \<open>str.partition\<close> at its first occurrence, and \<open>str.removeprefix\<close>.\<close>

fun split_on :: "char \<Rightarrow> string \<Rightarrow> string list" where
  "split_on c [] = [[]]"
| "split_on c (x # xs) =
     (if x = c then [] # split_on c xs
      else case split_on c xs of p # ps \<Rightarrow> (x # p) # ps | [] \<Rightarrow> [[x]])"

definition partition_at :: "char \<Rightarrow> string \<Rightarrow> string \<times> string" where
  "partition_at c s = (takeWhile (\<lambda>x. x \<noteq> c) s, drop 1 (dropWhile (\<lambda>x. x \<noteq> c) s))"

definition removeprefix :: "string \<Rightarrow> string \<Rightarrow> string" where
  "removeprefix p s = (if take (length p) s = p then drop (length p) s else s)"

abbreviation tokens_of :: "string \<Rightarrow> string list" where
  "tokens_of \<equiv> split_on (CHR ''.'')"

abbreviation subject_of :: "string list \<Rightarrow> string" where
  "subject_of \<equiv> join_with ''.''"

section \<open>Envelopes\<close>

record contracts =
  ct_violations :: "string \<Rightarrow> json \<Rightarrow> (string \<times> string) list"
  ct_repr :: "json \<Rightarrow> string"

definition COMMAND :: string where "COMMAND = ''common/v1/command.schema.json''"
definition QUERY :: string where "QUERY = ''common/v1/query.schema.json''"
definition TYPES :: string where "TYPES = ''common/v1/types.schema.json''"

definition MAX_CAUSAL_PATH :: nat where "MAX_CAUSAL_PATH = 32"

text \<open>Python's \<open>==\<close> on decoded JSON: true is 1, an integral float is its integer, and objects have no order.\<close>

fun py_norm :: "json \<Rightarrow> json" where
  "py_norm (JBool b) = JInt (if b then 1 else 0)"
| "py_norm (JFloat r) = (if of_int \<lfloor>r\<rfloor> = r then JInt \<lfloor>r\<rfloor> else JFloat r)"
| "py_norm (JList xs) = JList (map py_norm xs)"
| "py_norm (JObj kvs) = JObj (sort_key fst (map (\<lambda>(k, v). (k, py_norm v)) kvs))"
| "py_norm v = v"

definition py_eq :: "json \<Rightarrow> json \<Rightarrow> bool" where
  "py_eq a b \<longleftrightarrow> py_norm a = py_norm b"

text \<open>\<open>body.get(key)\<close>, None where it is missing.\<close>

definition jget_none :: "json \<Rightarrow> string \<Rightarrow> json" where
  "jget_none body k = (case jget body k of Some v \<Rightarrow> v | None \<Rightarrow> JNull)"

definition causal_violations :: "contracts \<Rightarrow> string \<Rightarrow> json \<Rightarrow> (string \<times> string) list" where
  "causal_violations ct reference body =
     (if reference \<noteq> COMMAND then [] else case body of
        JObj kvs \<Rightarrow> (case jget_none body ''causal_path'' of
            JList path \<Rightarrow> if path \<noteq> [] \<and> \<not> py_eq (last path) (jget_none body ''command_id'')
              then [(''/causal_path'', ''must end with the command_id '' @ ct_repr ct (jget_none body ''command_id''))] else []
          | _ \<Rightarrow> [])
      | _ \<Rightarrow> [])"

text \<open>\<open>check\<close>: the error it raises, if any.\<close>

definition envelope_check :: "contracts \<Rightarrow> string \<Rightarrow> json \<Rightarrow> svc_error option" where
  "envelope_check ct reference body =
     (let found = ct_violations ct reference body @ causal_violations ct reference body in
      if found = [] then None else Some (invalid_argument found))"

definition new_id :: "string \<Rightarrow> string \<Rightarrow> string" where
  "new_id prefix uuid = prefix @ ''_'' @ uuid"

definition query_envelope :: "contracts \<Rightarrow> string \<Rightarrow> json option \<Rightarrow> string option \<Rightarrow> svc_error + json" where
  "query_envelope ct uuid params request_id =
     (let body = JObj [(''request_id'', JStr (case request_id of Some (c # cs) \<Rightarrow> c # cs | _ \<Rightarrow> new_id ''req'' uuid)),
                       (''params'', case params of Some p \<Rightarrow> p | None \<Rightarrow> JObj [])] in
      case envelope_check ct QUERY body of Some e \<Rightarrow> Inl e | None \<Rightarrow> Inr body)"

definition command_envelope ::
  "contracts \<Rightarrow> string \<Rightarrow> json \<Rightarrow> string option \<Rightarrow> string list option \<Rightarrow> int option \<Rightarrow> string option \<Rightarrow> svc_error + json" where
  "command_envelope ct uuid payload command_id caused_by expected_version deadline_at =
     (let cid = (case command_id of Some (c # cs) \<Rightarrow> c # cs | _ \<Rightarrow> new_id ''cmd'' uuid);
          path = (case caused_by of None \<Rightarrow> [] | Some p \<Rightarrow> p) @ [cid] in
      if length path > MAX_CAUSAL_PATH
      then Inl (service_error CAUSAL_PATH_TOO_LONG
             (''a causal path of '' @ show_nat (length path) @ '' elements exceeds '' @ show_nat MAX_CAUSAL_PATH)
             (Some [(''max_length'', JInt (int MAX_CAUSAL_PATH)), (''length'', JInt (int (length path)))]))
      else
        (let body = JObj ([(''command_id'', JStr cid), (''causal_path'', JList (map JStr path)), (''payload'', payload)]
               @ (case expected_version of Some v \<Rightarrow> [(''expected_version'', JInt v)] | None \<Rightarrow> [])
               @ (case deadline_at of Some d \<Rightarrow> [(''deadline_at'', JStr d)] | None \<Rightarrow> [])) in
         case envelope_check ct COMMAND body of Some e \<Rightarrow> Inl e | None \<Rightarrow> Inr body))"

section \<open>Tenancy\<close>

definition LOCAL_TENANT :: string where "LOCAL_TENANT = ''00000000-0000-7000-8000-000000000001''"

definition ACCOUNT_POSITION :: nat where "ACCOUNT_POSITION = 2"

datatype tenancy_error = NotATenantId string | NilTenantId | NotAnAccount string | NotAnOeSubject string

definition type_ref :: "string \<Rightarrow> string" where
  "type_ref name = TYPES @ ''#/$defs/'' @ name"

definition check_tenant_id :: "contracts \<Rightarrow> string \<Rightarrow> tenancy_error + string" where
  "check_tenant_id ct tenant_id = (case ct_violations ct (type_ref ''tenant_id'') (JStr tenant_id) of
     (_, description) # _ \<Rightarrow> Inl (NotATenantId description)
   | [] \<Rightarrow> if set tenant_id \<subseteq> set ''0-'' then Inl NilTenantId else Inr tenant_id)"

definition check_account :: "contracts \<Rightarrow> string \<Rightarrow> tenancy_error + string" where
  "check_account ct account = (case ct_violations ct (type_ref ''account'') (JStr account) of
     (_, description) # _ \<Rightarrow> Inl (NotAnAccount description) | [] \<Rightarrow> Inr account)"

definition is_account :: "contracts \<Rightarrow> string \<Rightarrow> bool" where
  "is_account ct token \<longleftrightarrow> ct_violations ct (type_ref ''account'') (JStr token) = []"

record principal =
  pr_tenant_id :: string
  pr_account :: "string option"

definition new_principal :: "contracts \<Rightarrow> string \<Rightarrow> string option \<Rightarrow> tenancy_error + principal" where
  "new_principal ct tenant_id account =
     sbind (check_tenant_id ct tenant_id) (\<lambda>_.
     sbind (case account of None \<Rightarrow> Inr [] | Some a \<Rightarrow> check_account ct a) (\<lambda>_.
     Inr \<lparr>pr_tenant_id = tenant_id, pr_account = account\<rparr>))"

definition LOCAL_PRINCIPAL :: principal where
  "LOCAL_PRINCIPAL = \<lparr>pr_tenant_id = LOCAL_TENANT, pr_account = None\<rparr>"

text \<open>What a handler or a port may raise: an error to reply with, or anything else.\<close>

datatype fault = ServiceFault svc_error | OtherFault

text \<open>
  \<open>CachedResolver\<close>: the tenants found so far are its state, \<open>inner\<close> what the inner resolver answers
  at this time.
\<close>

type_synonym resolver_cache = "(string, string) table"

definition cached_resolve ::
  "contracts \<Rightarrow> (string \<Rightarrow> fault + string option) \<Rightarrow> string \<Rightarrow> resolver_cache \<Rightarrow> (fault + string option) \<times> resolver_cache" where
  "cached_resolve ct inner account tenants = (case tget tenants account of
     Some t \<Rightarrow> (Inr (Some t), tenants)
   | None \<Rightarrow> (case inner account of
       Inl e \<Rightarrow> (Inl e, tenants)
     | Inr None \<Rightarrow> (Inr None, tenants)
     | Inr (Some found) \<Rightarrow> (case check_tenant_id ct found of
         Inl _ \<Rightarrow> (Inl OtherFault, tenants)
       | Inr t \<Rightarrow> (Inr (Some t), tput account t tenants))))"

datatype tenancy = Dedicated string | Shared

definition with_third_token :: "string \<Rightarrow> string \<Rightarrow> tenancy_error + string" where
  "with_third_token subject token = (let tokens = tokens_of subject in
     if take ACCOUNT_POSITION tokens \<noteq> [''oe'', ''v1''] \<or> length tokens \<le> ACCOUNT_POSITION then Inl (NotAnOeSubject subject)
     else Inr (subject_of (take ACCOUNT_POSITION tokens @ [token] @ drop ACCOUNT_POSITION tokens)))"

definition shared_subject :: "string \<Rightarrow> string \<Rightarrow> tenancy_error + string" where
  "shared_subject subject account = with_third_token subject account"

definition subject_template :: "string \<Rightarrow> tenancy_error + string" where
  "subject_template subject = with_third_token subject ''{account}''"

section \<open>Requests and routes\<close>

record msg_request =
  mr_subject :: string
  mr_kind :: string
  mr_operation :: string
  mr_body :: json
  mr_listener :: string
  mr_parameters :: "(string, string) table"
  mr_principal :: "principal option"

record 's route =
  rt_handler :: "msg_request \<Rightarrow> 's \<Rightarrow> (fault + json) \<times> 's"
  rt_schema :: "string option"
  rt_receipts :: bool

record 's server =
  sv_service :: string
  sv_listener :: string
  sv_queries :: "(string \<times> 's route) list"
  sv_commands :: "(string \<times> 's route) list"
  sv_authorize :: "msg_request \<Rightarrow> fault + principal"
  sv_tenancy :: tenancy

text \<open>What the NATS connection says of itself: whether it is connected or draining, and the server's INFO.\<close>

record nats_info =
  ni_open :: bool
  ni_host :: string
  ni_port :: string

definition listen_address :: "nats_info \<Rightarrow> string" where
  "listen_address n = ''nats://'' @ (if CHR '':'' \<in> set (ni_host n) then ''['' @ ni_host n @ '']'' else ni_host n) @ '':'' @ ni_port n"

text \<open>\<open>LocalOperator\<close>. The host name of a URL and whether a literal address is a loopback one are the URL and address libraries'.\<close>

definition is_loopback :: "(string \<Rightarrow> bool) \<Rightarrow> string option \<Rightarrow> bool" where
  "is_loopback ip_loopback host = (case host of None \<Rightarrow> False | Some h \<Rightarrow> h = ''localhost'' \<or> ip_loopback h)"

definition local_authorize :: "(string \<Rightarrow> string option) \<Rightarrow> (string \<Rightarrow> bool) \<Rightarrow> msg_request \<Rightarrow> fault + principal" where
  "local_authorize hostname ip_loopback rq =
     (if \<not> is_loopback ip_loopback (hostname (mr_listener rq))
      then Inl (ServiceFault (service_error PERMISSION_DENIED
             (''local-operator mode serves loopback requests only, not ones through '' @ mr_listener rq)
             (Some [(''permission'', JStr (mr_kind rq @ ''.'' @ mr_operation rq))])))
      else Inr (case mr_principal rq of Some p \<Rightarrow> p | None \<Rightarrow> LOCAL_PRINCIPAL))"

definition server_subjects :: "'s server \<Rightarrow> string list" where
  "server_subjects sv = (let service = (if sv_tenancy sv = Shared then ''*.'' @ sv_service sv else sv_service sv) in
     [''oe.v1.'' @ service @ ''.query.>'', ''oe.v1.'' @ service @ ''.control.>''])"

text \<open>\<open>_split\<close>; None is the IndexError of a subject too short to hold an account.\<close>

definition split_subject :: "'s server \<Rightarrow> string \<Rightarrow> (string option \<times> string \<times> string) option" where
  "split_subject sv subject =
     (let tokens = tokens_of subject;
          rest = (\<lambda>ts. partition_at (CHR ''.'') (removeprefix (''oe.v1.'' @ sv_service sv @ ''.'') (subject_of ts))) in
      if sv_tenancy sv = Shared
      then (if length tokens > ACCOUNT_POSITION
            then Some (Some (tokens ! ACCOUNT_POSITION), rest (take ACCOUNT_POSITION tokens @ drop (Suc ACCOUNT_POSITION) tokens))
            else None)
      else Some (None, rest tokens))"

definition account_denied :: "string \<Rightarrow> string \<Rightarrow> svc_error" where
  "account_denied kind operation = service_error PERMISSION_DENIED ''the request's account does not belong to any tenant''
     (Some [(''permission'', JStr (kind @ ''.'' @ operation))])"

definition as_fault :: "tenancy_error + 'a \<Rightarrow> fault + 'a" where
  "as_fault x = map_sum (\<lambda>_. OtherFault) id x"

definition derive_principal ::
  "contracts \<Rightarrow> (string \<Rightarrow> fault + string option) \<Rightarrow> 's server \<Rightarrow> string option \<Rightarrow> string \<Rightarrow> string \<Rightarrow> resolver_cache
     \<Rightarrow> (fault + principal) \<times> resolver_cache" where
  "derive_principal ct inner sv account kind operation cache = (case sv_tenancy sv of
     Dedicated tenant_id \<Rightarrow> (as_fault (new_principal ct tenant_id None), cache)
   | Shared \<Rightarrow> (case account of
       None \<Rightarrow> (Inl OtherFault, cache)
     | Some a \<Rightarrow>
         (case (if is_account ct a then cached_resolve ct inner a cache else (Inr None, cache)) of
            (Inl e, cache') \<Rightarrow> (Inl e, cache')
          | (Inr None, cache') \<Rightarrow> (Inl (ServiceFault (account_denied kind operation)), cache')
          | (Inr (Some t), cache') \<Rightarrow> (as_fault (new_principal ct t (Some a)), cache'))))"

definition parameter_name :: "string \<Rightarrow> bool" where
  "parameter_name name \<longleftrightarrow> name \<noteq> [] \<and> hd name = CHR 0x7B \<and> last name = CHR 0x7D"

fun match_tokens :: "string list \<Rightarrow> string list \<Rightarrow> (string, string) table \<Rightarrow> (string, string) table option" where
  "match_tokens (name # names) (token # tokens) parameters =
     (if parameter_name name then match_tokens names tokens (tput (butlast (tl name)) token parameters)
      else if name \<noteq> token then None else match_tokens names tokens parameters)"
| "match_tokens [] [] parameters = Some parameters"
| "match_tokens _ _ parameters = None"

definition match_key :: "string \<Rightarrow> string \<Rightarrow> (string, string) table option" where
  "match_key key operation =
     (if length (tokens_of key) \<noteq> length (tokens_of operation) then None
      else match_tokens (tokens_of key) (tokens_of operation) [])"

definition keeps_receipt :: "contracts \<Rightarrow> 's server \<Rightarrow> string \<Rightarrow> string \<Rightarrow> json \<Rightarrow> bool" where
  "keeps_receipt ct sv kind operation body \<longleftrightarrow> kind = ''control'' \<and> (case jget body ''command_id'' of
     None \<Rightarrow> False
   | Some cid \<Rightarrow> ct_violations ct (type_ref ''command_id'') cid = []
       \<and> (\<exists>(key, r) \<in> set (sv_commands sv). rt_receipts r \<and> match_key key operation \<noteq> None))"

fun find_route ::
  "contracts \<Rightarrow> 's server \<Rightarrow> string \<Rightarrow> string \<Rightarrow> string \<Rightarrow> (string \<times> 's route) list \<Rightarrow> svc_error + 's route \<times> (string, string) table" where
  "find_route ct sv subject kind operation ((key, r) # rs) = (case match_key key operation of
     Some parameters \<Rightarrow>
       (let found = concat (map (\<lambda>(name, v). map (\<lambda>(_, d). (''subject.'' @ name, d)) (ct_violations ct (type_ref name) (JStr v))) parameters) in
        if found \<noteq> [] then Inl (invalid_argument found) else Inr (r, parameters))
   | None \<Rightarrow> find_route ct sv subject kind operation rs)"
| "find_route ct sv subject kind operation [] = Inl (service_error UNSUPPORTED_CAPABILITY (sv_service sv @ '' does not serve '' @ subject)
     (Some [(''capability'', JStr (kind @ ''.'' @ operation))]))"

section \<open>Replies\<close>

definition is_token :: "contracts \<Rightarrow> json option \<Rightarrow> bool" where
  "is_token ct v = (case v of Some (JStr s) \<Rightarrow> ct_violations ct (type_ref ''token'') (JStr s) = [] | _ \<Rightarrow> False)"

definition query_reply :: "contracts \<Rightarrow> json \<Rightarrow> (string \<times> json) list \<Rightarrow> json" where
  "query_reply ct body rest = JObj ((case jget body ''request_id'' of
     Some v \<Rightarrow> if is_token ct (Some v) then [(''request_id'', v)] else [] | None \<Rightarrow> []) @ rest)"

definition error_reply :: "contracts \<Rightarrow> string \<Rightarrow> json \<Rightarrow> svc_error \<Rightarrow> json" where
  "error_reply ct kind body e =
     (if kind \<noteq> ''control'' then query_reply ct body [(''status'', JStr ''error''), (''error'', error_json e)]
      else JObj [(''command_id'', case jget body ''command_id'' of
              Some v \<Rightarrow> if is_token ct (Some v) then v else JStr ''unknown'' | None \<Rightarrow> JStr ''unknown''),
            (''status'', JStr ''rejected''), (''error'', error_json e)])"

section \<open>Handling a request\<close>

text \<open>
  Everything \<open>handle\<close> does before it calls the route's handler: the request the handler gets, or
  what was raised. \<open>nats\<close> is None for a server without a connection.
\<close>

definition request_listener :: "'s server \<Rightarrow> nats_info option \<Rightarrow> string" where
  "request_listener sv nats = (case nats of None \<Rightarrow> sv_listener sv | Some n \<Rightarrow> if ni_open n then listen_address n else [])"

definition check_fault :: "svc_error option \<Rightarrow> fault + unit" where
  "check_fault e = (case e of None \<Rightarrow> Inr () | Some x \<Rightarrow> Inl (ServiceFault x))"

definition admit_request ::
  "contracts \<Rightarrow> 's server \<Rightarrow> nats_info option \<Rightarrow> string \<Rightarrow> string \<Rightarrow> string \<Rightarrow> json \<Rightarrow> principal \<Rightarrow> fault + 's route \<times> msg_request" where
  "admit_request ct sv nats subject kind operation body p =
     sbind (if keeps_receipt ct sv kind operation body then Inr ()
            else check_fault (envelope_check ct (if kind = ''control'' then COMMAND else QUERY) body)) (\<lambda>_.
     let rq = \<lparr>mr_subject = subject, mr_kind = kind, mr_operation = operation, mr_body = body,
               mr_listener = request_listener sv nats, mr_parameters = [], mr_principal = Some p\<rparr> in
     sbind (sv_authorize sv rq) (\<lambda>q.
     sbind (map_sum ServiceFault id (find_route ct sv subject kind operation (if kind = ''control'' then sv_commands sv else sv_queries sv)))
       (\<lambda>(r, parameters).
     sbind (case rt_schema r of Some (c # cs) \<Rightarrow> check_fault (envelope_check ct (c # cs) body) | _ \<Rightarrow> Inr ()) (\<lambda>_.
     Inr (r, rq\<lparr>mr_principal := Some q, mr_parameters := parameters\<rparr>)))))"

definition fault_error :: "fault \<Rightarrow> svc_error" where
  "fault_error f = (case f of ServiceFault e \<Rightarrow> e | OtherFault \<Rightarrow> service_error INTERNAL ''unexpected service fault'' None)"

definition run_route :: "contracts \<Rightarrow> string \<Rightarrow> json \<Rightarrow> 's route \<times> msg_request \<Rightarrow> 's \<Rightarrow> json \<times> 's" where
  "run_route ct kind body p st = (case p of (r, rq) \<Rightarrow> (case rt_handler r rq st of
     (Inl f, st') \<Rightarrow> (error_reply ct kind body (fault_error f), st')
   | (Inr result, st') \<Rightarrow>
       (if kind = ''control'' then result else query_reply ct body [(''status'', JStr ''ok''), (''result'', result)], st')))"

definition handle ::
  "contracts \<Rightarrow> (string \<Rightarrow> fault + string option) \<Rightarrow> 's server \<Rightarrow> nats_info option \<Rightarrow> string \<Rightarrow> string + json
     \<Rightarrow> resolver_cache \<times> 's \<Rightarrow> (json \<times> resolver_cache \<times> 's) option" where
  "handle ct inner sv nats subject data state = (case state of (cache, st) \<Rightarrow> (case split_subject sv subject of
     None \<Rightarrow> None
   | Some (account, kind, operation) \<Rightarrow> Some (case data of
       Inl msg \<Rightarrow> (error_reply ct kind JNull (invalid_argument [(''/'', ''not JSON: '' @ msg)]), cache, st)
     | Inr body \<Rightarrow> (case derive_principal ct inner sv account kind operation cache of
         (Inl f, cache') \<Rightarrow> (error_reply ct kind body (fault_error f), cache', st)
       | (Inr p, cache') \<Rightarrow> (case admit_request ct sv nats subject kind operation body p of
           Inl f \<Rightarrow> (error_reply ct kind body (fault_error f), cache', st)
         | Inr admitted \<Rightarrow> (case run_route ct kind body admitted st of (reply, st') \<Rightarrow> (reply, cache', st')))))))"

end
