(* ===== verification/Graph_Store.thy ===== *)
theory Graph_Store
  imports Service_Errors "HOL-Library.Product_Lexorder"
begin

text \<open>
  The graph engine's store (\<open>v2/services/graph_engine/persistence\<close>: \<open>store.py\<close>, \<open>schema.py\<close> and
  \<open>sqlite/__init__.py\<close>). The tables are keyed by tenant first. A writer holds the lock and the
  immediate transaction from its first read, so an operation is one function of the database, and an
  exception rolls it back. Instants are microseconds; the clock reading and the drawn UUIDs are
  arguments; SHA-256 is the parameter \<open>sha\<close>. A receipt holds the response as a value; the code
  keeps its JSON form and reads it back.
\<close>

section \<open>Rows\<close>

record ge_graph =
  gg_graph_id :: string
  gg_project :: string
  gg_name :: string
  gg_description :: "string option"
  gg_latest_revision :: nat
  gg_created_at :: int
  gg_updated_at :: int

record graph_revision =
  gr_graph_id :: string
  gr_revision :: nat
  gr_format :: string
  gr_source :: string
  gr_source_sha256 :: string
  gr_created_at :: int

record ge_operation =
  go_operation_id :: string
  go_project :: string
  go_command_id :: string
  go_operation :: string
  go_status :: string
  go_resources :: json
  go_result :: "json option"
  go_error :: "json option"
  go_created_at :: int
  go_updated_at :: int

record ge_command =
  gc_project :: string
  gc_command_id :: string
  gc_subject :: string
  gc_fingerprint :: string

record graph_definition =
  gd_name :: string
  gd_description :: "string option"
  gd_format :: string
  gd_source :: string

datatype ge_response =
    AcceptedGraph (resp_command_id: string) (resp_operation_id: string) (resp_resource_id: string)
  | RejectedGraph (resp_command_id: string) (resp_error: svc_error)

record ge_receipt =
  gt_subject :: string
  gt_fingerprint :: string
  gt_response :: ge_response
  gt_created_at :: int

record ge_db =
  g_graphs :: "(string \<times> string, ge_graph) table"
  g_revisions :: "(string \<times> string \<times> nat, graph_revision) table"
  g_operations :: "(string \<times> string, ge_operation) table"
  g_receipts :: "(string \<times> string \<times> string, ge_receipt) table"

definition empty_ge_db :: ge_db where
  "empty_ge_db = \<lparr>g_graphs = [], g_revisions = [], g_operations = [], g_receipts = []\<rparr>"

datatype store_exn =
    CommandIdConflict string string "string option"
  | VersionConflict json "nat option"
  | DeadlineExceeded int int
  | IntegrityError

section \<open>Receipts\<close>

fun response_operation :: "ge_response \<Rightarrow> string option" where
  "response_operation (AcceptedGraph _ op _) = Some op"
| "response_operation (RejectedGraph _ _) = None"

text \<open>\<open>_receipt\<close> and \<open>_record\<close>, for the tenant of the connection.\<close>

definition receipt_of :: "string \<Rightarrow> ge_command \<Rightarrow> ge_db \<Rightarrow> store_exn + ge_response option" where
  "receipt_of tenant c db = (case tget (g_receipts db) (tenant, gc_project c, gc_command_id c) of
     None \<Rightarrow> Inr None
   | Some r \<Rightarrow> if gt_fingerprint r \<noteq> gc_fingerprint c
       then Inl (CommandIdConflict (gc_command_id c) (gt_subject r) (response_operation (gt_response r)))
       else Inr (Some (gt_response r)))"

definition receipt_row :: "ge_command \<Rightarrow> ge_response \<Rightarrow> int \<Rightarrow> ge_receipt" where
  "receipt_row c response now =
     \<lparr>gt_subject = gc_subject c, gt_fingerprint = gc_fingerprint c, gt_response = response, gt_created_at = now\<rparr>"

definition record_receipt :: "string \<Rightarrow> ge_command \<Rightarrow> ge_response \<Rightarrow> int \<Rightarrow> ge_db \<Rightarrow> store_exn + ge_db" where
  "record_receipt tenant c response now db =
     (case tinsert (tenant, gc_project c, gc_command_id c) (receipt_row c response now) (g_receipts db) of
        None \<Rightarrow> Inl IntegrityError | Some t \<Rightarrow> Inr (db\<lparr>g_receipts := t\<rparr>))"

section \<open>Writing\<close>

definition graph_named :: "string \<Rightarrow> string \<Rightarrow> string \<Rightarrow> ge_db \<Rightarrow> ge_graph option" where
  "graph_named tenant project name db =
     map_option snd (List.find (\<lambda>((t, _), g). t = tenant \<and> gg_project g = project \<and> gg_name g = name) (g_graphs db))"

text \<open>\<open>graph.latest_revision != expected_version\<close>, where the wire may hold an integral float.\<close>

fun is_number :: "json \<Rightarrow> nat \<Rightarrow> bool" where
  "is_number (JInt i) n = (i = int n)"
| "is_number (JFloat r) n = (r = of_nat n)"
| "is_number _ n = False"

definition stale_version :: "json option \<Rightarrow> ge_graph option \<Rightarrow> bool" where
  "stale_version expected g = (case expected of
     None \<Rightarrow> False
   | Some v \<Rightarrow> (case g of None \<Rightarrow> True | Some g \<Rightarrow> \<not> is_number v (gg_latest_revision g)))"

definition latest_digest :: "string \<Rightarrow> ge_graph option \<Rightarrow> ge_db \<Rightarrow> string option" where
  "latest_digest tenant g db = (case g of
     None \<Rightarrow> None
   | Some g \<Rightarrow> map_option gr_source_sha256 (tget (g_revisions db) (tenant, gg_graph_id g, gg_latest_revision g)))"

definition ge_id :: "string \<Rightarrow> string \<Rightarrow> string" where
  "ge_id prefix uuid = prefix @ ''_'' @ uuid"

definition graph_row :: "ge_command \<Rightarrow> graph_definition \<Rightarrow> int \<Rightarrow> string \<Rightarrow> ge_graph" where
  "graph_row c d now gid = \<lparr>gg_graph_id = gid, gg_project = gc_project c, gg_name = gd_name d, gg_description = gd_description d,
     gg_latest_revision = 1, gg_created_at = now, gg_updated_at = now\<rparr>"

text \<open>The graph's row: inserted at revision 1, moved on to the next revision, or left as it is.\<close>

definition write_graph ::
  "string \<Rightarrow> ge_command \<Rightarrow> graph_definition \<Rightarrow> ge_graph option \<Rightarrow> bool \<Rightarrow> int \<Rightarrow> string \<Rightarrow> ge_db \<Rightarrow> store_exn + (string \<times> nat) \<times> ge_db" where
  "write_graph tenant c d g created now uuid db = (case g of
     None \<Rightarrow>
       (let gid = ge_id ''graph'' uuid in
        case tinsert (tenant, gid) (graph_row c d now gid) (g_graphs db) of
          None \<Rightarrow> Inl IntegrityError | Some t \<Rightarrow> Inr ((gid, 1), db\<lparr>g_graphs := t\<rparr>))
   | Some g \<Rightarrow>
       if created then
         (let revision = gg_latest_revision g + 1 in
          Inr ((gg_graph_id g, revision), db\<lparr>g_graphs := tput (tenant, gg_graph_id g)
            (g\<lparr>gg_description := gd_description d, gg_latest_revision := revision, gg_updated_at := now\<rparr>) (g_graphs db)\<rparr>))
       else Inr ((gg_graph_id g, gg_latest_revision g), db))"

definition revision_row :: "(string \<Rightarrow> string) \<Rightarrow> graph_definition \<Rightarrow> int \<Rightarrow> string \<Rightarrow> nat \<Rightarrow> graph_revision" where
  "revision_row sha d now gid revision = \<lparr>gr_graph_id = gid, gr_revision = revision, gr_format = gd_format d, gr_source = gd_source d,
     gr_source_sha256 = sha (gd_source d), gr_created_at = now\<rparr>"

definition write_revision ::
  "(string \<Rightarrow> string) \<Rightarrow> string \<Rightarrow> graph_definition \<Rightarrow> string \<times> nat \<Rightarrow> bool \<Rightarrow> int \<Rightarrow> ge_db \<Rightarrow> store_exn + ge_db" where
  "write_revision sha tenant d at_rev created now db = (case at_rev of (gid, revision) \<Rightarrow>
     if \<not> created then Inr db
     else case tinsert (tenant, gid, revision) (revision_row sha d now gid revision) (g_revisions db) of
       None \<Rightarrow> Inl IntegrityError | Some t \<Rightarrow> Inr (db\<lparr>g_revisions := t\<rparr>))"

definition operation_row :: "ge_command \<Rightarrow> string \<times> nat \<Rightarrow> bool \<Rightarrow> int \<Rightarrow> string \<Rightarrow> ge_operation" where
  "operation_row c at_rev created now op_id = \<lparr>go_operation_id = op_id, go_project = gc_project c, go_command_id = gc_command_id c,
     go_operation = ''graphs.apply'', go_status = ''succeeded'', go_resources = JObj [(''graph_id'', JStr (fst at_rev))],
     go_result = Some (JObj [(''graph'', JObj [(''graph_id'', JStr (fst at_rev)), (''revision'', JInt (int (snd at_rev)))]), (''created'', JBool created)]),
     go_error = None, go_created_at = now, go_updated_at = now\<rparr>"

text \<open>An operation's insert also fails on the unique key of its project and command ID.\<close>

definition write_operation :: "string \<Rightarrow> ge_command \<Rightarrow> string \<times> nat \<Rightarrow> bool \<Rightarrow> int \<Rightarrow> string \<Rightarrow> ge_db \<Rightarrow> store_exn + ge_db" where
  "write_operation tenant c at_rev created now op_id db =
     (if \<exists>((t, _), x) \<in> set (g_operations db). t = tenant \<and> go_project x = gc_project c \<and> go_command_id x = gc_command_id c
      then Inl IntegrityError
      else case tinsert (tenant, op_id) (operation_row c at_rev created now op_id) (g_operations db) of
        None \<Rightarrow> Inl IntegrityError | Some t \<Rightarrow> Inr (db\<lparr>g_operations := t\<rparr>))"

text \<open>
  What one command reads from its surroundings: the clock when its reply's size is taken, when
  the store accepts it and when it is rejected, and two UUIDs.
\<close>

record ge_draw =
  gw_sized :: int
  gw_now :: int
  gw_rejected :: int
  gw_graph :: string
  gw_op :: string

definition accept_graph ::
  "(string \<Rightarrow> string) \<Rightarrow> string \<Rightarrow> ge_command \<Rightarrow> graph_definition \<Rightarrow> json option \<Rightarrow> int option \<Rightarrow> ge_draw \<Rightarrow> ge_db
     \<Rightarrow> store_exn + ge_response \<times> ge_db" where
  "accept_graph sha tenant c d expected deadline w db =
     (let now = gw_now w; g = graph_named tenant (gc_project c) (gd_name d) db in
      if (case deadline of Some t \<Rightarrow> t < now | None \<Rightarrow> False)
      then Inl (DeadlineExceeded (case deadline of Some t \<Rightarrow> t | None \<Rightarrow> now) now)
      else if stale_version expected g
      then Inl (VersionConflict (case expected of Some v \<Rightarrow> v | None \<Rightarrow> JNull) (map_option gg_latest_revision g))
      else
        (let created = latest_digest tenant g db \<noteq> Some (sha (gd_source d)); op_id = ge_id ''op'' (gw_op w) in
         sbind (write_graph tenant c d g created now (gw_graph w) db) (\<lambda>(at_rev, db1).
         sbind (write_revision sha tenant d at_rev created now db1) (\<lambda>db2.
         sbind (write_operation tenant c at_rev created now op_id db2) (\<lambda>db3.
         let response = AcceptedGraph (gc_command_id c) op_id (fst at_rev) in
         sbind (record_receipt tenant c response now db3) (\<lambda>db4. Inr (response, db4)))))))"

definition store_apply ::
  "(string \<Rightarrow> string) \<Rightarrow> string \<Rightarrow> ge_command \<Rightarrow> graph_definition \<Rightarrow> json option \<Rightarrow> int option \<Rightarrow> ge_draw \<Rightarrow> ge_db
     \<Rightarrow> (store_exn + ge_response) \<times> ge_db" where
  "store_apply sha tenant c d expected deadline w = run_tx (\<lambda>db.
     sbind (receipt_of tenant c db) (\<lambda>r. case r of
       Some response \<Rightarrow> Inr (response, db)
     | None \<Rightarrow> accept_graph sha tenant c d expected deadline w db))"

definition store_reject :: "string \<Rightarrow> ge_command \<Rightarrow> ge_response \<Rightarrow> int \<Rightarrow> ge_db \<Rightarrow> (store_exn + ge_response) \<times> ge_db" where
  "store_reject tenant c response now = run_tx (\<lambda>db.
     sbind (receipt_of tenant c db) (\<lambda>r. case r of
       Some kept \<Rightarrow> Inr (kept, db)
     | None \<Rightarrow> sbind (record_receipt tenant c response now db) (\<lambda>db'. Inr (response, db'))))"

section \<open>Reading\<close>

definition store_graph :: "string \<Rightarrow> string \<Rightarrow> ge_db \<Rightarrow> ge_graph option" where
  "store_graph tenant gid db = tget (g_graphs db) (tenant, gid)"

definition graph_key :: "ge_graph \<Rightarrow> string \<times> string" where
  "graph_key g = (gg_name g, gg_graph_id g)"

definition store_graphs ::
  "string \<Rightarrow> string \<Rightarrow> nat \<Rightarrow> string option \<Rightarrow> (string \<times> string) option \<Rightarrow> ge_db \<Rightarrow> ge_graph list" where
  "store_graphs tenant project limit name_prefix after db =
     take limit (sort_key graph_key (map snd (filter (\<lambda>((t, _), g). t = tenant \<and> gg_project g = project
       \<and> (case name_prefix of None \<Rightarrow> True | Some p \<Rightarrow> take (length p) (gg_name g) = p)
       \<and> (case after of None \<Rightarrow> True | Some (n, i) \<Rightarrow> gg_name g > n \<or> gg_name g = n \<and> gg_graph_id g > i)) (g_graphs db))))"

definition store_revision :: "string \<Rightarrow> string \<Rightarrow> json \<Rightarrow> ge_db \<Rightarrow> graph_revision option" where
  "store_revision tenant gid number db =
     map_option snd (List.find (\<lambda>((t, i, n), _). t = tenant \<and> i = gid \<and> is_number number n) (g_revisions db))"

definition store_operation :: "string \<Rightarrow> string \<Rightarrow> ge_db \<Rightarrow> ge_operation option" where
  "store_operation tenant op_id db = tget (g_operations db) (tenant, op_id)"

end
