(* ===== verification/Resources.thy ===== *)
theory Resources
  imports Graph_Check
begin

text \<open>
  Validation of resource documents (\<open>v2/packages/contracts\<close>, \<open>contracts/resources.py\<close>): the kinds, a
  resource's problems and those of a file, and durations. The JSON Schema library's errors for
  a document, with the message the code shows for each, are the parameter \<open>schema_errors\<close>; the
  documents of a YAML text are \<open>load_documents\<close>.
\<close>

section \<open>Kinds\<close>

record resource_group =
  rg_service :: string
  rg_title :: string
  rg_kinds :: "string list"

definition GROUPS :: "resource_group list" where
  "GROUPS =
     [\<lparr>rg_service = ''connection_bus'', rg_title = ''Connection Bus'', rg_kinds = [''Connection'']\<rparr>,
      \<lparr>rg_service = ''graph_engine'', rg_title = ''Graph Engine'', rg_kinds = [''Graph'', ''Loop'']\<rparr>,
      \<lparr>rg_service = ''tool_service'', rg_title = ''Tool Service'', rg_kinds = [''Tool'', ''ToolGrant'', ''Policy'', ''ToolInvocation'']\<rparr>,
      \<lparr>rg_service = ''virtual_control_plane'', rg_title = ''Virtual Control Plane'', rg_kinds = [''Workspace'']\<rparr>]"

definition KINDS :: "string list" where
  "KINDS = concat (map rg_kinds GROUPS)"

definition group_of :: "string \<Rightarrow> resource_group option" where
  "group_of kind = List.find (\<lambda>g. kind \<in> set (rg_kinds g)) GROUPS"

definition API_VERSION :: string where
  "API_VERSION = ''openengine.cc/v1alpha1''"

definition V1_API_VERSION :: string where
  "V1_API_VERSION = ''openengine.cc/v1''"

section \<open>Durations\<close>

definition DURATION_UNITS :: "(char \<times> nat) list" where
  "DURATION_UNITS = [(CHR ''d'', 86400), (CHR ''h'', 3600), (CHR ''m'', 60), (CHR ''s'', 1)]"

definition digit :: "char \<Rightarrow> bool" where
  "digit c \<longleftrightarrow> (let n = of_char c :: nat in 48 \<le> n \<and> n \<le> 57)"

text \<open>\<open>int(text)\<close> of decimal digits.\<close>

definition int_of_digits :: "string \<Rightarrow> nat" where
  "int_of_digits s = foldl (\<lambda>n c. n * 10 + (of_char c - 48)) 0 s"

text \<open>The sum over the matches of digits followed by a unit, left to right.\<close>

function duration_seconds :: "string \<Rightarrow> nat" where
  "duration_seconds [] = 0"
| "duration_seconds (c # cs) =
     (if digit c then
        (let ds = c # takeWhile digit cs; rest = dropWhile digit cs in
         case rest of
           [] \<Rightarrow> 0
         | u # us \<Rightarrow> (case map_of DURATION_UNITS u of
             Some unit \<Rightarrow> int_of_digits ds * unit + duration_seconds us
           | None \<Rightarrow> duration_seconds us))
      else duration_seconds cs)"
  by pat_completeness auto
termination
proof (relation "measure length", goal_cases)
  case (2 c cs ds rest u us)
  then show ?case using length_dropWhile_le[of digit cs] by (auto simp: less_Suc_eq_le dest: sym)
next
  case (3 c cs ds rest u us)
  then show ?case using length_dropWhile_le[of digit cs] by (auto simp: less_Suc_eq_le dest: sym)
qed auto

text \<open>\<open>_duration\<close>: the largest unit that divides it.\<close>

definition show_duration :: "nat \<Rightarrow> string" where
  "show_duration seconds = (case List.find (\<lambda>(u, n). seconds mod n = 0) DURATION_UNITS of
     Some (u, n) \<Rightarrow> show_nat (seconds div n) @ [u] | None \<Rightarrow> [])"

text \<open>\<open>_seconds\<close>, the keyword \<open>x-oe-seconds\<close>: the message of its error, if any.\<close>

definition seconds_problem :: "nat \<Rightarrow> nat \<Rightarrow> json \<Rightarrow> string option" where
  "seconds_problem minimum maximum v = (case v of
     JStr s \<Rightarrow> (let seconds = duration_seconds s in
       if seconds < minimum \<or> seconds > maximum
       then Some (py_repr s @ '' must be from '' @ show_duration minimum @ '' to '' @ show_duration maximum) else None)
   | _ \<Rightarrow> None)"

section \<open>Problems\<close>

datatype path_part = Key string | Index nat

record schema_error =
  ser_path :: "path_part list"
  ser_validator :: string
  ser_message :: string
  ser_shown :: string \<comment> \<open>what \<open>_message\<close> makes of it\<close>

fun part_text :: "path_part \<Rightarrow> string" where
  "part_text (Key k) = k"
| "part_text (Index i) = show_nat i"

fun path_from :: "string \<Rightarrow> path_part list \<Rightarrow> string" where
  "path_from text [] = text"
| "path_from text (Index i # ps) = path_from (text @ ''['' @ show_nat i @ '']'') ps"
| "path_from text (Key k # ps) = path_from (if text \<noteq> [] then text @ ''.'' @ k else text @ k) ps"

definition path_text :: "path_part list \<Rightarrow> string" where
  "path_text ps = path_from [] ps"

definition version_problems :: "json \<Rightarrow> problems" where
  "version_problems document =
     (if jget document ''apiVersion'' = Some (JStr V1_API_VERSION)
      then [(''apiVersion'', ''must be '' @ API_VERSION @ ''; '' @ V1_API_VERSION @ '' is a V1 manifest, which is not accepted'')]
      else if jget document ''apiVersion'' \<noteq> Some (JStr API_VERSION) then [(''apiVersion'', ''must be '' @ API_VERSION)]
      else [])"

text \<open>\<open>found in KINDS\<close>, as the kind it is.\<close>

definition found_kind :: "json \<Rightarrow> string option" where
  "found_kind document = (case jget document ''kind'' of Some (JStr k) \<Rightarrow> if k \<in> set KINDS then Some k else None | _ \<Rightarrow> None)"

definition wanted_kind :: "string option \<Rightarrow> string option" where
  "wanted_kind kind = (case kind of Some (c # cs) \<Rightarrow> kind | _ \<Rightarrow> None)"

definition other_kind :: "string option \<Rightarrow> json \<Rightarrow> bool" where
  "other_kind kind document = (case wanted_kind kind of Some k \<Rightarrow> jget document ''kind'' \<noteq> Some (JStr k) | None \<Rightarrow> False)"

definition kind_problems :: "string option \<Rightarrow> json \<Rightarrow> problems" where
  "kind_problems kind document =
     (let wanted = (case wanted_kind kind of Some k \<Rightarrow> k | None \<Rightarrow> []) in
      if other_kind kind document
      then [(''kind'', case found_kind document of Some k \<Rightarrow> ''is a '' @ k @ '', not a '' @ wanted | None \<Rightarrow> ''must be '' @ wanted)]
      else if found_kind document = None then [(''kind'', ''must be one of '' @ join_with '', '' (sort KINDS))] else [])"

definition shown_error :: "schema_error \<Rightarrow> bool" where
  "shown_error e \<longleftrightarrow> ser_path e \<noteq> [Key ''apiVersion'']
     \<and> \<not> (ser_validator e = ''required'' \<and> ser_message e = py_repr ''apiVersion'' @ '' is a required property'')"

definition validate_resource ::
  "(string \<Rightarrow> string + pynode) \<Rightarrow> (string \<Rightarrow> json \<Rightarrow> schema_error list) \<Rightarrow> json \<Rightarrow> string option \<Rightarrow> problems" where
  "validate_resource pp schema_errors document kind =
     (if \<not> is_mapping document then [([], ''a resource is a mapping with apiVersion, kind, metadata and spec'')]
      else
        (let problems = version_problems document @ kind_problems kind document in
         case found_kind document of
           None \<Rightarrow> problems
         | Some k \<Rightarrow>
             if other_kind kind document then problems
             else problems
               @ map (\<lambda>e. (path_text (ser_path e), ser_shown e))
                   (filter shown_error (sort_key (\<lambda>e. map part_text (ser_path e)) (schema_errors k document)))
               @ (if k = ''Graph'' then graph_check pp document else [])))"

definition validate_text ::
  "(string \<Rightarrow> string + pynode) \<Rightarrow> (string \<Rightarrow> json \<Rightarrow> schema_error list) \<Rightarrow> (string \<Rightarrow> string + json list) \<Rightarrow> string \<Rightarrow> string option \<Rightarrow> problems" where
  "validate_text pp schema_errors load_documents text kind = (case load_documents text of
     Inl e \<Rightarrow> [([], ''not YAML: '' @ e)]
   | Inr [] \<Rightarrow> [([], ''no resources'')]
   | Inr [document] \<Rightarrow> validate_resource pp schema_errors document kind
   | Inr documents \<Rightarrow> concat (map (\<lambda>(i, document).
       map (\<lambda>(path, message). ((''['' @ show_nat i @ '']'') @ (if path \<noteq> [] then ''.'' @ path else []), message))
         (validate_resource pp schema_errors document kind)) (enumerate 0 documents)))"

end
