(* ===== verification/Graph_Registry.thy ===== *)
theory Graph_Registry
  imports Messaging Graph_Store Resources
begin

text \<open>
  The graph registry's subjects (\<open>v2/services/graph_engine/registry.py\<close>): \<open>graphs.apply\<close>, \<open>graphs.list\<close>,
  \<open>graphs.{graph_id}.get\<close> and \<open>operations.{operation_id}.get\<close>, as handlers of the messaging
  server over the store. The libraries it calls are fields of its environment: canonical JSON
  (\<open>ge_canonical\<close>) and its reader (\<open>ge_loads\<close>), the size of an encoded reply, SHA-256,
  Python's expression parser, JSON Schema errors, time stamps and their reader, the text of
  a number, and the encoding of a cursor (base64url JSON) with its decoder, which is None
  for a text that is not one.
\<close>

record ge_env =
  ge_ct :: contracts
  ge_authorize :: "msg_request \<Rightarrow> string \<Rightarrow> fault + unit"
  ge_canonical :: "json \<Rightarrow> string"
  ge_loads :: "string \<Rightarrow> json"
  ge_encoded :: "json \<Rightarrow> nat"
  ge_sha :: "string \<Rightarrow> string"
  ge_parser :: "string \<Rightarrow> string + pynode"
  ge_schema :: "string \<Rightarrow> json \<Rightarrow> schema_error list"
  ge_timestamp :: "int \<Rightarrow> string"
  ge_isoformat :: "int \<Rightarrow> string"
  ge_instant :: "string \<Rightarrow> int"
  ge_number :: "json \<Rightarrow> string"
  ge_encode_cursor :: "json \<Rightarrow> string"
  ge_decode_cursor :: "string \<Rightarrow> json option"

definition DEFAULT_PROJECT :: string where "DEFAULT_PROJECT = ''default''"

definition APPLY :: string where "APPLY = ''graph_engine/v1/schemas/commands.schema.json#/$defs/apply_graph_command''"

definition PROJECT :: string where "PROJECT = ''graph_engine/v1/schemas/graph.schema.json#/$defs/project''"

definition DEFAULT_LIMIT :: nat where "DEFAULT_LIMIT = 50"

definition MAX_RESULT_BYTES :: nat where "MAX_RESULT_BYTES = 1024 * 1024 - 16 * 1024"

section \<open>Commands\<close>

text \<open>\<open>payload.get("project", DEFAULT_PROJECT)\<close> and the fallback of a malformed one.\<close>

definition command_project :: "ge_env \<Rightarrow> json \<Rightarrow> string" where
  "command_project env body = (case jget body ''payload'' of
     Some (JObj kvs) \<Rightarrow> (case map_of kvs ''project'' of
         None \<Rightarrow> DEFAULT_PROJECT
       | Some (JStr p) \<Rightarrow> if ct_violations (ge_ct env) PROJECT (JStr p) = [] then p else DEFAULT_PROJECT
       | Some _ \<Rightarrow> DEFAULT_PROJECT)
   | _ \<Rightarrow> DEFAULT_PROJECT)"

definition fingerprint :: "ge_env \<Rightarrow> string \<Rightarrow> json \<Rightarrow> string" where
  "fingerprint env subject body = ge_sha env (ge_canonical env (JObj [(''subject'', JStr subject),
     (''payload'', jget_none body ''payload''), (''expected_version'', jget_none body ''expected_version''),
     (''causal_path'', jget_none body ''causal_path'')]))"

definition command_of :: "ge_env \<Rightarrow> msg_request \<Rightarrow> ge_command option" where
  "command_of env rq = (case jget (mr_body rq) ''command_id'' of
     Some (JStr cid) \<Rightarrow> Some \<lparr>gc_project = command_project env (mr_body rq), gc_command_id = cid, gc_subject = mr_subject rq,
       gc_fingerprint = fingerprint env (mr_subject rq) (mr_body rq)\<rparr>
   | _ \<Rightarrow> None)"

section \<open>Snapshots\<close>

definition graph_json :: "ge_env \<Rightarrow> ge_graph \<Rightarrow> json" where
  "graph_json env g = JObj ([(''graph_id'', JStr (gg_graph_id g)), (''project'', JStr (gg_project g)), (''name'', JStr (gg_name g)),
     (''latest_revision'', JInt (int (gg_latest_revision g))), (''created_at'', JStr (ge_timestamp env (gg_created_at g))),
     (''updated_at'', JStr (ge_timestamp env (gg_updated_at g)))]
     @ (case gg_description g of Some d \<Rightarrow> [(''description'', JStr d)] | None \<Rightarrow> []))"

definition operation_json :: "ge_env \<Rightarrow> ge_operation \<Rightarrow> json" where
  "operation_json env x = JObj ([(''operation_id'', JStr (go_operation_id x)), (''command_id'', JStr (go_command_id x)),
     (''operation'', JStr (go_operation x)), (''status'', JStr (go_status x)), (''resources'', go_resources x),
     (''created_at'', JStr (ge_timestamp env (go_created_at x))), (''updated_at'', JStr (ge_timestamp env (go_updated_at x)))]
     @ (case go_result x of Some v \<Rightarrow> [(''result'', v)] | None \<Rightarrow> [])
     @ (case go_error x of Some v \<Rightarrow> [(''error'', v)] | None \<Rightarrow> []))"

text \<open>
  The inputs a source declares, by name, and its step names in stage order. A source the registry
  kept has passed its schema, so each has a name.
\<close>

definition declared_input :: "json \<Rightarrow> (string \<times> json) option" where
  "declared_input v = (case jget v ''name'' of
     Some (JStr n) \<Rightarrow> Some (n, JObj (List.map_filter (\<lambda>k. map_option (Pair k) (jget v k)) [''required'', ''description'']))
   | _ \<Rightarrow> None)"

definition revision_inputs :: "json \<Rightarrow> json" where
  "revision_inputs spec = JObj (fold (\<lambda>(k, v). tput k v) (List.map_filter declared_input (as_list (jget spec ''inputs''))) [])"

definition revision_nodes :: "json \<Rightarrow> json" where
  "revision_nodes spec = JList (concat (map (\<lambda>stage. List.map_filter (\<lambda>step. jget step ''name'') (as_list (jget spec stage))) STAGES))"

definition revision_json :: "ge_env \<Rightarrow> graph_revision \<Rightarrow> bool \<Rightarrow> json" where
  "revision_json env r include_source =
     (let spec = (if gr_format r = ''resource'' then jget_none (ge_loads env (gr_source r)) ''spec'' else JObj []) in
      JObj ([(''graph_id'', JStr (gr_graph_id r)), (''revision'', JInt (int (gr_revision r))), (''format'', JStr (gr_format r)),
        (''source_sha256'', JStr (gr_source_sha256 r)), (''inputs'', revision_inputs spec), (''nodes'', revision_nodes spec),
        (''created_at'', JStr (ge_timestamp env (gr_created_at r)))]
        @ (if include_source then [(''source'', JStr (gr_source r))] else [])))"

definition readable_size :: "ge_env \<Rightarrow> int \<Rightarrow> graph_definition \<Rightarrow> nat" where
  "readable_size env now d = ge_encoded env (JObj
     [(''graph'', graph_json env \<lparr>gg_graph_id = [], gg_project = DEFAULT_PROJECT, gg_name = gd_name d, gg_description = gd_description d,
         gg_latest_revision = 0, gg_created_at = now, gg_updated_at = now\<rparr>),
      (''revision'', revision_json env \<lparr>gr_graph_id = [], gr_revision = 0, gr_format = gd_format d, gr_source = gd_source d,
         gr_source_sha256 = ge_sha env (gd_source d), gr_created_at = now\<rparr> True)])"

section \<open>The tenant's store\<close>

definition lower_hex :: "char \<Rightarrow> bool" where
  "lower_hex c \<longleftrightarrow> c \<in> set ''0123456789abcdef''"

text \<open>\<open>str(uuid.UUID(text)) == text\<close>: 8-4-4-4-12 lower-case hexadecimal digits.\<close>

definition canonical_uuid :: "string \<Rightarrow> bool" where
  "canonical_uuid text \<longleftrightarrow> map length (split_on (CHR ''-'') text) = [8, 4, 4, 4, 12] \<and> (\<forall>c \<in> set text. c = CHR ''-'' \<or> lower_hex c)"

definition parse_tenant :: "string \<Rightarrow> string option" where
  "parse_tenant text = (if canonical_uuid text \<and> \<not> set text \<subseteq> set ''0-'' then Some text else None)"

definition scoped_store :: "msg_request \<Rightarrow> fault + string" where
  "scoped_store rq = (case mr_principal rq of
     None \<Rightarrow> Inl (ServiceFault (service_error PERMISSION_DENIED ''a verified principal is required'' None))
   | Some p \<Rightarrow> (case parse_tenant (pr_tenant_id p) of None \<Rightarrow> Inl OtherFault | Some t \<Rightarrow> Inr t))"

section \<open>Apply\<close>

datatype registry_exn = Conflict string string "string option" | RegistryFault fault

fun store_failure :: "store_exn \<Rightarrow> registry_exn" where
  "store_failure (CommandIdConflict cid subject op) = Conflict cid subject op"
| "store_failure _ = RegistryFault OtherFault"

definition reject_command :: "msg_request \<Rightarrow> ge_command \<Rightarrow> svc_error \<Rightarrow> ge_draw \<Rightarrow> ge_db \<Rightarrow> (registry_exn + ge_response) \<times> ge_db" where
  "reject_command rq c e w db = (case scoped_store rq of
     Inl f \<Rightarrow> (Inl (RegistryFault f), db)
   | Inr tenant \<Rightarrow> apfst (map_sum store_failure id) (store_reject tenant c (RejectedGraph (gc_command_id c) e) (gw_rejected w) db))"

definition version_error :: "ge_env \<Rightarrow> ge_command \<Rightarrow> graph_definition \<Rightarrow> json \<Rightarrow> nat option \<Rightarrow> svc_error" where
  "version_error env c d expected actual = (case actual of
     None \<Rightarrow> service_error NOT_FOUND
       (''no graph named '' @ gd_name d @ '' in project '' @ gc_project c @ '' to be at revision '' @ ge_number env expected)
       (Some [(''resource_type'', JStr ''graph''), (''resource_id'', JStr (gd_name d))])
   | Some n \<Rightarrow> service_error VERSION_CONFLICT
       (''graph '' @ gd_name d @ '' is at revision '' @ show_nat n @ '', not '' @ ge_number env expected)
       (Some [(''expected_version'', expected), (''actual_version'', JInt (int n))]))"

definition deadline_error :: "ge_env \<Rightarrow> json \<Rightarrow> int \<Rightarrow> int \<Rightarrow> svc_error" where
  "deadline_error env body deadline received = service_error DEADLINE_EXCEEDED
     (''the deadline '' @ ge_isoformat env deadline @ '' passed before the command was accepted'')
     (Some [(''deadline_at'', jget_none body ''deadline_at''), (''received_at'', JStr (ge_timestamp env received))])"

text \<open>\<open>body.get("expected_version")\<close>, where null is None too, and the deadline.\<close>

definition expected_of :: "json \<Rightarrow> json option" where
  "expected_of body = (case jget body ''expected_version'' of Some JNull \<Rightarrow> None | v \<Rightarrow> v)"

definition deadline_of :: "ge_env \<Rightarrow> json \<Rightarrow> int option" where
  "deadline_of env body = (case jget body ''deadline_at'' of Some (JStr s) \<Rightarrow> Some (ge_instant env s) | _ \<Rightarrow> None)"

definition definition_of :: "ge_env \<Rightarrow> json \<Rightarrow> graph_definition option" where
  "definition_of env graph = (case (jget (jget_none graph ''metadata'') ''name'', jget graph ''spec'') of
     (Some (JStr name), Some (JObj spec)) \<Rightarrow> Some \<lparr>gd_name = name, gd_description = text_of (map_of spec ''description''),
        gd_format = ''resource'', gd_source = ge_canonical env graph\<rparr>
   | _ \<Rightarrow> None)"

text \<open>The refusals of \<open>_apply\<close> before the store is asked, or the definition to store; None where the code would raise.\<close>

definition apply_refusal :: "ge_env \<Rightarrow> json \<Rightarrow> int \<Rightarrow> (svc_error + graph_definition) option" where
  "apply_refusal env body now =
     (case envelope_check (ge_ct env) COMMAND body of Some e \<Rightarrow> Some (Inl e) | None \<Rightarrow>
     (case envelope_check (ge_ct env) APPLY body of Some e \<Rightarrow> Some (Inl e) | None \<Rightarrow>
     (case jget body ''payload'' of None \<Rightarrow> None | Some payload \<Rightarrow>
      if jget payload ''python'' \<noteq> None
      then Some (Inl (service_error UNSUPPORTED_CAPABILITY ''GE does not load Python graphs yet; apply a Graph resource''
             (Some [(''capability'', JStr ''graphs.apply.python'')])))
      else case jget payload ''graph'' of None \<Rightarrow> None | Some graph \<Rightarrow>
        (let problems = validate_resource (ge_parser env) (ge_schema env) graph (Some ''Graph'') in
         if problems \<noteq> [] then Some (Inl (invalid_argument (map (\<lambda>(path, msg). (''payload.graph.'' @ path, msg)) problems)))
         else case definition_of env graph of None \<Rightarrow> None | Some d \<Rightarrow>
           if readable_size env now d > MAX_RESULT_BYTES
           then Some (Inl (invalid_argument [(''payload.graph'', ''reading it back would take a '' @ show_nat (readable_size env now d)
                  @ ''-byte reply; the most is '' @ show_nat MAX_RESULT_BYTES)]))
           else Some (Inr d)))))"

definition apply_command :: "ge_env \<Rightarrow> ge_draw \<Rightarrow> msg_request \<Rightarrow> ge_command \<Rightarrow> ge_db \<Rightarrow> (registry_exn + ge_response) \<times> ge_db" where
  "apply_command env w rq c db = (case apply_refusal env (mr_body rq) (gw_sized w) of
     None \<Rightarrow> (Inl (RegistryFault OtherFault), db)
   | Some (Inl e) \<Rightarrow> reject_command rq c e w db
   | Some (Inr d) \<Rightarrow> (case scoped_store rq of
       Inl f \<Rightarrow> (Inl (RegistryFault f), db)
     | Inr tenant \<Rightarrow>
         (case store_apply (ge_sha env) tenant c d (expected_of (mr_body rq)) (deadline_of env (mr_body rq)) w db of
            (Inr response, db') \<Rightarrow> (Inr response, db')
          | (Inl (DeadlineExceeded deadline received), db') \<Rightarrow> reject_command rq c (deadline_error env (mr_body rq) deadline received) w db'
          | (Inl (VersionConflict expected actual), db') \<Rightarrow> reject_command rq c (version_error env c d expected actual) w db'
          | (Inl e, db') \<Rightarrow> (Inl (store_failure e), db'))))"

definition conflict_fault :: "registry_exn \<Rightarrow> fault" where
  "conflict_fault e = (case e of
     RegistryFault f \<Rightarrow> f
   | Conflict cid subject op \<Rightarrow> ServiceFault (service_error COMMAND_ID_CONFLICT
       (''command '' @ cid @ '' was already used for a different command in its project'')
       (Some ([(''command_id'', JStr cid), (''original_subject'', JStr subject)]
          @ (case op of Some (x # xs) \<Rightarrow> [(''original_operation_id'', JStr (x # xs))] | _ \<Rightarrow> [])))))"

definition response_json :: "ge_response \<Rightarrow> fault + json" where
  "response_json r = (case r of
     AcceptedGraph cid op gid \<Rightarrow> Inr (JObj [(''command_id'', JStr cid), (''status'', JStr ''accepted''), (''operation_id'', JStr op), (''resource_id'', JStr gid)])
   | RejectedGraph cid e \<Rightarrow> Inl (ServiceFault e))"

definition registry_apply :: "ge_env \<Rightarrow> ge_draw \<Rightarrow> msg_request \<Rightarrow> ge_db \<Rightarrow> (fault + json) \<times> ge_db" where
  "registry_apply env w rq db = (case command_of env rq of
     None \<Rightarrow> (Inl OtherFault, db)
   | Some c \<Rightarrow> (case ge_authorize env rq (gc_project c) of
       Inl f \<Rightarrow> (Inl f, db)
     | Inr _ \<Rightarrow> (case apply_command env w rq c db of
         (Inl e, db') \<Rightarrow> (Inl (conflict_fault e), db')
       | (Inr response, db') \<Rightarrow> (response_json response, db'))))"

section \<open>Queries\<close>

definition cursor_key :: "ge_graph \<Rightarrow> string option \<Rightarrow> json" where
  "cursor_key g name_prefix = JObj [(''after'', JList [JStr (gg_name g), JStr (gg_graph_id g)]),
     (''project'', JStr (gg_project g)), (''name_prefix'', case name_prefix of Some p \<Rightarrow> JStr p | None \<Rightarrow> JNull)]"

definition cursor_of :: "ge_env \<Rightarrow> ge_graph \<Rightarrow> string option \<Rightarrow> string" where
  "cursor_of env g name_prefix = ge_encode_cursor env (cursor_key g name_prefix)"

definition cursor_error :: "string \<Rightarrow> string \<Rightarrow> svc_error" where
  "cursor_error msg reason = service_error INVALID_CURSOR msg (Some [(''reason'', JStr reason)])"

text \<open>\<open>name, graph_id = value\<close>: a list, a text or an object of two unpacks.\<close>

fun unpack_two :: "json \<Rightarrow> (json \<times> json) option" where
  "unpack_two (JList [a, b]) = Some (a, b)"
| "unpack_two (JStr [a, b]) = Some (JStr [a], JStr [b])"
| "unpack_two (JObj [(a, _), (b, _)]) = Some (JStr a, JStr b)"
| "unpack_two _ = None"

definition after_of :: "ge_env \<Rightarrow> string \<Rightarrow> string \<Rightarrow> string option \<Rightarrow> svc_error + string \<times> string" where
  "after_of env cursor project name_prefix =
     (let malformed = Inl (cursor_error ''the cursor is not one graphs.list issued'' ''malformed'') in
      case ge_decode_cursor env cursor of
        Some key \<Rightarrow> (case (Option.bind (jget key ''after'') unpack_two, jget key ''project'', jget key ''name_prefix'') of
            (Some (JStr name, JStr gid), Some p, Some n) \<Rightarrow>
              if p \<noteq> JStr project \<or> n \<noteq> (case name_prefix of Some x \<Rightarrow> JStr x | None \<Rightarrow> JNull)
              then Inl (cursor_error ''the cursor was issued for another project or name_prefix'' ''filters_changed'')
              else Inr (name, gid)
          | _ \<Rightarrow> malformed)
      | None \<Rightarrow> malformed)"

text \<open>The loop over the page's graphs: \<open>size\<close> is \<open>used\<close>, \<open>started\<close> whether there are items yet.\<close>

fun page_items :: "ge_env \<Rightarrow> nat \<Rightarrow> bool \<Rightarrow> ge_graph list \<Rightarrow> json list" where
  "page_items env used started [] = []"
| "page_items env used started (g # gs) =
     (let item = graph_json env g; total = used + ge_encoded env item + 1 in
      if started \<and> total > MAX_RESULT_BYTES then [] else item # page_items env total True gs)"

definition list_page ::
  "ge_env \<Rightarrow> string \<Rightarrow> string \<Rightarrow> string option \<Rightarrow> nat \<Rightarrow> string option \<Rightarrow> ge_db \<Rightarrow> svc_error + json list \<times> string option" where
  "list_page env tenant project name_prefix limit cursor db =
     sbind (case cursor of None \<Rightarrow> Inr None | Some c \<Rightarrow> map_sum id Some (after_of env c project name_prefix)) (\<lambda>after.
     let found = store_graphs tenant project (limit + 1) name_prefix after db;
         items = page_items env 0 False (take limit found) in
     Inr (items, if length found > length items
       then Some (cursor_of env (if items = [] then last found else found ! (length items - 1)) name_prefix) else None))"

definition limit_of :: "json option \<Rightarrow> nat" where
  "limit_of v = (case v of Some (JInt i) \<Rightarrow> nat i | Some (JFloat r) \<Rightarrow> nat \<lfloor>r\<rfloor> | _ \<Rightarrow> DEFAULT_LIMIT)"

definition registry_list :: "ge_env \<Rightarrow> msg_request \<Rightarrow> ge_db \<Rightarrow> (fault + json) \<times> ge_db" where
  "registry_list env rq db =
     (let params = jget_none (mr_body rq) ''params'';
          project = (case jget params ''project'' of Some (JStr p) \<Rightarrow> p | _ \<Rightarrow> DEFAULT_PROJECT);
          name_prefix = text_of (jget params ''name_prefix'') in
      (sbind (ge_authorize env rq project) (\<lambda>_.
       sbind (case text_of (jget params ''cursor'') of
                None \<Rightarrow> Inr () | Some c \<Rightarrow> map_sum ServiceFault (\<lambda>_. ()) (after_of env c project name_prefix)) (\<lambda>_.
       sbind (scoped_store rq) (\<lambda>tenant.
       sbind (map_sum ServiceFault id (list_page env tenant project name_prefix (limit_of (jget params ''limit'')) (text_of (jget params ''cursor'')) db))
         (\<lambda>(items, next). Inr (JObj [(''items'', JList items), (''next_cursor'', case next of Some c \<Rightarrow> JStr c | None \<Rightarrow> JNull)]))))), db))"

definition graph_missing :: "string \<Rightarrow> string \<Rightarrow> fault" where
  "graph_missing gid msg = ServiceFault (service_error NOT_FOUND msg (Some [(''resource_type'', JStr ''graph''), (''resource_id'', JStr gid)]))"

definition registry_get :: "ge_env \<Rightarrow> msg_request \<Rightarrow> ge_db \<Rightarrow> (fault + json) \<times> ge_db" where
  "registry_get env rq db =
     (let params = jget_none (mr_body rq) ''params'' in
      (case tget (mr_parameters rq) ''graph_id'' of None \<Rightarrow> Inl OtherFault | Some gid \<Rightarrow>
       sbind (scoped_store rq) (\<lambda>tenant.
       case store_graph tenant gid db of
         None \<Rightarrow> Inl (graph_missing gid (''no graph '' @ gid))
       | Some g \<Rightarrow>
           sbind (ge_authorize env rq (gg_project g)) (\<lambda>_.
           let number = (case jget params ''revision'' of Some v \<Rightarrow> v | None \<Rightarrow> JInt (int (gg_latest_revision g))) in
           case store_revision tenant gid number db of
             None \<Rightarrow> Inl (graph_missing gid (''graph '' @ gg_name g @ '' has no revision '' @ ge_number env number @ ''; its latest is ''
                      @ show_nat (gg_latest_revision g)))
           | Some r \<Rightarrow> Inr (JObj [(''graph'', graph_json env g),
               (''revision'', revision_json env r (case jget params ''include_source'' of None \<Rightarrow> True | v \<Rightarrow> truthy v))]))), db))"

definition registry_operation :: "ge_env \<Rightarrow> msg_request \<Rightarrow> ge_db \<Rightarrow> (fault + json) \<times> ge_db" where
  "registry_operation env rq db =
     (case tget (mr_parameters rq) ''operation_id'' of None \<Rightarrow> Inl OtherFault | Some op_id \<Rightarrow>
      sbind (scoped_store rq) (\<lambda>tenant.
      case store_operation tenant op_id db of
        None \<Rightarrow> Inl (ServiceFault (service_error NOT_FOUND (''no operation '' @ op_id)
          (Some [(''resource_type'', JStr ''operation''), (''resource_id'', JStr op_id)])))
      | Some x \<Rightarrow> sbind (ge_authorize env rq (go_project x)) (\<lambda>_. Inr (JObj [(''operation'', operation_json env x)]))), db)"

definition registry_commands :: "ge_env \<Rightarrow> ge_draw \<Rightarrow> (string \<times> ge_db route) list" where
  "registry_commands env w = [(''graphs.apply'', \<lparr>rt_handler = registry_apply env w, rt_schema = None, rt_receipts = True\<rparr>)]"

definition query_schema :: "string \<Rightarrow> string" where
  "query_schema name = ''graph_engine/v1/schemas/queries.schema.json#/$defs/'' @ name"

definition registry_queries :: "ge_env \<Rightarrow> (string \<times> ge_db route) list" where
  "registry_queries env =
     [(''graphs.list'', \<lparr>rt_handler = registry_list env, rt_schema = Some (query_schema ''list_graphs_query''), rt_receipts = False\<rparr>),
      (''graphs.{graph_id}.get'', \<lparr>rt_handler = registry_get env, rt_schema = Some (query_schema ''get_graph_query''), rt_receipts = False\<rparr>),
      (''operations.{operation_id}.get'',
        \<lparr>rt_handler = registry_operation env, rt_schema = Some (query_schema ''get_operation_query''), rt_receipts = False\<rparr>)]"

end
