(* ===== verification/Graph_Store_Inv.thy ===== *)
theory Graph_Store_Inv
  imports Graph_Store
begin

text \<open>
  The store's invariant, and what accepting a definition does to it: revisions are numbered
  without gaps from 1 to the graph's latest, a name has one graph in its project, and every
  operation has its receipt. \<open>history\<close> abstracts the tables to the list of sources a name has had.
\<close>

section \<open>Invariant\<close>

definition graphs_ok :: "ge_db \<Rightarrow> bool" where
  "graphs_ok db \<longleftrightarrow> (\<forall>t i g. tget (g_graphs db) (t, i) = Some g \<longrightarrow> gg_graph_id g = i \<and> 1 \<le> gg_latest_revision g
     \<and> (\<forall>n. tget (g_revisions db) (t, i, n) \<noteq> None \<longleftrightarrow> 1 \<le> n \<and> n \<le> gg_latest_revision g))"

definition revisions_ok :: "(string \<Rightarrow> string) \<Rightarrow> ge_db \<Rightarrow> bool" where
  "revisions_ok sha db \<longleftrightarrow> (\<forall>t i n r. tget (g_revisions db) (t, i, n) = Some r \<longrightarrow>
     tget (g_graphs db) (t, i) \<noteq> None \<and> gr_source_sha256 r = sha (gr_source r))"

definition names_ok :: "ge_db \<Rightarrow> bool" where
  "names_ok db \<longleftrightarrow> (\<forall>t i j g h. tget (g_graphs db) (t, i) = Some g \<longrightarrow> tget (g_graphs db) (t, j) = Some h \<longrightarrow>
     gg_project g = gg_project h \<longrightarrow> gg_name g = gg_name h \<longrightarrow> i = j)"

definition operations_ok :: "ge_db \<Rightarrow> bool" where
  "operations_ok db \<longleftrightarrow> (\<forall>t k x. tget (g_operations db) (t, k) = Some x \<longrightarrow>
     tget (g_receipts db) (t, go_project x, go_command_id x) \<noteq> None)"

definition ge_wf :: "(string \<Rightarrow> string) \<Rightarrow> ge_db \<Rightarrow> bool" where
  "ge_wf sha db \<longleftrightarrow> twf (g_graphs db) \<and> twf (g_operations db) \<and> graphs_ok db \<and> revisions_ok sha db \<and> names_ok db \<and> operations_ok db"

lemma ge_wfD:
  assumes "ge_wf sha db"
  shows "twf (g_graphs db)" "twf (g_operations db)" "graphs_ok db" "revisions_ok sha db" "names_ok db" "operations_ok db"
  using assms by (simp_all add: ge_wf_def)

lemma empty_ge_wf: "ge_wf sha empty_ge_db"
  by (simp add: ge_wf_def empty_ge_db_def graphs_ok_def revisions_ok_def names_ok_def operations_ok_def)

section \<open>Graphs by name\<close>

lemma graph_named_Some:
  "twf (g_graphs db) \<Longrightarrow> graph_named t p n db = Some g \<Longrightarrow> \<exists>i. tget (g_graphs db) (t, i) = Some g \<and> gg_project g = p \<and> gg_name g = n"
  by (auto simp: graph_named_def find_Some_iff twf_tget) (metis nth_mem)

lemma graph_named_None:
  "twf (g_graphs db) \<Longrightarrow> graph_named t p n db = None \<longleftrightarrow> \<not> (\<exists>i g. tget (g_graphs db) (t, i) = Some g \<and> gg_project g = p \<and> gg_name g = n)"
  by (fastforce simp: graph_named_def find_None_iff twf_tget)

lemma graph_named_iff:
  assumes "ge_wf sha db"
  shows "graph_named t p n db = Some g \<longleftrightarrow> tget (g_graphs db) (t, gg_graph_id g) = Some g \<and> gg_project g = p \<and> gg_name g = n"
proof
  assume "graph_named t p n db = Some g"
  then obtain i where "tget (g_graphs db) (t, i) = Some g" "gg_project g = p" "gg_name g = n"
    using graph_named_Some[OF ge_wfD(1)[OF assms]] by blast
  then show "tget (g_graphs db) (t, gg_graph_id g) = Some g \<and> gg_project g = p \<and> gg_name g = n"
    using ge_wfD(3)[OF assms] by (simp add: graphs_ok_def)
next
  assume g: "tget (g_graphs db) (t, gg_graph_id g) = Some g \<and> gg_project g = p \<and> gg_name g = n"
  then obtain h where h: "graph_named t p n db = Some h" using graph_named_None[OF ge_wfD(1)[OF assms], of t p n] by blast
  then obtain i where "tget (g_graphs db) (t, i) = Some h" "gg_project h = p" "gg_name h = n"
    using graph_named_Some[OF ge_wfD(1)[OF assms]] by blast
  then show "graph_named t p n db = Some g" using g h ge_wfD(5)[OF assms] unfolding names_ok_def by (metis option.inject)
qed

section \<open>Abstraction\<close>

definition source_at :: "ge_db \<Rightarrow> string \<Rightarrow> string \<Rightarrow> nat \<Rightarrow> string" where
  "source_at db t i k = (case tget (g_revisions db) (t, i, k) of Some r \<Rightarrow> gr_source r | None \<Rightarrow> [])"

definition history :: "ge_db \<Rightarrow> string \<Rightarrow> string \<Rightarrow> string \<Rightarrow> string list" where
  "history db t p n = (case graph_named t p n db of
     None \<Rightarrow> [] | Some g \<Rightarrow> map (source_at db t (gg_graph_id g)) [1..<Suc (gg_latest_revision g)])"

lemma history_None: "graph_named t p n db = None \<Longrightarrow> history db t p n = []"
  by (simp add: history_def)

lemma history_Some:
  assumes "ge_wf sha db" and "graph_named t p n db = Some g"
  shows "history db t p n \<noteq> []" "length (history db t p n) = gg_latest_revision g"
    "last (history db t p n) = source_at db t (gg_graph_id g) (gg_latest_revision g)"
proof -
  have "1 \<le> gg_latest_revision g"
    using assms graph_named_iff[OF assms(1)] ge_wfD(3)[OF assms(1)] unfolding graphs_ok_def by blast
  then show "history db t p n \<noteq> []" "length (history db t p n) = gg_latest_revision g"
    "last (history db t p n) = source_at db t (gg_graph_id g) (gg_latest_revision g)"
    by (simp_all add: history_def assms(2))
qed

lemma history_same:
  assumes "graph_named t p n db' = graph_named t p n db"
    and "\<And>g k. graph_named t p n db = Some g \<Longrightarrow> tget (g_revisions db') (t, gg_graph_id g, k) = tget (g_revisions db) (t, gg_graph_id g, k)"
  shows "history db' t p n = history db t p n"
  using assms by (cases "graph_named t p n db") (auto simp: history_def source_at_def)

lemma latest_digest_history:
  assumes "ge_wf sha db"
  shows "latest_digest t (graph_named t p n db) db = (if history db t p n = [] then None else Some (sha (last (history db t p n))))"
proof (cases "graph_named t p n db")
  case (Some g)
  then have "tget (g_graphs db) (t, gg_graph_id g) = Some g" using graph_named_iff[OF assms] by blast
  then obtain r where "tget (g_revisions db) (t, gg_graph_id g, gg_latest_revision g) = Some r"
    using ge_wfD(3)[OF assms] unfolding graphs_ok_def by (metis le_refl not_None_eq)
  then show ?thesis using history_Some[OF assms Some] Some ge_wfD(4)[OF assms]
    by (auto simp: latest_digest_def source_at_def revisions_ok_def)
qed (simp add: latest_digest_def history_None)

section \<open>Accepting a definition\<close>

text \<open>An accepted command ends with its operation and its receipt.\<close>

definition noted :: "string \<Rightarrow> ge_command \<Rightarrow> string \<times> nat \<Rightarrow> bool \<Rightarrow> int \<Rightarrow> string \<Rightarrow> ge_db \<Rightarrow> ge_db" where
  "noted t c at_rev created now op_id db = db\<lparr>
     g_operations := g_operations db @ [((t, op_id), operation_row c at_rev created now op_id)],
     g_receipts := g_receipts db @ [((t, gc_project c, gc_command_id c), receipt_row c (AcceptedGraph (gc_command_id c) op_id (fst at_rev)) now)]\<rparr>"

lemma noted_simps [simp]:
  "g_graphs (noted t c a b now k db) = g_graphs db" "g_revisions (noted t c a b now k db) = g_revisions db"
  by (simp_all add: noted_def)

lemma graph_named_noted [simp]: "graph_named t p n (noted t' c a b now k db) = graph_named t p n db"
  by (simp add: graph_named_def)

lemma history_noted [simp]: "history (noted t' c a b now k db) t p n = history db t p n"
  by (rule history_same) simp_all

lemma note_ok:
  assumes "twf (g_operations db)" and "operations_ok db" and "tget (g_receipts db) (t, gc_project c, gc_command_id c) = None"
    and "tget (g_operations db) (t, k) = None"
  shows "sbind (write_operation t c a b now k db) (\<lambda>db3. sbind (record_receipt t c (AcceptedGraph (gc_command_id c) k (fst a)) now db3)
      (\<lambda>db4. Inr (AcceptedGraph (gc_command_id c) k (fst a), db4))) = Inr (AcceptedGraph (gc_command_id c) k (fst a), noted t c a b now k db)"
proof -
  have "\<not> (\<exists>((t', _), x) \<in> set (g_operations db). t' = t \<and> go_project x = gc_project c \<and> go_command_id x = gc_command_id c)"
    using assms(1-3) by (fastforce simp: operations_ok_def twf_tget)
  then have "write_operation t c a b now k db = Inr (db\<lparr>g_operations := g_operations db @ [((t, k), operation_row c a b now k)]\<rparr>)"
    using assms(4) by (auto simp: write_operation_def tinsert_def tget_None_iff)
  then show ?thesis using assms(3) by (simp add: record_receipt_def tinsert_def tget_None_iff noted_def)
qed

lemma noted_wf:
  assumes "ge_wf sha db" and "tget (g_receipts db) (t, gc_project c, gc_command_id c) = None" and "tget (g_operations db) (t, k) = None"
  shows "ge_wf sha (noted t c a b now k db)"
proof -
  have "operations_ok (noted t c a b now k db)"
    using ge_wfD(6)[OF assms(1)] assms(2,3)
    by (auto simp: operations_ok_def noted_def tget_append_fresh operation_row_def simp del: tget_append_single split: if_splits)
  moreover have "twf (g_operations (noted t c a b now k db))"
    using twf_append_single[OF ge_wfD(2)[OF assms(1)] assms(3)] by (simp add: noted_def)
  ultimately show ?thesis using ge_wfD[OF assms(1)]
    by (simp add: ge_wf_def graphs_ok_def revisions_ok_def names_ok_def)
qed

text \<open>A name's first revision.\<close>

definition first_revision :: "(string \<Rightarrow> string) \<Rightarrow> string \<Rightarrow> ge_command \<Rightarrow> graph_definition \<Rightarrow> int \<Rightarrow> string \<Rightarrow> ge_db \<Rightarrow> ge_db" where
  "first_revision sha t c d now i db = db\<lparr>g_graphs := g_graphs db @ [((t, i), graph_row c d now i)],
     g_revisions := g_revisions db @ [((t, i, 1), revision_row sha d now i 1)]\<rparr>"

text \<open>A graph's next revision.\<close>

definition next_revision :: "(string \<Rightarrow> string) \<Rightarrow> string \<Rightarrow> graph_definition \<Rightarrow> ge_graph \<Rightarrow> int \<Rightarrow> ge_db \<Rightarrow> ge_db" where
  "next_revision sha t d g now db = db\<lparr>g_graphs := tput (t, gg_graph_id g)
       (g\<lparr>gg_description := gd_description d, gg_latest_revision := gg_latest_revision g + 1, gg_updated_at := now\<rparr>) (g_graphs db),
     g_revisions := g_revisions db @ [((t, gg_graph_id g, gg_latest_revision g + 1), revision_row sha d now (gg_graph_id g) (gg_latest_revision g + 1))]\<rparr>"

lemma no_revisions:
  "ge_wf sha db \<Longrightarrow> tget (g_graphs db) (t, i) = None \<Longrightarrow> tget (g_revisions db) (t, i, n) = None"
  using ge_wfD(4) unfolding revisions_ok_def by (metis not_None_eq)

lemma no_next_revision:
  "ge_wf sha db \<Longrightarrow> tget (g_graphs db) (t, i) = Some g \<Longrightarrow> tget (g_revisions db) (t, i, Suc (gg_latest_revision g)) = None"
  using ge_wfD(3) unfolding graphs_ok_def by (metis not_less_eq_eq le_refl)

lemma first_revision_wf:
  assumes wf: "ge_wf sha db" and i: "tget (g_graphs db) (t, i) = None" and n: "graph_named t (gc_project c) (gd_name d) db = None"
  shows "ge_wf sha (first_revision sha t c d now i db)"
proof -
  let ?db = "first_revision sha t c d now i db"
  have G: "tget (g_graphs ?db) k = (if k = (t, i) then Some (graph_row c d now i) else tget (g_graphs db) k)" for k
    using i by (simp add: first_revision_def tget_append_fresh del: tget_append_single)
  have R: "tget (g_revisions ?db) k = (if k = (t, i, 1) then Some (revision_row sha d now i 1) else tget (g_revisions db) k)" for k
    using no_revisions[OF wf i] by (simp add: first_revision_def tget_append_fresh del: tget_append_single)
  have "graphs_ok ?db" using ge_wfD(3)[OF wf] no_revisions[OF wf i] by (auto simp: graphs_ok_def G R graph_row_def)
  moreover have "revisions_ok sha ?db" using ge_wfD(4)[OF wf] by (auto simp: revisions_ok_def G R revision_row_def)
  moreover have "names_ok ?db"
    using ge_wfD(5)[OF wf] n unfolding names_ok_def G graph_named_None[OF ge_wfD(1)[OF wf]]
    by (auto simp: graph_row_def split: if_splits) (metis (no_types))+
  moreover have "twf (g_graphs ?db)" using twf_append_single[OF ge_wfD(1)[OF wf] i] by (simp add: first_revision_def)
  ultimately show ?thesis using ge_wfD(2,6)[OF wf] by (simp add: ge_wf_def operations_ok_def first_revision_def)
qed

lemma next_revision_wf:
  assumes wf: "ge_wf sha db" and g: "tget (g_graphs db) (t, gg_graph_id g) = Some g"
  shows "ge_wf sha (next_revision sha t d g now db)"
proof -
  let ?db = "next_revision sha t d g now db" and ?i = "gg_graph_id g" and ?n = "Suc (gg_latest_revision g)"
  let ?g = "g\<lparr>gg_description := gd_description d, gg_latest_revision := ?n, gg_updated_at := now\<rparr>"
  have G: "tget (g_graphs ?db) k = (if k = (t, ?i) then Some ?g else tget (g_graphs db) k)" for k
    by (simp add: next_revision_def)
  have R: "tget (g_revisions ?db) k = (if k = (t, ?i, ?n) then Some (revision_row sha d now ?i ?n) else tget (g_revisions db) k)" for k
    using no_next_revision[OF wf g] by (simp add: next_revision_def tget_append_fresh del: tget_append_single)
  have gk: "tget (g_revisions db) (t, ?i, n) \<noteq> None \<longleftrightarrow> 1 \<le> n \<and> n \<le> gg_latest_revision g" for n
    using ge_wfD(3)[OF wf] g unfolding graphs_ok_def by blast
  have "graphs_ok ?db" using ge_wfD(3)[OF wf] gk unfolding graphs_ok_def by (auto simp: G R)
  moreover have "revisions_ok sha ?db" using ge_wfD(4)[OF wf] g by (auto simp: revisions_ok_def G R revision_row_def)
  moreover have "names_ok ?db" using ge_wfD(5)[OF wf] g unfolding names_ok_def G by (auto split: if_splits)
  moreover have "twf (g_graphs ?db)" using ge_wfD(1)[OF wf] by (simp add: next_revision_def)
  ultimately show ?thesis using ge_wfD(2,6)[OF wf] by (simp add: ge_wf_def operations_ok_def next_revision_def)
qed

lemma graph_row_sel [simp]:
  "gg_graph_id (graph_row c d now i) = i" "gg_project (graph_row c d now i) = gc_project c" "gg_name (graph_row c d now i) = gd_name d"
  "gg_latest_revision (graph_row c d now i) = 1"
  by (simp_all add: graph_row_def)

lemma first_revision_history:
  assumes wf: "ge_wf sha db" and i: "tget (g_graphs db) (t, i) = None" and n: "graph_named t (gc_project c) (gd_name d) db = None"
  shows "history (first_revision sha t c d now i db) t' p' n' =
    (if (t', p', n') = (t, gc_project c, gd_name d) then [gd_source d] else history db t' p' n')"
proof -
  let ?db = "first_revision sha t c d now i db"
  have wf': "ge_wf sha ?db" by (rule first_revision_wf[OF assms])
  have G: "tget (g_graphs ?db) k = (if k = (t, i) then Some (graph_row c d now i) else tget (g_graphs db) k)" for k
    using i by (simp add: first_revision_def tget_append_fresh del: tget_append_single)
  have R: "tget (g_revisions ?db) k = (if k = (t, i, 1) then Some (revision_row sha d now i 1) else tget (g_revisions db) k)" for k
    using no_revisions[OF wf i] by (simp add: first_revision_def tget_append_fresh del: tget_append_single)
  show ?thesis
  proof (cases "(t', p', n') = (t, gc_project c, gd_name d)")
    case True
    have "graph_named t (gc_project c) (gd_name d) ?db = Some (graph_row c d now i)"
      by (simp add: graph_named_iff[OF wf'] G)
    then show ?thesis using True by (simp add: history_def source_at_def R revision_row_def)
  next
    case False
    have named: "graph_named t' p' n' ?db = Some g \<longleftrightarrow> graph_named t' p' n' db = Some g" for g
      using False i unfolding graph_named_iff[OF wf'] graph_named_iff[OF wf] G
      by (auto dest: arg_cong[where f = gg_project] arg_cong[where f = gg_name])
    then have same: "graph_named t' p' n' ?db = graph_named t' p' n' db" by (metis not_None_eq)
    have "tget (g_revisions ?db) (t', gg_graph_id g, k) = tget (g_revisions db) (t', gg_graph_id g, k)"
      if "graph_named t' p' n' db = Some g" for g k
      using that i unfolding graph_named_iff[OF wf] R by auto
    then show ?thesis using history_same[OF same] False by auto
  qed
qed

lemma next_revision_history:
  assumes wf: "ge_wf sha db" and n: "graph_named t p n db = Some g"
  shows "history (next_revision sha t d g now db) t' p' n' =
    (if (t', p', n') = (t, p, n) then history db t p n @ [gd_source d] else history db t' p' n')"
proof -
  let ?db = "next_revision sha t d g now db" and ?i = "gg_graph_id g" and ?m = "Suc (gg_latest_revision g)"
  let ?g = "g\<lparr>gg_description := gd_description d, gg_latest_revision := ?m, gg_updated_at := now\<rparr>"
  have g: "tget (g_graphs db) (t, ?i) = Some g" "gg_project g = p" "gg_name g = n" using n by (simp_all add: graph_named_iff[OF wf])
  have wf': "ge_wf sha ?db" by (rule next_revision_wf[OF wf g(1)])
  have G: "tget (g_graphs ?db) k = (if k = (t, ?i) then Some ?g else tget (g_graphs db) k)" for k
    by (simp add: next_revision_def)
  have R: "tget (g_revisions ?db) k = (if k = (t, ?i, ?m) then Some (revision_row sha d now ?i ?m) else tget (g_revisions db) k)" for k
    using no_next_revision[OF wf g(1)] by (simp add: next_revision_def tget_append_fresh del: tget_append_single)
  show ?thesis
  proof (cases "(t', p', n') = (t, p, n)")
    case True
    have "graph_named t p n ?db = Some ?g" using g(2,3) by (simp add: graph_named_iff[OF wf'] G)
    moreover have "source_at ?db t ?i k = source_at db t ?i k" if "k \<in> {1..<?m}" for k using that by (simp add: source_at_def R)
    moreover have "source_at ?db t ?i ?m = gd_source d" by (simp add: source_at_def R revision_row_def)
    ultimately show ?thesis using True n by (auto simp: history_def upt_Suc)
  next
    case False
    have same: "graph_named t' p' n' ?db = graph_named t' p' n' db"
    proof (cases "graph_named t' p' n' db")
      case None
      then have "graph_named t' p' n' ?db = None" using False g
        unfolding graph_named_None[OF ge_wfD(1)[OF wf]] graph_named_None[OF ge_wfD(1)[OF wf']] G by auto
      then show ?thesis using None by simp
    next
      case (Some h)
      then have "(t', gg_graph_id h) \<noteq> (t, ?i)" using False g unfolding graph_named_iff[OF wf] by auto
      then have "graph_named t' p' n' ?db = Some h" using Some unfolding graph_named_iff[OF wf] graph_named_iff[OF wf'] G by auto
      then show ?thesis using Some by simp
    qed
    have "tget (g_revisions ?db) (t', gg_graph_id h, k) = tget (g_revisions db) (t', gg_graph_id h, k)"
      if "graph_named t' p' n' db = Some h" for h k
      using that False g unfolding graph_named_iff[OF wf] R by auto
    then show ?thesis using history_same[OF same] False by auto
  qed
qed

section \<open>The specification\<close>

text \<open>
  What applying a source to a name's history promises: refused when late; refused unless the
  expected version, where there is one, is the number of revisions; otherwise the source
  becomes the next revision, unless it is (by digest) the latest already.
\<close>

datatype apply_outcome = Late | Stale "nat option" | Applied nat bool

definition spec_apply ::
  "(string \<Rightarrow> string) \<Rightarrow> int \<Rightarrow> int option \<Rightarrow> json option \<Rightarrow> string \<Rightarrow> string list \<Rightarrow> apply_outcome \<times> string list" where
  "spec_apply sha now deadline expected source h =
     (if (case deadline of Some t \<Rightarrow> t < now | None \<Rightarrow> False) then (Late, h)
      else if (case expected of Some v \<Rightarrow> h = [] \<or> \<not> is_number v (length h) | None \<Rightarrow> False)
      then (Stale (if h = [] then None else Some (length h)), h)
      else if h \<noteq> [] \<and> sha (last h) = sha source then (Applied (length h) False, h)
      else (Applied (Suc (length h)) True, h @ [source]))"

lemma spec_applied:
  assumes "spec_apply sha now deadline expected source h = (Applied k created, h')"
  shows "\<not> (case deadline of Some t \<Rightarrow> t < now | None \<Rightarrow> False)"
    "\<not> (case expected of Some v \<Rightarrow> h = [] \<or> \<not> is_number v (length h) | None \<Rightarrow> False)"
    "if h \<noteq> [] \<and> sha (last h) = sha source then k = length h \<and> \<not> created \<and> h' = h else k = Suc (length h) \<and> created \<and> h' = h @ [source]"
  using assms by (auto simp: spec_apply_def split: if_splits)

lemma stale_history:
  assumes "ge_wf sha db"
  shows "stale_version expected (graph_named t p n db) = (case expected of Some v \<Rightarrow> history db t p n = [] \<or> \<not> is_number v (length (history db t p n)) | None \<Rightarrow> False)"
    "map_option gg_latest_revision (graph_named t p n db) = (if history db t p n = [] then None else Some (length (history db t p n)))"
  using history_Some[OF assms] history_None[of t p n db]
  by (cases "graph_named t p n db"; auto simp: stale_version_def split: option.splits)+

text \<open>An accepted definition: where it is now, and the database that has it.\<close>

lemma accept_graph_applied:
  assumes wf: "ge_wf sha db" and r: "tget (g_receipts db) (t, gc_project c, gc_command_id c) = None"
    and op: "tget (g_operations db) (t, ge_id ''op'' (gw_op w)) = None"
    and new: "graph_named t (gc_project c) (gd_name d) db = None \<Longrightarrow> tget (g_graphs db) (t, ge_id ''graph'' (gw_graph w)) = None"
    and spec: "spec_apply sha (gw_now w) deadline expected (gd_source d) (history db t (gc_project c) (gd_name d)) = (Applied k created, h')"
  obtains gid db1 where
    "accept_graph sha t c d expected deadline w db = Inr (AcceptedGraph (gc_command_id c) (ge_id ''op'' (gw_op w)) gid,
       noted t c (gid, k) created (gw_now w) (ge_id ''op'' (gw_op w)) db1)"
    "ge_wf sha db1" "g_receipts db1 = g_receipts db" "g_operations db1 = g_operations db"
    "\<And>t' p' n'. history db1 t' p' n' = (if (t', p', n') = (t, gc_project c, gd_name d) then h' else history db t' p' n')"
    "\<exists>g. graph_named t (gc_project c) (gd_name d) db1 = Some g \<and> gg_graph_id g = gid \<and> gg_latest_revision g = k"
proof -
  let ?p = "gc_project c" and ?n = "gd_name d" and ?op = "ge_id ''op'' (gw_op w)"
  let ?h = "history db t ?p ?n" and ?g = "graph_named t ?p ?n db"
  have pre: "\<not> (case deadline of Some x \<Rightarrow> x < gw_now w | None \<Rightarrow> False)" "\<not> stale_version expected ?g"
    using spec_applied(1,2)[OF spec] by (simp_all add: stale_history(1)[OF wf])
  have acc: "accept_graph sha t c d expected deadline w db =
      sbind (write_graph t c d ?g (latest_digest t ?g db \<noteq> Some (sha (gd_source d))) (gw_now w) (gw_graph w) db) (\<lambda>(at_rev, db1).
      sbind (write_revision sha t d at_rev (latest_digest t ?g db \<noteq> Some (sha (gd_source d))) (gw_now w) db1) (\<lambda>db2.
      sbind (write_operation t c at_rev (latest_digest t ?g db \<noteq> Some (sha (gd_source d))) (gw_now w) ?op db2) (\<lambda>db3.
      sbind (record_receipt t c (AcceptedGraph (gc_command_id c) ?op (fst at_rev)) (gw_now w) db3)
        (\<lambda>db4. Inr (AcceptedGraph (gc_command_id c) ?op (fst at_rev), db4)))))"
    unfolding accept_graph_def Let_def using pre by simp
  have dig: "latest_digest t ?g db = (if ?h = [] then None else Some (sha (last ?h)))" by (rule latest_digest_history[OF wf])
  show thesis
  proof (cases ?g)
    case None
    note fresh = new[OF None]
    let ?i = "ge_id ''graph'' (gw_graph w)" and ?db1 = "first_revision sha t c d (gw_now w) (ge_id ''graph'' (gw_graph w)) db"
    have out: "k = 1" "created" "h' = [gd_source d]" using spec_applied(3)[OF spec] history_None[OF None] by simp_all
    have w1: "write_graph t c d ?g True (gw_now w) (gw_graph w) db = Inr ((?i, 1), db\<lparr>g_graphs := g_graphs db @ [((t, ?i), graph_row c d (gw_now w) ?i)]\<rparr>)"
      using None fresh by (simp add: write_graph_def tinsert_def tget_None_iff Let_def)
    have w2: "write_revision sha t d (?i, 1) True (gw_now w) (db\<lparr>g_graphs := g_graphs db @ [((t, ?i), graph_row c d (gw_now w) ?i)]\<rparr>) = Inr ?db1"
      using no_revisions[OF wf fresh, of 1] by (simp add: write_revision_def tinsert_def tget_None_iff first_revision_def)
    have wf1: "ge_wf sha ?db1" by (rule first_revision_wf[OF wf fresh None])
    have frame: "g_receipts ?db1 = g_receipts db" "g_operations ?db1 = g_operations db" by (simp_all add: first_revision_def)
    have "accept_graph sha t c d expected deadline w db = Inr (AcceptedGraph (gc_command_id c) ?op ?i, noted t c (?i, 1) True (gw_now w) ?op ?db1)"
      using acc w1 w2 dig history_None[OF None] note_ok[OF ge_wfD(2)[OF wf1] ge_wfD(6)[OF wf1], of t c ?op "(?i, 1)" True "gw_now w"] r op frame by simp
    moreover have "graph_named t ?p ?n ?db1 = Some (graph_row c d (gw_now w) ?i)"
      using fresh by (simp add: graph_named_iff[OF wf1]) (simp add: first_revision_def graph_row_def tget_append_fresh del: tget_append_single)
    ultimately show ?thesis using out wf1 frame first_revision_history[OF wf fresh None]
      by (intro that[of ?i ?db1]) (auto simp: graph_row_def)
  next
    case (Some g)
    have h: "?h \<noteq> []" "length ?h = gg_latest_revision g" using history_Some[OF wf Some] by simp_all
    have g: "tget (g_graphs db) (t, gg_graph_id g) = Some g" using Some graph_named_iff[OF wf] by blast
    show ?thesis
    proof (cases "sha (last ?h) = sha (gd_source d)")
      case True
      have out: "k = gg_latest_revision g" "\<not> created" "h' = ?h" using spec_applied(3)[OF spec] h True by simp_all
      have "accept_graph sha t c d expected deadline w db =
          Inr (AcceptedGraph (gc_command_id c) ?op (gg_graph_id g), noted t c (gg_graph_id g, gg_latest_revision g) False (gw_now w) ?op db)"
        using acc dig h True Some note_ok[OF ge_wfD(2)[OF wf] ge_wfD(6)[OF wf] r op, of "(gg_graph_id g, gg_latest_revision g)" False "gw_now w"]
        by (simp add: write_graph_def write_revision_def)
      then show ?thesis using out wf Some by (intro that[of "gg_graph_id g" db]) auto
    next
      case False
      let ?db1 = "next_revision sha t d g (gw_now w) db" and ?m = "Suc (gg_latest_revision g)"
      have out: "k = ?m" "created" "h' = ?h @ [gd_source d]" using spec_applied(3)[OF spec] h False by simp_all
      have wf1: "ge_wf sha ?db1" by (rule next_revision_wf[OF wf g])
      have frame: "g_receipts ?db1 = g_receipts db" "g_operations ?db1 = g_operations db" by (simp_all add: next_revision_def)
      have "accept_graph sha t c d expected deadline w db =
          Inr (AcceptedGraph (gc_command_id c) ?op (gg_graph_id g), noted t c (gg_graph_id g, ?m) True (gw_now w) ?op ?db1)"
        using acc dig h False Some no_next_revision[OF wf g] r op frame
          note_ok[OF ge_wfD(2)[OF wf1] ge_wfD(6)[OF wf1], of t c ?op "(gg_graph_id g, ?m)" True "gw_now w"]
        by (simp add: write_graph_def write_revision_def tinsert_def tget_None_iff next_revision_def)
      moreover have "graph_named t ?p ?n ?db1 = Some (g\<lparr>gg_description := gd_description d, gg_latest_revision := ?m, gg_updated_at := gw_now w\<rparr>)"
        using Some by (simp add: graph_named_iff[OF wf1] graph_named_iff[OF wf]) (simp add: next_revision_def)
      ultimately show ?thesis using out wf1 frame next_revision_history[OF wf Some]
        by (intro that[of "gg_graph_id g" ?db1]) auto
    qed
  qed
qed

section \<open>Transactions\<close>

text \<open>A definition is accepted only where the identifiers drawn are new.\<close>

lemma accept_graph_fresh:
  assumes "accept_graph sha t c d expected deadline w db = Inr (r, db')"
  shows "tget (g_operations db) (t, ge_id ''op'' (gw_op w)) = None"
    "graph_named t (gc_project c) (gd_name d) db = None \<Longrightarrow> tget (g_graphs db) (t, ge_id ''graph'' (gw_graph w)) = None"
    "\<not> (case deadline of Some x \<Rightarrow> x < gw_now w | None \<Rightarrow> False)" "\<not> stale_version expected (graph_named t (gc_project c) (gd_name d) db)"
  using assms
  by (auto simp: accept_graph_def Let_def sbind_eq_Inr write_graph_def write_revision_def write_operation_def tinsert_Some_iff
      split: if_splits option.splits)

lemma accept_graph_effect:
  assumes wf: "ge_wf sha db" and r: "tget (g_receipts db) (t, gc_project c, gc_command_id c) = None"
    and acc: "accept_graph sha t c d expected deadline w db = Inr (r, db')"
  obtains gid k created db1 h' where "r = AcceptedGraph (gc_command_id c) (ge_id ''op'' (gw_op w)) gid"
    "db' = noted t c (gid, k) created (gw_now w) (ge_id ''op'' (gw_op w)) db1" "ge_wf sha db1"
    "g_receipts db1 = g_receipts db" "g_operations db1 = g_operations db"
    "spec_apply sha (gw_now w) deadline expected (gd_source d) (history db t (gc_project c) (gd_name d)) = (Applied k created, h')"
    "tget (g_operations db) (t, ge_id ''op'' (gw_op w)) = None"
proof -
  note fr = accept_graph_fresh[OF acc]
  obtain k created h' where spec: "spec_apply sha (gw_now w) deadline expected (gd_source d) (history db t (gc_project c) (gd_name d)) = (Applied k created, h')"
    using fr(3,4)
    by (cases "history db t (gc_project c) (gd_name d) \<noteq> [] \<and> sha (last (history db t (gc_project c) (gd_name d))) = sha (gd_source d)")
      (auto simp: spec_apply_def stale_history[OF wf])
  show thesis
    by (rule accept_graph_applied[OF wf r fr(1,2) spec]) (use acc spec fr(1) that in auto)
qed

lemma receipt_of_None: "receipt_of t c db = Inr None \<longleftrightarrow> tget (g_receipts db) (t, gc_project c, gc_command_id c) = None"
  by (auto simp: receipt_of_def split: option.splits)

lemma store_apply_cases:
  assumes "store_apply sha t c d expected deadline w db = (res, db')"
  obtains (stored) r where "receipt_of t c db = Inr (Some r)" "res = Inr r" "db' = db"
  | (accepted) r where "tget (g_receipts db) (t, gc_project c, gc_command_id c) = None" "res = Inr r"
      "accept_graph sha t c d expected deadline w db = Inr (r, db')"
  | (failed) e where "res = Inl e" "db' = db"
proof (cases "receipt_of t c db")
  case (Inl e)
  then show ?thesis using assms by (intro failed[of e]) (auto simp: store_apply_def run_tx_def)
next
  case (Inr x)
  show ?thesis
  proof (cases x)
    case (Some r)
    then show ?thesis using assms Inr by (intro stored[of r]) (auto simp: store_apply_def run_tx_def)
  next
    case None
    show ?thesis
    proof (cases "accept_graph sha t c d expected deadline w db")
      case (Inl e)
      then show ?thesis using assms Inr None by (intro failed[of e]) (auto simp: store_apply_def run_tx_def)
    next
      case (Inr p)
      then show ?thesis using assms None \<open>receipt_of t c db = Inr x\<close>
        by (intro accepted[of "fst p"]) (auto simp: store_apply_def run_tx_def receipt_of_None split: prod.splits)
    qed
  qed
qed

lemma store_reject_cases:
  assumes "store_reject t c response now db = (res, db')"
  obtains (stored) r where "receipt_of t c db = Inr (Some r)" "res = Inr r" "db' = db"
  | (recorded) "tget (g_receipts db) (t, gc_project c, gc_command_id c) = None" "res = Inr response"
      "db' = db\<lparr>g_receipts := g_receipts db @ [((t, gc_project c, gc_command_id c), receipt_row c response now)]\<rparr>"
  | (failed) e where "res = Inl e" "db' = db"
proof (cases "receipt_of t c db")
  case (Inl e)
  then show ?thesis using assms by (intro failed[of e]) (auto simp: store_reject_def run_tx_def)
next
  case (Inr x)
  show ?thesis
  proof (cases x)
    case (Some r)
    then show ?thesis using assms Inr by (intro stored[of r]) (auto simp: store_reject_def run_tx_def)
  next
    case None
    then have "tget (g_receipts db) (t, gc_project c, gc_command_id c) = None" using Inr by (simp add: receipt_of_None)
    moreover from this have "record_receipt t c response now db
        = Inr (db\<lparr>g_receipts := g_receipts db @ [((t, gc_project c, gc_command_id c), receipt_row c response now)]\<rparr>)"
      by (simp add: record_receipt_def tinsert_def tget_None_iff)
    ultimately show ?thesis using assms Inr None by (intro recorded) (auto simp: store_reject_def run_tx_def)
  qed
qed

lemma store_apply_wf: "ge_wf sha db \<Longrightarrow> store_apply sha t c d expected deadline w db = (res, db') \<Longrightarrow> ge_wf sha db'"
proof (erule store_apply_cases)
  fix r
  assume wf: "ge_wf sha db" and new: "tget (g_receipts db) (t, gc_project c, gc_command_id c) = None"
    and acc: "accept_graph sha t c d expected deadline w db = Inr (r, db')"
  from wf new acc show "ge_wf sha db'" by (rule accept_graph_effect) (use new noted_wf in auto)
qed auto

lemma store_reject_wf: "ge_wf sha db \<Longrightarrow> store_reject t c response now db = (res, db') \<Longrightarrow> ge_wf sha db'"
proof (erule store_reject_cases)
  assume "ge_wf sha db" "tget (g_receipts db) (t, gc_project c, gc_command_id c) = None"
    "db' = db\<lparr>g_receipts := g_receipts db @ [((t, gc_project c, gc_command_id c), receipt_row c response now)]\<rparr>"
  then show "ge_wf sha db'"
    by (simp add: ge_wf_def graphs_ok_def revisions_ok_def names_ok_def operations_ok_def tget_append_fresh del: tget_append_single)
qed auto

end
