(* ===== verification/Registry_Commands.thy ===== *)
theory Registry_Commands
  imports Graph_Registry Graph_Store_Inv Idempotent
begin

text \<open>
  The registry's command over time: its reply is recorded with what it did, so a retry gets it
  again whatever happened in between, and the store's invariant holds in every state the
  registry reaches.
\<close>

section \<open>One command\<close>

text \<open>Whether a request can be refused or stored at all does not depend on the clock.\<close>

lemma apply_refusal_None: "apply_refusal env body now = None \<Longrightarrow> apply_refusal env body now' = None"
  by (auto simp: apply_refusal_def Let_def split: option.splits if_splits)

lemma store_apply_stored: "receipt_of t c db = Inr (Some r) \<Longrightarrow> store_apply sha t c d expected deadline w db = (Inr r, db)"
  by (simp add: store_apply_def run_tx_def)

lemma store_reject_stored: "receipt_of t c db = Inr (Some r) \<Longrightarrow> store_reject t c x now db = (Inr r, db)"
  by (simp add: store_reject_def run_tx_def)

lemma receipt_recorded:
  "tget (g_receipts db) (t, gc_project c, gc_command_id c) = None \<Longrightarrow>
     g_receipts db' = g_receipts db @ [((t, gc_project c, gc_command_id c), receipt_row c r now)] \<Longrightarrow> receipt_of t c db' = Inr (Some r)"
  by (simp add: receipt_of_def receipt_row_def)

lemma accept_graph_steps:
  assumes "accept_graph sha t c d expected deadline w db = Inr (r, db')"
  obtains g created a op_id db1 db2 db3 where "write_graph t c d g created (gw_now w) (gw_graph w) db = Inr (a, db1)"
    "write_revision sha t d a created (gw_now w) db1 = Inr db2" "write_operation t c a created (gw_now w) op_id db2 = Inr db3"
    "record_receipt t c r (gw_now w) db3 = Inr db'"
proof -
  let ?g = "graph_named t (gc_project c) (gd_name d) db"
  let ?created = "latest_digest t ?g db \<noteq> Some (sha (gd_source d))"
  have "\<exists>a db1 db2 db3. write_graph t c d ?g ?created (gw_now w) (gw_graph w) db = Inr (a, db1) \<and>
      write_revision sha t d a ?created (gw_now w) db1 = Inr db2 \<and> write_operation t c a ?created (gw_now w) (ge_id ''op'' (gw_op w)) db2 = Inr db3 \<and>
      record_receipt t c r (gw_now w) db3 = Inr db'"
    using assms unfolding accept_graph_def Let_def by (auto simp: sbind_eq_Inr split: if_split_asm)
  then show thesis using that by blast
qed

lemma write_frames:
  "write_graph t c d g created now uuid db = Inr (a, db1) \<Longrightarrow> g_receipts db1 = g_receipts db \<and> g_revisions db1 = g_revisions db"
  "write_operation t c a created now k db = Inr db1 \<Longrightarrow> g_receipts db1 = g_receipts db \<and> g_revisions db1 = g_revisions db"
  "record_receipt t c r now db = Inr db1 \<Longrightarrow> g_revisions db1 = g_revisions db
     \<and> g_receipts db1 = g_receipts db @ [((t, gc_project c, gc_command_id c), receipt_row c r now)]"
  by (auto simp: write_graph_def write_operation_def record_receipt_def tinsert_Some_iff Let_def split: option.splits if_splits)

lemma write_revision_frame:
  "write_revision sha t d a created now db = Inr db1 \<Longrightarrow> g_receipts db1 = g_receipts db \<and> (g_revisions db1 = g_revisions db \<or>
     (\<exists>k x. g_revisions db1 = g_revisions db @ [(k, x)] \<and> tget (g_revisions db) k = None \<and> gr_source x = gd_source d \<and> gr_format x = gd_format d))"
  by (auto simp: write_revision_def tinsert_Some_iff revision_row_def split: option.splits if_splits prod.splits)

lemma accept_graph_receipt:
  assumes "accept_graph sha t c d expected deadline w db = Inr (r, db')"
  shows "g_receipts db' = g_receipts db @ [((t, gc_project c, gc_command_id c), receipt_row c r (gw_now w))]"
  using assms by (rule accept_graph_steps) (simp add: write_frames write_revision_frame)

lemma store_apply_commits:
  assumes "store_apply sha t c d expected deadline w db = (Inr r, db')"
  shows "receipt_of t c db' = Inr (Some r) \<and> (db' = db \<or> (\<exists>x. g_receipts db' = g_receipts db @ [x]))"
  using assms
proof (cases rule: store_apply_cases)
  case (accepted x)
  then show ?thesis using receipt_recorded[OF accepted(1) accept_graph_receipt[OF accepted(3)]] accept_graph_receipt[OF accepted(3)] by auto
qed auto

lemma store_reject_commits:
  assumes "store_reject t c x now db = (Inr r, db')"
  shows "receipt_of t c db' = Inr (Some r) \<and> (db' = db \<or> (\<exists>x. g_receipts db' = g_receipts db @ [x]))"
  using assms by (cases rule: store_reject_cases) (auto intro: receipt_recorded)

lemma reject_command_Inr:
  "reject_command rq c e w db = (Inr r, db') \<Longrightarrow>
     \<exists>t. scoped_store rq = Inr t \<and> store_reject t c (RejectedGraph (gc_command_id c) e) (gw_rejected w) db = (Inr r, db')"
  by (auto simp: reject_command_def map_sum_def apfst_def map_prod_def split: sum.splits prod.splits)

lemma reject_command_Inl: "reject_command rq c e w db = (Inl x, db') \<Longrightarrow> db' = db"
  by (auto simp: reject_command_def map_sum_def apfst_def map_prod_def split: sum.splits prod.splits elim: store_reject_cases)

text \<open>What \<open>_apply\<close> did: a rejection recorded or a definition stored, or nothing.\<close>

lemma apply_command_cases:
  assumes "apply_command env w rq c db = (res, db')"
  obtains (raised) e where "res = Inl e" "db' = db"
  | (rejected) t r e where "scoped_store rq = Inr t" "res = Inr r" "apply_refusal env (mr_body rq) (gw_sized w) \<noteq> None"
      "store_reject t c (RejectedGraph (gc_command_id c) e) (gw_rejected w) db = (Inr r, db')"
  | (applied) t r d where "scoped_store rq = Inr t" "res = Inr r" "apply_refusal env (mr_body rq) (gw_sized w) = Some (Inr d)"
      "store_apply (ge_sha env) t c d (expected_of (mr_body rq)) (deadline_of env (mr_body rq)) w db = (Inr r, db')"
proof (cases "apply_refusal env (mr_body rq) (gw_sized w)")
  case None
  then show ?thesis using assms by (intro raised) (auto simp: apply_command_def)
next
  case (Some x)
  have rej: thesis if "reject_command rq c e w db = (res, db')" for e
    using that reject_command_Inl[of rq c e w db] reject_command_Inr[of rq c e w db] raised rejected Some by (cases res) blast+
  show ?thesis
  proof (cases x)
    case (Inl e)
    then show ?thesis using assms Some by (intro rej[of e]) (simp add: apply_command_def)
  next
    case (Inr d)
    show ?thesis
    proof (cases "scoped_store rq")
      case (Inl f)
      then show ?thesis using assms Some Inr by (intro raised) (auto simp: apply_command_def)
    next
      case scoped: (Inr t)
      obtain out db1 where st: "store_apply (ge_sha env) t c d (expected_of (mr_body rq)) (deadline_of env (mr_body rq)) w db = (out, db1)"
        by (cases "store_apply (ge_sha env) t c d (expected_of (mr_body rq)) (deadline_of env (mr_body rq)) w db")
      show ?thesis
      proof (cases out)
        case (Inr r)
        then show ?thesis using assms Some \<open>x = Inr d\<close> scoped st by (intro applied[of t r d]) (auto simp: apply_command_def)
      next
        case (Inl e)
        then have same: "db1 = db" using st by (auto elim: store_apply_cases)
        show ?thesis
        proof (cases e)
          case (VersionConflict v n)
          then show ?thesis using assms Some \<open>x = Inr d\<close> scoped st Inl same
            by (intro rej[of "version_error env c d v n"]) (simp add: apply_command_def)
        next
          case (DeadlineExceeded a b)
          then show ?thesis using assms Some \<open>x = Inr d\<close> scoped st Inl same
            by (intro rej[of "deadline_error env (mr_body rq) a b"]) (simp add: apply_command_def)
        qed (use assms Some \<open>x = Inr d\<close> scoped st Inl same in \<open>auto intro: raised simp: apply_command_def\<close>)
      qed
    qed
  qed
qed

section \<open>Redelivery\<close>

text \<open>The reply on record for exactly this request.\<close>

definition stored_reply :: "ge_env \<Rightarrow> msg_request \<times> ge_command \<Rightarrow> ge_db \<Rightarrow> ge_response option" where
  "stored_reply env q db = (case scoped_store (fst q) of
     Inr t \<Rightarrow> if apply_refusal env (mr_body (fst q)) 0 \<noteq> None
       then (case receipt_of t (snd q) db of Inr r \<Rightarrow> r | Inl _ \<Rightarrow> None) else None
   | Inl _ \<Rightarrow> None)"

definition ge_receipts_kept :: "ge_db \<Rightarrow> ge_db \<Rightarrow> bool" where
  "ge_receipts_kept db db' \<longleftrightarrow> (\<forall>k r. tget (g_receipts db) k = Some r \<longrightarrow> tget (g_receipts db') k = Some r)"

lemma ge_receipts_kept_append: "g_receipts db' = g_receipts db @ [x] \<Longrightarrow> ge_receipts_kept db db'"
  by (cases x) (simp add: ge_receipts_kept_def)

lemma ge_receipts_kept_refl [simp]: "ge_receipts_kept db db"
  by (simp add: ge_receipts_kept_def)

lemma ge_receipts_kept_trans: "ge_receipts_kept a b \<Longrightarrow> ge_receipts_kept b c \<Longrightarrow> ge_receipts_kept a c"
  by (simp add: ge_receipts_kept_def)

lemma receipt_of_kept: "ge_receipts_kept db db' \<Longrightarrow> receipt_of t c db = Inr (Some r) \<Longrightarrow> receipt_of t c db' = Inr (Some r)"
  by (auto simp: ge_receipts_kept_def receipt_of_def split: option.splits if_splits)

lemma apply_command_stored:
  assumes "scoped_store rq = Inr t" and "apply_refusal env (mr_body rq) 0 \<noteq> None" and "receipt_of t c db = Inr (Some r)"
  shows "apply_command env w rq c db = (Inr r, db)"
proof -
  have "apply_refusal env (mr_body rq) (gw_sized w) \<noteq> None" using assms(2) by (metis apply_refusal_None)
  then show ?thesis using assms(1,3)
    by (auto simp: apply_command_def reject_command_def store_apply_stored store_reject_stored split: sum.splits)
qed

definition apply_request :: "ge_env \<Rightarrow> ge_draw \<Rightarrow> msg_request \<times> ge_command \<Rightarrow> ge_db \<Rightarrow> (registry_exn + ge_response) \<times> ge_db" where
  "apply_request env w q db = apply_command env w (fst q) (snd q) db"

interpretation registry_receiver: idempotent_receiver "apply_request env" "stored_reply env" ge_receipts_kept for env
proof unfold_locales
  fix q db r w
  assume s: "stored_reply env q db = Some r"
  then obtain t where "scoped_store (fst q) = Inr t" "apply_refusal env (mr_body (fst q)) 0 \<noteq> None" "receipt_of t (snd q) db = Inr (Some r)"
    by (auto simp: stored_reply_def split: sum.splits if_splits)
  then show "apply_request env w q db = (Inr r, db)" by (simp add: apply_request_def apply_command_stored)
next
  fix w q db r db'
  assume "apply_request env w q db = (Inr r, db')"
  then have a: "apply_command env w (fst q) (snd q) db = (Inr r, db')" by (simp add: apply_request_def)
  note clock = apply_refusal_None[of env "mr_body (fst q)" 0 "gw_sized w"]
  from a show "db' = db \<or> stored_reply env q db' = Some r"
  proof (cases rule: apply_command_cases)
    case (rejected t x e)
    then show ?thesis using store_reject_commits[OF rejected(4)] clock by (auto simp: stored_reply_def)
  next
    case (applied t x d)
    then show ?thesis using store_apply_commits[OF applied(4)] clock by (auto simp: stored_reply_def)
  qed simp
next
  fix w q db e db'
  assume "apply_request env w q db = (Inl e, db')"
  then have "apply_command env w (fst q) (snd q) db = (Inl e, db')" by (simp add: apply_request_def)
  then show "db' = db" by (cases rule: apply_command_cases) auto
next
  fix db db' q r
  assume "ge_receipts_kept db db'" and "stored_reply env q db = Some r"
  then show "stored_reply env q db' = Some r"
    by (auto simp: stored_reply_def receipt_of_kept split: sum.splits if_splits)
qed

section \<open>Reachable states\<close>

inductive registry_steps :: "ge_env \<Rightarrow> ge_db \<Rightarrow> ge_db \<Rightarrow> bool" for env where
  start: "registry_steps env db db"
| step: "registry_steps env db0 db \<Longrightarrow> registry_steps env db0 (snd (registry_apply env w rq db))"

lemma registry_apply_db:
  "snd (registry_apply env w rq db) = db \<or> (\<exists>c. command_of env rq = Some c \<and> snd (registry_apply env w rq db) = snd (apply_command env w rq c db))"
  by (auto simp: registry_apply_def split: option.splits sum.splits prod.splits)

lemma apply_command_kept:
  assumes "apply_command env w rq c db = (res, db')"
  shows "ge_receipts_kept db db'"
  using assms
proof (cases rule: apply_command_cases)
  case (rejected t r e)
  then show ?thesis using store_reject_commits[OF rejected(4)] ge_receipts_kept_append by auto
next
  case (applied t r d)
  then show ?thesis using store_apply_commits[OF applied(4)] ge_receipts_kept_append by auto
qed simp

lemma apply_command_wf:
  assumes wf: "ge_wf (ge_sha env) db" and a: "apply_command env w rq c db = (res, db')"
  shows "ge_wf (ge_sha env) db'"
  using a
proof (cases rule: apply_command_cases)
  case (rejected t r e)
  show ?thesis by (rule store_reject_wf[OF wf rejected(4)])
next
  case (applied t r d)
  show ?thesis by (rule store_apply_wf[OF wf applied(4)])
qed (use wf in simp)

text \<open>A property of states that a command keeps holds in every state after it.\<close>

lemma registry_apply_keeps:
  assumes "\<And>c res db'. apply_command env w rq c db = (res, db') \<Longrightarrow> P db'" and "P db"
  shows "P (snd (registry_apply env w rq db))"
proof (cases "snd (registry_apply env w rq db) = db")
  case False
  then obtain c where "snd (registry_apply env w rq db) = snd (apply_command env w rq c db)" using registry_apply_db by blast
  then show ?thesis using assms(1)[of c "fst (apply_command env w rq c db)"] by simp
qed (use assms(2) in simp)

lemma registry_steps_wf:
  assumes "registry_steps env db0 db" and "ge_wf (ge_sha env) db0"
  shows "ge_wf (ge_sha env) db"
  using assms
proof (induction rule: registry_steps.induct)
  case (step db0 db w rq)
  have wf: "ge_wf (ge_sha env) db" by (rule step.IH[OF step.prems])
  show ?case by (rule registry_apply_keeps[where P = "ge_wf (ge_sha env)"]) (rule apply_command_wf[OF wf], assumption, rule wf)
qed simp

lemma registry_steps_kept:
  assumes "registry_steps env db0 db"
  shows "ge_receipts_kept db0 db"
  using assms
proof (induction rule: registry_steps.induct)
  case (step db0 db w rq)
  show ?case
    by (rule registry_apply_keeps[where P = "ge_receipts_kept db0"])
      (rule ge_receipts_kept_trans[OF step.IH apply_command_kept], assumption, rule step.IH)
qed simp

section \<open>Revisions\<close>

text \<open>Revisions are only added, and an added one holds the definition that was applied.\<close>

lemma accept_graph_revisions:
  assumes "accept_graph sha t c d expected deadline w db = Inr (r, db')"
  shows "g_revisions db' = g_revisions db \<or>
    (\<exists>k x. g_revisions db' = g_revisions db @ [(k, x)] \<and> tget (g_revisions db) k = None \<and> gr_source x = gd_source d \<and> gr_format x = gd_format d)"
  using assms
proof (rule accept_graph_steps)
  fix g created a op_id db1 db2 db3
  assume s: "write_graph t c d g created (gw_now w) (gw_graph w) db = Inr (a, db1)" "write_revision sha t d a created (gw_now w) db1 = Inr db2"
    "write_operation t c a created (gw_now w) op_id db2 = Inr db3" "record_receipt t c r (gw_now w) db3 = Inr db'"
  have "g_revisions db1 = g_revisions db" "g_revisions db' = g_revisions db2"
    using write_frames(1)[OF s(1)] write_frames(2)[OF s(3)] write_frames(3)[OF s(4)] by simp_all
  then show ?thesis using write_revision_frame[OF s(2)] by metis
qed

lemma apply_command_revisions:
  assumes "apply_command env w rq c db = (res, db')"
  shows "g_revisions db' = g_revisions db \<or> (\<exists>k x d. g_revisions db' = g_revisions db @ [(k, x)] \<and> tget (g_revisions db) k = None
    \<and> gr_source x = gd_source d \<and> gr_format x = gd_format d \<and> apply_refusal env (mr_body rq) (gw_sized w) = Some (Inr d))"
  using assms
proof (cases rule: apply_command_cases)
  case (rejected t r e)
  from rejected(4) show ?thesis by (cases rule: store_reject_cases) auto
next
  case (applied t r d)
  from applied(4) show ?thesis
  proof (cases rule: store_apply_cases)
    case (accepted x)
    then show ?thesis using accept_graph_revisions[OF accepted(3)] applied(3) by blast
  qed auto
qed simp

definition revisions_kept :: "ge_db \<Rightarrow> ge_db \<Rightarrow> bool" where
  "revisions_kept db db' \<longleftrightarrow> (\<forall>k r. tget (g_revisions db) k = Some r \<longrightarrow> tget (g_revisions db') k = Some r)"

lemma registry_steps_revisions:
  assumes "registry_steps env db0 db"
  shows "revisions_kept db0 db"
  using assms
proof (induction rule: registry_steps.induct)
  case (step db0 db w rq)
  have "revisions_kept db db'" if "apply_command env w rq c db = (res, db')" for c res db'
    using apply_command_revisions[OF that] by (auto simp: revisions_kept_def)
  then have "revisions_kept db (snd (registry_apply env w rq db))"
    by (rule registry_apply_keeps[where P = "revisions_kept db"]) (assumption, simp add: revisions_kept_def)
  then show ?case using step.IH by (simp add: revisions_kept_def)
qed (simp add: revisions_kept_def)

text \<open>What \<open>_apply\<close> checked before it stores a definition.\<close>

definition checked_source :: "ge_env \<Rightarrow> graph_revision \<Rightarrow> bool" where
  "checked_source env r \<longleftrightarrow> (\<exists>doc d now. gr_source r = ge_canonical env doc \<and> gr_format r = ''resource''
     \<and> validate_resource (ge_parser env) (ge_schema env) doc (Some ''Graph'') = [] \<and> graph_check (ge_parser env) doc = []
     \<and> gd_source d = gr_source r \<and> readable_size env now d \<le> MAX_RESULT_BYTES)"

lemma validated_graph:
  assumes "validate_resource pp sch doc (Some ''Graph'') = []"
  shows "graph_check pp doc = []"
proof -
  have "is_mapping doc" using assms by (auto simp: validate_resource_def split: if_splits)
  moreover from this have ok: "version_problems doc = []" "kind_problems (Some ''Graph'') doc = []"
    using assms by (auto simp: validate_resource_def Let_def split: option.splits if_splits)
  moreover have same: "\<not> other_kind (Some ''Graph'') doc" using ok(2) by (auto simp: kind_problems_def split: if_splits)
  moreover have "jget doc ''kind'' = Some (JStr ''Graph'')" using same by (simp add: other_kind_def wanted_kind_def)
  then have "found_kind doc = Some ''Graph''" by (simp add: found_kind_def KINDS_def GROUPS_def)
  ultimately show ?thesis using assms by (simp add: validate_resource_def)
qed

lemma apply_refusal_checked:
  assumes "apply_refusal env body now = Some (Inr d)"
  shows "\<exists>doc. definition_of env doc = Some d \<and> validate_resource (ge_parser env) (ge_schema env) doc (Some ''Graph'') = []
    \<and> readable_size env now d \<le> MAX_RESULT_BYTES"
  using assms by (auto simp: apply_refusal_def Let_def not_less split: option.splits if_splits)

lemma definition_of_source: "definition_of env doc = Some d \<Longrightarrow> gd_source d = ge_canonical env doc \<and> gd_format d = ''resource''"
  by (auto simp: definition_of_def split: option.splits json.splits)

lemma registry_steps_checked:
  assumes "registry_steps env db0 db" and "\<forall>k r. tget (g_revisions db0) k = Some r \<longrightarrow> checked_source env r"
  shows "\<forall>k r. tget (g_revisions db) k = Some r \<longrightarrow> checked_source env r"
  using assms
proof (induction rule: registry_steps.induct)
  case (step db0 db w rq)
  have old: "\<forall>k r. tget (g_revisions db) k = Some r \<longrightarrow> checked_source env r" using step by simp
  have new: "checked_source env x" if row: "gr_source x = gd_source d" "gr_format x = gd_format d"
      "apply_refusal env (mr_body rq) (gw_sized w) = Some (Inr d)" for x d
  proof -
    obtain doc where doc: "definition_of env doc = Some d" "validate_resource (ge_parser env) (ge_schema env) doc (Some ''Graph'') = []"
        "readable_size env (gw_sized w) d \<le> MAX_RESULT_BYTES"
      using apply_refusal_checked[OF row(3)] by blast
    have "gr_source x = ge_canonical env doc" "gr_format x = ''resource''" using definition_of_source[OF doc(1)] row(1,2) by simp_all
    then show ?thesis unfolding checked_source_def using doc(2,3) validated_graph[OF doc(2)] row(1)
      by (intro exI[of _ doc] exI[of _ d] exI[of _ "gw_sized w"]) simp
  qed
  show ?case
  proof (rule registry_apply_keeps)
    fix c res db'
    assume a: "apply_command env w rq c db = (res, db')"
    show "\<forall>k r. tget (g_revisions db') k = Some r \<longrightarrow> checked_source env r"
    proof (cases "g_revisions db' = g_revisions db")
      case True
      then show ?thesis using old by simp
    next
      case False
      then obtain k x d where n: "g_revisions db' = g_revisions db @ [(k, x)]" "tget (g_revisions db) k = None" "gr_source x = gd_source d"
          "gr_format x = gd_format d" "apply_refusal env (mr_body rq) (gw_sized w) = Some (Inr d)"
        using apply_command_revisions[OF a] by blast
      have "checked_source env x" by (rule new[OF n(3-5)])
      then show ?thesis using old unfolding n(1) tget_append_fresh[OF n(2)] by simp
    qed
  qed (rule old)
qed simp

end
