(* ===== verification/Registry_Properties.thy ===== *)
theory Registry_Properties
  imports Registry_Commands
begin

text \<open>
  What the graph registry promises its callers: retries are answered alike, applying refines the
  history of sources a name has, only checked graphs are kept and no revision ever changes,
  and the pages of a listing add up to the whole.
\<close>

section \<open>Commands\<close>

text \<open>
  A \<open>graphs.apply\<close> that changed anything is answered the same way ever after. Whatever
  other commands the registry served in between, the same request gets the same reply, an acceptance or
  the error of a rejection, and changes nothing.
\<close>

lemma registry_redelivered:
  assumes "registry_apply env w rq db = (reply, db1)" and "db1 \<noteq> db" and "registry_steps env db1 db2"
  shows "registry_apply env w' rq db2 = (reply, db2)"
proof -
  obtain c where c: "command_of env rq = Some c" using assms(1,2) by (auto simp: registry_apply_def split: option.splits)
  obtain u where auth: "ge_authorize env rq (gc_project c) = Inr u"
    using assms(1,2) c by (auto simp: registry_apply_def split: sum.splits)
  obtain res db' where a: "apply_command env w rq c db = (res, db')" by (cases "apply_command env w rq c db")
  have run: "registry_apply env w rq db = (case res of Inl e \<Rightarrow> Inl (conflict_fault e) | Inr r \<Rightarrow> response_json r, db')"
    using c auth a by (cases res) (simp_all add: registry_apply_def)
  then have db1: "db1 = db'" using assms(1) by simp
  then have h: "apply_request env w (rq, c) db = (res, db1)" using a by (simp add: apply_request_def)
  obtain r where r: "res = Inr r" using registry_receiver.changed_once[OF h assms(2)] by blast
  have "apply_request env w' (rq, c) db2 = (Inr r, db2)"
    using registry_receiver.redelivered[OF h[unfolded r] assms(2) registry_steps_kept[OF assms(3)]] .
  then show ?thesis using c auth run r assms(1) by (simp add: registry_apply_def apply_request_def)
qed

section \<open>Refinement\<close>

text \<open>
  C37: the store implements the specification of a name's history. For a command without a
  receipt and new identifiers, \<open>apply\<close> reports exactly the specification's outcome: late, stale
  with the actual version, or the revision it is now, with whether it was created; the history of
  that name becomes the specification's and every other history stays; and the invariant holds again.
\<close>

theorem store_refines:
  assumes wf: "ge_wf sha db" and new: "tget (g_receipts db) (t, gc_project c, gc_command_id c) = None"
    and op: "tget (g_operations db) (t, ge_id ''op'' (gw_op w)) = None"
    and gid: "tget (g_graphs db) (t, ge_id ''graph'' (gw_graph w)) = None"
    and res: "store_apply sha t c d expected deadline w db = (res, db')"
    and spec: "spec_apply sha (gw_now w) deadline expected (gd_source d) (history db t (gc_project c) (gd_name d)) = (out, h')"
  shows "ge_wf sha db' \<and> history db' t (gc_project c) (gd_name d) = h'
    \<and> (\<forall>t' p n. (t', p, n) \<noteq> (t, gc_project c, gd_name d) \<longrightarrow> history db' t' p n = history db t' p n)
    \<and> (case out of
         Late \<Rightarrow> (\<exists>x. deadline = Some x \<and> res = Inl (DeadlineExceeded x (gw_now w))) \<and> db' = db
       | Stale actual \<Rightarrow> (\<exists>v. expected = Some v \<and> res = Inl (VersionConflict v actual)) \<and> db' = db
       | Applied k created \<Rightarrow> \<exists>g. graph_named t (gc_project c) (gd_name d) db' = Some g \<and> gg_latest_revision g = k
           \<and> res = Inr (AcceptedGraph (gc_command_id c) (ge_id ''op'' (gw_op w)) (gg_graph_id g))
           \<and> tget (g_operations db') (t, ge_id ''op'' (gw_op w))
               = Some (operation_row c (gg_graph_id g, k) created (gw_now w) (ge_id ''op'' (gw_op w))))"
proof -
  have run: "store_apply sha t c d expected deadline w db = (case accept_graph sha t c d expected deadline w db of
      Inl e \<Rightarrow> (Inl e, db) | Inr (r, db') \<Rightarrow> (Inr r, db'))"
    using new by (simp add: store_apply_def run_tx_def receipt_of_def)
  show ?thesis
  proof (cases out)
    case Late
    then obtain x where x: "deadline = Some x" "x < gw_now w" "h' = history db t (gc_project c) (gd_name d)"
      using spec by (auto simp: spec_apply_def split: if_splits option.splits)
    then have "accept_graph sha t c d expected deadline w db = Inl (DeadlineExceeded x (gw_now w))" by (simp add: accept_graph_def Let_def)
    then show ?thesis using res run x wf Late by auto
  next
    case (Stale actual)
    let ?h = "history db t (gc_project c) (gd_name d)"
    have x: "\<not> (case deadline of Some x \<Rightarrow> x < gw_now w | None \<Rightarrow> False)" "h' = ?h" "actual = (if ?h = [] then None else Some (length ?h))"
        "case expected of Some v \<Rightarrow> ?h = [] \<or> \<not> is_number v (length ?h) | None \<Rightarrow> False"
      using spec Stale by (auto simp: spec_apply_def split: if_splits)
    then obtain v where v: "expected = Some v" by (cases expected) auto
    have "accept_graph sha t c d expected deadline w db = Inl (VersionConflict v actual)"
      using x v stale_history(1)[OF wf, of expected t "gc_project c" "gd_name d"] stale_history(2)[OF wf, of t "gc_project c" "gd_name d"] by (simp add: accept_graph_def Let_def)
    then show ?thesis using res run x v wf Stale by auto
  next
    case (Applied k created)
    obtain i db1 where acc: "accept_graph sha t c d expected deadline w db = Inr (AcceptedGraph (gc_command_id c) (ge_id ''op'' (gw_op w)) i,
          noted t c (i, k) created (gw_now w) (ge_id ''op'' (gw_op w)) db1)"
        and db1: "ge_wf sha db1" "g_receipts db1 = g_receipts db" "g_operations db1 = g_operations db"
          "\<And>t' p n. history db1 t' p n = (if (t', p, n) = (t, gc_project c, gd_name d) then h' else history db t' p n)"
        and g: "\<exists>g. graph_named t (gc_project c) (gd_name d) db1 = Some g \<and> gg_graph_id g = i \<and> gg_latest_revision g = k"
      by (rule accept_graph_applied[OF wf new op gid spec[unfolded Applied]]) (rule that, assumption+)
    have db': "db' = noted t c (i, k) created (gw_now w) (ge_id ''op'' (gw_op w)) db1"
        "res = Inr (AcceptedGraph (gc_command_id c) (ge_id ''op'' (gw_op w)) i)" using res run acc by simp_all
    have wf': "ge_wf sha db'" unfolding db' using db1(2,3) new op by (intro noted_wf[OF db1(1)]) simp_all
    have row: "tget (g_operations db') (t, ge_id ''op'' (gw_op w)) = Some (operation_row c (i, k) created (gw_now w) (ge_id ''op'' (gw_op w)))"
      unfolding db' noted_def using op db1(3) by simp
    have hist: "history db' t' p n = (if (t', p, n) = (t, gc_project c, gd_name d) then h' else history db t' p n)" for t' p n
      unfolding db'(1) history_noted by (rule db1(4))
    obtain g where g: "graph_named t (gc_project c) (gd_name d) db' = Some g" "gg_graph_id g = i" "gg_latest_revision g = k"
      using g unfolding db'(1) graph_named_noted by blast
    show ?thesis unfolding Applied apply_outcome.case using wf' row hist g db'(2) by auto
  qed
qed

section \<open>Kept graphs\<close>

text \<open>
  C38: what is in the registry. In every state it reaches, a graph's revisions are numbered from
  1 to its latest without a gap, each kept as the canonical text of a Graph that passed
  every check and is small enough to be read back, and no later command changes or removes a revision.
\<close>

theorem kept_graphs:
  assumes reach: "registry_steps env empty_ge_db db" and later: "registry_steps env db db'"
    and g: "tget (g_graphs db) (t, i) = Some g"
  shows "1 \<le> gg_latest_revision g
    \<and> (\<forall>n. tget (g_revisions db) (t, i, n) \<noteq> None \<longleftrightarrow> 1 \<le> n \<and> n \<le> gg_latest_revision g)
    \<and> (\<forall>n r. tget (g_revisions db) (t, i, n) = Some r \<longrightarrow> checked_source env r \<and> gr_source_sha256 r = ge_sha env (gr_source r)
         \<and> tget (g_revisions db') (t, i, n) = Some r)"
proof -
  have wf: "ge_wf (ge_sha env) db" by (rule registry_steps_wf[OF reach empty_ge_wf])
  have checked: "\<forall>k r. tget (g_revisions db) k = Some r \<longrightarrow> checked_source env r"
    by (rule registry_steps_checked[OF reach]) (simp add: empty_ge_db_def)
  show ?thesis
  proof (intro conjI allI impI)
    show "1 \<le> gg_latest_revision g" "tget (g_revisions db) (t, i, n) \<noteq> None \<longleftrightarrow> 1 \<le> n \<and> n \<le> gg_latest_revision g" for n
      using ge_wfD(3)[OF wf] g unfolding graphs_ok_def by blast+
    fix n r
    assume r: "tget (g_revisions db) (t, i, n) = Some r"
    then show "checked_source env r" "gr_source_sha256 r = ge_sha env (gr_source r)"
      using checked ge_wfD(4)[OF wf] unfolding revisions_ok_def by blast+
    show "tget (g_revisions db') (t, i, n) = Some r" using registry_steps_revisions[OF later] r by (simp add: revisions_kept_def)
  qed
qed

section \<open>Pages\<close>

text \<open>Every graph of a project under a prefix, in order.\<close>

definition all_graphs :: "string \<Rightarrow> string \<Rightarrow> string option \<Rightarrow> ge_db \<Rightarrow> ge_graph list" where
  "all_graphs t p prefix db = sort_key graph_key (map snd (filter (\<lambda>((t', _), g). t' = t \<and> gg_project g = p
     \<and> (case prefix of None \<Rightarrow> True | Some x \<Rightarrow> take (length x) (gg_name g) = x)) (g_graphs db)))"

definition beyond :: "(string \<times> string) option \<Rightarrow> ge_graph \<Rightarrow> bool" where
  "beyond after g = (case after of None \<Rightarrow> True | Some k \<Rightarrow> k < graph_key g)"

lemma store_graphs_all: "store_graphs t p limit prefix after db = take limit (filter (beyond after) (all_graphs t p prefix db))"
proof -
  have key: "(case after of None \<Rightarrow> True | Some (n, i) \<Rightarrow> gg_name g > n \<or> gg_name g = n \<and> gg_graph_id g > i) = beyond after g" for g
    by (auto simp: beyond_def graph_key_def less_prod_def' split: option.splits)
  show ?thesis
    unfolding store_graphs_def all_graphs_def filter_sort filter_map filter_filter key
    by (auto intro!: arg_cong[where f = "take limit"] arg_cong[where f = "sort_key graph_key"] arg_cong[where f = "map snd"] filter_cong)
qed

abbreviation ascending :: "ge_graph list \<Rightarrow> bool" where
  "ascending \<equiv> sorted_wrt (\<lambda>g h. graph_key g < graph_key h)"

lemma distinct_mapD: "distinct (map f xs) \<Longrightarrow> distinct xs"
  by (simp add: distinct_map)

lemma distinct_sort_key: "distinct (map f xs) \<Longrightarrow> distinct (map f (sort_key f xs))"
  by (simp add: distinct_map)

lemma all_graphs_ascending:
  assumes "ge_wf sha db"
  shows "ascending (all_graphs t p prefix db)"
proof -
  let ?rows = "filter (\<lambda>((t', _), g). t' = t \<and> gg_project g = p \<and> (case prefix of None \<Rightarrow> True | Some x \<Rightarrow> take (length x) (gg_name g) = x)) (g_graphs db)"
  have id: "gg_graph_id g = i" if "((t', i), g) \<in> set (g_graphs db)" for t' i g
    using ge_wfD(1,3)[OF assms] that unfolding graphs_ok_def by (metis twf_tget)
  have "map (\<lambda>r. (t, gg_graph_id (snd r))) ?rows = map fst ?rows" using id by (intro map_cong) auto
  moreover have "distinct (map fst ?rows)" using ge_wfD(1)[OF assms] by (auto simp: twf_def tkeys_def intro: distinct_map_filter)
  ultimately have "distinct (map (\<lambda>r. (t, gg_graph_id (snd r))) ?rows)" by (simp only:)
  then have "distinct (map (Pair t) (map gg_graph_id (map snd ?rows)))" by (simp add: comp_def)
  then have "distinct (map gg_graph_id (map snd ?rows))" by (rule distinct_mapD)
  then have "distinct (map snd (map graph_key (map snd ?rows)))" by (simp add: comp_def graph_key_def)
  then have "distinct (map graph_key (map snd ?rows))" by (rule distinct_mapD)
  then have "distinct (map graph_key (all_graphs t p prefix db))" unfolding all_graphs_def by (rule distinct_sort_key)
  moreover have "sorted (map graph_key (all_graphs t p prefix db))" by (simp add: all_graphs_def)
  ultimately have "sorted_wrt (<) (map graph_key (all_graphs t p prefix db))" by (simp add: strict_sorted_iff)
  then show ?thesis by (simp add: sorted_wrt_map)
qed

lemma filter_beyond_nth:
  assumes "ascending gs" and "m < length gs"
  shows "filter (beyond (Some (graph_key (gs ! m)))) gs = drop (Suc m) gs"
proof -
  have "filter (beyond (Some (graph_key (gs ! m)))) (take (Suc m) gs @ drop (Suc m) gs) = drop (Suc m) gs"
  proof -
    have "\<not> beyond (Some (graph_key (gs ! m))) x" if "x \<in> set (take (Suc m) gs)" for x
      using that assms by (auto simp: in_set_conv_nth beyond_def less_Suc_eq not_less sorted_wrt_iff_nth_less intro: less_imp_le)
    moreover have "beyond (Some (graph_key (gs ! m))) x" if "x \<in> set (drop (Suc m) gs)" for x
      using that assms by (auto simp: in_set_conv_nth beyond_def sorted_wrt_iff_nth_less)
    ultimately show ?thesis unfolding filter_append by (simp add: filter_empty_conv filter_id_conv)
  qed
  then show ?thesis by simp
qed

lemma filter_beyond_later:
  assumes "m < length (filter (beyond after) gs)"
  shows "filter (beyond (Some (graph_key (filter (beyond after) gs ! m)))) gs
    = filter (beyond (Some (graph_key (filter (beyond after) gs ! m)))) (filter (beyond after) gs)"
proof -
  have "beyond after (filter (beyond after) gs ! m)" using nth_mem[OF assms] by simp
  then have "beyond after g" if "beyond (Some (graph_key (filter (beyond after) gs ! m))) g" for g
    using that by (auto simp: beyond_def split: option.splits)
  then show ?thesis unfolding filter_filter by (intro filter_cong) auto
qed

text \<open>A page shows the first graphs it is given, at least one, and stays within the size of a reply unless it shows only one.\<close>

lemma page_items_take:
  "\<exists>m \<le> length gs. page_items env used started gs = map (graph_json env) (take m gs) \<and> (\<not> started \<and> gs \<noteq> [] \<longrightarrow> 1 \<le> m)"
proof (induction gs arbitrary: used started)
  case (Cons g gs)
  obtain m where "m \<le> length gs" "page_items env (used + ge_encoded env (graph_json env g) + 1) True gs = map (graph_json env) (take m gs)"
    using Cons.IH[of "used + ge_encoded env (graph_json env g) + 1" True] by blast
  then show ?case
    by (cases "started \<and> MAX_RESULT_BYTES < used + ge_encoded env (graph_json env g) + 1")
      (auto simp: Let_def intro: exI[of _ 0] exI[of _ "Suc m"])
qed simp

lemma page_items_started: "used + sum_list (map (\<lambda>v. ge_encoded env v + 1) (page_items env used True gs)) \<le> max used MAX_RESULT_BYTES"
proof (induction gs arbitrary: used)
  case (Cons g gs)
  show ?case using Cons.IH[of "used + ge_encoded env (graph_json env g) + 1"] by (auto simp: Let_def)
qed simp

lemma page_items_bound:
  "length (page_items env 0 False gs) \<le> 1 \<or> sum_list (map (\<lambda>v. ge_encoded env v + 1) (page_items env 0 False gs)) \<le> MAX_RESULT_BYTES"
proof (cases gs)
  case (Cons g rest)
  let ?u = "ge_encoded env (graph_json env g) + 1"
  show ?thesis
  proof (cases "?u \<le> MAX_RESULT_BYTES")
    case True
    then show ?thesis using page_items_started[of ?u env rest] Cons by (simp add: Let_def)
  next
    case False
    then show ?thesis using Cons by (cases rest) (simp_all add: Let_def)
  qed
qed simp

text \<open>Following the cursors of a listing; None when a page is refused or the pages do not end within the fuel.\<close>

fun follow :: "ge_env \<Rightarrow> string \<Rightarrow> string \<Rightarrow> string option \<Rightarrow> nat \<Rightarrow> nat \<Rightarrow> string option \<Rightarrow> ge_db \<Rightarrow> json list list option" where
  "follow env t p prefix limit 0 cursor db = None"
| "follow env t p prefix limit (Suc n) cursor db = (case list_page env t p prefix limit cursor db of
     Inl _ \<Rightarrow> None
   | Inr (items, None) \<Rightarrow> Some [items]
   | Inr (items, Some c) \<Rightarrow> map_option (Cons items) (follow env t p prefix limit n (Some c) db))"

lemma after_cursor:
  "ge_decode_cursor env (ge_encode_cursor env (cursor_key g prefix)) = Some (cursor_key g prefix) \<Longrightarrow>
     after_of env (cursor_of env g prefix) (gg_project g) prefix = Inr (graph_key g)"
  by (simp add: after_of_def cursor_of_def cursor_key_def graph_key_def Let_def)

lemma all_graphs_project: "g \<in> set (all_graphs t p prefix db) \<Longrightarrow> gg_project g = p"
  by (auto simp: all_graphs_def)

definition cursor_at :: "ge_env \<Rightarrow> string \<Rightarrow> string option \<Rightarrow> string option \<Rightarrow> (string \<times> string) option \<Rightarrow> bool" where
  "cursor_at env p prefix cursor after \<longleftrightarrow>
     (case cursor of None \<Rightarrow> after = None | Some c \<Rightarrow> \<exists>k. after = Some k \<and> after_of env c p prefix = Inr k)"

lemma list_page_at:
  assumes codec: "\<And>g. g \<in> set (all_graphs t p prefix db) \<Longrightarrow>
      ge_decode_cursor env (ge_encode_cursor env (cursor_key g prefix)) = Some (cursor_key g prefix)"
    and asc: "ascending (all_graphs t p prefix db)"
    and at0: "cursor_at env p prefix cursor after" and limit: "1 \<le> limit"
    and rest: "rest = filter (beyond after) (all_graphs t p prefix db)"
  obtains (last) "rest = []" "list_page env t p prefix limit cursor db = Inr ([], None)"
  | (end_page) "list_page env t p prefix limit cursor db = Inr (map (graph_json env) rest, None)" "rest \<noteq> []"
  | (more) m c where "1 \<le> m" "m < length rest"
      "list_page env t p prefix limit cursor db = Inr (map (graph_json env) (take m rest), Some c)"
      "cursor_at env p prefix (Some c) (Some (graph_key (rest ! (m - 1))))"
      "filter (beyond (Some (graph_key (rest ! (m - 1))))) (all_graphs t p prefix db) = drop m rest"
proof -
  define found where "found = take (limit + 1) rest"
  obtain m where m: "m \<le> length (take limit found)" "page_items env 0 False (take limit found) = map (graph_json env) (take m (take limit found))"
      "\<not> False \<and> take limit found \<noteq> [] \<longrightarrow> 1 \<le> m"
    using page_items_take[of "take limit found" env 0 False] by blast
  have bounds: "m \<le> limit" "m \<le> length rest" "rest \<noteq> [] \<Longrightarrow> 1 \<le> m" using m(1,3) limit by (auto simp: found_def)
  have items: "page_items env 0 False (take limit found) = map (graph_json env) (take m rest)"
    using m(2) bounds by (simp add: found_def min_def)
  have further: "length found > m \<longleftrightarrow> m < length rest" using bounds by (auto simp: found_def)
  have page: "list_page env t p prefix limit cursor db = Inr (map (graph_json env) (take m rest),
      if m < length rest then Some (cursor_of env (if m = 0 then last found else found ! (m - 1)) prefix) else None)"
  proof -
    have after: "(case cursor of None \<Rightarrow> Inr None | Some c \<Rightarrow> map_sum id Some (after_of env c p prefix)) = Inr after"
      using at0 by (auto simp: cursor_at_def split: option.splits)
    have len: "length (take m rest) = m" "map (graph_json env) (take m rest) = [] \<longleftrightarrow> m = 0" using bounds by auto
    show ?thesis
      unfolding list_page_def after sbind_Inr Let_def store_graphs_all rest[symmetric] found_def[symmetric] items length_map len further ..
  qed
  show thesis
  proof (cases "m < length rest")
    case True
    then have "rest \<noteq> []" by auto
    then have m1: "1 \<le> m" "m - 1 < length rest" "found ! (m - 1) = rest ! (m - 1)" using bounds True by (auto simp: found_def)
    have "ascending rest" unfolding rest using asc by (rule sorted_wrt_filter)
    then have drop: "filter (beyond (Some (graph_key (rest ! (m - 1))))) rest = drop m rest"
      using filter_beyond_nth[of rest "m - 1"] m1 by simp
    have same: "filter (beyond (Some (graph_key (rest ! (m - 1))))) (all_graphs t p prefix db) = filter (beyond (Some (graph_key (rest ! (m - 1))))) rest"
      using filter_beyond_later[of "m - 1" after "all_graphs t p prefix db"] m1(2) by (simp add: rest)
    have "rest ! (m - 1) \<in> set (all_graphs t p prefix db)" using nth_mem[OF m1(2)] by (simp add: rest)
    then have "gg_project (rest ! (m - 1)) = p" "after_of env (cursor_of env (rest ! (m - 1)) prefix) (gg_project (rest ! (m - 1))) prefix = Inr (graph_key (rest ! (m - 1)))"
      by (rule all_graphs_project, intro after_cursor codec)
    then have "cursor_at env p prefix (Some (cursor_of env (rest ! (m - 1)) prefix)) (Some (graph_key (rest ! (m - 1))))"
      by (simp add: cursor_at_def)
    then show ?thesis using page True m1 drop same by (intro more[of m]) auto
  next
    case False
    then have all: "take m rest = rest" using bounds by simp
    show ?thesis using page False all by (cases "rest = []") (auto intro: last end_page)
  qed
qed

text \<open>
  C40: the pages of a listing add up. Where the decoder reads back the
  cursors the registry encodes, a caller who follows \<open>next_cursor\<close> gets every graph of the project under the
  prefix exactly once, in the order of name and ID, within as many pages as there are graphs; and
  a page of more than one graph fits the size of a reply.
\<close>

theorem pages_complete:
  assumes codec: "\<And>g. g \<in> set (all_graphs t p prefix db) \<Longrightarrow>
      ge_decode_cursor env (ge_encode_cursor env (cursor_key g prefix)) = Some (cursor_key g prefix)"
    and wf: "ge_wf sha db" and limit: "1 \<le> limit"
  shows "\<exists>pages. follow env t p prefix limit (Suc (length (all_graphs t p prefix db))) None db = Some pages
    \<and> concat pages = map (graph_json env) (all_graphs t p prefix db)
    \<and> (\<forall>items \<in> set pages. length items \<le> limit
         \<and> (length items \<le> 1 \<or> sum_list (map (\<lambda>v. ge_encoded env v + 1) items) \<le> MAX_RESULT_BYTES))"
proof -
  have asc: "ascending (all_graphs t p prefix db)" by (rule all_graphs_ascending[OF wf])
  have size: "length items \<le> limit \<and> (length items \<le> 1 \<or> sum_list (map (\<lambda>v. ge_encoded env v + 1) items) \<le> MAX_RESULT_BYTES)"
    if page: "list_page env t p prefix limit cursor db = Inr (items, next)" for items "next" cursor
  proof -
    obtain found where items: "items = page_items env 0 False (take limit found)" using page by (auto simp: list_page_def sbind_eq_Inr Let_def)
    obtain m where "m \<le> length (take limit found)" "items = map (graph_json env) (take m (take limit found))"
      unfolding items using page_items_take[of "take limit found" env 0 False] by blast
    then show ?thesis using page_items_bound[of env "take limit found"] by (simp flip: items)
  qed
  have "\<exists>pages. follow env t p prefix limit n cursor db = Some pages \<and> concat pages = map (graph_json env) rest
      \<and> (\<forall>items \<in> set pages. length items \<le> limit \<and> (length items \<le> 1 \<or> sum_list (map (\<lambda>v. ge_encoded env v + 1) items) \<le> MAX_RESULT_BYTES))"
    if "cursor_at env p prefix cursor after" "rest = filter (beyond after) (all_graphs t p prefix db)" "length rest < n" for n cursor after rest
    using that
  proof (induction n arbitrary: cursor after rest)
    case (Suc n)
    show ?case
    proof (rule list_page_at[OF _ asc Suc.prems(1) limit Suc.prems(2)], erule codec)
      fix m c
      assume m: "1 \<le> m" "m < length rest" "list_page env t p prefix limit cursor db = Inr (map (graph_json env) (take m rest), Some c)"
        "cursor_at env p prefix (Some c) (Some (graph_key (rest ! (m - 1))))"
        "filter (beyond (Some (graph_key (rest ! (m - 1))))) (all_graphs t p prefix db) = drop m rest"
      have less: "length (drop m rest) < n" using m(1,2) Suc.prems(3) by simp
      obtain pages where "follow env t p prefix limit n (Some c) db = Some pages" "concat pages = map (graph_json env) (drop m rest)"
          "\<forall>items \<in> set pages. length items \<le> limit \<and> (length items \<le> 1 \<or> sum_list (map (\<lambda>v. ge_encoded env v + 1) items) \<le> MAX_RESULT_BYTES)"
        using Suc.IH[OF m(4) m(5)[symmetric]] Suc.prems(3) less by blast
      then show ?case using m(3) size[OF m(3)] by (auto simp flip: map_append)
    next
      assume page: "list_page env t p prefix limit cursor db = Inr (map (graph_json env) rest, None)"
      then show ?case using size[OF page] by simp
    next
      assume "rest = []" "list_page env t p prefix limit cursor db = Inr ([], None)"
      then show ?case by simp
    qed
  qed simp
  from this[where n = "Suc (length (all_graphs t p prefix db))" and cursor = None and after = None and rest = "all_graphs t p prefix db"]
  show ?thesis by (simp add: cursor_at_def beyond_def)
qed

end
