(* ===== verification/Registry_Tenants.thy ===== *)
theory Registry_Tenants
  imports Graph_Registry
begin

text \<open>
  Tenants of the graph registry do not meet: a tenant's view is the database with only its rows, and
  every operation gives on the view what it gives on the whole database, and leaves the other
  tenants' views as they were.
\<close>

section \<open>Tables by tenant\<close>

definition mine :: "'t \<Rightarrow> ('t \<times> 'k, 'v) table \<Rightarrow> ('t \<times> 'k, 'v) table" where
  "mine t tbl = filter (\<lambda>(k, _). fst k = t) tbl"

lemma tget_mine [simp]: "tget (mine t tbl) (t, k) = tget tbl (t, k)"
  by (induction tbl) (auto simp: mine_def tget_def)

lemma mine_append [simp]: "mine t (a @ b) = mine t a @ mine t b"
  by (simp add: mine_def)

lemma mine_single [simp]: "mine t [((t', k), v)] = (if t' = t then [((t', k), v)] else [])"
  by (simp add: mine_def)

lemma tinsert_mine: "tinsert (t, k) v (mine t tbl) = map_option (mine t) (tinsert (t, k) v tbl)"
proof -
  have "(t, k) \<in> set (tkeys (mine t tbl)) \<longleftrightarrow> (t, k) \<in> set (tkeys tbl)" by (metis tget_mine tget_None_iff)
  then show ?thesis by (simp add: tinsert_def)
qed

lemma tput_mine: "mine t' (tput (t, k) v tbl) = (if t' = t then tput (t, k) v (mine t tbl) else mine t' tbl)"
  by (induction tbl) (auto simp: mine_def tput_def)

lemma find_mine: "(\<And>x. P x \<Longrightarrow> fst (fst x) = t) \<Longrightarrow> List.find P (mine t tbl) = List.find P tbl"
  by (induction tbl) (auto simp: mine_def)

lemma filter_mine: "(\<And>x. P x \<Longrightarrow> fst (fst x) = t) \<Longrightarrow> filter P (mine t tbl) = filter P tbl"
  by (induction tbl) (auto simp: mine_def)

lemma bex_mine: "(\<And>x. P x \<Longrightarrow> fst (fst x) = t) \<Longrightarrow> (\<exists>x \<in> set (mine t tbl). P x) \<longleftrightarrow> (\<exists>x \<in> set tbl. P x)"
  by (fastforce simp: mine_def)

section \<open>Views\<close>

definition view :: "string \<Rightarrow> ge_db \<Rightarrow> ge_db" where
  "view t db = \<lparr>g_graphs = mine t (g_graphs db), g_revisions = mine t (g_revisions db),
     g_operations = mine t (g_operations db), g_receipts = mine t (g_receipts db)\<rparr>"

lemma view_simps [simp]:
  "g_graphs (view t db) = mine t (g_graphs db)" "g_revisions (view t db) = mine t (g_revisions db)"
  "g_operations (view t db) = mine t (g_operations db)" "g_receipts (view t db) = mine t (g_receipts db)"
  by (simp_all add: view_def)

lemma view_update [simp]:
  "view t (db\<lparr>g_graphs := a\<rparr>) = (view t db)\<lparr>g_graphs := mine t a\<rparr>" "view t (db\<lparr>g_revisions := b\<rparr>) = (view t db)\<lparr>g_revisions := mine t b\<rparr>"
  "view t (db\<lparr>g_operations := c\<rparr>) = (view t db)\<lparr>g_operations := mine t c\<rparr>" "view t (db\<lparr>g_receipts := d\<rparr>) = (view t db)\<lparr>g_receipts := mine t d\<rparr>"
  by (simp_all add: view_def)

lemma graph_named_view [simp]: "graph_named t p n (view t db) = graph_named t p n db"
  unfolding graph_named_def by (simp, subst find_mine) (auto split: prod.splits)

lemma latest_digest_view [simp]: "latest_digest t g (view t db) = latest_digest t g db"
  by (cases g) (simp_all add: latest_digest_def)

lemma receipt_of_view [simp]: "receipt_of t c (view t db) = receipt_of t c db"
  by (simp add: receipt_of_def)

lemma write_graph_view:
  "write_graph t c d g created now uuid (view t db) = map_sum id (apsnd (view t)) (write_graph t c d g created now uuid db)"
  by (auto simp: write_graph_def Let_def tinsert_mine tput_mine split: option.splits)

lemma write_revision_view: "write_revision sha t d a created now (view t db) = map_sum id (view t) (write_revision sha t d a created now db)"
  by (auto simp: write_revision_def tinsert_mine split: option.splits prod.splits)

lemma write_operation_view: "write_operation t c a created now k (view t db) = map_sum id (view t) (write_operation t c a created now k db)"
proof -
  have "(\<exists>((t', _), x) \<in> set (mine t (g_operations db)). t' = t \<and> go_project x = gc_project c \<and> go_command_id x = gc_command_id c) \<longleftrightarrow>
      (\<exists>((t', _), x) \<in> set (g_operations db). t' = t \<and> go_project x = gc_project c \<and> go_command_id x = gc_command_id c)"
    by (rule bex_mine) auto
  then show ?thesis by (simp add: write_operation_def tinsert_mine split: option.splits)
qed

lemma record_receipt_view: "record_receipt t c r now (view t db) = map_sum id (view t) (record_receipt t c r now db)"
  by (auto simp: record_receipt_def tinsert_mine split: option.splits)

lemma sbind_map_sum: "sbind (map_sum id f x) g = sbind x (\<lambda>a. g (f a))"
  by (cases x) auto

lemma map_sum_sbind: "map_sum id f (sbind x g) = sbind x (\<lambda>a. map_sum id f (g a))"
  by (cases x) auto

lemma accept_graph_view:
  "accept_graph sha t c d expected deadline w (view t db) = map_sum id (apsnd (view t)) (accept_graph sha t c d expected deadline w db)"
  unfolding accept_graph_def Let_def
  by (simp add: write_graph_view write_revision_view write_operation_view record_receipt_view sbind_map_sum map_sum_sbind case_prod_unfold)

lemma run_tx_view:
  assumes "f (view t db) = map_sum id (apsnd (view t)) (f db)"
  shows "run_tx f (view t db) = apsnd (view t) (run_tx f db)"
  using assms by (cases "f db") (auto simp: run_tx_def split: prod.splits)

lemma store_apply_view:
  "store_apply sha t c d expected deadline w (view t db) = apsnd (view t) (store_apply sha t c d expected deadline w db)"
  unfolding store_apply_def
  by (rule run_tx_view) (auto simp: sbind_def accept_graph_view split: sum.splits option.splits)

lemma store_reject_view: "store_reject t c r now (view t db) = apsnd (view t) (store_reject t c r now db)"
  unfolding store_reject_def
  by (rule run_tx_view) (auto simp: sbind_def record_receipt_view split: sum.splits option.splits)

section \<open>Commands\<close>

lemma reject_command_view:
  "scoped_store rq = Inr t \<Longrightarrow> reject_command rq c e w (view t db) = apsnd (view t) (reject_command rq c e w db)"
  by (simp add: reject_command_def store_reject_view apfst_def apsnd_def prod.map_comp split: prod.splits)

lemma apply_command_view:
  assumes t: "scoped_store rq = Inr t"
  shows "apply_command env w rq c (view t db) = apsnd (view t) (apply_command env w rq c db)"
proof (cases "apply_refusal env (mr_body rq) (gw_sized w)")
  case (Some x)
  show ?thesis
  proof (cases x)
    case (Inr d)
    obtain out db1 where "store_apply (ge_sha env) t c d (expected_of (mr_body rq)) (deadline_of env (mr_body rq)) w db = (out, db1)"
      by (cases "store_apply (ge_sha env) t c d (expected_of (mr_body rq)) (deadline_of env (mr_body rq)) w db")
    then show ?thesis using Some Inr t
      by (auto simp: apply_command_def store_apply_view reject_command_view split: sum.splits store_exn.splits)
  qed (use Some in \<open>simp add: apply_command_def reject_command_view[OF t]\<close>)
qed (simp add: apply_command_def)

lemma registry_apply_view:
  assumes "scoped_store rq = Inr t"
  shows "registry_apply env w rq (view t db) = apsnd (view t) (registry_apply env w rq db)"
  by (auto simp: registry_apply_def apply_command_view[OF assms] split: option.splits sum.splits prod.splits)

text \<open>Other tenants' rows.\<close>

definition others_kept :: "string \<Rightarrow> ge_db \<Rightarrow> ge_db \<Rightarrow> bool" where
  "others_kept t db db' \<longleftrightarrow> (\<forall>t'. t' \<noteq> t \<longrightarrow> view t' db' = view t' db)"

lemma others_kept_refl [simp]: "others_kept t db db"
  by (simp add: others_kept_def)

lemma others_kept_trans: "others_kept t a b \<Longrightarrow> others_kept t b c \<Longrightarrow> others_kept t a c"
  by (simp add: others_kept_def)

lemma view_eqI:
  "mine t (g_graphs a) = mine t (g_graphs b) \<Longrightarrow> mine t (g_revisions a) = mine t (g_revisions b) \<Longrightarrow>
   mine t (g_operations a) = mine t (g_operations b) \<Longrightarrow> mine t (g_receipts a) = mine t (g_receipts b) \<Longrightarrow> view t a = view t b"
  by (simp add: view_def)

lemma writes_others:
  "write_graph t c d g created now uuid db = Inr (a, db1) \<Longrightarrow> others_kept t db db1"
  "write_revision sha t d a created now db = Inr db2 \<Longrightarrow> others_kept t db db2"
  "write_operation t c a created now k db = Inr db3 \<Longrightarrow> others_kept t db db3"
  "record_receipt t c r now db = Inr db4 \<Longrightarrow> others_kept t db db4"
  by (auto simp: others_kept_def write_graph_def write_revision_def write_operation_def record_receipt_def tinsert_Some_iff tput_mine Let_def
      split: option.splits if_splits prod.splits intro!: view_eqI)

lemma accept_graph_others: "accept_graph sha t c d expected deadline w db = Inr (r, db') \<Longrightarrow> others_kept t db db'"
  by (auto simp: accept_graph_def Let_def sbind_eq_Inr split: if_splits dest!: writes_others intro: others_kept_trans)

lemma store_others:
  "others_kept t db (snd (store_apply sha t c d expected deadline w db))" "others_kept t db (snd (store_reject t c r now db))"
  by (auto simp: store_apply_def store_reject_def run_tx_def sbind_def
      split: sum.splits option.splits prod.splits dest: accept_graph_others writes_others)

lemma reject_command_others: "scoped_store rq = Inr t \<Longrightarrow> others_kept t db (snd (reject_command rq c e w db))"
  using store_others(2)[of t db c "RejectedGraph (gc_command_id c) e" "gw_rejected w"] by (simp add: reject_command_def)

lemma apply_command_others:
  assumes t: "scoped_store rq = Inr t"
  shows "others_kept t db (snd (apply_command env w rq c db))"
proof (cases "apply_refusal env (mr_body rq) (gw_sized w)")
  case (Some x)
  show ?thesis
  proof (cases x)
    case (Inr d)
    obtain out db1 where s: "store_apply (ge_sha env) t c d (expected_of (mr_body rq)) (deadline_of env (mr_body rq)) w db = (out, db1)"
      by (cases "store_apply (ge_sha env) t c d (expected_of (mr_body rq)) (deadline_of env (mr_body rq)) w db")
    have "others_kept t db db1" using store_others(1)[of t db "ge_sha env" c d "expected_of (mr_body rq)" "deadline_of env (mr_body rq)" w] s by simp
    then show ?thesis using Some Inr t s reject_command_others[OF t, of db1 c] others_kept_trans
      by (auto simp: apply_command_def split: sum.splits store_exn.splits)
  qed (use Some reject_command_others[OF t] in \<open>simp add: apply_command_def\<close>)
qed (simp add: apply_command_def)

lemma registry_apply_others: "scoped_store rq = Inr t \<Longrightarrow> others_kept t db (snd (registry_apply env w rq db))"
  using apply_command_others[of rq t db env w]
  by (auto simp: registry_apply_def split: option.splits sum.splits prod.splits) (metis snd_conv)+

section \<open>Queries\<close>

lemma store_graphs_view [simp]: "store_graphs t p limit prefix after (view t db) = store_graphs t p limit prefix after db"
  unfolding store_graphs_def by (simp, subst filter_mine) (auto split: prod.splits)

lemma store_graph_view [simp]: "store_graph t i (view t db) = store_graph t i db"
  by (simp add: store_graph_def)

lemma store_revision_view [simp]: "store_revision t i n (view t db) = store_revision t i n db"
  unfolding store_revision_def by (simp, subst find_mine) (auto split: prod.splits)

lemma store_operation_view [simp]: "store_operation t i (view t db) = store_operation t i db"
  by (simp add: store_operation_def)

lemma list_page_view [simp]: "list_page env t p prefix limit cursor (view t db) = list_page env t p prefix limit cursor db"
  by (simp add: list_page_def)

lemma queries_view:
  assumes "scoped_store rq = Inr t"
  shows "registry_list env rq (view t db) = apsnd (view t) (registry_list env rq db)"
    "registry_get env rq (view t db) = apsnd (view t) (registry_get env rq db)"
    "registry_operation env rq (view t db) = apsnd (view t) (registry_operation env rq db)"
  by (simp_all add: registry_list_def registry_get_def registry_operation_def Let_def assms cong: option.case_cong)

text \<open>
  C39: tenants are isolated. What a request of one tenant is answered, and what it does to
  its tenant's rows, is the same on the tenant's own view as on the whole database, for the
  command and each query; and the command leaves every other tenant's view as it was. So no
  tenant can read, change or detect another tenant's graphs, operations or command IDs.
\<close>

theorem tenant_isolation:
  assumes "scoped_store rq = Inr t"
  shows "registry_apply env w rq (view t db) = apsnd (view t) (registry_apply env w rq db)
    \<and> registry_list env rq (view t db) = apsnd (view t) (registry_list env rq db)
    \<and> registry_get env rq (view t db) = apsnd (view t) (registry_get env rq db)
    \<and> registry_operation env rq (view t db) = apsnd (view t) (registry_operation env rq db)
    \<and> (\<forall>t'. t' \<noteq> t \<longrightarrow> view t' (snd (registry_apply env w rq db)) = view t' db)"
  using registry_apply_view[OF assms] queries_view[OF assms] registry_apply_others[OF assms, unfolded others_kept_def] by blast

end
