(* ===== verification/Messaging_Properties.thy ===== *)
theory Messaging_Properties
  imports Messaging
begin

text \<open>
  What the messaging layer promises a service: the tenant of a request comes from the connection
  and never from its payload, a subject's account token is stripped before routing, a
  route matches exactly its key's form, and a command's causal path is bounded and ends with itself.
\<close>

section \<open>Tokens\<close>

lemma split_on_not_Nil [simp]: "split_on c s \<noteq> []"
  by (induction s) (auto split: list.splits)

lemma split_on_append: "c \<notin> set a \<Longrightarrow> split_on c (a @ c # b) = a # split_on c b"
  by (induction a) auto

lemma split_on_single: "c \<notin> set a \<Longrightarrow> split_on c a = [a]"
  by (induction a) auto

lemma join_with_Cons: "xs \<noteq> [] \<Longrightarrow> join_with sep (x # xs) = x @ sep @ join_with sep xs"
  by (cases xs) auto

lemma join_split [simp]: "join_with [c] (split_on c s) = s"
proof (induction s)
  case (Cons x xs)
  then show ?case
    by (cases "split_on c xs"; cases "tl (split_on c xs)") (auto simp: join_with_Cons)
qed simp

lemma removeprefix_append [simp]: "removeprefix p (p @ s) = s"
  by (simp add: removeprefix_def)

lemma partition_at_append: "c \<notin> set a \<Longrightarrow> partition_at c (a @ c # b) = (a, b)"
  by (induction a) (auto simp: partition_at_def)

section \<open>Subjects\<close>

lemma plain_tokens:
  assumes "CHR ''.'' \<notin> set service" and "CHR ''.'' \<notin> set kind"
  shows "tokens_of (''oe.v1.'' @ service @ ''.'' @ kind @ ''.'' @ operation) = [''oe'', ''v1'', service, kind] @ tokens_of operation"
  using split_on_append[OF assms(1), of "kind @ ''.'' @ operation"] split_on_append[OF assms(2), of operation] by simp

lemma rest_of_subject:
  assumes "CHR ''.'' \<notin> set kind"
  shows "partition_at (CHR ''.'') (removeprefix (''oe.v1.'' @ service @ ''.'')
      (subject_of ([''oe'', ''v1'', service, kind] @ tokens_of operation))) = (kind, operation)"
proof -
  have "subject_of ([''oe'', ''v1'', service, kind] @ tokens_of operation) = (''oe.v1.'' @ service @ ''.'') @ kind @ CHR ''.'' # operation"
    by (simp add: join_with_Cons)
  then show ?thesis by (simp only: removeprefix_append partition_at_append[OF assms])
qed

text \<open>
  C33: a client's subject for an account, as a shared server splits it, gives back the account,
  the kind and the operation; a dedicated server splits the plain subject to the same kind and
  operation. So routes see the same operation in both modes.
\<close>

theorem shared_subject_split:
  assumes "CHR ''.'' \<notin> set (sv_service sv)" and "CHR ''.'' \<notin> set kind" and "CHR ''.'' \<notin> set account"
  shows "\<exists>s. shared_subject (''oe.v1.'' @ sv_service sv @ ''.'' @ kind @ ''.'' @ operation) account = Inr s
      \<and> split_subject (sv\<lparr>sv_tenancy := Shared\<rparr>) s = Some (Some account, kind, operation)
      \<and> split_subject (sv\<lparr>sv_tenancy := Dedicated tenant\<rparr>) (''oe.v1.'' @ sv_service sv @ ''.'' @ kind @ ''.'' @ operation)
          = Some (None, kind, operation)"
proof -
  let ?plain = "''oe.v1.'' @ sv_service sv @ ''.'' @ kind @ ''.'' @ operation"
  let ?s = "subject_of ([''oe'', ''v1'', account, sv_service sv, kind] @ tokens_of operation)"
  have plain: "tokens_of ?plain = [''oe'', ''v1'', sv_service sv, kind] @ tokens_of operation" by (rule plain_tokens[OF assms(1,2)])
  have s: "shared_subject ?plain account = Inr ?s"
    unfolding shared_subject_def with_third_token_def Let_def plain by (simp add: ACCOUNT_POSITION_def)
  have "?s = ''oe.v1.'' @ account @ ''.'' @ sv_service sv @ ''.'' @ kind @ ''.'' @ operation" by (simp add: join_with_Cons)
  then have "tokens_of ?s = [''oe'', ''v1'', account] @ [sv_service sv, kind] @ tokens_of operation"
    using split_on_append[OF assms(3), of "sv_service sv @ ''.'' @ kind @ ''.'' @ operation"]
      split_on_append[OF assms(1), of "kind @ ''.'' @ operation"] split_on_append[OF assms(2), of operation] by simp
  then have "split_subject (sv\<lparr>sv_tenancy := Shared\<rparr>) ?s = Some (Some account, kind, operation)"
    using rest_of_subject[OF assms(2), of "sv_service sv" operation]
    by (simp add: split_subject_def Let_def ACCOUNT_POSITION_def numeral_2_eq_2)
  moreover have "split_subject (sv\<lparr>sv_tenancy := Dedicated tenant\<rparr>) ?plain = Some (None, kind, operation)"
    unfolding split_subject_def Let_def plain using rest_of_subject[OF assms(2), of "sv_service sv" operation] by simp
  ultimately show ?thesis using s by blast
qed

section \<open>Route keys\<close>

definition parameter_names :: "string list \<Rightarrow> string list" where
  "parameter_names names = map (butlast \<circ> tl) (filter parameter_name names)"

definition fill :: "(string, string) table \<Rightarrow> string \<Rightarrow> string" where
  "fill ps name = (if parameter_name name then (case tget ps (butlast (tl name)) of Some v \<Rightarrow> v | None \<Rightarrow> []) else name)"

lemma fill_other: "k \<notin> set (parameter_names names) \<Longrightarrow> name \<in> set names \<Longrightarrow> fill (ps @ [(k, v)]) name = fill ps name"
  by (auto simp: fill_def parameter_names_def split: option.splits)

lemma match_tokens_acc:
  assumes "distinct (tkeys acc @ parameter_names names)"
  shows "match_tokens names tokens acc = Some ps \<longleftrightarrow>
    (\<exists>qs. ps = acc @ qs \<and> tkeys qs = parameter_names names \<and> tokens = map (fill ps) names)"
  using assms
proof (induction names tokens acc rule: match_tokens.induct)
  case (1 name names token tokens acc)
  show ?case
  proof (cases "parameter_name name")
    case True
    let ?k = "butlast (tl name)"
    have k: "?k \<notin> set (tkeys acc)" "?k \<notin> set (parameter_names names)" "distinct (tkeys acc @ parameter_names names)"
      using 1(3) True by (auto simp: parameter_names_def)
    have fresh: "tput ?k token acc = acc @ [(?k, token)]" using k(1) by (simp add: tput_absent tget_None_iff)
    have look: "tget ((acc @ [(?k, v)]) @ qs) ?k = Some v" for v qs
      using k(1) by (auto simp: tget_def map_add_def tkeys_def split: option.splits dest!: map_of_SomeD) (metis fst_conv image_eqI)
    have "match_tokens (name # names) (token # tokens) acc = Some ps \<longleftrightarrow>
        (\<exists>qs. ps = (acc @ [(?k, token)]) @ qs \<and> tkeys qs = parameter_names names \<and> tokens = map (fill ps) names)"
      using 1(1)[OF True] k True by (simp add: fresh)
    also have "\<dots> \<longleftrightarrow> (\<exists>qs. ps = acc @ qs \<and> tkeys qs = parameter_names (name # names) \<and> token # tokens = map (fill ps) (name # names))"
    proof (rule iffI; elim exE conjE)
      fix qs
      assume a: "ps = (acc @ [(?k, token)]) @ qs" "tkeys qs = parameter_names names" "tokens = map (fill ps) names"
      then show "\<exists>qs. ps = acc @ qs \<and> tkeys qs = parameter_names (name # names) \<and> token # tokens = map (fill ps) (name # names)"
        using look[of token qs] True by (intro exI[of _ "(?k, token) # qs"]) (simp add: parameter_names_def fill_def)
    next
      fix qs
      assume a: "ps = acc @ qs" "tkeys qs = parameter_names (name # names)" "token # tokens = map (fill ps) (name # names)"
      then obtain v qs' where q: "qs = (?k, v) # qs'" "tkeys qs' = parameter_names names"
        using True by (cases qs) (auto simp: parameter_names_def)
      then have "v = token" using a(1,3) look[of v qs'] True by (simp add: fill_def)
      then show "\<exists>qs. ps = (acc @ [(?k, token)]) @ qs \<and> tkeys qs = parameter_names names \<and> tokens = map (fill ps) names"
        using q a by (intro exI[of _ qs']) simp
    qed
    finally show ?thesis .
  next
    case False
    then show ?thesis using 1(2)[OF False] 1(3) by (auto simp: parameter_names_def fill_def)
  qed
qed (auto simp: parameter_names_def tkeys_def)

lemma match_tokens_length: "match_tokens names tokens acc = Some ps \<Longrightarrow> length names = length tokens"
  by (induction names tokens acc rule: match_tokens.induct) (auto split: if_splits)

text \<open>
  A route's key matches an operation exactly when the operation is the key with each
  parameter replaced by its value, token for token; the parameters are the key's, in order.
\<close>

lemma match_exact:
  assumes "distinct (parameter_names (tokens_of key))"
  shows "match_key key operation = Some ps \<longleftrightarrow>
    tkeys ps = parameter_names (tokens_of key) \<and> tokens_of operation = map (fill ps) (tokens_of key)"
proof -
  have "match_key key operation = Some ps \<longleftrightarrow> match_tokens (tokens_of key) (tokens_of operation) [] = Some ps"
    using match_tokens_length[of "tokens_of key" "tokens_of operation" "[]" ps] by (auto simp: match_key_def)
  then show ?thesis using match_tokens_acc[of "[]" "tokens_of key" "tokens_of operation" ps] assms by simp
qed

section \<open>Tenants\<close>

text \<open>The contract of an authorizer: it may refine the derived principal, never change its tenant.\<close>

locale authorizer =
  fixes authorize :: "msg_request \<Rightarrow> fault + principal"
  assumes keeps_tenant: "authorize rq = Inr q \<Longrightarrow> mr_principal rq = Some p \<Longrightarrow> pr_tenant_id q = pr_tenant_id p"
begin

lemma admitted_request:
  assumes "sv_authorize sv = authorize" and "admit_request ct sv nats subject kind operation body p = Inr (r, rq)"
  shows "mr_subject rq = subject \<and> mr_body rq = body \<and> mr_kind rq = kind \<and> mr_operation rq = operation \<and> mr_listener rq = request_listener sv nats
    \<and> find_route ct sv subject kind operation (if kind = ''control'' then sv_commands sv else sv_queries sv) = Inr (r, mr_parameters rq)
    \<and> (\<exists>q rq0. mr_principal rq = Some q \<and> pr_tenant_id q = pr_tenant_id p \<and> authorize rq0 = Inr q
         \<and> mr_listener rq0 = request_listener sv nats)"
  using assms keeps_tenant
  by (fastforce simp: admit_request_def Let_def sbind_eq_Inr map_sum_def split: sum.splits prod.splits)

end

interpretation local_operator: authorizer "local_authorize hostname ip_loopback" for hostname ip_loopback
  by unfold_locales (auto simp: local_authorize_def split: if_splits)

lemma local_authorize_loopback:
  "local_authorize hostname ip_loopback rq = Inr q \<Longrightarrow> is_loopback ip_loopback (hostname (mr_listener rq))"
  by (auto simp: local_authorize_def split: if_splits)

lemma new_principal_Inr:
  "new_principal ct t a = Inr p \<Longrightarrow> pr_tenant_id p = t \<and> pr_account p = a \<and> check_tenant_id ct t = Inr t"
  by (auto simp: new_principal_def sbind_eq_Inr check_tenant_id_def split: list.splits prod.splits if_splits)

lemma cached_resolve_found:
  "cached_resolve ct inner a cache = (Inr (Some t), cache') \<Longrightarrow>
     (tget cache a = Some t \<or> tget cache a = None \<and> inner a = Inr (Some t)) \<and> tget cache' a = Some t"
  by (auto simp: cached_resolve_def check_tenant_id_def split: option.splits sum.splits list.splits if_splits)

lemma derived_tenant:
  assumes "derive_principal ct inner sv account kind operation cache = (Inr p, cache')"
  shows "check_tenant_id ct (pr_tenant_id p) = Inr (pr_tenant_id p) \<and> (case sv_tenancy sv of
      Dedicated t \<Rightarrow> pr_tenant_id p = t \<and> cache' = cache
    | Shared \<Rightarrow> \<exists>a. account = Some a \<and> is_account ct a \<and> pr_account p = Some a \<and> tget cache' a = Some (pr_tenant_id p)
        \<and> (tget cache a = Some (pr_tenant_id p) \<or> tget cache a = None \<and> inner a = Inr (Some (pr_tenant_id p))))"
  using assms
  by (auto simp: derive_principal_def as_fault_def map_sum_def dest!: new_principal_Inr cached_resolve_found
      split: tenancy.splits option.splits sum.splits if_splits prod.splits)

text \<open>
  C32: a handler that did anything was called for a verified tenant. On a server with the local
  operator's authorizer, a request that changed the service's state came through a loopback
  listener, reached the handler its subject routes to with the request's own body, and carried
  a valid tenant: the configured one in dedicated mode; in shared mode the tenant the resolver
  has for the account key in the subject. Nothing in the body takes part in choosing it.
\<close>

theorem request_tenant:
  assumes "sv_authorize sv = local_authorize hostname ip_loopback"
    and "handle ct inner sv nats subject (Inr body) (cache, st) = Some (reply, cache', st')"
    and "st' \<noteq> st"
  shows "\<exists>account kind operation r rq q. split_subject sv subject = Some (account, kind, operation)
    \<and> snd (rt_handler r rq st) = st' \<and> mr_body rq = body \<and> mr_principal rq = Some q
    \<and> find_route ct sv subject kind operation (if kind = ''control'' then sv_commands sv else sv_queries sv) = Inr (r, mr_parameters rq)
    \<and> is_loopback ip_loopback (hostname (request_listener sv nats))
    \<and> check_tenant_id ct (pr_tenant_id q) = Inr (pr_tenant_id q)
    \<and> (case sv_tenancy sv of
         Dedicated t \<Rightarrow> pr_tenant_id q = t
       | Shared \<Rightarrow> \<exists>a. account = Some a \<and> is_account ct a \<and> tget cache' a = Some (pr_tenant_id q)
           \<and> (tget cache a = Some (pr_tenant_id q) \<or> tget cache a = None \<and> inner a = Inr (Some (pr_tenant_id q))))"
proof -
  obtain account kind operation where sp: "split_subject sv subject = Some (account, kind, operation)"
    using assms(2) by (auto simp: handle_def split: option.splits)
  obtain x c where d: "derive_principal ct inner sv account kind operation cache = (x, c)"
    by (cases "derive_principal ct inner sv account kind operation cache")
  then obtain p where x: "x = Inr p" using assms(2,3) sp by (auto simp: handle_def split: sum.splits)
  obtain r rq where adm: "admit_request ct sv nats subject kind operation body p = Inr (r, rq)"
    using assms(2,3) sp d x by (cases "admit_request ct sv nats subject kind operation body p") (auto simp: handle_def)
  have run: "snd (rt_handler r rq st) = st'" "cache' = c"
    using assms(2) sp d x adm by (auto simp: handle_def run_route_def split: prod.splits sum.splits)
  have der: "check_tenant_id ct (pr_tenant_id p) = Inr (pr_tenant_id p) \<and> (case sv_tenancy sv of
      Dedicated t \<Rightarrow> pr_tenant_id p = t \<and> c = cache
    | Shared \<Rightarrow> \<exists>a. account = Some a \<and> is_account ct a \<and> pr_account p = Some a \<and> tget c a = Some (pr_tenant_id p)
        \<and> (tget cache a = Some (pr_tenant_id p) \<or> tget cache a = None \<and> inner a = Inr (Some (pr_tenant_id p))))"
    using derived_tenant d x by blast
  note req = local_operator.admitted_request[OF assms(1) adm]
  then obtain q rq0 where q: "mr_principal rq = Some q" "pr_tenant_id q = pr_tenant_id p"
      "local_authorize hostname ip_loopback rq0 = Inr q" "mr_listener rq0 = request_listener sv nats" by blast
  have "is_loopback ip_loopback (hostname (request_listener sv nats))" using local_authorize_loopback[OF q(3)] q(4) by simp
  then show ?thesis using sp run req q(1,2) der
    by (intro exI[of _ account] exI[of _ kind] exI[of _ operation] exI[of _ r] exI[of _ rq] exI[of _ q]) (auto split: tenancy.splits)
qed

section \<open>Commands\<close>

lemma last_causal: "causal_violations ct COMMAND (JObj ((''command_id'', JStr c) # (''causal_path'', JList (map JStr (p @ [c]))) # kvs)) = []"
  by (simp add: causal_violations_def jget_none_def py_eq_def)


end
