(* ===== verification/Registry_Witnesses.thy ===== *)
theory Registry_Witnesses
  imports Registry_Properties Registry_Tenants Messaging_Properties Graph_Witnesses
begin

text \<open>
  The properties of messaging and of the registry at a shared server of the graph engine: one
  account, one tenant, and the demonstration graph applied through the server.
\<close>

section \<open>A server\<close>

definition demo_contracts :: contracts where
  "demo_contracts = \<lparr>ct_violations = \<lambda>_ _. [], ct_repr = \<lambda>_. ''value''\<rparr>"

definition demo_tenant :: string where
  "demo_tenant = ''01890000-0000-7000-8000-0000000000aa''"

definition demo_document :: json where
  "demo_document = JObj [(''apiVersion'', JStr API_VERSION), (''kind'', JStr ''Graph''), (''metadata'', JObj [(''name'', JStr ''demo'')]),
     (''spec'', JObj demo_spec)]"

definition demo_body :: json where
  "demo_body = JObj [(''command_id'', JStr ''cmd_1''), (''causal_path'', JList [JStr ''cmd_1'']), (''payload'', JObj [(''graph'', demo_document)])]"

definition demo_request :: msg_request where
  "demo_request = \<lparr>mr_subject = ''oe.v1.ACME.ge.control.graphs.apply'', mr_kind = ''control'', mr_operation = ''graphs.apply'', mr_body = demo_body,
     mr_listener = ''nats://localhost:4222'', mr_parameters = [], mr_principal = Some \<lparr>pr_tenant_id = demo_tenant, pr_account = Some ''ACME''\<rparr>\<rparr>"

definition demo_hostname :: "string \<Rightarrow> string option" where
  "demo_hostname url = (if url = ''nats://localhost:4222'' then Some ''localhost'' else None)"

text \<open>Cursors are decoded by a table of the one that is issued.\<close>

definition demo_cursor :: json where
  "demo_cursor = JObj [(''after'', JList [JStr ''alpha'', JStr ''graph_a'']), (''project'', JStr ''default''), (''name_prefix'', JNull)]"

definition demo_cursor2 :: json where
  "demo_cursor2 = JObj [(''after'', JList [JStr ''beta'', JStr ''graph_b'']), (''project'', JStr ''default''), (''name_prefix'', JNull)]"

definition demo_env :: ge_env where
  "demo_env = \<lparr>ge_ct = demo_contracts, ge_authorize = \<lambda>_ _. Inr (), ge_canonical = \<lambda>v. (case jget (jget_none v ''metadata'') ''name'' of Some (JStr n) \<Rightarrow> n | _ \<Rightarrow> []),
     ge_loads = \<lambda>_. demo_document, ge_encoded = \<lambda>_. 10, ge_sha = id, ge_parser = demo_parser, ge_schema = \<lambda>_ _. [],
     ge_timestamp = \<lambda>_. ''2026-01-01T00:00:00.000000Z'', ge_isoformat = \<lambda>_. ''2026-01-01T00:00:00+00:00'', ge_instant = \<lambda>_. 0, ge_number = \<lambda>_. ''1'',
     ge_encode_cursor = \<lambda>v. if v = demo_cursor then ''first'' else if v = demo_cursor2 then ''second'' else [],
     ge_decode_cursor = \<lambda>c. if c = ''first'' then Some demo_cursor else if c = ''second'' then Some demo_cursor2 else None\<rparr>"

definition demo_draw :: ge_draw where
  "demo_draw = \<lparr>gw_sized = 1, gw_now = 2, gw_rejected = 3, gw_graph = ''a'', gw_op = ''b''\<rparr>"

definition demo_draw2 :: ge_draw where
  "demo_draw2 = \<lparr>gw_sized = 5, gw_now = 6, gw_rejected = 7, gw_graph = ''c'', gw_op = ''d''\<rparr>"

definition demo_server :: "ge_db server" where
  "demo_server = \<lparr>sv_service = ''ge'', sv_listener = ''nats://localhost:4222'', sv_queries = registry_queries demo_env,
     sv_commands = registry_commands demo_env demo_draw, sv_authorize = local_authorize demo_hostname (\<lambda>_. False), sv_tenancy = Shared\<rparr>"

definition demo_accounts :: "string \<Rightarrow> fault + string option" where
  "demo_accounts a = Inr (if a = ''ACME'' then Some demo_tenant else None)"

section \<open>Applying the graph\<close>

definition demo_command :: ge_command where
  "demo_command = \<lparr>gc_project = ''default'', gc_command_id = ''cmd_1'', gc_subject = ''oe.v1.ACME.ge.control.graphs.apply'', gc_fingerprint = []\<rparr>"

definition demo_definition :: graph_definition where
  "demo_definition = \<lparr>gd_name = ''demo'', gd_description = None, gd_format = ''resource'', gd_source = ''demo''\<rparr>"

lemma demo_command_of: "command_of demo_env demo_request = Some demo_command"
  by code_simp

lemma demo_scoped: "scoped_store demo_request = Inr demo_tenant"
  by code_simp

lemma demo_valid: "validate_resource demo_parser (\<lambda>_ _. []) demo_document (Some ''Graph'') = []"
  by code_simp

lemma demo_envelopes: "envelope_check demo_contracts COMMAND demo_body = None" "envelope_check demo_contracts APPLY demo_body = None"
  by code_simp+

lemma demo_definition_of: "definition_of demo_env demo_document = Some demo_definition"
  by code_simp

lemma demo_refusal: "apply_refusal demo_env demo_body now = Some (Inr demo_definition)"
proof -
  have "readable_size demo_env now demo_definition = 10" by (simp add: readable_size_def demo_env_def)
  moreover have "jget demo_body ''payload'' = Some (JObj [(''graph'', demo_document)])" by (simp add: demo_body_def)
  moreover have "ge_ct demo_env = demo_contracts" "ge_parser demo_env = demo_parser" "ge_schema demo_env = (\<lambda>_ _. [])" by (simp_all add: demo_env_def)
  ultimately show ?thesis using demo_envelopes demo_definition_of demo_valid by (simp add: apply_refusal_def MAX_RESULT_BYTES_def Let_def)
qed

definition demo_reply :: ge_response where
  "demo_reply = AcceptedGraph ''cmd_1'' ''op_b'' ''graph_a''"

definition demo_db :: ge_db where
  "demo_db = snd (store_apply id demo_tenant demo_command demo_definition None None demo_draw empty_ge_db)"

lemma demo_store: "store_apply id demo_tenant demo_command demo_definition None None demo_draw empty_ge_db = (Inr demo_reply, demo_db)"
proof -
  have "fst (store_apply id demo_tenant demo_command demo_definition None None demo_draw empty_ge_db) = Inr demo_reply" by code_simp
  then show ?thesis by (simp add: demo_db_def prod_eq_iff)
qed

lemma demo_apply: "registry_apply demo_env demo_draw demo_request empty_ge_db = (response_json demo_reply, demo_db)"
proof -
  have "apply_command demo_env demo_draw demo_request demo_command empty_ge_db = (Inr demo_reply, demo_db)"
    using demo_store demo_scoped demo_refusal[of "gw_sized demo_draw"]
    by (simp add: apply_command_def demo_request_def demo_env_def expected_of_def deadline_of_def demo_body_def)
  then show ?thesis by (simp add: registry_apply_def demo_command_of demo_env_def[THEN arg_cong[where f = ge_authorize]])
qed

lemma demo_db_changed: "demo_db \<noteq> empty_ge_db"
proof
  assume "demo_db = empty_ge_db"
  moreover have "g_graphs demo_db \<noteq> []" by code_simp
  moreover have "g_graphs empty_ge_db = []" by (simp add: empty_ge_db_def)
  ultimately show False by simp
qed

section \<open>Messaging\<close>

lemma demo_split: "split_subject demo_server ''oe.v1.ACME.ge.control.graphs.apply'' = Some (Some ''ACME'', ''control'', ''graphs.apply'')"
  by (simp add: split_subject_def demo_server_def Let_def ACCOUNT_POSITION_def removeprefix_def partition_at_def)

lemma demo_principal:
  "derive_principal demo_contracts demo_accounts demo_server (Some ''ACME'') ''control'' ''graphs.apply'' [] =
     (Inr \<lparr>pr_tenant_id = demo_tenant, pr_account = Some ''ACME''\<rparr>, [(''ACME'', demo_tenant)])"
  by (simp add: derive_principal_def demo_server_def is_account_def demo_contracts_def cached_resolve_def demo_accounts_def check_tenant_id_def
      check_account_def new_principal_def as_fault_def demo_tenant_def tput_def)

lemma demo_admitted:
  "admit_request demo_contracts demo_server None ''oe.v1.ACME.ge.control.graphs.apply'' ''control'' ''graphs.apply'' demo_body
      \<lparr>pr_tenant_id = demo_tenant, pr_account = Some ''ACME''\<rparr> =
     Inr (\<lparr>rt_handler = registry_apply demo_env demo_draw, rt_schema = None, rt_receipts = True\<rparr>, demo_request)"
proof -
  have k: "match_key ''graphs.apply'' ''graphs.apply'' = Some []" by code_simp
  have "keeps_receipt demo_contracts demo_server ''control'' ''graphs.apply'' demo_body"
    by (simp add: keeps_receipt_def demo_body_def demo_contracts_def demo_server_def registry_commands_def k)
  then show ?thesis
    by (simp add: admit_request_def Let_def demo_server_def request_listener_def local_authorize_def is_loopback_def demo_hostname_def
        registry_commands_def k demo_request_def)
qed

lemma demo_handled:
  "\<exists>reply. handle demo_contracts demo_accounts demo_server None ''oe.v1.ACME.ge.control.graphs.apply'' (Inr demo_body) ([], empty_ge_db) =
     Some (reply, [(''ACME'', demo_tenant)], demo_db)"
  by (simp add: handle_def demo_split demo_principal demo_admitted run_route_def demo_apply response_json_def demo_reply_def)

theorem request_tenant_witness:
  "\<exists>account kind operation (r :: ge_db route) rq q. split_subject demo_server ''oe.v1.ACME.ge.control.graphs.apply'' = Some (account, kind, operation)
    \<and> snd (rt_handler r rq empty_ge_db) = demo_db \<and> mr_principal rq = Some q \<and> account = Some ''ACME'' \<and> pr_tenant_id q = demo_tenant"
proof -
  obtain reply where h: "handle demo_contracts demo_accounts demo_server None ''oe.v1.ACME.ge.control.graphs.apply'' (Inr demo_body) ([], empty_ge_db) =
     Some (reply, [(''ACME'', demo_tenant)], demo_db)" using demo_handled by blast
  have a: "sv_authorize demo_server = local_authorize demo_hostname (\<lambda>_. False)" by (simp add: demo_server_def)
  have shared: "sv_tenancy demo_server = Shared" by (simp add: demo_server_def)
  have resolved: "tget [(''ACME'', demo_tenant)] a = Some t \<longleftrightarrow> a = ''ACME'' \<and> t = demo_tenant" for a t by (auto simp: tget_def)
  from request_tenant[OF a h demo_db_changed] show ?thesis
    unfolding shared tenancy.case resolved
    by (elim exE conjE) (intro exI conjI; simp)
qed

theorem shared_subject_split_witness:
  "\<exists>s. shared_subject ''oe.v1.ge.control.graphs.apply'' ''ACME'' = Inr s
    \<and> split_subject (demo_server\<lparr>sv_tenancy := Shared\<rparr>) s = Some (Some ''ACME'', ''control'', ''graphs.apply'')
    \<and> split_subject (demo_server\<lparr>sv_tenancy := Dedicated demo_tenant\<rparr>) ''oe.v1.ge.control.graphs.apply'' = Some (None, ''control'', ''graphs.apply'')"
proof -
  have s: "sv_service demo_server = ''ge''" by (simp add: demo_server_def)
  have "CHR ''.'' \<notin> set (sv_service demo_server)" "CHR ''.'' \<notin> set ''control''" "CHR ''.'' \<notin> set ''ACME''" by (simp_all add: s)
  from shared_subject_split[OF this, of "''graphs.apply''" demo_tenant] show ?thesis by (simp add: s)
qed


section \<open>Registry\<close>

lemma demo_reached: "registry_steps demo_env empty_ge_db demo_db"
  using registry_steps.step[OF registry_steps.start, of demo_env empty_ge_db demo_draw demo_request] by (simp add: demo_apply)

lemma demo_wf: "ge_wf id demo_db"
  using registry_steps_wf[OF demo_reached] empty_ge_wf by (simp add: demo_env_def)

definition demo_change :: graph_definition where
  "demo_change = demo_definition\<lparr>gd_source := ''demo 2''\<rparr>"

definition demo_retry :: ge_command where
  "demo_retry = demo_command\<lparr>gc_command_id := ''cmd_2''\<rparr>"

theorem store_refines_witness:
  "history demo_db demo_tenant ''default'' ''demo'' = [''demo'']
   \<and> history (snd (store_apply id demo_tenant demo_retry demo_change (Some (JInt 1)) None demo_draw2 demo_db)) demo_tenant ''default'' ''demo''
       = [''demo'', ''demo 2'']"
proof -
  have f: "tget (g_receipts demo_db) (demo_tenant, gc_project demo_retry, gc_command_id demo_retry) = None"
      "tget (g_operations demo_db) (demo_tenant, ge_id ''op'' (gw_op demo_draw2)) = None"
      "tget (g_graphs demo_db) (demo_tenant, ge_id ''graph'' (gw_graph demo_draw2)) = None" by code_simp+
  have h: "history demo_db demo_tenant ''default'' ''demo'' = [''demo'']" by code_simp
  have k: "gc_project demo_retry = ''default''" "gd_name demo_change = ''demo''" by code_simp+
  have spec: "spec_apply id (gw_now demo_draw2) None (Some (JInt 1)) (gd_source demo_change) (history demo_db demo_tenant (gc_project demo_retry) (gd_name demo_change))
      = (Applied 2 True, [''demo'', ''demo 2''])" by code_simp
  show ?thesis using h store_refines[OF demo_wf f surjective_pairing spec] unfolding k by blast
qed

theorem kept_graphs_witness:
  "\<exists>g r. tget (g_graphs demo_db) (demo_tenant, ''graph_a'') = Some g \<and> tget (g_revisions demo_db) (demo_tenant, ''graph_a'', 1) = Some r
     \<and> checked_source demo_env r"
proof -
  have "tget (g_graphs demo_db) (demo_tenant, ''graph_a'') \<noteq> None" "tget (g_revisions demo_db) (demo_tenant, ''graph_a'', 1) \<noteq> None" by code_simp+
  then obtain g r where g: "tget (g_graphs demo_db) (demo_tenant, ''graph_a'') = Some g" "tget (g_revisions demo_db) (demo_tenant, ''graph_a'', 1) = Some r"
    by blast
  show ?thesis
    using g kept_graphs[OF demo_reached registry_steps.start g(1), THEN conjunct2, THEN conjunct2, rule_format, OF g(2)] by blast
qed

theorem tenant_isolation_witness:
  "scoped_store demo_request = Inr demo_tenant
   \<and> registry_apply demo_env demo_draw demo_request (view demo_tenant demo_db) = apsnd (view demo_tenant) (registry_apply demo_env demo_draw demo_request demo_db)
   \<and> view LOCAL_TENANT (snd (registry_apply demo_env demo_draw demo_request demo_db)) = view LOCAL_TENANT demo_db"
proof -
  have "LOCAL_TENANT \<noteq> demo_tenant" by code_simp
  then show ?thesis using demo_scoped tenant_isolation[OF demo_scoped, of demo_env demo_draw demo_db] by blast
qed

section \<open>Pages\<close>

definition demo_named :: "string \<Rightarrow> graph_definition" where
  "demo_named name = demo_definition\<lparr>gd_name := name\<rparr>"

definition demo_alpha :: ge_db where
  "demo_alpha = first_revision id demo_tenant demo_command (demo_named ''alpha'') 0 ''graph_a'' empty_ge_db"

definition demo_beta :: ge_db where
  "demo_beta = first_revision id demo_tenant demo_command (demo_named ''beta'') 0 ''graph_b'' demo_alpha"

lemma demo_beta_wf: "ge_wf id demo_beta"
proof -
  have "tget (g_graphs empty_ge_db) (demo_tenant, ''graph_a'') = None"
    "graph_named demo_tenant (gc_project demo_command) (gd_name (demo_named ''alpha'')) empty_ge_db = None"
    "tget (g_graphs demo_alpha) (demo_tenant, ''graph_b'') = None"
    "graph_named demo_tenant (gc_project demo_command) (gd_name (demo_named ''beta'')) demo_alpha = None" by code_simp+
  then show ?thesis unfolding demo_beta_def using first_revision_wf[OF empty_ge_wf] by (intro first_revision_wf) (auto simp: demo_alpha_def)
qed

theorem pages_complete_witness:
  "length (all_graphs demo_tenant ''default'' None demo_beta) = 2
   \<and> (\<exists>pages. follow demo_env demo_tenant ''default'' None 1 (Suc (length (all_graphs demo_tenant ''default'' None demo_beta))) None demo_beta = Some pages
        \<and> concat pages = map (graph_json demo_env) (all_graphs demo_tenant ''default'' None demo_beta))"
proof -
  have two: "length (all_graphs demo_tenant ''default'' None demo_beta) = 2" by code_simp
  have all: "list_all (\<lambda>g. ge_decode_cursor demo_env (ge_encode_cursor demo_env (cursor_key g None)) = Some (cursor_key g None))
      (all_graphs demo_tenant ''default'' None demo_beta)" by code_simp
  have codec: "ge_decode_cursor demo_env (ge_encode_cursor demo_env (cursor_key g None)) = Some (cursor_key g None)"
    if "g \<in> set (all_graphs demo_tenant ''default'' None demo_beta)" for g
    using all that by (simp add: list_all_iff)
  show ?thesis using two pages_complete[OF codec demo_beta_wf le_refl] by blast
qed

end
