(* ===== verification/Tool_Authorization.thy ===== *)
theory Tool_Authorization
  imports Graph_Check
begin

text \<open>
  Authorization of tool calls (\<open>v2/services/tool_service/authorization.py\<close>): the schema a grant's
  condition is checked against, the checks of a condition and of a ceiling when they are applied, the
  policies grants and ceilings become, and the decision about one call. The Cedar library is a
  parameter: reading a policy, checking policies against a schema, the text of an entity's name, and
  the authorizer's answer. \<open>int(expires_at.timestamp() * 1000)\<close> is floating-point arithmetic and
  a parameter too.
\<close>

section \<open>Data\<close>

definition INVOKE :: string where "INVOKE = ''invoke''"
definition PRINCIPAL :: string where "PRINCIPAL = ''StepAttempt''"
definition WORKSPACE :: string where "WORKSPACE = ''Workspace''"
definition TOOL :: string where "TOOL = ''Tool''"
definition ACTION :: string where "ACTION = ''Action''"

datatype cedar_error = CedarError (ce_field: string) (ce_problem: string)

record grant =
  gt_uid :: string
  gt_name :: string
  gt_workspace :: string
  gt_step_attempt_id :: "string option"
  gt_when :: "string option"
  gt_expires_at :: "int option"

record ceiling =
  cl_uid :: string
  cl_policy :: string

record grant_ref =
  ref_name :: string
  ref_uid :: string

record call_decision =
  dc_allowed :: bool
  dc_grant_refs :: "grant_ref list"

type_synonym entity_uid = "string \<times> string"

record entity =
  en_uid :: entity_uid
  en_parents :: "entity_uid list"

record cedar_request =
  cq_principal :: entity_uid
  cq_action :: entity_uid
  cq_resource :: entity_uid
  cq_context :: json

record 'p cedar =
  cd_parse :: "string \<Rightarrow> string + 'p"
  cd_validate :: "json \<Rightarrow> 'p \<Rightarrow> bool \<times> string list"
  cd_uid_text :: "entity_uid \<Rightarrow> string"
  cd_epoch_ms :: "int \<Rightarrow> string"
  cd_authorize :: "entity list \<Rightarrow> (string \<times> 'p) list \<Rightarrow> cedar_request \<Rightarrow> bool \<times> string list"

section \<open>Schemas\<close>

lemma json_member_size: "(k, v) \<in> set kvs \<Longrightarrow> size v < size (JObj kvs)"
  by (induction kvs) auto

lemma member_object_size: "Some (JObj ms) = map_of kvs k \<Longrightarrow> size (JObj ms) < size (JObj kvs)"
  using json_member_size map_of_SomeD by metis

text \<open>\<open>cedar_type\<close>; \<open>Inl ()\<close> is the AttributeError of \<open>properties\<close> that are not a mapping.\<close>

function cedar_type :: "json \<Rightarrow> unit + json option" and cedar_members :: "(string \<times> json) list \<Rightarrow> unit + (string \<times> json) list" where
  "cedar_type (JObj schema) =
     (let shape = map_of schema ''type''; properties = map_of schema ''properties'' in
      if shape = Some (JStr ''object'') \<or> ((shape = None \<or> shape = Some JNull) \<and> properties \<noteq> None) then
        (if \<not> truthy properties then Inr (Some (JObj [(''type'', JStr ''Record''), (''attributes'', JObj [])]))
         else case properties of
           Some (JObj members) \<Rightarrow> sbind (cedar_members members) (\<lambda>attributes.
             Inr (Some (JObj [(''type'', JStr ''Record''), (''attributes'', JObj attributes)])))
         | _ \<Rightarrow> Inl ())
      else if shape = Some (JStr ''string'') then Inr (Some (JObj [(''type'', JStr ''String'')]))
      else if shape = Some (JStr ''integer'') \<or> shape = Some (JStr ''number'') then Inr (Some (JObj [(''type'', JStr ''Long'')]))
      else if shape = Some (JStr ''boolean'') then Inr (Some (JObj [(''type'', JStr ''Boolean'')]))
      else Inr None)"
| "cedar_type JNull = Inr None"
| "cedar_type (JBool b) = Inr None"
| "cedar_type (JInt i) = Inr None"
| "cedar_type (JFloat r) = Inr None"
| "cedar_type (JStr t) = Inr None"
| "cedar_type (JList xs) = Inr None"
| "cedar_members [] = Inr []"
| "cedar_members ((name, sub) # members) =
     sbind (cedar_type sub) (\<lambda>member.
     sbind (cedar_members members) (\<lambda>attributes.
     Inr (case member of Some t \<Rightarrow> (name, t) # attributes | None \<Rightarrow> attributes)))"
  by pat_completeness auto
termination
  by (relation "measure (case_sum size (\<lambda>ms. size (JObj ms)))") (auto dest: member_object_size)

text \<open>The document \<open>schema_for_tool\<close> gives Cedar.\<close>

definition schema_for_tool :: "json \<Rightarrow> unit + json" where
  "schema_for_tool tool_spec =
     sbind (cedar_type (case jget tool_spec ''inputSchema'' of Some v \<Rightarrow> if truthy (Some v) then v else JObj [] | None \<Rightarrow> JObj [])) (\<lambda>t.
     let arguments = (case t of Some a \<Rightarrow> a | None \<Rightarrow> JObj [(''type'', JStr ''Record''), (''attributes'', JObj [])]) in
     Inr (JObj [([], JObj
       [(''entityTypes'', JObj [(PRINCIPAL, JObj []), (WORKSPACE, JObj []), (TOOL, JObj [])]),
        (''actions'', JObj [(INVOKE, JObj [(''appliesTo'', JObj
          [(''principalTypes'', JList [JStr PRINCIPAL, JStr WORKSPACE]), (''resourceTypes'', JList [JStr TOOL]),
           (''context'', JObj [(''type'', JStr ''Record''),
              (''attributes'', JObj [(''now'', JObj [(''type'', JStr ''Long'')]), (''arguments'', arguments)])])])])])])]))"

section \<open>Scanning policy text\<close>

text \<open>\<open>_IDENT\<close>: an ASCII identifier at the start of a text, empty when there is none.\<close>

definition ident_start :: "char \<Rightarrow> bool" where
  "ident_start c \<longleftrightarrow> (let n = of_char c :: nat in 65 \<le> n \<and> n \<le> 90 \<or> 97 \<le> n \<and> n \<le> 122 \<or> n = 95)"

definition ident_char :: "char \<Rightarrow> bool" where
  "ident_char c \<longleftrightarrow> ident_start c \<or> (let n = of_char c :: nat in 48 \<le> n \<and> n \<le> 57)"

definition ident_at :: "string \<Rightarrow> string" where
  "ident_at s = (case s of c # cs \<Rightarrow> if ident_start c then c # takeWhile ident_char cs else [] | [] \<Rightarrow> [])"

text \<open>The inner loops of \<open>_identifiers\<close>, each on the text from the index \<open>i\<close> it starts with.\<close>

fun until_quote :: "char \<Rightarrow> string \<Rightarrow> string" where
  "until_quote q [] = []"
| "until_quote q (c # cs) = (if c = q then c # cs else if c = CHR 0x5C then until_quote q (drop 1 cs) else until_quote q cs)"

definition until_newline :: "string \<Rightarrow> string" where
  "until_newline s = dropWhile (\<lambda>c. c \<noteq> CHR 0x0A) s"

fun until_close :: "string \<Rightarrow> string" where
  "until_close (c # d # cs) = (if c = CHR ''*'' \<and> d = CHR ''/'' then c # d # cs else until_close (d # cs))"
| "until_close s = s"

lemma until_quote_length: "length (until_quote q s) \<le> length s"
  by (induction q s rule: until_quote.induct) auto

lemma until_newline_length: "length (until_newline s) \<le> length s"
  by (simp add: until_newline_def length_dropWhile_le)

lemma until_close_length: "length (until_close s) \<le> length s"
  by (induction s rule: until_close.induct) auto

lemmas scan_lengths = until_quote_length until_newline_length until_close_length

text \<open>
  \<open>_identifiers\<close>: the loop from \<open>i\<close> on, with the names in the order they are found. At a quotation
  mark the inner loop starts on that mark itself.
\<close>

function identifiers :: "string \<Rightarrow> string list" where
  "identifiers [] = []"
| "identifiers (c # cs) =
     (if c = CHR 0x22 \<or> c = CHR 0x27 then identifiers (drop 1 (until_quote c (c # cs)))
      else if c = CHR ''/'' \<and> take 1 cs = ''/'' then identifiers (until_newline cs)
      else if c = CHR ''/'' \<and> take 1 cs = ''*'' then identifiers (drop 2 (until_close (drop 1 cs)))
      else case ident_at (c # cs) of
        [] \<Rightarrow> identifiers cs
      | w \<Rightarrow> w # identifiers (drop (length w) (c # cs)))"
  by pat_completeness auto
termination
proof (relation "measure length", goal_cases)
  case (3 c cs)
  then show ?case using until_newline_length[of cs] by (simp add: less_Suc_eq_le)
next
  case (4 c cs)
  then show ?case using until_close_length[of "drop 1 cs"] by simp
qed (auto simp: less_Suc_eq_le)

function first_token :: "string \<Rightarrow> string" where
  "first_token [] = []"
| "first_token (c # cs) =
     (if py_space c then first_token cs
      else if c = CHR ''/'' \<and> take 1 cs = ''/'' then first_token (until_newline cs)
      else if c = CHR ''/'' \<and> take 1 cs = ''*'' then first_token (drop 2 (until_close (drop 1 cs)))
      else ident_at (c # cs))"
  by pat_completeness auto
termination
proof (relation "measure length", goal_cases)
  case (3 c cs)
  then show ?case using until_newline_length[of cs] by (simp add: less_Suc_eq_le)
next
  case (4 c cs)
  then show ?case using until_close_length[of "drop 1 cs"] by simp
qed auto

section \<open>Checks when a grant or a ceiling is applied\<close>

definition FORBIDDEN :: "string list" where "FORBIDDEN = [''action'', ''principal'']"

definition back_quoted :: "string \<Rightarrow> string" where
  "back_quoted s = CHR 0x60 # s @ [CHR 0x60]"

definition in_quotes :: "string \<Rightarrow> string" where
  "in_quotes s = CHR 0x22 # s @ [CHR 0x22]"

definition in_braces :: "string \<Rightarrow> string" where
  "in_braces s = CHR 0x7B # '' '' @ s @ '' '' @ [CHR 0x7D]"

text \<open>The policy a condition is read in.\<close>

definition wrapped_condition :: "string \<Rightarrow> string" where
  "wrapped_condition condition = ''permit(principal, action == Action::'' @ in_quotes INVOKE @ '', resource == Tool::'' @ in_quotes ''dummy'' @ '') ''
     @ ''when '' @ in_braces condition @ '';''"

datatype check_failure = Problem cedar_error | BadSchema

definition type_check :: "'p cedar \<Rightarrow> 'p \<Rightarrow> json \<Rightarrow> string \<Rightarrow> check_failure option" where
  "type_check eng policy tool_spec what = (case schema_for_tool tool_spec of
     Inl _ \<Rightarrow> Some BadSchema
   | Inr schema \<Rightarrow> (case cd_validate eng schema policy of (valid, errors) \<Rightarrow>
       if valid then None else Some (Problem (CedarError what (''does not type-check: '' @ join_with ''; '' errors)))))"

definition validate_condition :: "'p cedar \<Rightarrow> string option \<Rightarrow> json \<Rightarrow> check_failure option" where
  "validate_condition eng condition tool_spec = (case condition of
     None \<Rightarrow> None
   | Some [] \<Rightarrow> None
   | Some c \<Rightarrow>
       (let forbidden = filter (\<lambda>n. n \<in> set (identifiers c)) FORBIDDEN in
        if forbidden \<noteq> [] then Some (Problem (CedarError ''spec.when''
          (''may reference only '' @ back_quoted ''context'' @ '' and '' @ back_quoted ''resource'' @ '', not ''
            @ join_with '', '' (map back_quoted forbidden))))
        else case cd_parse eng (wrapped_condition c) of
          Inl e \<Rightarrow> Some (Problem (CedarError ''spec.when'' (''does not parse: '' @ e)))
        | Inr p \<Rightarrow> type_check eng p tool_spec ''spec.when''))"

definition validate_ceiling :: "'p cedar \<Rightarrow> string option \<Rightarrow> cedar_error option" where
  "validate_ceiling eng policy = (case policy of
     None \<Rightarrow> None
   | Some [] \<Rightarrow> None
   | Some t \<Rightarrow> (case cd_parse eng t of
       Inl e \<Rightarrow> Some (CedarError ''spec.policy'' (''does not parse: '' @ e))
     | Inr _ \<Rightarrow> if first_token t \<noteq> ''forbid''
         then Some (CedarError ''spec.policy'' (''must be a '' @ back_quoted ''forbid'' @ ''; a ceiling only restricts'')) else None))"

section \<open>Policies\<close>

definition principal_of :: "grant \<Rightarrow> entity_uid" where
  "principal_of g = (case gt_step_attempt_id g of Some s \<Rightarrow> (PRINCIPAL, s) | None \<Rightarrow> (WORKSPACE, gt_workspace g))"

definition grant_clauses :: "'p cedar \<Rightarrow> grant \<Rightarrow> string list" where
  "grant_clauses eng g = (case gt_when g of Some (c # cs) \<Rightarrow> [c # cs] | _ \<Rightarrow> [])
     @ (case gt_expires_at g of Some t \<Rightarrow> [''context.now < '' @ cd_epoch_ms eng t] | None \<Rightarrow> [])"

definition grant_text :: "'p cedar \<Rightarrow> grant \<Rightarrow> string \<Rightarrow> string" where
  "grant_text eng g tool_uid =
     (let clauses = grant_clauses eng g in
      ''permit('' @ [CHR 0x0A] @ ''  principal == '' @ cd_uid_text eng (principal_of g) @ '','' @ [CHR 0x0A]
      @ ''  action == Action::'' @ in_quotes INVOKE @ '','' @ [CHR 0x0A]
      @ ''  resource == Tool::'' @ in_quotes tool_uid @ [CHR 0x0A]
      @ '')'' @ (if clauses \<noteq> [] then '' when '' @ in_braces (join_with '' && '' clauses) else []) @ '';'')"

text \<open>
  \<open>PolicySet.add\<close> of policies in turn: a text that does not parse or an ID already in the set
  raises, which is \<open>Inl ()\<close>.
\<close>

fun add_policies :: "'p cedar \<Rightarrow> (string \<times> string) list \<Rightarrow> (string \<times> 'p) list \<Rightarrow> unit + (string \<times> 'p) list" where
  "add_policies eng [] ps = Inr ps"
| "add_policies eng ((uid, text) # rest) ps = (case cd_parse eng text of
     Inl _ \<Rightarrow> Inl ()
   | Inr p \<Rightarrow> if uid \<in> set (map fst ps) then Inl () else add_policies eng rest (ps @ [(uid, p)]))"

section \<open>Decisions\<close>

definition call_entities :: "string \<Rightarrow> string \<Rightarrow> string \<Rightarrow> string \<Rightarrow> entity list" where
  "call_entities tool_uid principal_kind principal_id workspace =
     [\<lparr>en_uid = (ACTION, INVOKE), en_parents = []\<rparr>, \<lparr>en_uid = (TOOL, tool_uid), en_parents = []\<rparr>,
      \<lparr>en_uid = (WORKSPACE, workspace), en_parents = []\<rparr>]
     @ (if principal_kind = PRINCIPAL then [\<lparr>en_uid = (PRINCIPAL, principal_id), en_parents = [(WORKSPACE, workspace)]\<rparr>] else [])"

definition call_request :: "string \<Rightarrow> string \<Rightarrow> string \<Rightarrow> (string \<times> json) list \<Rightarrow> int \<Rightarrow> cedar_request" where
  "call_request tool_uid principal_kind principal_id arguments now_ms =
     \<lparr>cq_principal = (principal_kind, principal_id), cq_action = (ACTION, INVOKE), cq_resource = (TOOL, tool_uid),
      cq_context = JObj [(''now'', JInt now_ms), (''arguments'', JObj arguments)]\<rparr>"

definition policy_texts :: "'p cedar \<Rightarrow> string \<Rightarrow> grant list \<Rightarrow> ceiling list \<Rightarrow> (string \<times> string) list" where
  "policy_texts eng tool_uid grants ceilings =
     map (\<lambda>g. (gt_uid g, grant_text eng g tool_uid)) grants @ map (\<lambda>c. (cl_uid c, cl_policy c)) ceilings"

definition decide ::
  "'p cedar \<Rightarrow> string \<Rightarrow> grant list \<Rightarrow> ceiling list \<Rightarrow> string \<Rightarrow> string \<Rightarrow> string \<Rightarrow> (string \<times> json) list \<Rightarrow> int \<Rightarrow> unit + call_decision" where
  "decide eng tool_uid grants ceilings principal_kind principal_id workspace arguments now_ms =
     sbind (add_policies eng (policy_texts eng tool_uid grants ceilings) []) (\<lambda>policies.
     case cd_authorize eng (call_entities tool_uid principal_kind principal_id workspace) policies
       (call_request tool_uid principal_kind principal_id arguments now_ms) of
       (allowed, reason) \<Rightarrow> Inr \<lparr>dc_allowed = allowed,
         dc_grant_refs = List.map_filter (\<lambda>uid. map_option (\<lambda>g. \<lparr>ref_name = gt_name g, ref_uid = uid\<rparr>)
           (map_of (rev (map (\<lambda>g. (gt_uid g, g)) grants)) uid)) reason\<rparr>)"

end
