(* ===== verification/Tool_Properties.thy ===== *)
theory Tool_Properties
  imports Tool_Authorization
begin

text \<open>
  What a tool call's authorization promises, given what Cedar documents of its engine: a call is
  allowed exactly when a grant's policy fires and no ceiling does, and its record names exactly the
  grants that fired. Then three things the checks of a condition do not do as their comments say.
\<close>

section \<open>Policy sets\<close>

lemma add_policies_Inr:
  assumes "add_policies eng ts ps = Inr qs" and "distinct (map fst ps)"
  shows "\<exists>rs. qs = ps @ rs \<and> list_all2 (\<lambda>(u, t) (v, p). u = v \<and> cd_parse eng t = Inr p) ts rs \<and> distinct (map fst qs)"
  using assms
proof (induction eng ts ps rule: add_policies.induct)
  case (2 eng uid t rest ps)
  then obtain p where p: "cd_parse eng t = Inr p" "uid \<notin> set (map fst ps)" "add_policies eng rest (ps @ [(uid, p)]) = Inr qs"
    by (auto split: sum.splits if_splits)
  then obtain rs where "qs = (ps @ [(uid, p)]) @ rs" "list_all2 (\<lambda>(u, t) (v, p). u = v \<and> cd_parse eng t = Inr p) rest rs"
      "distinct (map fst qs)"
    using 2(1)[OF p] 2(3) p(2) by auto
  then show ?case using p(1) by (intro exI[of _ "(uid, p) # rs"]) auto
qed auto

lemma list_all2_parsed:
  assumes "list_all2 (\<lambda>(u, t) (v, p). u = v \<and> cd_parse eng t = Inr p) ts rs"
  shows "(u, p) \<in> set rs \<Longrightarrow> \<exists>t. (u, t) \<in> set ts \<and> cd_parse eng t = Inr p"
    and "(u, t) \<in> set ts \<Longrightarrow> \<exists>p. (u, p) \<in> set rs \<and> cd_parse eng t = Inr p"
  using assms by (induction rule: list_all2_induct) auto

lemma first_token_grant: "first_token (grant_text eng g tool_uid) = ''permit''"
  by (simp add: grant_text_def Let_def py_space_def ident_at_def ident_start_def ident_char_def)

section \<open>Decisions\<close>

text \<open>
  A policy text fires on a call when it reads as a policy that the call satisfies. \<open>sat\<close> and
  \<open>permits\<close> are what Cedar documents of a policy: whether a request satisfies it, and its effect.
\<close>

definition fires :: "'p cedar \<Rightarrow> ('p \<Rightarrow> bool) \<Rightarrow> string \<Rightarrow> bool" where
  "fires eng sat t \<longleftrightarrow> (case cd_parse eng t of Inl _ \<Rightarrow> False | Inr p \<Rightarrow> sat p)"

lemma fires_iff: "fires eng sat t \<longleftrightarrow> (\<exists>p. cd_parse eng t = Inr p \<and> sat p)"
  by (auto simp: fires_def split: sum.splits)

definition fired_refs :: "'p cedar \<Rightarrow> ('p \<Rightarrow> bool) \<Rightarrow> string \<Rightarrow> grant list \<Rightarrow> grant_ref list" where
  "fired_refs eng sat tool_uid grants =
     map (\<lambda>g. \<lparr>ref_name = gt_name g, ref_uid = gt_uid g\<rparr>) (filter (\<lambda>g. fires eng sat (grant_text eng g tool_uid)) grants)"

text \<open>The first keyword of a policy is its effect, and the authorizer permits when a permit and no forbid is satisfied.\<close>

definition documented_effects :: "'p cedar \<Rightarrow> ('p \<Rightarrow> bool) \<Rightarrow> bool" where
  "documented_effects eng permits \<longleftrightarrow> (\<forall>t p. cd_parse eng t = Inr p \<longrightarrow>
     (first_token t = ''permit'' \<longrightarrow> permits p) \<and> (first_token t = ''forbid'' \<longrightarrow> \<not> permits p))"

definition documented_answer :: "('p \<Rightarrow> bool) \<Rightarrow> ('p \<Rightarrow> bool) \<Rightarrow> (string \<times> 'p) list \<Rightarrow> bool \<times> string list \<Rightarrow> bool" where
  "documented_answer permits sat ps answer \<longleftrightarrow>
     fst answer = ((\<exists>x \<in> set ps. permits (snd x) \<and> sat (snd x)) \<and> \<not> (\<exists>x \<in> set ps. \<not> permits (snd x) \<and> sat (snd x)))
     \<and> set (snd answer) = fst ` {x \<in> set ps. sat (snd x) \<and> permits (snd x) = fst answer}"

lemma set_map_filter: "set (List.map_filter f xs) = {y. \<exists>x \<in> set xs. f x = Some y}"
  by (auto simp: map_filter_def) force

lemma map_of_grants:
  assumes "distinct (map gt_uid grants)"
  shows "map_of (rev (map (\<lambda>g. (gt_uid g, g)) grants)) uid = Some g \<longleftrightarrow> g \<in> set grants \<and> gt_uid g = uid"
proof -
  have "distinct (map fst (rev (map (\<lambda>g. (gt_uid g, g)) grants)))" using assms by (simp add: rev_map[symmetric] comp_def)
  then show ?thesis by (auto simp: map_of_eq_Some_iff)
qed

text \<open>The policies of a call: a grant's are permits, a checked ceiling's are forbids, and their IDs are distinct.\<close>

lemma call_policies:
  assumes "documented_effects eng permits" and "add_policies eng (policy_texts eng tool_uid grants ceilings) [] = Inr ps"
    and "\<forall>c \<in> set ceilings. cl_policy c \<noteq> [] \<and> validate_ceiling eng (Some (cl_policy c)) = None"
  shows "(u, p) \<in> set ps \<and> permits p \<longleftrightarrow> (\<exists>g \<in> set grants. gt_uid g = u \<and> cd_parse eng (grant_text eng g tool_uid) = Inr p)"
    and "(u, p) \<in> set ps \<and> \<not> permits p \<longleftrightarrow> (\<exists>c \<in> set ceilings. cl_uid c = u \<and> cd_parse eng (cl_policy c) = Inr p)"
    and "g \<in> set grants \<Longrightarrow> \<exists>p. (gt_uid g, p) \<in> set ps \<and> permits p \<and> cd_parse eng (grant_text eng g tool_uid) = Inr p"
    and "distinct (map fst ps)" and "distinct (map gt_uid grants)"
proof -
  let ?ts = "policy_texts eng tool_uid grants ceilings"
  obtain rs where rs: "ps = rs" "list_all2 (\<lambda>(u, t) (v, p). u = v \<and> cd_parse eng t = Inr p) ?ts rs" "distinct (map fst ps)"
    using add_policies_Inr[OF assms(2)] by auto
  have grants: "permits q" if "cd_parse eng (grant_text eng g tool_uid) = Inr q" for g q
    using assms(1) that first_token_grant[of eng g tool_uid] unfolding documented_effects_def by blast
  have ceilings: "\<not> permits q" if c: "c \<in> set ceilings" "cd_parse eng (cl_policy c) = Inr q" for c q
  proof -
    have "cl_policy c \<noteq> []" "validate_ceiling eng (Some (cl_policy c)) = None" using assms(3) c(1) by auto
    then have "first_token (cl_policy c) = ''forbid''"
      using c(2) by (cases "cl_policy c") (auto simp: validate_ceiling_def split: if_splits)
    then show ?thesis using assms(1) c(2) by (auto simp: documented_effects_def)
  qed
  have ps: "(u, p) \<in> set ps \<longleftrightarrow> (\<exists>t. (u, t) \<in> set ?ts \<and> cd_parse eng t = Inr p)" for u p
    using list_all2_parsed[OF rs(2)] rs(1) by fastforce
  show "(u, p) \<in> set ps \<and> permits p \<longleftrightarrow> (\<exists>g \<in> set grants. gt_uid g = u \<and> cd_parse eng (grant_text eng g tool_uid) = Inr p)"
    "(u, p) \<in> set ps \<and> \<not> permits p \<longleftrightarrow> (\<exists>c \<in> set ceilings. cl_uid c = u \<and> cd_parse eng (cl_policy c) = Inr p)"
    using grants ceilings by (auto simp: ps policy_texts_def)
  show "\<exists>p. (gt_uid g, p) \<in> set ps \<and> permits p \<and> cd_parse eng (grant_text eng g tool_uid) = Inr p" if g: "g \<in> set grants"
  proof -
    have "(gt_uid g, grant_text eng g tool_uid) \<in> set ?ts" using g by (simp add: policy_texts_def)
    then show ?thesis using list_all2_parsed(2)[OF rs(2)] rs(1) grants by blast
  qed
  show "distinct (map fst ps)" by (rule rs(3))
  have "map fst rs = map fst ?ts" using rs(2) by (induction rule: list_all2_induct) auto
  then show "distinct (map gt_uid grants)" using rs by (simp add: policy_texts_def comp_def)
qed

text \<open>
  C8. Authorization of a tool call. Given the engine's documented behaviour on the policies of the
  call, and ceilings that passed their check when they were applied: a decision allows the call exactly
  when the policy of one of its grants fires and no ceiling does, it then names exactly the grants
  that fired, and a denied call names none.
\<close>

theorem decide_exact:
  assumes "documented_effects eng permits"
    and "\<forall>ps. documented_answer permits sat ps (cd_authorize eng (call_entities tool_uid kind who workspace) ps
           (call_request tool_uid kind who arguments now_ms))"
    and "\<forall>c \<in> set ceilings. cl_policy c \<noteq> [] \<and> validate_ceiling eng (Some (cl_policy c)) = None"
    and "decide eng tool_uid grants ceilings kind who workspace arguments now_ms = Inr d"
  shows "(dc_allowed d \<longleftrightarrow> (\<exists>g \<in> set grants. fires eng sat (grant_text eng g tool_uid)) \<and> \<not> (\<exists>c \<in> set ceilings. fires eng sat (cl_policy c)))
    \<and> set (dc_grant_refs d) = (if dc_allowed d then set (fired_refs eng sat tool_uid grants) else {})"
proof -
  obtain ps where ps: "add_policies eng (policy_texts eng tool_uid grants ceilings) [] = Inr ps"
    using assms(4) by (auto simp: decide_def sbind_eq_Inr)
  note pol = call_policies[OF assms(1) ps assms(3)]
  obtain a r where ar: "cd_authorize eng (call_entities tool_uid kind who workspace) ps (call_request tool_uid kind who arguments now_ms) = (a, r)"
    by (cases "cd_authorize eng (call_entities tool_uid kind who workspace) ps (call_request tool_uid kind who arguments now_ms)")
  then have allowed: "dc_allowed d = a"
    and refs: "\<And>x. x \<in> set (dc_grant_refs d) \<longleftrightarrow> (\<exists>g \<in> set grants. gt_uid g \<in> set r \<and> x = \<lparr>ref_name = gt_name g, ref_uid = gt_uid g\<rparr>)"
    using assms(4) ps map_of_grants[OF pol(5)] by (auto simp: decide_def set_map_filter) blast
  have a: "a = ((\<exists>x \<in> set ps. permits (snd x) \<and> sat (snd x)) \<and> \<not> (\<exists>x \<in> set ps. \<not> permits (snd x) \<and> sat (snd x)))"
    and r: "set r = fst ` {x \<in> set ps. sat (snd x) \<and> permits (snd x) = a}" using assms(2)[THEN spec, of ps] unfolding ar documented_answer_def fst_conv snd_conv by blast+
  have fired: "gt_uid g \<in> set r \<longleftrightarrow> a \<and> fires eng sat (grant_text eng g tool_uid)" if g: "g \<in> set grants" for g
  proof -
    obtain p where p: "(gt_uid g, p) \<in> set ps" "permits p" "cd_parse eng (grant_text eng g tool_uid) = Inr p" using pol(3)[OF g] by blast
    have only: "(gt_uid g, q) \<in> set ps \<longleftrightarrow> q = p" for q using eq_key_imp_eq_value[OF pol(4) _ p(1)] p(1) by blast
    have "gt_uid g \<in> set r \<longleftrightarrow> (\<exists>q. (gt_uid g, q) \<in> set ps \<and> sat q \<and> permits q = a)" unfolding r by (auto simp: image_iff)
    then have "gt_uid g \<in> set r \<longleftrightarrow> sat p \<and> a" using p(2) by (auto simp: only)
    then show ?thesis using p(3) by (auto simp: fires_def)
  qed
  have pairs: "(\<exists>x \<in> set ps. P (snd x) \<and> sat (snd x)) \<longleftrightarrow> (\<exists>u p. ((u, p) \<in> set ps \<and> P p) \<and> sat p)" for P by force
  have g: "(\<exists>x \<in> set ps. permits (snd x) \<and> sat (snd x)) \<longleftrightarrow> (\<exists>g \<in> set grants. fires eng sat (grant_text eng g tool_uid))"
    unfolding pairs[of permits] pol(1) fires_iff by blast
  have c: "(\<exists>x \<in> set ps. \<not> permits (snd x) \<and> sat (snd x)) \<longleftrightarrow> (\<exists>c \<in> set ceilings. fires eng sat (cl_policy c))"
    unfolding pairs[of "\<lambda>p. \<not> permits p"] pol(2) fires_iff by blast
  have "set (dc_grant_refs d) = (if a then set (fired_refs eng sat tool_uid grants) else {})"
    by (rule set_eqI) (use fired in \<open>auto simp only: refs fired_refs_def set_map set_filter image_iff if_True if_False empty_iff mem_Collect_eq split: if_splits\<close>)
  then show ?thesis using a g c by (simp only: allowed)
qed

text \<open>A concrete engine: a policy is its first keyword and whether its text holds \<open>true\<close>.\<close>

definition demo_engine :: "(bool \<times> bool) cedar" where
  "demo_engine = \<lparr>cd_parse = (\<lambda>t. if first_token t = ''permit'' then Inr (True, ''true'' \<in> set (identifiers t))
       else if first_token t = ''forbid'' then Inr (False, ''true'' \<in> set (identifiers t)) else Inl ''unexpected token''),
     cd_validate = (\<lambda>schema p. (True, [])), cd_uid_text = (\<lambda>(kind, i). kind @ ''::'' @ in_quotes i), cd_epoch_ms = (\<lambda>t. ''0''),
     cd_authorize = (\<lambda>es ps rq. let a = list_ex (\<lambda>x. fst (snd x) \<and> snd (snd x)) ps \<and> \<not> list_ex (\<lambda>x. \<not> fst (snd x) \<and> snd (snd x)) ps in
       (a, map fst (filter (\<lambda>x. snd (snd x) \<and> fst (snd x) = a) ps)))\<rparr>"

definition demo_grant :: grant where
  "demo_grant = \<lparr>gt_uid = ''g1'', gt_name = ''review'', gt_workspace = ''w'', gt_step_attempt_id = Some ''s1'',
     gt_when = Some ''true'', gt_expires_at = None\<rparr>"

definition demo_ceiling :: ceiling where
  "demo_ceiling = \<lparr>cl_uid = ''c1'', cl_policy = ''forbid(principal, action, resource) when { true };''\<rparr>"

lemma demo_engine_documented:
  "documented_effects demo_engine fst"
  "documented_answer fst snd ps (cd_authorize demo_engine es ps rq)"
  by (auto simp: documented_effects_def demo_engine_def split: if_splits)
    (simp add: documented_answer_def demo_engine_def Let_def list_ex_iff)

theorem decide_exact_witness:
  "\<exists>d e. decide demo_engine ''t1'' [demo_grant] [] PRINCIPAL ''s1'' ''w'' [] 0 = Inr d \<and> dc_allowed d
     \<and> set (dc_grant_refs d) = {\<lparr>ref_name = ''review'', ref_uid = ''g1''\<rparr>}
     \<and> decide demo_engine ''t1'' [demo_grant] [demo_ceiling] PRINCIPAL ''s1'' ''w'' [] 0 = Inr e \<and> \<not> dc_allowed e \<and> dc_grant_refs e = []"
proof -
  have fires: "fires demo_engine snd (grant_text demo_engine demo_grant ''t1'')" "fires demo_engine snd (cl_policy demo_ceiling)"
    by code_simp+
  have checked: "cl_policy demo_ceiling \<noteq> []" "validate_ceiling demo_engine (Some (cl_policy demo_ceiling)) = None" by code_simp+
  have some: "\<not> isl (decide demo_engine ''t1'' [demo_grant] [] PRINCIPAL ''s1'' ''w'' [] 0)"
      "\<not> isl (decide demo_engine ''t1'' [demo_grant] [demo_ceiling] PRINCIPAL ''s1'' ''w'' [] 0)" by code_simp+
  then obtain d e where d: "decide demo_engine ''t1'' [demo_grant] [] PRINCIPAL ''s1'' ''w'' [] 0 = Inr d"
    and e: "decide demo_engine ''t1'' [demo_grant] [demo_ceiling] PRINCIPAL ''s1'' ''w'' [] 0 = Inr e" by (metis isl_def obj_sumE)
  note exact = decide_exact[OF demo_engine_documented(1) allI[OF demo_engine_documented(2)]]
  have "fired_refs demo_engine snd ''t1'' [demo_grant] = [\<lparr>ref_name = ''review'', ref_uid = ''g1''\<rparr>]"
    using fires(1) by (simp add: fired_refs_def) (simp add: demo_grant_def)
  then show ?thesis using exact[OF _ d] exact[OF _ e] d e fires checked by auto
qed

section \<open>What the check of a condition reads\<close>

text \<open>The words of a text: its runs of identifier characters, from the first that may start an identifier.\<close>

fun runs :: "string \<Rightarrow> string list" where
  "runs [] = [[]]"
| "runs (c # cs) = (if ident_char c then (case runs cs of w # ws \<Rightarrow> (c # w) # ws | [] \<Rightarrow> [[c]]) else [] # runs cs)"

definition words_of :: "string \<Rightarrow> string list" where
  "words_of s = filter (\<lambda>w. w \<noteq> []) (map (dropWhile (\<lambda>c. \<not> ident_start c)) (runs s))"

definition plain :: "string \<Rightarrow> bool" where
  "plain s \<longleftrightarrow> CHR 0x22 \<notin> set s \<and> CHR 0x27 \<notin> set s \<and> CHR ''/'' \<notin> set s"

lemma runs_split: "runs s = takeWhile ident_char s # (case dropWhile ident_char s of [] \<Rightarrow> [] | x # r \<Rightarrow> runs r)"
  by (induction s) (auto split: list.splits)

lemma words_start:
  assumes "ident_start c"
  shows "words_of (c # cs) = (c # takeWhile ident_char cs) # words_of (dropWhile ident_char cs)"
proof -
  have c: "ident_char c" using assms by (simp add: ident_char_def)
  have "runs (c # cs) = (c # takeWhile ident_char cs) # (case dropWhile ident_char cs of [] \<Rightarrow> [] | x # r \<Rightarrow> runs r)"
    using runs_split[of "c # cs"] c by simp
  moreover have "words_of (dropWhile ident_char cs) = filter (\<lambda>w. w \<noteq> []) (map (dropWhile (\<lambda>c. \<not> ident_start c))
      (case dropWhile ident_char cs of [] \<Rightarrow> [] | x # r \<Rightarrow> runs r))"
  proof (cases "dropWhile ident_char cs")
    case (Cons x r)
    then have "\<not> ident_char x" using hd_dropWhile[of ident_char cs] by simp
    then show ?thesis unfolding Cons words_of_def by simp
  next
    case Nil
    show ?thesis unfolding Nil words_of_def by simp
  qed
  ultimately show ?thesis using assms by (simp add: words_of_def)
qed

lemma words_skip: "\<not> ident_start c \<Longrightarrow> words_of (c # cs) = words_of cs"
  using runs_split[of cs] by (simp add: words_of_def)

lemma identifiers_plain: "plain s \<Longrightarrow> identifiers s = words_of s"
proof (induction s rule: identifiers.induct)
  case (2 c cs)
  have c: "c \<noteq> CHR 0x22" "c \<noteq> CHR 0x27" "c \<noteq> CHR ''/''" and cs: "plain cs" using 2(6) by (auto simp: plain_def)
  show ?case
  proof (cases "ident_start c")
    case True
    let ?w = "c # takeWhile ident_char cs"
    have w: "ident_at (c # cs) = ?w" using True by (simp add: ident_at_def)
    have rest: "drop (length ?w) (c # cs) = dropWhile ident_char cs" by (simp add: dropWhile_eq_drop)
    have "plain (dropWhile ident_char cs)" using cs by (auto simp: plain_def dest: set_dropWhileD)
    then have "identifiers (dropWhile ident_char cs) = words_of (dropWhile ident_char cs)" using 2(5) c w rest by simp
    then show ?thesis using c w rest True by (simp add: words_start)
  next
    case False
    then have "ident_at (c # cs) = []" by (simp add: ident_at_def)
    then show ?thesis using 2(4) c cs False by (simp add: words_skip)
  qed
qed (simp add: words_of_def)

definition quoted_principal :: string where
  "quoted_principal = ''context.arguments.body == '' @ in_quotes ''principal''"

definition slashed_literal :: string where
  "slashed_literal = ''context.arguments.url == '' @ in_quotes ''http://x'' @ '' || principal == Workspace::'' @ in_quotes ''w''"

definition principal_refused :: check_failure where
  "principal_refused = Problem (CedarError ''spec.when'' (''may reference only '' @ back_quoted ''context'' @ '' and ''
     @ back_quoted ''resource'' @ '', not '' @ back_quoted ''principal''))"

lemma validate_condition_nonempty:
  "c \<noteq> [] \<Longrightarrow> validate_condition eng (Some c) spec =
     (let forbidden = filter (\<lambda>n. n \<in> set (identifiers c)) FORBIDDEN in
      if forbidden \<noteq> [] then Some (Problem (CedarError ''spec.when''
        (''may reference only '' @ back_quoted ''context'' @ '' and '' @ back_quoted ''resource'' @ '', not ''
          @ join_with '', '' (map back_quoted forbidden))))
      else case cd_parse eng (wrapped_condition c) of
        Inl e \<Rightarrow> Some (Problem (CedarError ''spec.when'' (''does not parse: '' @ e)))
      | Inr p \<Rightarrow> type_check eng p spec ''spec.when'')"
  by (cases c) (simp_all only: validate_condition_def option.case list.case not_False_eq_True simp_thms)

lemma scanned_literals:
  "filter (\<lambda>n. n \<in> set (identifiers quoted_principal)) FORBIDDEN = [''principal'']"
  "filter (\<lambda>n. n \<in> set (identifiers slashed_literal)) FORBIDDEN = []"
  by code_simp+

text \<open>
  C10. The names the check of a condition finds. In a text without quotation marks and slashes they are
  exactly its words. With them they are not what the code says it finds: the loop that should
  skip a literal starts on its opening mark and ends there, so a literal is scanned. One that only
  holds the word \<open>principal\<close> is refused, and one with two slashes hides a reference to \<open>principal\<close>
  after it: the condition is then judged by parser and type check alone.
\<close>

theorem condition_names:
  "(plain c \<longrightarrow> identifiers c = words_of c)
   \<and> validate_condition eng (Some quoted_principal) spec = Some principal_refused
   \<and> validate_condition eng (Some slashed_literal) spec = (case cd_parse eng (wrapped_condition slashed_literal) of
        Inl e \<Rightarrow> Some (Problem (CedarError ''spec.when'' (''does not parse: '' @ e)))
      | Inr p \<Rightarrow> type_check eng p spec ''spec.when'')"
proof -
  have nonempty: "quoted_principal \<noteq> []" "slashed_literal \<noteq> []" by (simp_all add: quoted_principal_def slashed_literal_def)
  have "validate_condition eng (Some quoted_principal) spec = Some principal_refused"
    unfolding validate_condition_nonempty[OF nonempty(1)] scanned_literals(1) by (simp add: principal_refused_def)
  moreover have "validate_condition eng (Some slashed_literal) spec = (case cd_parse eng (wrapped_condition slashed_literal) of
      Inl e \<Rightarrow> Some (Problem (CedarError ''spec.when'' (''does not parse: '' @ e))) | Inr p \<Rightarrow> type_check eng p spec ''spec.when'')"
    unfolding validate_condition_nonempty[OF nonempty(2)] scanned_literals(2) by simp
  ultimately show ?thesis using identifiers_plain by blast
qed

theorem condition_names_witness:
  "identifiers ''context.now < 5 && principal in x'' = words_of ''context.now < 5 && principal in x''
   \<and> ''principal'' \<in> set (words_of ''context.now < 5 && principal in x'')"
proof -
  have "plain ''context.now < 5 && principal in x''" "''principal'' \<in> set (words_of ''context.now < 5 && principal in x'')" by code_simp+
  then show ?thesis using condition_names[THEN conjunct1, rule_format, of "''context.now < 5 && principal in x''"] by blast
qed

text \<open>
  The expiry is joined to the condition without parentheses; since Cedar binds \<open>&&\<close> more tightly
  than \<open>||\<close>, it limits only the last alternative of a condition. An empty condition or ceiling passes
  its check.
\<close>

lemma expiry_of_last_alternative:
  "gt_when g = Some ''a || b'' \<Longrightarrow> gt_expires_at g = Some t \<Longrightarrow>
     join_with '' && '' (grant_clauses eng g) = ''a || b && context.now < '' @ cd_epoch_ms eng t"
  by (simp add: grant_clauses_def)

lemma empty_passes: "validate_condition eng (Some []) spec = None" "validate_ceiling eng (Some []) = None"
  by (simp_all add: validate_condition_def validate_ceiling_def)

end
