(* ===== verification/Approval_Policy.thy ===== *)
theory Approval_Policy
  imports Prelude
begin

text \<open>
  The configured approval policy of the first generation's runtime
  (\<open>packages/runtime/src/engine/runtime/approval_policy.py\<close>, its configuration in \<open>config.py\<close> and the
  capabilities of \<open>ports/permissions.py\<close>), with the shell patterns of \<open>fnmatch\<close>. The matcher is shown to
  accept exactly the commands a pattern describes.
\<close>

section \<open>Words of a command line\<close>

text \<open>\<open>str.split()\<close> without a separator, and the words joined by single spaces.\<close>

function words :: "string \<Rightarrow> string list" where
  "words s = (let t = dropWhile py_space s in
     if t = [] then [] else takeWhile (Not \<circ> py_space) t # words (dropWhile (Not \<circ> py_space) t))"
  by pat_completeness auto

lemma words_shorter: "dropWhile py_space s \<noteq> [] \<Longrightarrow> length (dropWhile (Not \<circ> py_space) (dropWhile py_space s)) < length s"
proof -
  assume "dropWhile py_space s \<noteq> []"
  then obtain c t where t: "dropWhile py_space s = c # t" "\<not> py_space c" by (metis hd_dropWhile list.exhaust_sel)
  then have "length (dropWhile (Not \<circ> py_space) (dropWhile py_space s)) \<le> length t" by (simp add: length_dropWhile_le)
  moreover have "length (c # t) \<le> length s" using t(1) length_dropWhile_le[of py_space s] by simp
  ultimately show ?thesis by simp
qed

termination words
  by (relation "measure length") (auto simp: words_shorter)

declare words.simps [simp del]

definition collapse :: "string \<Rightarrow> string" where
  "collapse s = join_with '' '' (words s)"

section \<open>Shell patterns\<close>

text \<open>
  \<open>fnmatch.translate\<close>: a pattern as a sequence of tokens. A bracket expression is cut at the hyphens that
  make ranges; between two neighbouring chunks lies a range, and ranges that are empty are dropped.
\<close>

datatype token = Star | Any_char | Class bool "string list" | Lit char

function chunks_from :: "nat \<Rightarrow> string \<Rightarrow> string list" where
  "chunks_from skip s = (case dropWhile (\<lambda>c. c \<noteq> CHR ''-'') (drop skip s) of
     [] \<Rightarrow> [s]
   | h # t \<Rightarrow> (take skip s @ takeWhile (\<lambda>c. c \<noteq> CHR ''-'') (drop skip s)) # chunks_from 2 t)"
  by pat_completeness auto

lemma chunks_shorter: "dropWhile P (drop n s) = h # t \<Longrightarrow> length t < length s"
proof -
  assume "dropWhile P (drop n s) = h # t"
  then have "Suc (length t) \<le> length (drop n s)" by (metis length_Cons length_dropWhile_le)
  then show ?thesis by simp
qed

termination chunks_from
  by (relation "measure (length \<circ> snd)") (auto simp: chunks_shorter)

declare chunks_from.simps [simp del]

text \<open>A trailing hyphen belongs to the chunk before it.\<close>

definition close_chunks :: "string list \<Rightarrow> string list" where
  "close_chunks cs = (if length cs \<ge> 2 \<and> last cs = [] then butlast (butlast cs) @ [last (butlast cs) @ ''-''] else cs)"

fun drop_empty_ranges :: "string list \<Rightarrow> string list" where
  "drop_empty_ranges [] = []"
| "drop_empty_ranges (c # cs) = (case drop_empty_ranges cs of
     [] \<Rightarrow> [c]
   | d # ds \<Rightarrow> if c \<noteq> [] \<and> d \<noteq> [] \<and> last c > hd d then (butlast c @ tl d) # ds else c # d # ds)"

definition class_of :: "string \<Rightarrow> token" where
  "class_of stuff =
     (let cs = drop_empty_ranges (close_chunks (chunks_from (if take 1 stuff = ''!'' then 2 else 1) stuff))
      in if cs \<noteq> [] \<and> take 1 (hd cs) = ''!'' then Class False (tl (hd cs) # tl cs) else Class True cs)"

text \<open>Where a bracket expression ends: after an optional \<open>!\<close> and an optional \<open>]\<close>.\<close>

definition bracket :: "string \<Rightarrow> (string \<times> string) option" where
  "bracket s =
     (let a = (if take 1 s = ''!'' then 1 else 0);
          b = (if take 1 (drop a s) = '']'' then a + 1 else a);
          rest = dropWhile (\<lambda>c. c \<noteq> CHR '']'') (drop b s)
      in case rest of
           [] \<Rightarrow> None
         | h # t \<Rightarrow> Some (take b s @ takeWhile (\<lambda>c. c \<noteq> CHR '']'') (drop b s), t))"

lemma bracket_shorter: "bracket s = Some (x, t) \<Longrightarrow> length t < length s"
  unfolding bracket_def Let_def by (auto split: list.split_asm dest: chunks_shorter)

function tokens :: "string \<Rightarrow> token list" where
  "tokens [] = []"
| "tokens (c # s) =
     (if c = CHR ''*'' then Star # tokens s
      else if c = CHR ''?'' then Any_char # tokens s
      else if c = CHR ''['' then (case bracket s of None \<Rightarrow> Lit c # tokens s | Some (stuff, t) \<Rightarrow> class_of stuff # tokens t)
      else Lit c # tokens s)"
  by pat_completeness auto

termination tokens
proof (relation "measure length", goal_cases)
  case (5 c s x stuff t)
  then show ?case using bracket_shorter[of s stuff t] by simp
qed auto

text \<open>The characters of a class: those of its chunks and of the ranges between neighbours.\<close>

fun in_chunks :: "char \<Rightarrow> string list \<Rightarrow> bool" where
  "in_chunks x [] \<longleftrightarrow> False"
| "in_chunks x [c] \<longleftrightarrow> x \<in> set c"
| "in_chunks x (c # d # ds) \<longleftrightarrow> x \<in> set c \<or> (c \<noteq> [] \<and> d \<noteq> [] \<and> last c \<le> x \<and> x \<le> hd d) \<or> in_chunks x (d # ds)"

fun single :: "token \<Rightarrow> char \<Rightarrow> bool" where
  "single Star x \<longleftrightarrow> False"
| "single Any_char x \<longleftrightarrow> True"
| "single (Class positive cs) x \<longleftrightarrow> in_chunks x cs = positive"
| "single (Lit c) x \<longleftrightarrow> x = c"

text \<open>The compiled pattern is matched as a whole.\<close>

fun token_match :: "token list \<Rightarrow> string \<Rightarrow> bool" where
  "token_match [] s \<longleftrightarrow> s = []"
| "token_match (Star # ts) [] \<longleftrightarrow> token_match ts []"
| "token_match (Star # ts) (x # s) \<longleftrightarrow> token_match ts (x # s) \<or> token_match (Star # ts) s"
| "token_match (t # ts) [] \<longleftrightarrow> False"
| "token_match (t # ts) (x # s) \<longleftrightarrow> single t x \<and> token_match ts s"

definition fnmatchcase :: "string \<Rightarrow> string \<Rightarrow> bool" where
  "fnmatchcase name pat = token_match (tokens pat) name"

section \<open>The policy\<close>

datatype capability = BASH | EDIT | MCP | READ | WEB

record permission_scope =
  ps_capability :: capability
  ps_value :: "string option"

record bash_config =
  bc_allow :: "string list"
  bc_ask :: "string list"
  bc_deny :: "string list"

record approval_config =
  ac_auto_approve :: bool
  ac_allow :: "capability list"
  ac_bash :: bash_config

datatype policy_decision = ALLOW | ASK | DENY

text \<open>\<open>pattern.rpartition(" ")\<close>: the head and the tail at the last space, if there is one.\<close>

definition rpartition_space :: "string \<Rightarrow> (string \<times> string) option" where
  "rpartition_space s = (case dropWhile (\<lambda>c. c \<noteq> CHR '' '') (rev s) of
     [] \<Rightarrow> None
   | h # t \<Rightarrow> Some (rev t, rev (takeWhile (\<lambda>c. c \<noteq> CHR '' '') (rev s))))"

definition matches :: "string \<Rightarrow> string \<Rightarrow> bool" where
  "matches command pattern \<longleftrightarrow> fnmatchcase command pattern
     \<or> (case rpartition_space pattern of None \<Rightarrow> False | Some (head, tail) \<Rightarrow> tail = ''**'' \<and> fnmatchcase command head)"

definition bash_decision :: "bash_config \<Rightarrow> string option \<Rightarrow> policy_decision option" where
  "bash_decision bash command = (case command of
     None \<Rightarrow> None
   | Some c \<Rightarrow>
       if c = [] then None
       else if list_ex (matches (collapse c)) (bc_deny bash) then Some DENY
       else if list_ex (matches (collapse c)) (bc_ask bash) then Some ASK
       else if list_ex (matches (collapse c)) (bc_allow bash) then Some ALLOW
       else None)"

definition policy_decision_for :: "approval_config \<Rightarrow> permission_scope option \<Rightarrow> bool \<Rightarrow> policy_decision" where
  "policy_decision_for policy scope read_only =
     (if read_only \<and> (case scope of None \<Rightarrow> True | Some s \<Rightarrow> ps_capability s \<noteq> READ) then DENY
      else case scope of
        None \<Rightarrow> if ac_auto_approve policy then ALLOW else ASK
      | Some s \<Rightarrow>
          (case (if ps_capability s = BASH then bash_decision (ac_bash policy) (ps_value s) else None) of
             Some d \<Rightarrow> d
           | None \<Rightarrow> if ac_auto_approve policy \<or> ps_capability s \<in> set (ac_allow policy) then ALLOW else ASK))"

section \<open>What a pattern describes\<close>

text \<open>
  The meaning of a pattern, without the matcher: the command falls into pieces, one for each token;
  a star's piece is any text, every other token's piece is one character that fits it.
\<close>

definition piece :: "token \<Rightarrow> string \<Rightarrow> bool" where
  "piece t s \<longleftrightarrow> t = Star \<or> (\<exists>x. s = [x] \<and> single t x)"

definition described :: "token list \<Rightarrow> string \<Rightarrow> bool" where
  "described ts s \<longleftrightarrow> (\<exists>ps. list_all2 piece ts ps \<and> s = concat ps)"

lemma described_Nil [simp]: "described [] s \<longleftrightarrow> s = []"
  by (auto simp: described_def)

lemma described_Cons: "described (t # ts) s \<longleftrightarrow> (\<exists>u v. s = u @ v \<and> piece t u \<and> described ts v)"
  by (fastforce simp: described_def list_all2_Cons1)

lemma described_single: "t \<noteq> Star \<Longrightarrow> described (t # ts) s \<longleftrightarrow> (\<exists>x v. s = x # v \<and> single t x \<and> described ts v)"
  unfolding described_Cons piece_def by (metis append_Cons append_Nil)

lemma described_Star_Nil: "described (Star # ts) [] \<longleftrightarrow> described ts []"
  by (auto simp: described_Cons piece_def)

lemma described_Star_Cons: "described (Star # ts) (x # s) \<longleftrightarrow> described ts (x # s) \<or> described (Star # ts) s"
  by (auto simp: described_Cons piece_def Cons_eq_append_conv)

lemma token_match_described: "token_match ts s \<longleftrightarrow> described ts s"
  by (induction ts s rule: token_match.induct)
     (auto simp: described_single described_Star_Nil described_Star_Cons)

lemma fnmatchcase_described: "fnmatchcase s pat \<longleftrightarrow> described (tokens pat) s"
  by (simp add: fnmatchcase_def token_match_described)

text \<open>A star stands for any text, also for none, and literal characters stand for themselves.\<close>

lemma tokens_literal:
  "(\<And>c. c \<in> set s \<Longrightarrow> c \<noteq> CHR ''*'' \<and> c \<noteq> CHR ''?'' \<and> c \<noteq> CHR ''['') \<Longrightarrow> tokens (s @ t) = map Lit s @ tokens t"
  by (induction s) auto

lemma described_literal: "described (map Lit s @ ts) u \<longleftrightarrow> (\<exists>v. u = s @ v \<and> described ts v)"
  by (induction s arbitrary: u) (auto simp: described_single)

lemma rpartition_last: "rpartition_space (p @ '' **'') = Some (p, ''**'')"
  by (simp add: rpartition_space_def)

lemma described_stars [simp]: "described [Star, Star] s" "described [Star] s"
  by (auto simp: described_Cons piece_def)

end
