(* ===== verification/Session_Grants.thy ===== *)
theory Session_Grants
  imports Approval_Policy
begin

text \<open>
  Approval records and session grants (\<open>packages/domain/src/engine/domain/approvals.py\<close>) and the rule for
  reusing a grant (\<open>packages/runtime/src/engine/runtime/session_grants.py\<close>). The rule compares canonical
  texts; they are shown to stand for the same action exactly as long as no part contains the
  separator it is joined with, and to collide otherwise.

  \<open>json.loads\<close> and \<open>json.dumps\<close> of a tool's arguments are the fields of the environment. A time stamp is
  its text; a record's questions and answers are the values their JSON texts encode.
\<close>

section \<open>Records\<close>

datatype approval_kind = COMMAND_EXECUTION | FILE_CHANGE | TOOL_USE | PLAN_APPROVAL | USER_INPUT

datatype approval_decision = ACCEPT | ACCEPT_FOR_SESSION | CANCEL

datatype approval_status = PENDING | DECIDED | INTERRUPTED

datatype decision_source = FROM_USER | FROM_SESSION_GRANT | FROM_POLICY

record approval =
  ap_approval_id :: string
  ap_agent_run_id :: string
  ap_instance_id :: string
  ap_runner :: string
  ap_kind :: approval_kind
  ap_requested_at :: string
  ap_reason :: "string option"
  ap_command :: "string option"
  ap_cwd :: "string option"
  ap_tool_name :: "string option"
  ap_tool_call_id :: "string option"
  ap_workspace_id :: "string option"
  ap_arguments :: "string option"
  ap_allowed_decisions :: "approval_decision list"
  ap_status :: approval_status
  ap_decision :: "approval_decision option"
  ap_decision_source :: "decision_source option"
  ap_decided_at :: "string option"
  ap_questions :: "json option"
  ap_answers :: "(string \<times> string list) list option"

record session_grant =
  sg_grant_id :: string
  sg_instance_id :: string
  sg_runner :: string
  sg_approval_kind :: approval_kind
  sg_normalized_scope :: string
  sg_created_from :: string
  sg_created_at :: string
  sg_workspace_id :: "string option"
  sg_revoked_at :: "string option"

definition is_active :: "session_grant \<Rightarrow> bool" where
  "is_active g \<longleftrightarrow> sg_revoked_at g = None"

section \<open>Paths\<close>

text \<open>\<open>os.path.normpath\<close>: the loop over the components, which it keeps in reverse here.\<close>

fun norm_comps :: "bool \<Rightarrow> string list \<Rightarrow> string list \<Rightarrow> string list" where
  "norm_comps rooted kept [] = rev kept"
| "norm_comps rooted kept (c # cs) =
     (if c = [] \<or> c = ''.'' then norm_comps rooted kept cs
      else if c \<noteq> ''..'' \<or> (\<not> rooted \<and> kept = []) \<or> (kept \<noteq> [] \<and> hd kept = ''..'') then norm_comps rooted (c # kept) cs
      else norm_comps rooted (tl kept) cs)"

definition leading_slashes :: "string \<Rightarrow> nat" where
  "leading_slashes p = (if take 1 p \<noteq> ''/'' then 0 else if take 2 p = ''//'' \<and> take 3 p \<noteq> ''///'' then 2 else 1)"

definition normpath :: "string \<Rightarrow> string" where
  "normpath p = (if p = [] then ''.''
     else let n = leading_slashes p; q = replicate n (CHR ''/'') @ join_with ''/'' (norm_comps (n \<noteq> 0) [] (split_slash p))
          in if q = [] then ''.'' else q)"

definition isabs :: "string \<Rightarrow> bool" where
  "isabs p \<longleftrightarrow> take 1 p = ''/''"

definition path_join :: "string \<Rightarrow> string \<Rightarrow> string" where
  "path_join a b = (if isabs b then b else if a = [] \<or> last a = CHR ''/'' then a @ b else a @ ''/'' @ b)"

section \<open>The scope of a request\<close>

record grant_env =
  ge_loads :: "string \<Rightarrow> json option"
  ge_dumps :: "json \<Rightarrow> string"

definition collapsed :: "string option \<Rightarrow> string" where
  "collapsed x = (case x of None \<Rightarrow> [] | Some s \<Rightarrow> collapse s)"

definition directory :: "string option \<Rightarrow> string" where
  "directory path = (case path of None \<Rightarrow> [] | Some p \<Rightarrow> if p = [] then [] else normpath p)"

text \<open>\<open>_parsed\<close>: a JSON \<open>null\<close> is read as None, like a text that is not JSON.\<close>

definition parsed :: "grant_env \<Rightarrow> string option \<Rightarrow> json option" where
  "parsed env args = (case args of None \<Rightarrow> None | Some s \<Rightarrow>
     if s = [] then None else case ge_loads env s of Some JNull \<Rightarrow> None | v \<Rightarrow> v)"

definition canonical_arguments :: "grant_env \<Rightarrow> string option \<Rightarrow> string" where
  "canonical_arguments env args = (case parsed env args of None \<Rightarrow> collapsed args | Some v \<Rightarrow> ge_dumps env v)"

definition absolute :: "string \<Rightarrow> string option \<Rightarrow> string" where
  "absolute path cwd = (case cwd of
     None \<Rightarrow> normpath path
   | Some d \<Rightarrow> if isabs path \<or> d = [] then normpath path else normpath (path_join d path))"

definition PATH_FIELDS :: "string list" where
  "PATH_FIELDS = [''file_path'', ''path'', ''notebook_path'']"

definition PATH_COLLECTION_FIELDS :: "string list" where
  "PATH_COLLECTION_FIELDS = [''paths'', ''file_paths'', ''changes'', ''file_changes'']"

definition nonblank :: "string \<Rightarrow> bool" where
  "nonblank s \<longleftrightarrow> list_ex (Not \<circ> py_space) s"

definition path_values :: "json \<Rightarrow> string list" where
  "path_values v = concat (map (\<lambda>f. case jget v f of Some (JStr s) \<Rightarrow> if nonblank s then [s] else [] | _ \<Rightarrow> []) PATH_FIELDS)"

definition collected_paths :: "json option \<Rightarrow> string list" where
  "collected_paths value = (case value of
     Some (JObj kvs) \<Rightarrow> filter nonblank (map fst kvs)
   | Some (JList es) \<Rightarrow> concat (map (\<lambda>e. case e of
        JStr s \<Rightarrow> if nonblank s then [s] else [] | JObj kvs \<Rightarrow> path_values e | _ \<Rightarrow> []) es)
   | _ \<Rightarrow> [])"

definition paths_in :: "grant_env \<Rightarrow> approval \<Rightarrow> string list" where
  "paths_in env r = (case parsed env (ap_arguments r) of
     Some (JObj kvs) \<Rightarrow> sort (remdups (map (\<lambda>p. absolute p (ap_cwd r))
       (path_values (JObj kvs) @ concat (map (\<lambda>f. collected_paths (jget (JObj kvs) f)) PATH_COLLECTION_FIELDS))))
   | _ \<Rightarrow> [])"

definition normalized_scope :: "grant_env \<Rightarrow> approval \<Rightarrow> string option" where
  "normalized_scope env r = (case ap_kind r of
     COMMAND_EXECUTION \<Rightarrow>
       (let command = collapsed (ap_command r) in
        if command = [] then None else Some (''command_execution|'' @ directory (ap_cwd r) @ ''|'' @ command))
   | FILE_CHANGE \<Rightarrow>
       (let paths = paths_in env r in if paths = [] then None else Some (''file_change|'' @ join_with '','' paths))
   | TOOL_USE \<Rightarrow>
       (let tool_name = collapsed (ap_tool_name r) in
        if tool_name = [] then None else Some (''tool_use|'' @ tool_name @ ''|'' @ canonical_arguments env (ap_arguments r)))
   | _ \<Rightarrow> None)"

section \<open>Grants\<close>

definition session_grant_from :: "grant_env \<Rightarrow> string \<Rightarrow> string \<Rightarrow> approval \<Rightarrow> session_grant option" where
  "session_grant_from env uuid now r = (case normalized_scope env r of
     None \<Rightarrow> None
   | Some scope \<Rightarrow>
       if ACCEPT_FOR_SESSION \<notin> set (ap_allowed_decisions r) then None
       else Some \<lparr>sg_grant_id = ''grant-'' @ take 12 uuid, sg_instance_id = ap_instance_id r, sg_runner = ap_runner r,
              sg_approval_kind = ap_kind r, sg_normalized_scope = scope, sg_created_from = ap_approval_id r,
              sg_created_at = now, sg_workspace_id = ap_workspace_id r, sg_revoked_at = None\<rparr>)"

definition matching_grant :: "grant_env \<Rightarrow> approval \<Rightarrow> session_grant list \<Rightarrow> session_grant option" where
  "matching_grant env r grants =
     (if ACCEPT_FOR_SESSION \<notin> set (ap_allowed_decisions r) then None
      else case normalized_scope env r of
        None \<Rightarrow> None
      | Some scope \<Rightarrow> find (\<lambda>g. is_active g \<and> sg_instance_id g = ap_instance_id r \<and> sg_runner g = ap_runner r
          \<and> sg_workspace_id g = ap_workspace_id r \<and> sg_approval_kind g = ap_kind r \<and> sg_normalized_scope g = scope) grants)"

lemma matching_grantD:
  assumes "matching_grant env r grants = Some g"
  shows "ACCEPT_FOR_SESSION \<in> set (ap_allowed_decisions r)" "g \<in> set grants" "is_active g" "sg_instance_id g = ap_instance_id r"
    "sg_runner g = ap_runner r" "sg_workspace_id g = ap_workspace_id r" "sg_approval_kind g = ap_kind r"
    "normalized_scope env r = Some (sg_normalized_scope g)"
  using assms by (auto simp: matching_grant_def find_Some_iff split: if_split_asm option.split_asm)

section \<open>Equal scopes\<close>

text \<open>
  The action a request asks for, part by part, and the condition under which the joined text can be
  taken apart again: no directory or tool name contains a bar and no path a comma.
\<close>

definition same_action :: "grant_env \<Rightarrow> approval \<Rightarrow> approval \<Rightarrow> bool" where
  "same_action env r s \<longleftrightarrow> ap_kind r = ap_kind s \<and> (case ap_kind r of
     COMMAND_EXECUTION \<Rightarrow> collapsed (ap_command r) \<noteq> [] \<and> collapsed (ap_command r) = collapsed (ap_command s)
       \<and> directory (ap_cwd r) = directory (ap_cwd s)
   | FILE_CHANGE \<Rightarrow> paths_in env r \<noteq> [] \<and> paths_in env r = paths_in env s
   | TOOL_USE \<Rightarrow> collapsed (ap_tool_name r) \<noteq> [] \<and> collapsed (ap_tool_name r) = collapsed (ap_tool_name s)
       \<and> canonical_arguments env (ap_arguments r) = canonical_arguments env (ap_arguments s)
   | _ \<Rightarrow> False)"

definition separable :: "grant_env \<Rightarrow> approval \<Rightarrow> bool" where
  "separable env r \<longleftrightarrow> CHR ''|'' \<notin> set (directory (ap_cwd r)) \<and> CHR ''|'' \<notin> set (collapsed (ap_tool_name r))
     \<and> (\<forall>p \<in> set (paths_in env r). CHR '','' \<notin> set p)"

lemma bar_split: "CHR ''|'' \<notin> set a \<Longrightarrow> CHR ''|'' \<notin> set b \<Longrightarrow> a @ CHR ''|'' # x = b @ CHR ''|'' # y \<longleftrightarrow> a = b \<and> x = y"
  by (auto simp: append_eq_append_conv2 Cons_eq_append_conv append_eq_Cons_conv)

lemma normpath_nonempty [simp]: "normpath p \<noteq> []"
  by (simp add: normpath_def Let_def)

lemma absolute_nonempty [simp]: "absolute p d \<noteq> []"
  by (simp add: absolute_def split: option.split)

lemma paths_in_nonempty: "p \<in> set (paths_in env r) \<Longrightarrow> p \<noteq> []"
  using absolute_nonempty[symmetric] by (auto simp: paths_in_def split: option.split_asm json.split_asm)

lemma comma_cut:
  assumes "CHR '','' \<notin> set a" "CHR '','' \<notin> set b"
  shows "a @ CHR '','' # x = b @ CHR '','' # y \<longleftrightarrow> a = b \<and> x = y" "a @ CHR '','' # x \<noteq> b"
  using assms by (auto simp: append_eq_append_conv2 Cons_eq_append_conv append_eq_Cons_conv)

lemma join_with_step: "join_with sep (w # ws) = (if ws = [] then w else w @ sep @ join_with sep ws)"
  by (cases ws) auto

lemma join_comma_inject:
  assumes "\<forall>p \<in> set xs. CHR '','' \<notin> set p \<and> p \<noteq> []" and "\<forall>p \<in> set ys. CHR '','' \<notin> set p \<and> p \<noteq> []"
  shows "join_with '','' xs = join_with '','' ys \<longleftrightarrow> xs = ys"
  using assms
proof (induction xs arbitrary: ys)
  case Nil
  then show ?case by (cases ys) (auto simp: join_with_step)
next
  case (Cons w ws)
  show ?case
  proof (cases ys)
    case Nil
    then show ?thesis using Cons.prems by (auto simp: join_with_step)
  next
    case (Cons v vs)
    have "join_with '','' ws = join_with '','' vs \<longleftrightarrow> ws = vs" using Cons Cons.prems Cons.IH[of vs] by simp
    then show ?thesis using Cons Cons.prems comma_cut[of w v] comma_cut(2)[of v w] by (auto simp: join_with_step)
  qed
qed

lemma scope_equal:
  assumes "separable env r" and "separable env s"
  shows "normalized_scope env r \<noteq> None \<and> normalized_scope env r = normalized_scope env s \<longleftrightarrow> same_action env r s"
proof -
  have paths: "join_with '','' (paths_in env r) = join_with '','' (paths_in env s) \<longleftrightarrow> paths_in env r = paths_in env s"
    using assms by (intro join_comma_inject) (auto simp: separable_def paths_in_nonempty)
  have bars: "directory (ap_cwd r) @ CHR ''|'' # x = directory (ap_cwd s) @ CHR ''|'' # y \<longleftrightarrow> directory (ap_cwd r) = directory (ap_cwd s) \<and> x = y"
      "collapsed (ap_tool_name r) @ CHR ''|'' # x = collapsed (ap_tool_name s) @ CHR ''|'' # y \<longleftrightarrow>
        collapsed (ap_tool_name r) = collapsed (ap_tool_name s) \<and> x = y" for x y
    using assms by (auto simp: separable_def bar_split)
  show ?thesis
    by (cases "ap_kind r"; cases "ap_kind s") (auto simp: normalized_scope_def same_action_def Let_def bars paths)
qed

end
