(* ===== verification/Approval_Broker.thy ===== *)
theory Approval_Broker
  imports Session_Grants
begin

text \<open>
  The approval broker (\<open>packages/runtime/src/engine/runtime/approvals.py\<close>) over the state store
  (\<open>packages/adapters/state_store/memory\<close>; the SQLite store behaves the same on approvals and grants). The
  stores never suspend, so between two awaits of a presenter, an observer or the answer itself an
  operation is atomic: those stretches are the definitions below, and \<open>broker_step\<close> is what
  the tasks of one process, the people who answer and a restart can do, in any order.
\<close>

section \<open>Requests\<close>

record question =
  qn_question_id :: string
  qn_header :: string
  qn_question :: string
  qn_options :: "(string \<times> string) list"
  qn_multi_select :: bool
  qn_allows_other :: bool

record approval_request =
  aq_approval_id :: string
  aq_kind :: approval_kind
  aq_reason :: "string option"
  aq_command :: "string option"
  aq_cwd :: "string option"
  aq_tool_name :: "string option"
  aq_tool_call_id :: "string option"
  aq_arguments :: "string option"
  aq_allowed_decisions :: "approval_decision list"
  aq_questions :: "question list"
  aq_requires_human :: bool

text \<open>What one interactive turn binds its requests to.\<close>

record turn =
  tn_agent_run_id :: string
  tn_instance_id :: string
  tn_runner :: string
  tn_workspace_id :: "string option"
  tn_translator :: "(approval_request \<Rightarrow> permission_scope option) option"
  tn_read_only :: bool

text \<open>An answer to a paused turn: a decision, or the answers to structured questions in their order.\<close>

datatype approval_response = Decision approval_decision | Input "(string \<times> string list) list"

datatype approval_error = Unknown_approval | Not_pending | Decision_not_allowed | Input_not_allowed | Store_key_error

section \<open>State\<close>

text \<open>
  A future belongs to one request and is named by it. \<open>br_opening\<close> holds the requests whose first
  observer still runs, \<open>br_returning\<close> those answered without a person whose turn has not been told,
  \<open>br_writing\<close> the answers that are persisted and not yet handed over, and \<open>br_closing\<close> the interrupted
  requests whose future is still to be cancelled.
\<close>

datatype future = Parked | Told approval_response | Torn

record broker =
  br_instances :: "string list"
  br_approvals :: "(string, approval) table"
  br_grants :: "(string, session_grant) table"
  br_waiting :: "string list"
  br_requests :: "(string, approval_request) table"
  br_futures :: "(string, future) table"
  br_opening :: "(string, approval_request) table"
  br_returning :: "(string, approval_decision) table"
  br_writing :: "(string, approval_response) table"
  br_closing :: "string list"

definition empty_broker :: broker where
  "empty_broker = \<lparr>br_instances = [], br_approvals = [], br_grants = [], br_waiting = [], br_requests = [], br_futures = [],
     br_opening = [], br_returning = [], br_writing = [], br_closing = []\<rparr>"

section \<open>The store\<close>

definition create_instance :: "string \<Rightarrow> broker \<Rightarrow> broker" where
  "create_instance iid b = (if iid \<in> set (br_instances b) then b else b\<lparr>br_instances := br_instances b @ [iid]\<rparr>)"

definition record_approval :: "approval \<Rightarrow> broker \<Rightarrow> approval_error + broker" where
  "record_approval a b = (if ap_instance_id a \<notin> set (br_instances b) then Inl Store_key_error
     else Inr (b\<lparr>br_approvals := tput (ap_approval_id a) a (br_approvals b)\<rparr>))"

definition load_approval :: "string \<Rightarrow> broker \<Rightarrow> approval option" where
  "load_approval aid b = tget (br_approvals b) aid"

definition list_approvals :: "string option \<Rightarrow> string option \<Rightarrow> approval_status option \<Rightarrow> broker \<Rightarrow> approval list" where
  "list_approvals iid run st b = filter (\<lambda>a. (case iid of None \<Rightarrow> True | Some i \<Rightarrow> ap_instance_id a = i)
     \<and> (case run of None \<Rightarrow> True | Some r \<Rightarrow> ap_agent_run_id a = r)
     \<and> (case st of None \<Rightarrow> True | Some x \<Rightarrow> ap_status a = x)) (map snd (br_approvals b))"

definition record_session_grant :: "session_grant \<Rightarrow> broker \<Rightarrow> approval_error + broker" where
  "record_session_grant g b = (if sg_instance_id g \<notin> set (br_instances b) then Inl Store_key_error
     else Inr (b\<lparr>br_grants := tput (sg_grant_id g) g (br_grants b)\<rparr>))"

definition list_session_grants :: "string option \<Rightarrow> broker \<Rightarrow> session_grant list" where
  "list_session_grants iid b = filter (\<lambda>g. case iid of None \<Rightarrow> True | Some i \<Rightarrow> sg_instance_id g = i) (map snd (br_grants b))"

section \<open>Asking\<close>

definition question_json :: "question \<Rightarrow> json" where
  "question_json q = JObj [(''id'', JStr (qn_question_id q)), (''header'', JStr (qn_header q)), (''question'', JStr (qn_question q)),
     (''options'', JList (map (\<lambda>(l, t). JObj [(''label'', JStr l), (''description'', JStr t)]) (qn_options q))),
     (''multiSelect'', JBool (qn_multi_select q)), (''allowsOther'', JBool (qn_allows_other q))]"

definition new_record :: "turn \<Rightarrow> string \<Rightarrow> string \<Rightarrow> approval_request \<Rightarrow> approval" where
  "new_record tn uuid now rq = \<lparr>ap_approval_id = ''apv-'' @ take 12 uuid, ap_agent_run_id = tn_agent_run_id tn,
     ap_instance_id = tn_instance_id tn, ap_runner = tn_runner tn, ap_kind = aq_kind rq, ap_requested_at = now,
     ap_reason = aq_reason rq, ap_command = aq_command rq, ap_cwd = aq_cwd rq, ap_tool_name = aq_tool_name rq,
     ap_tool_call_id = aq_tool_call_id rq, ap_workspace_id = tn_workspace_id tn, ap_arguments = aq_arguments rq,
     ap_allowed_decisions = aq_allowed_decisions rq, ap_status = PENDING, ap_decision = None, ap_decision_source = None,
     ap_decided_at = None, ap_questions = (if aq_questions rq = [] then None else Some (JList (map question_json (aq_questions rq)))),
     ap_answers = None\<rparr>"

definition configured_decision :: "approval_config \<Rightarrow> turn \<Rightarrow> approval_request \<Rightarrow> approval_decision option" where
  "configured_decision policy tn rq =
     (if aq_requires_human rq then None
      else let scope = (case tn_translator tn of None \<Rightarrow> None | Some f \<Rightarrow> f rq);
               configured = (case policy_decision_for policy scope (tn_read_only tn) of
                  ALLOW \<Rightarrow> Some ACCEPT | DENY \<Rightarrow> Some CANCEL | ASK \<Rightarrow> None)
           in case configured of None \<Rightarrow> None | Some d \<Rightarrow> if d \<in> set (aq_allowed_decisions rq) then Some d else None)"

definition settled :: "approval_decision \<Rightarrow> decision_source \<Rightarrow> string \<Rightarrow> approval \<Rightarrow> approval" where
  "settled d source now a = a\<lparr>ap_status := DECIDED, ap_decision := Some d, ap_decision_source := Some source, ap_decided_at := Some now\<rparr>"

text \<open>\<open>request_approval\<close> up to its first await: the policy, then a session grant, then a person.\<close>

definition request_approval ::
  "grant_env \<Rightarrow> approval_config \<Rightarrow> turn \<Rightarrow> string \<Rightarrow> string \<Rightarrow> approval_request \<Rightarrow> broker \<Rightarrow> approval_error + broker" where
  "request_approval env policy tn uuid now rq b =
     (let a = new_record tn uuid now rq; aid = ap_approval_id a in
      case configured_decision policy tn rq of
        Some d \<Rightarrow> sbind (record_approval (settled d FROM_POLICY now a) b)
          (\<lambda>b1. Inr (b1\<lparr>br_returning := tput aid d (br_returning b1)\<rparr>))
      | None \<Rightarrow>
          (case (if aq_requires_human rq then None else matching_grant env a (list_session_grants (Some (ap_instance_id a)) b)) of
             Some g \<Rightarrow> sbind (record_approval (settled ACCEPT_FOR_SESSION FROM_SESSION_GRANT now a) b)
               (\<lambda>b1. Inr (b1\<lparr>br_returning := tput aid ACCEPT_FOR_SESSION (br_returning b1)\<rparr>))
           | None \<Rightarrow> sbind (record_approval a b) (\<lambda>b1. Inr (b1\<lparr>br_opening := tput aid rq (br_opening b1)\<rparr>))))"

text \<open>The rest of the request before it waits: a future, and the request behind it.\<close>

definition park :: "string \<Rightarrow> approval_request \<Rightarrow> broker \<Rightarrow> broker" where
  "park aid rq b = b\<lparr>br_opening := tdel aid (br_opening b), br_futures := tput aid Parked (br_futures b),
     br_waiting := aid # br_waiting b, br_requests := tput aid rq (br_requests b)\<rparr>"

section \<open>Answering\<close>

definition without :: "string \<Rightarrow> string list \<Rightarrow> string list" where
  "without x xs = filter (\<lambda>y. y \<noteq> x) xs"

text \<open>The checks that \<open>decide\<close> and \<open>answer\<close> share.\<close>

definition open_record :: "string \<Rightarrow> string \<Rightarrow> string option \<Rightarrow> broker \<Rightarrow> approval_error + approval" where
  "open_record aid iid run b = (case load_approval aid b of
     None \<Rightarrow> Inl Unknown_approval
   | Some a \<Rightarrow>
       if ap_instance_id a \<noteq> iid then Inl Unknown_approval
       else if ap_status a \<noteq> PENDING then Inl Not_pending
       else if run = None \<or> run \<noteq> Some (ap_agent_run_id a) then Inl Not_pending
       else Inr a)"

text \<open>Claiming the future; the caller who finds it gone or done loses.\<close>

definition claimed :: "string \<Rightarrow> broker \<Rightarrow> approval_error + broker" where
  "claimed aid b = (let b1 = b\<lparr>br_waiting := without aid (br_waiting b)\<rparr> in
     if aid \<in> set (br_waiting b) \<and> tget (br_futures b) aid = Some Parked then Inr b1 else Inl Not_pending)"

definition broker_decide ::
  "grant_env \<Rightarrow> string \<Rightarrow> string \<Rightarrow> string \<Rightarrow> approval_decision \<Rightarrow> string \<Rightarrow> string option \<Rightarrow> decision_source \<Rightarrow> broker
   \<Rightarrow> approval_error + approval \<times> broker" where
  "broker_decide env uuid now aid d iid run source b =
     sbind (open_record aid iid run b) (\<lambda>a.
     if d \<notin> set (ap_allowed_decisions a) then Inl Decision_not_allowed
     else sbind (claimed aid b) (\<lambda>b1.
       let a1 = settled d source now a;
           grant = (if d = ACCEPT_FOR_SESSION \<and> source = FROM_USER then session_grant_from env uuid now a else None)
       in sbind (case grant of None \<Rightarrow> Inr b1 | Some g \<Rightarrow> record_session_grant g b1) (\<lambda>b2.
          sbind (record_approval a1 b2) (\<lambda>b3.
          Inr (a1, b3\<lparr>br_writing := tput aid (Decision d) (br_writing b3)\<rparr>)))))"

text \<open>
  \<open>answer\<close>: exactly the questions asked, each with an acceptable answer. The dictionaries keep the last of
  several questions or answers with one identity.
\<close>

fun last_of :: "('a \<Rightarrow> string) \<Rightarrow> 'a list \<Rightarrow> (string, 'a) table" where
  "last_of key [] = []"
| "last_of key (x # xs) = (let t = last_of key xs in if tget t (key x) = None then (key x, x) # t else (key x, the (tget t (key x))) # tdel (key x) t)"

definition acceptable :: "question \<Rightarrow> string list \<Rightarrow> bool" where
  "acceptable q values \<longleftrightarrow> values \<noteq> [] \<and> list_all nonblank values \<and> (qn_multi_select q \<or> length values = 1)
     \<and> (qn_allows_other q \<or> list_all (\<lambda>v. v \<in> set (map fst (qn_options q))) values)"

definition answer ::
  "string \<Rightarrow> string \<Rightarrow> (string \<times> string list) list \<Rightarrow> string \<Rightarrow> string option \<Rightarrow> broker \<Rightarrow> approval_error + approval \<times> broker" where
  "answer now aid answers iid run b =
     sbind (open_record aid iid run b) (\<lambda>a.
     case tget (br_requests b) aid of
       None \<Rightarrow> Inl Input_not_allowed
     | Some rq \<Rightarrow>
         if aq_questions rq = [] then Inl Input_not_allowed
         else (let questions = last_of qn_question_id (aq_questions rq); supplied = last_of fst answers in
           if set (tkeys supplied) \<noteq> set (tkeys questions) then Inl Input_not_allowed
           else if \<not> list_all (\<lambda>(k, x). case tget questions k of None \<Rightarrow> False | Some q \<Rightarrow> acceptable q (snd x)) supplied
           then Inl Input_not_allowed
           else sbind (claimed aid b) (\<lambda>b1.
             let given = map (\<lambda>k. (k, snd (the (tget supplied k)))) (tkeys questions);
                 a1 = a\<lparr>ap_status := DECIDED, ap_decision_source := Some FROM_USER, ap_decided_at := Some now, ap_answers := Some given\<rparr>
             in sbind (record_approval a1 b1) (\<lambda>b2. Inr (a1, b2\<lparr>br_writing := tput aid (Input given) (br_writing b2)\<rparr>)))))"

text \<open>
  After the write the observer runs. Then the answer is handed to the future unless that is done; if
  the observer raised, the request is put back instead.
\<close>

definition hand_over :: "string \<Rightarrow> approval_response \<Rightarrow> broker \<Rightarrow> broker" where
  "hand_over aid r b = b\<lparr>br_writing := tdel aid (br_writing b),
     br_futures := (if tget (br_futures b) aid = Some Parked then tput aid (Told r) (br_futures b) else br_futures b)\<rparr>"

definition put_back :: "string \<Rightarrow> broker \<Rightarrow> broker" where
  "put_back aid b = b\<lparr>br_writing := tdel aid (br_writing b), br_waiting := aid # without aid (br_waiting b)\<rparr>"

section \<open>Interrupting\<close>

definition interrupt :: "string \<Rightarrow> broker \<Rightarrow> approval_error + approval option \<times> broker" where
  "interrupt aid b =
     (let b1 = b\<lparr>br_waiting := without aid (br_waiting b)\<rparr> in
      case load_approval aid b1 of
        None \<Rightarrow> Inr (None, b1)
      | Some a \<Rightarrow>
          if ap_status a \<noteq> PENDING then Inr (Some a, b1)
          else let a1 = a\<lparr>ap_status := INTERRUPTED\<rparr> in
               sbind (record_approval a1 b1) (\<lambda>b2.
                 Inr (Some a1, if aid \<in> set (br_waiting b) then b2\<lparr>br_closing := aid # br_closing b2\<rparr> else b2)))"

definition close_future :: "string \<Rightarrow> broker \<Rightarrow> broker" where
  "close_future aid b = b\<lparr>br_closing := without aid (br_closing b),
     br_futures := (if tget (br_futures b) aid = Some Parked then tput aid Torn (br_futures b) else br_futures b)\<rparr>"

text \<open>The ways a parked request ends: told its answer, or torn down, which interrupts it.\<close>

definition forget :: "string \<Rightarrow> broker \<Rightarrow> broker" where
  "forget aid b = b\<lparr>br_waiting := without aid (br_waiting b), br_requests := tdel aid (br_requests b),
     br_futures := tdel aid (br_futures b)\<rparr>"

definition tear_down :: "string \<Rightarrow> broker \<Rightarrow> approval_error + broker" where
  "tear_down aid b = sbind (interrupt aid b) (\<lambda>(x, b1). Inr (forget aid (b1\<lparr>br_closing := without aid (br_closing b1)\<rparr>)))"

text \<open>
  \<open>cancel_run\<close>, \<open>interrupt_run\<close> and \<open>interrupt_orphans\<close> when their observers neither raise nor let another
  task in: each request is settled, handed over or closed before the next. The clock is read once for
  each request.
\<close>

definition interrupt_now :: "string \<Rightarrow> broker \<Rightarrow> approval_error + approval option \<times> broker" where
  "interrupt_now aid b = sbind (interrupt aid b) (\<lambda>(x, b1). Inr (x, if br_closing b1 = br_closing b then b1 else close_future aid b1))"

definition cancel_one :: "grant_env \<Rightarrow> string \<Rightarrow> (string \<Rightarrow> string) \<Rightarrow> string \<Rightarrow> approval \<Rightarrow> broker \<Rightarrow> approval_error + approval option \<times> broker" where
  "cancel_one env uuid clock run a b =
     (case broker_decide env uuid (clock (ap_approval_id a)) (ap_approval_id a) CANCEL (ap_instance_id a) (Some run) FROM_USER b of
        Inr (a1, b1) \<Rightarrow> Inr (Some a1, hand_over (ap_approval_id a) (Decision CANCEL) b1)
      | Inl Store_key_error \<Rightarrow> Inl Store_key_error
      | Inl e \<Rightarrow> interrupt_now (ap_approval_id a) b)"

definition interrupt_one :: "approval \<Rightarrow> broker \<Rightarrow> approval_error + approval option \<times> broker" where
  "interrupt_one a b = interrupt_now (ap_approval_id a) b"

fun each :: "(approval \<Rightarrow> broker \<Rightarrow> approval_error + approval option \<times> broker) \<Rightarrow> approval list \<Rightarrow> broker
   \<Rightarrow> approval_error + approval list \<times> broker" where
  "each f [] b = Inr ([], b)"
| "each f (a # as) b = sbind (f a b) (\<lambda>(x, b1). sbind (each f as b1) (\<lambda>(xs, b2).
     Inr ((case x of None \<Rightarrow> xs | Some y \<Rightarrow> y # xs), b2)))"

definition cancel_run :: "grant_env \<Rightarrow> string \<Rightarrow> (string \<Rightarrow> string) \<Rightarrow> string \<Rightarrow> broker \<Rightarrow> approval_error + approval list \<times> broker" where
  "cancel_run env uuid clock run b = each (cancel_one env uuid clock run) (list_approvals None (Some run) (Some PENDING) b) b"

definition interrupt_run :: "string \<Rightarrow> broker \<Rightarrow> approval_error + approval list \<times> broker" where
  "interrupt_run run b = each interrupt_one (list_approvals None (Some run) (Some PENDING) b) b"

definition interrupt_orphans :: "broker \<Rightarrow> approval_error + approval list \<times> broker" where
  "interrupt_orphans b = each interrupt_one
     (filter (\<lambda>a. ap_approval_id a \<notin> set (br_waiting b)) (list_approvals None None (Some PENDING) b)) b"

definition is_waiting :: "string \<Rightarrow> broker \<Rightarrow> bool" where
  "is_waiting aid b \<longleftrightarrow> aid \<in> set (br_waiting b) \<and> tget (br_futures b) aid = Some Parked"

text \<open>A restart keeps what is stored and nothing else.\<close>

definition restart :: "broker \<Rightarrow> broker" where
  "restart b = empty_broker\<lparr>br_instances := br_instances b, br_approvals := br_approvals b, br_grants := br_grants b\<rparr>"

section \<open>The broker as a step relation\<close>

text \<open>
  \<open>turn_cancelled\<close> is the cancellation of the task that waits, which cancels its future before the task runs
  again and tears the request down; \<open>done_popped\<close> is what a refused decision does when it finds a future
  that is done. An observer that suspends lets the other steps in between \<open>requested\<close> and \<open>parked\<close>,
  between \<open>decided\<close> or \<open>answered\<close> and \<open>handed_over\<close>, and between \<open>interrupted\<close> and \<open>closed\<close> or \<open>torn_down\<close>.
\<close>

datatype broker_label = Quiet | Told_turn string approval_response

text \<open>A new identity names no stored record or grant.\<close>

definition fresh_for :: "string \<Rightarrow> broker \<Rightarrow> bool" where
  "fresh_for uuid b \<longleftrightarrow> tget (br_approvals b) (''apv-'' @ take 12 uuid) = None \<and> tget (br_grants b) (''grant-'' @ take 12 uuid) = None"

inductive broker_step :: "grant_env \<Rightarrow> approval_config \<Rightarrow> broker \<Rightarrow> broker_label \<Rightarrow> broker \<Rightarrow> bool" for env policy where
  instance_created: "broker_step env policy b Quiet (create_instance iid b)"
| requested: "fresh_for uuid b \<Longrightarrow> request_approval env policy tn uuid now rq b = Inr b' \<Longrightarrow> broker_step env policy b Quiet b'"
| told_unasked: "tget (br_returning b) aid = Some d \<Longrightarrow>
     broker_step env policy b (Told_turn aid (Decision d)) (b\<lparr>br_returning := tdel aid (br_returning b)\<rparr>)"
| unasked_lost: "broker_step env policy b Quiet (b\<lparr>br_returning := tdel aid (br_returning b)\<rparr>)"
| parked: "tget (br_opening b) aid = Some rq \<Longrightarrow> broker_step env policy b Quiet (park aid rq b)"
| opening_lost: "broker_step env policy b Quiet (b\<lparr>br_opening := tdel aid (br_opening b)\<rparr>)"
| decided: "fresh_for uuid b \<Longrightarrow> broker_decide env uuid now aid d iid run FROM_USER b = Inr (a, b') \<Longrightarrow> broker_step env policy b Quiet b'"
| answered: "answer now aid answers iid run b = Inr (a, b') \<Longrightarrow> broker_step env policy b Quiet b'"
| handed_over: "tget (br_writing b) aid = Some r \<Longrightarrow> broker_step env policy b Quiet (hand_over aid r b)"
| observer_failed: "tget (br_writing b) aid = Some r \<Longrightarrow> broker_step env policy b Quiet (put_back aid b)"
| resumed: "tget (br_futures b) aid = Some (Told r) \<Longrightarrow> broker_step env policy b (Told_turn aid r) (forget aid b)"
| turn_cancelled: "tget (br_futures b) aid = Some Parked \<Longrightarrow> broker_step env policy b Quiet (b\<lparr>br_futures := tput aid Torn (br_futures b)\<rparr>)"
| done_popped: "tget (br_futures b) aid \<noteq> Some Parked \<Longrightarrow> broker_step env policy b Quiet (b\<lparr>br_waiting := without aid (br_waiting b)\<rparr>)"
| torn_down: "tget (br_futures b) aid \<noteq> None \<Longrightarrow> tear_down aid b = Inr b' \<Longrightarrow> broker_step env policy b Quiet b'"
| interrupted: "interrupt aid b = Inr (x, b') \<Longrightarrow> broker_step env policy b Quiet b'"
| closed: "aid \<in> set (br_closing b) \<Longrightarrow> broker_step env policy b Quiet (close_future aid b)"
| closing_lost: "broker_step env policy b Quiet (b\<lparr>br_closing := without aid (br_closing b)\<rparr>)"
| restarted: "broker_step env policy b Quiet (restart b)"

inductive broker_run :: "grant_env \<Rightarrow> approval_config \<Rightarrow> broker_label list \<Rightarrow> broker \<Rightarrow> bool" for env policy where
  run_empty: "broker_run env policy [] empty_broker"
| run_more: "broker_run env policy ls b \<Longrightarrow> broker_step env policy b l b' \<Longrightarrow> broker_run env policy (ls @ [l]) b'"

end
