(* ===== verification/Approval_Inv.thy ===== *)
theory Approval_Inv
  imports Approval_Broker
begin

text \<open>
  What every state of the broker keeps: the stored rows are in order, whatever is on its way to a turn is
  already recorded as decided, a decided or interrupted record is never touched again, and every grant
  goes back to a person's decision on a stored request.
\<close>

section \<open>What the operations write\<close>

lemma record_approval_Inr:
  "record_approval a b = Inr b' \<longleftrightarrow> ap_instance_id a \<in> set (br_instances b) \<and> b' = b\<lparr>br_approvals := tput (ap_approval_id a) a (br_approvals b)\<rparr>"
  by (auto simp: record_approval_def)

lemma record_session_grant_Inr:
  "record_session_grant g b = Inr b' \<longleftrightarrow> sg_instance_id g \<in> set (br_instances b) \<and> b' = b\<lparr>br_grants := tput (sg_grant_id g) g (br_grants b)\<rparr>"
  by (auto simp: record_session_grant_def)

lemma settled_simps [simp]:
  "ap_approval_id (settled d s n a) = ap_approval_id a" "ap_agent_run_id (settled d s n a) = ap_agent_run_id a"
  "ap_instance_id (settled d s n a) = ap_instance_id a" "ap_runner (settled d s n a) = ap_runner a"
  "ap_kind (settled d s n a) = ap_kind a" "ap_command (settled d s n a) = ap_command a"
  "ap_cwd (settled d s n a) = ap_cwd a" "ap_tool_name (settled d s n a) = ap_tool_name a"
  "ap_arguments (settled d s n a) = ap_arguments a" "ap_workspace_id (settled d s n a) = ap_workspace_id a"
  "ap_allowed_decisions (settled d s n a) = ap_allowed_decisions a" "ap_status (settled d s n a) = DECIDED"
  "ap_decision (settled d s n a) = Some d" "ap_decision_source (settled d s n a) = Some s"
  by (simp_all add: settled_def)

lemma paths_in_settled [simp]: "paths_in env (settled d s n a) = paths_in env a"
  by (simp add: paths_in_def split: option.split json.split)

lemma normalized_scope_settled [simp]: "normalized_scope env (settled d s n a) = normalized_scope env a"
  by (cases "ap_kind a") (simp_all add: normalized_scope_def Let_def)

lemma new_record_simps [simp]:
  "ap_approval_id (new_record tn u n rq) = ''apv-'' @ take 12 u" "ap_instance_id (new_record tn u n rq) = tn_instance_id tn"
  "ap_allowed_decisions (new_record tn u n rq) = aq_allowed_decisions rq" "ap_status (new_record tn u n rq) = PENDING"
  "ap_decision_source (new_record tn u n rq) = None"
  by (simp_all add: new_record_def)

text \<open>A request: answered by the policy, answered from a grant, or stored and opened.\<close>

lemma request_approvalE:
  assumes "request_approval env policy tn u n rq b = Inr b'"
  obtains (policy) d where "configured_decision policy tn rq = Some d" "tn_instance_id tn \<in> set (br_instances b)"
      "b' = b\<lparr>br_approvals := tput (''apv-'' @ take 12 u) (settled d FROM_POLICY n (new_record tn u n rq)) (br_approvals b),
              br_returning := tput (''apv-'' @ take 12 u) d (br_returning b)\<rparr>"
  | (grant) g where "configured_decision policy tn rq = None" "\<not> aq_requires_human rq" "tn_instance_id tn \<in> set (br_instances b)"
      "matching_grant env (new_record tn u n rq) (list_session_grants (Some (tn_instance_id tn)) b) = Some g"
      "b' = b\<lparr>br_approvals := tput (''apv-'' @ take 12 u) (settled ACCEPT_FOR_SESSION FROM_SESSION_GRANT n (new_record tn u n rq)) (br_approvals b),
              br_returning := tput (''apv-'' @ take 12 u) ACCEPT_FOR_SESSION (br_returning b)\<rparr>"
  | (ask) "configured_decision policy tn rq = None" "tn_instance_id tn \<in> set (br_instances b)"
      "b' = b\<lparr>br_approvals := tput (''apv-'' @ take 12 u) (new_record tn u n rq) (br_approvals b),
              br_opening := tput (''apv-'' @ take 12 u) rq (br_opening b)\<rparr>"
  using assms
  by (auto simp: request_approval_def Let_def sbind_eq_Inr record_approval_Inr split: option.split_asm if_split_asm)

lemma open_record_Inr:
  "open_record aid iid run b = Inr a \<longleftrightarrow> tget (br_approvals b) aid = Some a \<and> ap_instance_id a = iid \<and> ap_status a = PENDING
     \<and> run = Some (ap_agent_run_id a)"
  by (auto simp: open_record_def load_approval_def split: option.split)

lemma claimed_Inr:
  "claimed aid b = Inr b' \<longleftrightarrow> is_waiting aid b \<and> b' = b\<lparr>br_waiting := without aid (br_waiting b)\<rparr>"
  by (auto simp: claimed_def is_waiting_def Let_def)

text \<open>A decision: who may make it, and the grant it leaves.\<close>

lemma broker_decideE:
  assumes "broker_decide env u n aid d iid run src b = Inr (a1, b')"
  obtains a gs where "tget (br_approvals b) aid = Some a" "ap_instance_id a = iid" "ap_status a = PENDING"
      "run = Some (ap_agent_run_id a)" "d \<in> set (ap_allowed_decisions a)" "is_waiting aid b" "a1 = settled d src n a"
      "gs = (case if d = ACCEPT_FOR_SESSION \<and> src = FROM_USER then session_grant_from env u n a else None of
               None \<Rightarrow> br_grants b | Some g \<Rightarrow> tput (sg_grant_id g) g (br_grants b))"
      "b' = b\<lparr>br_waiting := without aid (br_waiting b), br_grants := gs,
              br_approvals := tput (ap_approval_id a) a1 (br_approvals b), br_writing := tput aid (Decision d) (br_writing b)\<rparr>"
proof -
  obtain a b1 where a: "open_record aid iid run b = Inr a" and d: "d \<in> set (ap_allowed_decisions a)" and b1: "claimed aid b = Inr b1"
    using assms by (auto simp: broker_decide_def sbind_eq_Inr split: if_split_asm)
  show ?thesis
  proof (cases "if d = ACCEPT_FOR_SESSION \<and> src = FROM_USER then session_grant_from env u n a else None")
    case None
    with assms a d b1 show ?thesis
      by (intro that[of a "br_grants b"])
         (auto simp: broker_decide_def Let_def sbind_eq_Inr record_approval_Inr open_record_Inr claimed_Inr)
  next
    case (Some g)
    with assms a d b1 show ?thesis
      by (intro that[of a "tput (sg_grant_id g) g (br_grants b)"])
         (auto simp: broker_decide_def Let_def sbind_eq_Inr record_approval_Inr record_session_grant_Inr open_record_Inr claimed_Inr)
  qed
qed

lemma answerE:
  assumes "answer n aid answers iid run b = Inr (a1, b')"
  obtains a given where "tget (br_approvals b) aid = Some a" "ap_status a = PENDING" "is_waiting aid b"
      "a1 = a\<lparr>ap_status := DECIDED, ap_decision_source := Some FROM_USER, ap_decided_at := Some n, ap_answers := Some given\<rparr>"
      "b' = b\<lparr>br_waiting := without aid (br_waiting b), br_approvals := tput (ap_approval_id a) a1 (br_approvals b),
              br_writing := tput aid (Input given) (br_writing b)\<rparr>"
  using assms
  by (auto simp: answer_def Let_def sbind_eq_Inr open_record_Inr claimed_Inr record_approval_Inr split: option.split_asm if_split_asm)

lemma interruptE:
  assumes "interrupt aid b = Inr (x, b')"
  obtains (nothing) "b' = b\<lparr>br_waiting := without aid (br_waiting b)\<rparr>" "\<And>a. tget (br_approvals b) aid = Some a \<Longrightarrow> ap_status a \<noteq> PENDING"
  | (marked) a cs where "tget (br_approvals b) aid = Some a" "ap_status a = PENDING" "x = Some (a\<lparr>ap_status := INTERRUPTED\<rparr>)"
      "cs = (if aid \<in> set (br_waiting b) then aid # br_closing b else br_closing b)"
      "b' = b\<lparr>br_waiting := without aid (br_waiting b),
              br_approvals := tput (ap_approval_id a) (a\<lparr>ap_status := INTERRUPTED\<rparr>) (br_approvals b), br_closing := cs\<rparr>"
  using assms
  by (auto simp: interrupt_def Let_def load_approval_def sbind_eq_Inr record_approval_Inr split: option.split_asm if_split_asm)

lemma tear_downE:
  assumes "tear_down aid b = Inr b'"
  obtains x b1 where "interrupt aid b = Inr (x, b1)" "b' = forget aid (b1\<lparr>br_closing := without aid (br_closing b1)\<rparr>)"
  using assms by (auto simp: tear_down_def sbind_eq_Inr)

section \<open>Invariants\<close>

text \<open>A record that holds the answer.\<close>

definition answered :: "approval \<Rightarrow> approval_response \<Rightarrow> bool" where
  "answered a r \<longleftrightarrow> ap_status a = DECIDED \<and> (case r of
     Decision d \<Rightarrow> ap_decision a = Some d \<and> d \<in> set (ap_allowed_decisions a)
   | Input given \<Rightarrow> ap_answers a = Some given \<and> ap_decision_source a = Some FROM_USER)"

definition rows_inv :: "broker \<Rightarrow> bool" where
  "rows_inv b \<longleftrightarrow> twf (br_approvals b)
     \<and> (\<forall>aid a. tget (br_approvals b) aid = Some a \<longrightarrow> ap_approval_id a = aid \<and> ap_instance_id a \<in> set (br_instances b))"

definition on_record :: "broker \<Rightarrow> string \<Rightarrow> approval_response \<Rightarrow> bool" where
  "on_record b aid r \<longleftrightarrow> (\<exists>a. tget (br_approvals b) aid = Some a \<and> answered a r)"

definition told_inv :: "broker \<Rightarrow> bool" where
  "told_inv b \<longleftrightarrow> (\<forall>aid d. tget (br_returning b) aid = Some d \<longrightarrow> on_record b aid (Decision d))
     \<and> (\<forall>aid r. tget (br_writing b) aid = Some r \<longrightarrow> on_record b aid r)
     \<and> (\<forall>aid r. tget (br_futures b) aid = Some (Told r) \<longrightarrow> on_record b aid r)"

text \<open>No request is at two of the places a turn can be told from, and all of them are stored.\<close>

definition places_inv :: "broker \<Rightarrow> bool" where
  "places_inv b \<longleftrightarrow> (\<forall>aid. (tget (br_opening b) aid \<noteq> None \<longrightarrow> tget (br_returning b) aid = None \<and> tget (br_futures b) aid = None \<and> tget (br_approvals b) aid \<noteq> None)
     \<and> (tget (br_returning b) aid \<noteq> None \<longrightarrow> tget (br_futures b) aid = None \<and> tget (br_approvals b) aid \<noteq> None)
     \<and> (tget (br_futures b) aid \<noteq> None \<longrightarrow> tget (br_approvals b) aid \<noteq> None))"

definition gone :: "broker \<Rightarrow> string \<Rightarrow> bool" where
  "gone b aid \<longleftrightarrow> tget (br_approvals b) aid \<noteq> None \<and> tget (br_opening b) aid = None \<and> tget (br_returning b) aid = None \<and> tget (br_futures b) aid = None"

definition consent_for :: "grant_env \<Rightarrow> approval \<Rightarrow> session_grant \<Rightarrow> bool" where
  "consent_for env a g \<longleftrightarrow> ap_status a = DECIDED \<and> ap_decision a = Some ACCEPT_FOR_SESSION \<and> ap_decision_source a = Some FROM_USER
     \<and> ap_instance_id a = sg_instance_id g \<and> ap_runner a = sg_runner g \<and> ap_workspace_id a = sg_workspace_id g
     \<and> ap_kind a = sg_approval_kind g \<and> normalized_scope env a = Some (sg_normalized_scope g)"

definition grants_inv :: "grant_env \<Rightarrow> broker \<Rightarrow> bool" where
  "grants_inv env b \<longleftrightarrow> (\<forall>g \<in> set (map snd (br_grants b)). \<exists>a. tget (br_approvals b) (sg_created_from g) = Some a \<and> consent_for env a g)"

text \<open>A record answered from a grant, and the consent behind it.\<close>

definition same_terms :: "grant_env \<Rightarrow> approval \<Rightarrow> approval \<Rightarrow> bool" where
  "same_terms env a0 a \<longleftrightarrow> ap_status a0 = DECIDED \<and> ap_decision a0 = Some ACCEPT_FOR_SESSION \<and> ap_decision_source a0 = Some FROM_USER
     \<and> ap_instance_id a0 = ap_instance_id a \<and> ap_runner a0 = ap_runner a \<and> ap_workspace_id a0 = ap_workspace_id a
     \<and> ap_kind a0 = ap_kind a \<and> normalized_scope env a \<noteq> None \<and> normalized_scope env a0 = normalized_scope env a"

definition consented :: "grant_env \<Rightarrow> broker \<Rightarrow> approval \<Rightarrow> bool" where
  "consented env b a \<longleftrightarrow> (\<exists>aid0 a0. tget (br_approvals b) aid0 = Some a0 \<and> same_terms env a0 a)"

definition consent_inv :: "grant_env \<Rightarrow> broker \<Rightarrow> bool" where
  "consent_inv env b \<longleftrightarrow> (\<forall>aid a. tget (br_approvals b) aid = Some a \<and> ap_decision_source a = Some FROM_SESSION_GRANT \<longrightarrow>
     ap_decision a = Some ACCEPT_FOR_SESSION \<and> ACCEPT_FOR_SESSION \<in> set (ap_allowed_decisions a) \<and> consented env b a)"

definition undecided_inv :: "broker \<Rightarrow> bool" where
  "undecided_inv b \<longleftrightarrow> (\<forall>aid a. tget (br_approvals b) aid = Some a \<and> ap_status a \<noteq> DECIDED \<longrightarrow> ap_decision_source a = None)"

section \<open>How the rows move\<close>

text \<open>A step leaves a resolved record as it is, and a pending one is resolved at most once.\<close>

definition rows_move :: "broker \<Rightarrow> broker \<Rightarrow> bool" where
  "rows_move b b' \<longleftrightarrow> (\<forall>aid a. tget (br_approvals b) aid = Some a \<longrightarrow> (\<exists>a'. tget (br_approvals b') aid = Some a' \<and> (ap_status a \<noteq> PENDING \<longrightarrow> a' = a)))"

lemma rows_move_same: "br_approvals b' = br_approvals b \<Longrightarrow> rows_move b b'"
  by (simp add: rows_move_def)

lemma rows_move_put:
  "br_approvals b' = tput aid a (br_approvals b) \<Longrightarrow> (\<And>x. tget (br_approvals b) aid = Some x \<Longrightarrow> ap_status x = PENDING) \<Longrightarrow> rows_move b b'"
  by (auto simp: rows_move_def)

lemma rows_move_kept:
  "rows_move b b' \<Longrightarrow> tget (br_approvals b) aid = Some a \<Longrightarrow> ap_status a \<noteq> PENDING \<Longrightarrow> tget (br_approvals b') aid = Some a"
  by (fastforce simp: rows_move_def)

lemma on_record_move: "rows_move b b' \<Longrightarrow> on_record b aid r \<Longrightarrow> on_record b' aid r"
  by (fastforce simp: rows_move_def on_record_def answered_def)

lemmas quiet_defs = create_instance_def park_def hand_over_def put_back_def close_future_def forget_def restart_def empty_broker_def

text \<open>What a step may write: one row that was pending or new; a consent only from a stored grant.\<close>

definition row_written :: "grant_env \<Rightarrow> broker \<Rightarrow> approval \<Rightarrow> bool" where
  "row_written env b a \<longleftrightarrow> ap_instance_id a \<in> set (br_instances b)
     \<and> (\<forall>x. tget (br_approvals b) (ap_approval_id a) = Some x \<longrightarrow> ap_status x = PENDING)
     \<and> (ap_status a \<noteq> DECIDED \<longrightarrow> ap_decision_source a = None)
     \<and> (ap_decision_source a = Some FROM_SESSION_GRANT \<longrightarrow> ap_decision a = Some ACCEPT_FOR_SESSION
          \<and> ACCEPT_FOR_SESSION \<in> set (ap_allowed_decisions a)
          \<and> (\<exists>g \<in> set (map snd (br_grants b)). sg_instance_id g = ap_instance_id a \<and> sg_runner g = ap_runner a
                \<and> sg_workspace_id g = ap_workspace_id a \<and> sg_approval_kind g = ap_kind a \<and> normalized_scope env a = Some (sg_normalized_scope g)))"

definition row_step :: "grant_env \<Rightarrow> broker \<Rightarrow> broker \<Rightarrow> bool" where
  "row_step env b b' \<longleftrightarrow> br_approvals b' = br_approvals b
     \<or> (\<exists>a. row_written env b a \<and> br_approvals b' = tput (ap_approval_id a) a (br_approvals b))"

definition base_inv :: "broker \<Rightarrow> bool" where
  "base_inv b \<longleftrightarrow> rows_inv b \<and> undecided_inv b"

lemma base_invD:
  assumes "base_inv b" and "tget (br_approvals b) aid = Some a"
  shows "ap_approval_id a = aid" "ap_instance_id a \<in> set (br_instances b)" "ap_status a \<noteq> DECIDED \<Longrightarrow> ap_decision_source a = None"
  using assms by (auto simp: base_inv_def rows_inv_def undecided_inv_def)

lemma row_step_put: "row_written env b a \<Longrightarrow> br_approvals b' = tput (ap_approval_id a) a (br_approvals b) \<Longrightarrow> row_step env b b'"
  by (auto simp: row_step_def)

lemma request_row:
  assumes "request_approval env policy tn u n rq b = Inr b'" and "fresh_for u b"
  shows "row_step env b b'"
  using assms(1)
proof (cases rule: request_approvalE)
  case (grant g)
  have "row_written env b (settled ACCEPT_FOR_SESSION FROM_SESSION_GRANT n (new_record tn u n rq))"
    using grant assms(2) matching_grantD[OF grant(4)]
    by (auto simp: row_written_def fresh_for_def list_session_grants_def intro!: bexI[of _ g])
  then show ?thesis using grant(5) by (auto intro: row_step_put)
next
  case (policy d)
  have "row_written env b (settled d FROM_POLICY n (new_record tn u n rq))"
    using policy assms(2) by (simp add: row_written_def fresh_for_def)
  then show ?thesis using policy(3) by (auto intro: row_step_put)
next
  case ask
  have "row_written env b (new_record tn u n rq)" using ask assms(2) by (simp add: row_written_def fresh_for_def)
  then show ?thesis using ask(3) by (auto intro: row_step_put)
qed

lemma interrupt_row:
  assumes "interrupt aid b = Inr (x, b')" and "base_inv b"
  shows "row_step env b b'"
  using assms(1)
proof (cases rule: interruptE)
  case (marked a cs)
  have "row_written env b (a\<lparr>ap_status := INTERRUPTED\<rparr>)" using marked base_invD[OF assms(2) marked(1)] by (simp add: row_written_def)
  then show ?thesis using marked by (auto intro: row_step_put)
qed (simp add: row_step_def)

lemma step_row:
  assumes "broker_step env policy b l b'" and "base_inv b"
  shows "row_step env b b'"
  using assms(1)
proof cases
  case (requested uuid tn now rq)
  then show ?thesis by (intro request_row)
next
  case (decided uuid now aid d iid run a)
  from decided(3) show ?thesis
  proof (cases rule: broker_decideE)
    case (1 r gs)
    have "row_written env b a" using 1 base_invD[OF assms(2) 1(1)] by (simp add: row_written_def)
    then show ?thesis using 1 by (intro row_step_put[of env b a]) auto
  qed
next
  case (answered now aid answers iid run a)
  from answered(2) show ?thesis
  proof (cases rule: answerE)
    case (1 r given)
    have "row_written env b a" using 1 base_invD[OF assms(2) 1(1)] by (simp add: row_written_def)
    then show ?thesis using 1 by (intro row_step_put[of env b a]) auto
  qed
next
  case (torn_down aid)
  from torn_down(3) obtain x b1 where "interrupt aid b = Inr (x, b1)" and "b' = forget aid (b1\<lparr>br_closing := without aid (br_closing b1)\<rparr>)"
    by (rule tear_downE)
  then show ?thesis using interrupt_row[OF _ assms(2), of aid x b1 env] by (simp add: row_step_def forget_def)
next
  case (interrupted aid x)
  then show ?thesis using interrupt_row[OF _ assms(2)] by simp
qed (auto simp: row_step_def quiet_defs)

lemma step_instances:
  assumes "broker_step env policy b l b'"
  shows "set (br_instances b) \<subseteq> set (br_instances b')"
  using assms
proof cases
  case (requested uuid tn now rq)
  from requested(3) show ?thesis by (cases rule: request_approvalE) auto
next
  case (decided uuid now aid d iid run a)
  from decided(3) show ?thesis by (cases rule: broker_decideE) auto
next
  case (answered now aid answers iid run a)
  from answered(2) show ?thesis by (cases rule: answerE) auto
next
  case (torn_down aid)
  from torn_down(3) show ?thesis by (cases rule: tear_downE) (auto simp: forget_def elim: interruptE)
next
  case (interrupted aid x)
  from interrupted(2) show ?thesis by (cases rule: interruptE) auto
qed (auto simp: quiet_defs)

section \<open>Preservation\<close>

lemma step_rows_move: "broker_step env policy b l b' \<Longrightarrow> base_inv b \<Longrightarrow> rows_move b b'"
  by (drule (1) step_row) (auto simp: row_step_def row_written_def intro: rows_move_same rows_move_put)

lemma step_base_inv:
  assumes "broker_step env policy b l b'" and "base_inv b"
  shows "base_inv b'"
  using step_row[OF assms] step_instances[OF assms(1)] assms(2)
  unfolding base_inv_def rows_inv_def undecided_inv_def row_step_def row_written_def
  by (elim disjE exE) (auto split: if_split_asm)

lemma consented_move: "rows_move b b' \<Longrightarrow> consented env b a \<Longrightarrow> consented env b' a"
  unfolding consented_def
proof (elim exE conjE)
  fix aid0 a0 assume a0: "rows_move b b'" "tget (br_approvals b) aid0 = Some a0" "same_terms env a0 a"
  then have "tget (br_approvals b') aid0 = Some a0" using rows_move_kept[OF a0(1,2)] by (simp add: same_terms_def)
  with a0(3) show "\<exists>aid0 a0. tget (br_approvals b') aid0 = Some a0 \<and> same_terms env a0 a" by blast
qed

lemma grant_consented:
  assumes "grants_inv env b" and "row_written env b a" and "ap_decision_source a = Some FROM_SESSION_GRANT"
  shows "consented env b a"
proof -
  obtain g where g: "g \<in> set (map snd (br_grants b))" and same: "sg_instance_id g = ap_instance_id a" "sg_runner g = ap_runner a"
      "sg_workspace_id g = ap_workspace_id a" "sg_approval_kind g = ap_kind a" "normalized_scope env a = Some (sg_normalized_scope g)"
    using assms(2,3) by (auto simp: row_written_def)
  obtain a0 where "tget (br_approvals b) (sg_created_from g) = Some a0" "consent_for env a0 g"
    using bspec[OF assms(1)[unfolded grants_inv_def] g] by (elim exE conjE)
  then show ?thesis using same by (auto simp: consented_def consent_for_def same_terms_def)
qed

lemma step_consent_inv:
  assumes "broker_step env policy b l b'" and "base_inv b" and "consent_inv env b" and "grants_inv env b"
  shows "consent_inv env b'"
  unfolding consent_inv_def
proof (intro allI impI, elim conjE)
  fix aid x assume x: "tget (br_approvals b') aid = Some x" and source: "ap_decision_source x = Some FROM_SESSION_GRANT"
  have "tget (br_approvals b) aid = Some x \<or> row_written env b x"
    using step_row[OF assms(1,2)] x by (auto simp: row_step_def split: if_split_asm)
  then have "ap_decision x = Some ACCEPT_FOR_SESSION \<and> ACCEPT_FOR_SESSION \<in> set (ap_allowed_decisions x) \<and> consented env b x"
    using assms(3) source grant_consented[OF assms(4)] by (auto simp: consent_inv_def row_written_def)
  then show "ap_decision x = Some ACCEPT_FOR_SESSION \<and> ACCEPT_FOR_SESSION \<in> set (ap_allowed_decisions x) \<and> consented env b' x"
    using consented_move[OF step_rows_move[OF assms(1,2)]] by simp
qed

lemma snd_tput: "v \<in> set (map snd (tput k w t)) \<Longrightarrow> v = w \<or> v \<in> set (map snd t)"
  by (induction t) (auto simp: tput_def split: if_split_asm)

lemma session_grant_fromD:
  assumes "session_grant_from env u n a = Some g"
  shows "sg_grant_id g = ''grant-'' @ take 12 u" "sg_created_from g = ap_approval_id a"
    "consent_for env (settled ACCEPT_FOR_SESSION FROM_USER m a) g"
  using assms by (auto simp: session_grant_from_def consent_for_def split: option.split_asm if_split_asm)

lemma step_grants:
  assumes "broker_step env policy b l b'" and "base_inv b"
  shows "br_grants b' = br_grants b \<or> (\<exists>g a. br_grants b' = tput (sg_grant_id g) g (br_grants b)
    \<and> tget (br_approvals b') (sg_created_from g) = Some a \<and> consent_for env a g)"
  using assms(1)
proof cases
  case (requested uuid tn now rq)
  from requested(3) show ?thesis by (cases rule: request_approvalE) auto
next
  case (decided uuid now aid d iid run a)
  from decided(3) show ?thesis
    by (cases rule: broker_decideE) (auto split: option.split if_split_asm dest: session_grant_fromD)
next
  case (answered now aid answers iid run a)
  from answered(2) show ?thesis by (cases rule: answerE) auto
next
  case (torn_down aid)
  from torn_down(3) show ?thesis by (cases rule: tear_downE) (auto simp: forget_def elim: interruptE)
next
  case (interrupted aid x)
  from interrupted(2) show ?thesis by (cases rule: interruptE) auto
qed (auto simp: quiet_defs)

lemma step_grants_inv:
  assumes "broker_step env policy b l b'" and "base_inv b" and "grants_inv env b"
  shows "grants_inv env b'"
proof -
  have kept: "\<exists>a. tget (br_approvals b') (sg_created_from g) = Some a \<and> consent_for env a g" if g: "g \<in> set (map snd (br_grants b))" for g
  proof -
    obtain a where a: "tget (br_approvals b) (sg_created_from g) = Some a" "consent_for env a g"
      using bspec[OF assms(3)[unfolded grants_inv_def] g] by (elim exE conjE)
    then show ?thesis using rows_move_kept[OF step_rows_move[OF assms(1,2)] a(1)] by (simp add: consent_for_def)
  qed
  show ?thesis unfolding grants_inv_def
  proof
    fix g assume "g \<in> set (map snd (br_grants b'))"
    then have "g \<in> set (map snd (br_grants b)) \<or> (\<exists>a. tget (br_approvals b') (sg_created_from g) = Some a \<and> consent_for env a g)"
      using step_grants[OF assms(1,2)] snd_tput by metis
    then show "\<exists>a. tget (br_approvals b') (sg_created_from g) = Some a \<and> consent_for env a g" using kept[of g] by argo
  qed
qed

text \<open>Where the answers on their way come from.\<close>

definition answers_move :: "broker \<Rightarrow> broker \<Rightarrow> bool" where
  "answers_move b b' \<longleftrightarrow>
     (\<forall>aid d. tget (br_returning b') aid = Some d \<longrightarrow> tget (br_returning b) aid = Some d \<or> on_record b' aid (Decision d))
     \<and> (\<forall>aid r. tget (br_writing b') aid = Some r \<longrightarrow> tget (br_writing b) aid = Some r \<or> on_record b' aid r)
     \<and> (\<forall>aid r. tget (br_futures b') aid = Some (Told r) \<longrightarrow> tget (br_futures b) aid = Some (Told r) \<or> tget (br_writing b) aid = Some r)"

lemma answers_move_same:
  "br_returning b' = br_returning b \<Longrightarrow> br_writing b' = br_writing b \<Longrightarrow> br_futures b' = br_futures b \<Longrightarrow> answers_move b b'"
  by (simp add: answers_move_def)

lemma request_answers: "request_approval env policy tn u n rq b = Inr b' \<Longrightarrow> answers_move b b'"
proof (erule request_approvalE)
  fix d assume d: "configured_decision policy tn rq = Some d" and b': "b' = b\<lparr>br_approvals := tput (''apv-'' @ take 12 u) (settled d FROM_POLICY n (new_record tn u n rq)) (br_approvals b),
      br_returning := tput (''apv-'' @ take 12 u) d (br_returning b)\<rparr>"
  have "d \<in> set (aq_allowed_decisions rq)" using d by (auto simp: configured_decision_def Let_def split: if_split_asm option.split_asm)
  then show ?thesis by (auto simp: b' answers_move_def on_record_def answered_def)
next
  fix g assume g: "matching_grant env (new_record tn u n rq) (list_session_grants (Some (tn_instance_id tn)) b) = Some g"
    and b': "b' = b\<lparr>br_approvals := tput (''apv-'' @ take 12 u) (settled ACCEPT_FOR_SESSION FROM_SESSION_GRANT n (new_record tn u n rq)) (br_approvals b),
      br_returning := tput (''apv-'' @ take 12 u) ACCEPT_FOR_SESSION (br_returning b)\<rparr>"
  show ?thesis using matching_grantD(1)[OF g] by (auto simp: b' answers_move_def on_record_def answered_def)
qed (simp add: answers_move_same)

lemma interrupt_answers: "interrupt aid b = Inr (x, b') \<Longrightarrow> answers_move b b'"
  by (erule interruptE) (auto intro: answers_move_same)

lemma step_answers:
  assumes "broker_step env policy b l b'" and "base_inv b"
  shows "answers_move b b'"
  using assms(1)
proof cases
  case (requested uuid tn now rq)
  then show ?thesis by (intro request_answers)
next
  case (decided uuid now aid d iid run a)
  from decided(3) show ?thesis
    by (cases rule: broker_decideE) (auto simp: answers_move_def on_record_def answered_def base_invD[OF assms(2)])
next
  case (answered now aid answers iid run a)
  from answered(2) show ?thesis
    by (cases rule: answerE) (auto simp: answers_move_def on_record_def answered_def base_invD[OF assms(2)])
next
  case (torn_down aid)
  from torn_down(3) show ?thesis
    by (cases rule: tear_downE) (use interrupt_answers in \<open>fastforce simp: answers_move_def on_record_def forget_def split: if_split_asm\<close>)
next
  case (interrupted aid x)
  then show ?thesis by (intro interrupt_answers)
qed (auto simp: quiet_defs answers_move_def split: if_split_asm)

lemma step_told_inv:
  assumes "broker_step env policy b l b'" and "base_inv b" and "told_inv b"
  shows "told_inv b'"
  using assms(3) step_answers[OF assms(1,2)] on_record_move[OF step_rows_move[OF assms(1,2)]]
  unfolding told_inv_def answers_move_def by blast

text \<open>Where a request is: opening, answered unasked, parked, or nowhere any more.\<close>

lemma interrupt_places:
  assumes "interrupt aid b = Inr (x, b')" and "base_inv b"
  shows "br_opening b' = br_opening b \<and> br_returning b' = br_returning b \<and> br_futures b' = br_futures b
    \<and> (\<forall>k. tget (br_approvals b') k = None \<longleftrightarrow> tget (br_approvals b) k = None)"
  using assms(1) by (cases rule: interruptE) (auto simp: base_invD[OF assms(2)])

definition places_move :: "broker \<Rightarrow> broker_label \<Rightarrow> broker \<Rightarrow> bool" where
  "places_move b l b' \<longleftrightarrow> places_inv b' \<and> (\<forall>aid. gone b aid \<longrightarrow> gone b' aid)
     \<and> (\<forall>aid r. l = Told_turn aid r \<longrightarrow> \<not> gone b aid \<and> gone b' aid)"

lemma places_move_same:
  assumes "places_inv b" and "br_opening b' = br_opening b" and "br_returning b' = br_returning b" and "br_futures b' = br_futures b"
    and "\<And>k. tget (br_approvals b') k = None \<longleftrightarrow> tget (br_approvals b) k = None"
  shows "places_move b Quiet b'"
  using assms by (simp add: places_move_def places_inv_def gone_def)

lemma step_places:
  assumes "broker_step env policy b l b'" and "base_inv b" and "places_inv b"
  shows "places_move b l b'"
  using assms(1)
proof cases
  case (requested uuid tn now rq)
  from requested(3) show ?thesis
    by (cases rule: request_approvalE)
       (use requested(1,2) assms(3) in \<open>auto simp: places_move_def places_inv_def gone_def fresh_for_def\<close>)
next
  case (decided uuid now aid d iid run a)
  from decided(3) show ?thesis unfolding decided(1)
    by (cases rule: broker_decideE) (rule places_move_same[OF assms(3)], auto simp: base_invD[OF assms(2)])
next
  case (answered now aid answers iid run a)
  from answered(2) show ?thesis unfolding answered(1)
    by (cases rule: answerE) (rule places_move_same[OF assms(3)], auto simp: base_invD[OF assms(2)])
next
  case (torn_down aid)
  from torn_down(3) obtain x b1 where i: "interrupt aid b = Inr (x, b1)" and b': "b' = forget aid (b1\<lparr>br_closing := without aid (br_closing b1)\<rparr>)"
    by (rule tear_downE)
  show ?thesis using torn_down(1) assms(3) interrupt_places[OF i assms(2)]
    by (simp add: b' forget_def places_move_def places_inv_def gone_def)
next
  case (interrupted aid x)
  show ?thesis unfolding interrupted(1)
    by (rule places_move_same[OF assms(3)]) (use interrupt_places[OF interrupted(2) assms(2)] in auto)
qed (use assms(3) in \<open>auto simp: quiet_defs places_move_def places_inv_def gone_def split: if_split_asm\<close>)

section \<open>Runs\<close>

definition broker_inv :: "grant_env \<Rightarrow> broker \<Rightarrow> bool" where
  "broker_inv env b \<longleftrightarrow> base_inv b \<and> told_inv b \<and> places_inv b \<and> grants_inv env b \<and> consent_inv env b"

lemma broker_inv_empty: "broker_inv env empty_broker"
  by (simp add: broker_inv_def base_inv_def rows_inv_def undecided_inv_def told_inv_def places_inv_def grants_inv_def consent_inv_def empty_broker_def)

lemma step_broker_inv:
  assumes "broker_step env policy b l b'" and "broker_inv env b"
  shows "broker_inv env b'"
  using assms(2) step_base_inv[OF assms(1)] step_told_inv[OF assms(1)] step_places[OF assms(1)] step_grants_inv[OF assms(1)]
    step_consent_inv[OF assms(1)]
  by (simp add: broker_inv_def places_move_def)

lemma run_broker_inv: "broker_run env policy ls b \<Longrightarrow> broker_inv env b"
  by (induction rule: broker_run.induct) (auto intro: broker_inv_empty step_broker_inv)

text \<open>The turns a run told, in order.\<close>

fun told_ids :: "broker_label list \<Rightarrow> string list" where
  "told_ids [] = []"
| "told_ids (Quiet # ls) = told_ids ls"
| "told_ids (Told_turn aid r # ls) = aid # told_ids ls"

lemma told_ids_append [simp]: "told_ids (ls @ ms) = told_ids ls @ told_ids ms"
  by (induction ls rule: told_ids.induct) auto

lemma step_told:
  assumes "broker_step env policy b (Told_turn aid r) b'" and "told_inv b"
  shows "on_record b aid r"
  using assms(1) by cases (use assms(2) in \<open>auto simp: told_inv_def\<close>)

lemma run_told:
  assumes "broker_run env policy ls b"
  shows "(\<forall>aid r. Told_turn aid r \<in> set ls \<longrightarrow> on_record b aid r) \<and> distinct (told_ids ls) \<and> (\<forall>aid \<in> set (told_ids ls). gone b aid)"
  using assms
proof induction
  case (run_more ls b l b')
  have inv: "base_inv b" "told_inv b" "places_inv b" using run_broker_inv[OF run_more(1)] by (auto simp: broker_inv_def)
  have places: "places_move b l b'" by (rule step_places[OF run_more(2) inv(1,3)])
  have recorded: "on_record b' aid r" if "on_record b aid r" for aid r
    using on_record_move[OF step_rows_move[OF run_more(2) inv(1)] that] .
  show ?case
  proof (cases l)
    case Quiet
    with run_more(3) recorded places show ?thesis by (auto simp: places_move_def)
  next
    case (Told_turn aid r)
    then have "on_record b aid r" using step_told run_more(2) inv(2) by blast
    then show ?thesis using run_more(3) recorded places Told_turn by (auto simp: places_move_def)
  qed
qed (simp add: empty_broker_def)

text \<open>A resolved record stays as it is for the rest of the run.\<close>

inductive broker_steps :: "grant_env \<Rightarrow> approval_config \<Rightarrow> broker \<Rightarrow> broker_label list \<Rightarrow> broker \<Rightarrow> bool" for env policy where
  steps_none: "broker_steps env policy b [] b"
| steps_more: "broker_steps env policy b ls b' \<Longrightarrow> broker_step env policy b' l b'' \<Longrightarrow> broker_steps env policy b (ls @ [l]) b''"

lemma steps_kept:
  assumes "broker_steps env policy b ls b'" and "broker_inv env b" and "tget (br_approvals b) aid = Some a" and "ap_status a \<noteq> PENDING"
  shows "broker_inv env b' \<and> tget (br_approvals b') aid = Some a"
  using assms
proof induction
  case (steps_more b ls b' l b'')
  then have b': "broker_inv env b'" "tget (br_approvals b') aid = Some a" by auto
  then show ?case using step_broker_inv[OF steps_more(2)] rows_move_kept[OF step_rows_move[OF steps_more(2)] b'(2)] steps_more.prems(3)
    by (simp add: broker_inv_def)
qed simp

end
