(* ===== verification/Approval_Closing.thy ===== *)
theory Approval_Closing
  imports Approval_Inv
begin

text \<open>
  The three loops that close requests (\<open>cancel_run\<close>, \<open>interrupt_run\<close> and \<open>interrupt_orphans\<close> of
  \<open>packages/runtime/src/engine/runtime/approvals.py\<close>): each takes a list of pending records and settles them one
  by one. What they share is proved once for any operation that settles one record.
\<close>

text \<open>One record is settled: the row rewritten, the wait over, and a turn that was parked on it told or torn.\<close>

definition settles :: "approval \<Rightarrow> approval \<Rightarrow> future \<Rightarrow> broker \<Rightarrow> broker \<Rightarrow> bool" where
  "settles a x f b b' \<longleftrightarrow> br_approvals b' = tput (ap_approval_id a) x (br_approvals b) \<and> br_instances b' = br_instances b
     \<and> br_waiting b' = without (ap_approval_id a) (br_waiting b)
     \<and> br_futures b' = (if is_waiting (ap_approval_id a) b then tput (ap_approval_id a) f (br_futures b) else br_futures b)"

definition pending_row :: "broker \<Rightarrow> approval \<Rightarrow> bool" where
  "pending_row b a \<longleftrightarrow> tget (br_approvals b) (ap_approval_id a) = Some a \<and> ap_status a = PENDING"

lemma mem_without [simp]: "x \<in> set (without y xs) \<longleftrightarrow> x \<in> set xs \<and> x \<noteq> y"
  by (auto simp: without_def)

text \<open>What a loop leaves of the records it was given, and that it touches nothing else.\<close>

definition all_settled :: "(bool \<Rightarrow> approval \<Rightarrow> approval) \<Rightarrow> (approval \<Rightarrow> future) \<Rightarrow> approval list \<Rightarrow> broker \<Rightarrow> broker \<Rightarrow> bool" where
  "all_settled outcome fate as b b' \<longleftrightarrow>
     (\<forall>a \<in> set as. tget (br_approvals b') (ap_approval_id a) = Some (outcome (is_waiting (ap_approval_id a) b) a)
        \<and> (is_waiting (ap_approval_id a) b \<longrightarrow> tget (br_futures b') (ap_approval_id a) = Some (fate a)))
     \<and> (\<forall>k. k \<notin> ap_approval_id ` set as \<longrightarrow> tget (br_approvals b') k = tget (br_approvals b) k
        \<and> tget (br_futures b') k = tget (br_futures b) k \<and> (k \<in> set (br_waiting b') \<longleftrightarrow> k \<in> set (br_waiting b)))"

lemma base_inv_put:
  assumes "base_inv b" and "br_approvals b' = tput (ap_approval_id x) x (br_approvals b)" and "br_instances b' = br_instances b"
    and "ap_instance_id x \<in> set (br_instances b)" and "ap_status x \<noteq> DECIDED \<Longrightarrow> ap_decision_source x = None"
  shows "base_inv b'"
  using assms by (auto simp: base_inv_def rows_inv_def undecided_inv_def split: if_split_asm)

locale settling =
  fixes one :: "approval \<Rightarrow> broker \<Rightarrow> approval_error + approval option \<times> broker"
    and mine :: "approval \<Rightarrow> bool"
    and outcome :: "bool \<Rightarrow> approval \<Rightarrow> approval"
    and fate :: "approval \<Rightarrow> future"
  assumes one: "base_inv b \<Longrightarrow> pending_row b a \<Longrightarrow> mine a \<Longrightarrow>
      \<exists>b'. one a b = Inr (Some (outcome (is_waiting (ap_approval_id a) b) a), b') \<and> settles a (outcome (is_waiting (ap_approval_id a) b) a) (fate a) b b'"
    and outcome: "ap_approval_id (outcome w a) = ap_approval_id a" "ap_instance_id (outcome w a) = ap_instance_id a"
      "ap_status (outcome w a) \<noteq> PENDING" "ap_status (outcome w a) \<noteq> DECIDED \<Longrightarrow> ap_decision_source (outcome w a) = ap_decision_source a"
begin

lemma settles_base_inv:
  assumes "base_inv b" and "pending_row b a" and "settles a (outcome w a) f b b'"
  shows "base_inv b'"
proof (rule base_inv_put[OF assms(1)])
  have a: "tget (br_approvals b) (ap_approval_id a) = Some a" "ap_status a = PENDING" using assms(2) by (auto simp: pending_row_def)
  show "ap_instance_id (outcome w a) \<in> set (br_instances b)" using base_invD(2)[OF assms(1) a(1)] by (simp add: outcome)
  show "ap_decision_source (outcome w a) = None" if "ap_status (outcome w a) \<noteq> DECIDED"
    using outcome(4)[OF that] base_invD(3)[OF assms(1) a(1)] a(2) by simp
qed (use assms(3) in \<open>auto simp: settles_def outcome\<close>)

lemma each_settles:
  assumes "base_inv b" and "distinct (map ap_approval_id as)" and "\<And>a. a \<in> set as \<Longrightarrow> pending_row b a \<and> mine a"
  shows "\<exists>b'. each one as b = Inr (map (\<lambda>a. outcome (is_waiting (ap_approval_id a) b) a) as, b') \<and> base_inv b' \<and> all_settled outcome fate as b b'"
  using assms
proof (induction as arbitrary: b)
  case Nil
  then show ?case by (simp add: all_settled_def)
next
  case (Cons a as)
  let ?w = "\<lambda>x. is_waiting (ap_approval_id x)"
  obtain b1 where one_a: "one a b = Inr (Some (outcome (?w a b) a), b1)" and s: "settles a (outcome (?w a b) a) (fate a) b b1"
    using one[of b a] Cons.prems by auto
  have b1: "base_inv b1" using settles_base_inv[OF _ _ s] Cons.prems by simp
  have other: "(pending_row b1 x \<longleftrightarrow> pending_row b x) \<and> (?w x b1 \<longleftrightarrow> ?w x b)" if "x \<in> set as" for x
  proof -
    have "ap_approval_id x \<noteq> ap_approval_id a" using that Cons.prems(2) by (auto dest: sym)
    then show ?thesis using s by (simp add: settles_def pending_row_def is_waiting_def)
  qed
  obtain b2 where loop: "each one as b1 = Inr (map (\<lambda>a. outcome (?w a b1) a) as, b2)" and b2: "base_inv b2" "all_settled outcome fate as b1 b2"
    using Cons.IH[OF b1] Cons.prems other by auto
  have same: "map (\<lambda>a. outcome (?w a b1) a) as = map (\<lambda>a. outcome (?w a b) a) as" using other by simp
  have "all_settled outcome fate (a # as) b b2"
    using s b2(2) other Cons.prems(2) by (auto simp: all_settled_def settles_def)
  then show ?case using one_a loop b2(1) same by simp
qed

end

text \<open>Interrupting one record, and cancelling one.\<close>

definition interrupted_row :: "bool \<Rightarrow> approval \<Rightarrow> approval" where
  "interrupted_row w a = a\<lparr>ap_status := INTERRUPTED\<rparr>"

definition cancelled_row :: "(string \<Rightarrow> string) \<Rightarrow> bool \<Rightarrow> approval \<Rightarrow> approval" where
  "cancelled_row clock w a = (if w \<and> CANCEL \<in> set (ap_allowed_decisions a) then settled CANCEL FROM_USER (clock (ap_approval_id a)) a
     else interrupted_row w a)"

definition cancelled_fate :: "approval \<Rightarrow> future" where
  "cancelled_fate a = (if CANCEL \<in> set (ap_allowed_decisions a) then Told (Decision CANCEL) else Torn)"

lemma interrupt_now_pending:
  assumes "base_inv b" and "pending_row b a"
  shows "\<exists>b'. interrupt_now (ap_approval_id a) b = Inr (Some (interrupted_row w a), b') \<and> settles a (interrupted_row w a) Torn b b'"
  using assms base_invD[OF assms(1), of "ap_approval_id a" a]
  by (auto simp: interrupt_now_def interrupt_def load_approval_def Let_def pending_row_def record_approval_def interrupted_row_def
      settles_def close_future_def is_waiting_def)

lemma broker_decide_pending:
  assumes "base_inv b" and "pending_row b a" and "is_waiting (ap_approval_id a) b" and "CANCEL \<in> set (ap_allowed_decisions a)"
  shows "broker_decide env u n (ap_approval_id a) CANCEL (ap_instance_id a) (Some (ap_agent_run_id a)) FROM_USER b =
    Inr (settled CANCEL FROM_USER n a, b\<lparr>br_waiting := without (ap_approval_id a) (br_waiting b),
       br_approvals := tput (ap_approval_id a) (settled CANCEL FROM_USER n a) (br_approvals b),
       br_writing := tput (ap_approval_id a) (Decision CANCEL) (br_writing b)\<rparr>)"
proof -
  have "open_record (ap_approval_id a) (ap_instance_id a) (Some (ap_agent_run_id a)) b = Inr a"
    "claimed (ap_approval_id a) b = Inr (b\<lparr>br_waiting := without (ap_approval_id a) (br_waiting b)\<rparr>)"
    using assms(2,3) by (auto simp: open_record_Inr pending_row_def claimed_Inr)
  then show ?thesis using assms(4) base_invD(2)[OF assms(1), of "ap_approval_id a" a] assms(2)
    by (simp add: broker_decide_def record_approval_def pending_row_def Let_def)
qed

lemma broker_decide_refused:
  assumes "base_inv b" and "pending_row b a" and "\<not> (is_waiting (ap_approval_id a) b \<and> CANCEL \<in> set (ap_allowed_decisions a))"
  shows "\<exists>e. broker_decide env u n (ap_approval_id a) CANCEL (ap_instance_id a) (Some (ap_agent_run_id a)) FROM_USER b = Inl e \<and> e \<noteq> Store_key_error"
proof -
  have "open_record (ap_approval_id a) (ap_instance_id a) (Some (ap_agent_run_id a)) b = Inr a"
    using assms(2) by (simp add: open_record_Inr pending_row_def)
  then show ?thesis using assms(3) by (auto simp: broker_decide_def claimed_def is_waiting_def Let_def)
qed

lemma cancel_one_pending:
  assumes "base_inv b" and "pending_row b a" and "ap_agent_run_id a = run"
  shows "\<exists>b'. cancel_one env u clock run a b = Inr (Some (cancelled_row clock (is_waiting (ap_approval_id a) b) a), b')
    \<and> settles a (cancelled_row clock (is_waiting (ap_approval_id a) b) a) (cancelled_fate a) b b'"
proof (cases "is_waiting (ap_approval_id a) b \<and> CANCEL \<in> set (ap_allowed_decisions a)")
  case True
  then show ?thesis using broker_decide_pending[OF assms(1,2), of env u "clock (ap_approval_id a)"] assms(3)
    by (auto simp: cancel_one_def cancelled_row_def cancelled_fate_def settles_def hand_over_def is_waiting_def)
next
  case False
  then obtain e where "broker_decide env u (clock (ap_approval_id a)) (ap_approval_id a) CANCEL (ap_instance_id a) (Some run) FROM_USER b = Inl e" "e \<noteq> Store_key_error"
    using broker_decide_refused[OF assms(1,2) False, of env u "clock (ap_approval_id a)"] assms(3) by auto
  then have "cancel_one env u clock run a b = interrupt_now (ap_approval_id a) b" by (auto simp: cancel_one_def split: approval_error.split)
  then show ?thesis using False interrupt_now_pending[OF assms(1,2), of "is_waiting (ap_approval_id a) b"]
    by (auto simp: cancelled_row_def cancelled_fate_def settles_def)
qed

interpretation closing: settling interrupt_one "\<lambda>a. True" interrupted_row "\<lambda>a. Torn"
  by unfold_locales (auto simp: interrupt_one_def interrupted_row_def dest: interrupt_now_pending)

interpretation cancelling: settling "cancel_one env u clock run" "\<lambda>a. ap_agent_run_id a = run" "cancelled_row clock" cancelled_fate
  for env u clock run
proof (unfold_locales, goal_cases)
  case (1 b a)
  then show ?case by (rule cancel_one_pending)
qed (auto simp: cancelled_row_def interrupted_row_def)

section \<open>The pending records of a run\<close>

lemma list_approvals_rows:
  assumes "base_inv b"
  shows "a \<in> set (list_approvals None run st b) \<longleftrightarrow> tget (br_approvals b) (ap_approval_id a) = Some a
    \<and> (run = None \<or> run = Some (ap_agent_run_id a)) \<and> (st = None \<or> st = Some (ap_status a))"
proof -
  have wf: "twf (br_approvals b)" using assms by (simp add: base_inv_def rows_inv_def)
  have "a \<in> snd ` set (br_approvals b) \<longleftrightarrow> tget (br_approvals b) (ap_approval_id a) = Some a"
  proof
    assume "a \<in> snd ` set (br_approvals b)"
    then obtain k where "tget (br_approvals b) k = Some a" using twf_tget[OF wf] by fastforce
    then show "tget (br_approvals b) (ap_approval_id a) = Some a" using base_invD(1)[OF assms] by simp
  qed (force dest: tget_Some_in)
  then show ?thesis by (auto simp: list_approvals_def split: option.split)
qed

lemma list_approvals_distinct:
  assumes "base_inv b"
  shows "distinct (map ap_approval_id (filter P (list_approvals None run st b)))"
proof -
  have wf: "twf (br_approvals b)" using assms by (simp add: base_inv_def rows_inv_def)
  have "map ap_approval_id (map snd (br_approvals b)) = tkeys (br_approvals b)"
    unfolding tkeys_def map_map by (rule map_cong[OF refl]) (use base_invD(1)[OF assms] twf_tget[OF wf] in auto)
  then have "distinct (map ap_approval_id (map snd (br_approvals b)))" using wf by (simp only: twf_def)
  then show ?thesis unfolding list_approvals_def filter_filter by (rule distinct_map_filter)
qed

text \<open>After the loop over a run's pending records there is none.\<close>

lemma none_pending:
  assumes "base_inv b" and "base_inv b'" and "all_settled outcome fate (list_approvals None run (Some PENDING) b) b b'"
    and "\<And>w a. ap_status (outcome w a) \<noteq> PENDING"
  shows "list_approvals None run (Some PENDING) b' = []"
proof -
  have "a \<notin> set (list_approvals None run (Some PENDING) b')" for a
  proof
    assume a: "a \<in> set (list_approvals None run (Some PENDING) b')"
    then have row: "tget (br_approvals b') (ap_approval_id a) = Some a" "ap_status a = PENDING" "run = None \<or> run = Some (ap_agent_run_id a)"
      by (auto simp: list_approvals_rows[OF assms(2)])
    show False
    proof (cases "ap_approval_id a \<in> ap_approval_id ` set (list_approvals None run (Some PENDING) b)")
      case True
      then show False using assms(3,4) row(1,2) by (auto simp: all_settled_def)
    next
      case False
      then have "tget (br_approvals b) (ap_approval_id a) = Some a" using assms(3) row(1) by (simp add: all_settled_def)
      then have "a \<in> set (list_approvals None run (Some PENDING) b)" using row by (auto simp: list_approvals_rows[OF assms(1)])
      then show False using False by blast
    qed
  qed
  then show ?thesis by (simp add: list.set_sel(1) set_empty[symmetric] subset_empty[symmetric] subset_iff del: set_empty)
qed

lemma pending_rows:
  assumes "base_inv b" and "a \<in> set (list_approvals None run (Some PENDING) b)"
  shows "pending_row b a" "run = None \<or> run = Some (ap_agent_run_id a)"
  using assms by (auto simp: list_approvals_rows pending_row_def)

lemma cancel_run_settles:
  assumes "base_inv b"
  shows "\<exists>xs b'. cancel_run env u clock run b = Inr (xs, b') \<and> base_inv b' \<and> list_approvals None (Some run) (Some PENDING) b' = []
    \<and> all_settled (cancelled_row clock) cancelled_fate (list_approvals None (Some run) (Some PENDING) b) b b'"
proof -
  obtain b' where b': "each (cancel_one env u clock run) (list_approvals None (Some run) (Some PENDING) b) b =
      Inr (map (\<lambda>a. cancelled_row clock (is_waiting (ap_approval_id a) b) a) (list_approvals None (Some run) (Some PENDING) b), b')"
      "base_inv b'" "all_settled (cancelled_row clock) cancelled_fate (list_approvals None (Some run) (Some PENDING) b) b b'"
    using cancelling.each_settles[OF assms, of "list_approvals None (Some run) (Some PENDING) b" run env u clock]
      list_approvals_distinct[OF assms, of "\<lambda>a. True" "Some run" "Some PENDING"] pending_rows[OF assms, of _ "Some run"] by auto
  then show ?thesis using none_pending[OF assms b'(2,3)] by (auto simp: cancel_run_def cancelled_row_def interrupted_row_def)
qed

lemma interrupt_run_settles:
  assumes "base_inv b"
  shows "\<exists>xs b'. interrupt_run run b = Inr (xs, b') \<and> base_inv b' \<and> list_approvals None (Some run) (Some PENDING) b' = []
    \<and> all_settled interrupted_row (\<lambda>a. Torn) (list_approvals None (Some run) (Some PENDING) b) b b'"
proof -
  obtain b' where b': "each interrupt_one (list_approvals None (Some run) (Some PENDING) b) b =
      Inr (map (\<lambda>a. interrupted_row (is_waiting (ap_approval_id a) b) a) (list_approvals None (Some run) (Some PENDING) b), b')"
      "base_inv b'" "all_settled interrupted_row (\<lambda>a. Torn) (list_approvals None (Some run) (Some PENDING) b) b b'"
    using closing.each_settles[OF assms, of "list_approvals None (Some run) (Some PENDING) b"]
      list_approvals_distinct[OF assms, of "\<lambda>a. True" "Some run" "Some PENDING"] pending_rows[OF assms, of _ "Some run"] by auto
  then show ?thesis using none_pending[OF assms b'(2,3)] by (auto simp: interrupt_run_def interrupted_row_def)
qed

text \<open>Startup: a record that is still pending afterwards has a turn of this process behind it.\<close>

lemma interrupt_orphans_settles:
  assumes "base_inv b"
  shows "\<exists>xs b'. interrupt_orphans b = Inr (xs, b') \<and> base_inv b'
    \<and> (\<forall>a. pending_row b' a \<longleftrightarrow> pending_row b a \<and> ap_approval_id a \<in> set (br_waiting b))
    \<and> (\<forall>aid \<in> set (br_waiting b). aid \<in> set (br_waiting b') \<and> tget (br_futures b') aid = tget (br_futures b) aid)"
proof -
  let ?as = "filter (\<lambda>a. ap_approval_id a \<notin> set (br_waiting b)) (list_approvals None None (Some PENDING) b)"
  have rows: "pending_row b a \<and> True" if "a \<in> set ?as" for a
    using that pending_rows(1)[OF assms, of a None] by simp
  have "\<exists>b'. each interrupt_one ?as b = Inr (map (\<lambda>a. interrupted_row (is_waiting (ap_approval_id a) b) a) ?as, b')
      \<and> base_inv b' \<and> all_settled interrupted_row (\<lambda>a. Torn) ?as b b'"
    by (rule closing.each_settles[OF assms list_approvals_distinct[OF assms]]) (rule rows)
  then obtain b' where b': "each interrupt_one ?as b = Inr (map (\<lambda>a. interrupted_row (is_waiting (ap_approval_id a) b) a) ?as, b')"
      "base_inv b'" and all: "all_settled interrupted_row (\<lambda>a. Torn) ?as b b'"
    by (elim exE conjE)
  have "pending_row b' a \<longleftrightarrow> pending_row b a \<and> ap_approval_id a \<in> set (br_waiting b)" for a
  proof (cases "ap_approval_id a \<in> ap_approval_id ` set ?as")
    case True
    then obtain x where x: "ap_approval_id a = ap_approval_id x" "x \<in> set ?as" by (rule imageE)
    have "tget (br_approvals b') (ap_approval_id a) = Some (interrupted_row (is_waiting (ap_approval_id x) b) x)"
      unfolding x(1) by (rule conjunct1[OF bspec[OF conjunct1[OF all[unfolded all_settled_def]] x(2)]])
    moreover have "ap_status (interrupted_row w x) \<noteq> PENDING" for w by (simp add: interrupted_row_def)
    ultimately have "\<not> pending_row b' a" by (metis option.inject pending_row_def)
    moreover have "ap_approval_id a \<notin> set (br_waiting b)" using x(2) unfolding x(1) by simp
    ultimately show ?thesis by simp
  next
    case False
    then have "tget (br_approvals b') (ap_approval_id a) = tget (br_approvals b) (ap_approval_id a)"
      using all unfolding all_settled_def by presburger
    then have "pending_row b' a \<longleftrightarrow> pending_row b a" by (simp add: pending_row_def)
    moreover have "ap_approval_id a \<in> set (br_waiting b)" if "pending_row b a"
    proof (rule ccontr)
      assume "ap_approval_id a \<notin> set (br_waiting b)"
      then have "a \<in> set ?as" using that by (simp add: list_approvals_rows[OF assms] pending_row_def)
      then show False using False by blast
    qed
    ultimately show ?thesis by blast
  qed
  moreover have "aid \<in> set (br_waiting b') \<and> tget (br_futures b') aid = tget (br_futures b) aid" if "aid \<in> set (br_waiting b)" for aid
  proof -
    have "aid \<notin> ap_approval_id ` set ?as" using that by auto
    then show ?thesis using all that unfolding all_settled_def by presburger
  qed
  ultimately show ?thesis using b' by (auto simp: interrupt_orphans_def)
qed

end
