(* ===== verification/Approval_Properties.thy ===== *)
theory Approval_Properties
  imports Approval_Closing
begin

text \<open>
  The properties of the approval broker, its grants and its policy, each after the sentence it makes precise.
\<close>

section \<open>Patterns\<close>

text \<open>What a rule of the configuration covers: the texts its pattern describes, and with a trailing \<open>**\<close> also those of the rest.\<close>

definition covers :: "string \<Rightarrow> string \<Rightarrow> bool" where
  "covers p s \<longleftrightarrow> described (tokens p) s \<or> (\<exists>h. p = h @ '' **'' \<and> described (tokens h) s)"

definition literal :: "string \<Rightarrow> bool" where
  "literal s \<longleftrightarrow> CHR ''*'' \<notin> set s \<and> CHR ''?'' \<notin> set s \<and> CHR ''['' \<notin> set s"

lemma rpartition_space_iff: "rpartition_space p = Some (h, ''**'') \<longleftrightarrow> p = h @ '' **''"
proof
  assume "rpartition_space p = Some (h, ''**'')"
  then obtain c t w where t: "dropWhile (\<lambda>c. c \<noteq> CHR '' '') (rev p) = c # t" "h = rev t"
      and w: "takeWhile (\<lambda>c. c \<noteq> CHR '' '') (rev p) = w" "rev w = ''**''"
    by (auto simp: rpartition_space_def split: list.split_asm)
  have "c = CHR '' ''" using t(1) hd_dropWhile[of "\<lambda>c. c \<noteq> CHR '' ''" "rev p"] by simp
  moreover have "rev p = w @ c # t"
    using takeWhile_dropWhile_id[of "\<lambda>c. c \<noteq> CHR '' ''" "rev p"] unfolding t(1) w(1) by (rule sym)
  then have "p = rev (w @ c # t)" by (rule rev_swap[THEN iffD1])
  ultimately show "p = h @ '' **''" using w(2) t(2) by simp
qed (simp add: rpartition_space_def)

lemma matches_covers: "matches s p \<longleftrightarrow> covers p s"
proof -
  have "(case rpartition_space p of None \<Rightarrow> False | Some (head, tail) \<Rightarrow> tail = ''**'' \<and> described (tokens head) s)
      \<longleftrightarrow> (\<exists>h. rpartition_space p = Some (h, ''**'') \<and> described (tokens h) s)"
    by (auto split: option.split)
  then show ?thesis unfolding matches_def covers_def fnmatchcase_described rpartition_space_iff by (rule arg_cong)
qed

lemma tokens_literal_only: "literal p \<Longrightarrow> tokens (p @ t) = map Lit p @ tokens t"
  by (rule tokens_literal) (auto simp: literal_def)

lemma covers_arguments:
  assumes "literal p"
  shows "covers (p @ '' **'') s \<longleftrightarrow> s = p \<or> (\<exists>t. s = p @ '' '' @ t)"
proof -
  have "tokens (p @ '' **'') = map Lit (p @ '' '') @ [Star, Star]" using tokens_literal_only[OF assms] by simp
  then have "described (tokens (p @ '' **'')) s \<longleftrightarrow> (\<exists>t. s = (p @ '' '') @ t)" by (simp only: described_literal described_stars simp_thms)
  moreover have "described (tokens p) s \<longleftrightarrow> s = p" using tokens_literal_only[OF assms, of "[]"] described_literal[of p "[]" s] by simp
  ultimately show ?thesis by (auto simp: covers_def)
qed

text \<open>
  C36 The configured policy. A shell command is refused when a deny rule covers it, put to a person when an ask rule does,
  allowed when an allow rule does, and only without any such rule decided by \<open>auto_approve\<close> and the capability list; a rule
  without wildcards before a trailing \<open>**\<close> covers exactly the bare command and the command with arguments; and the turn of a
  read-only agent gets what the policy says for reads and a refusal for everything else.
\<close>

theorem policy_rules:
  assumes "c \<noteq> []"
  shows "policy_decision_for policy (Some \<lparr>ps_capability = BASH, ps_value = Some c\<rparr>) False =
      (if \<exists>p \<in> set (bc_deny (ac_bash policy)). covers p (collapse c) then DENY
       else if \<exists>p \<in> set (bc_ask (ac_bash policy)). covers p (collapse c) then ASK
       else if (\<exists>p \<in> set (bc_allow (ac_bash policy)). covers p (collapse c)) \<or> ac_auto_approve policy \<or> BASH \<in> set (ac_allow policy) then ALLOW
       else ASK)
    \<and> (\<forall>p s. literal p \<longrightarrow> (covers (p @ '' **'') s \<longleftrightarrow> s = p \<or> (\<exists>t. s = p @ '' '' @ t)))
    \<and> (\<forall>scope. policy_decision_for policy scope True =
         (case scope of Some s \<Rightarrow> if ps_capability s = READ then policy_decision_for policy scope False else DENY | None \<Rightarrow> DENY))"
proof -
  have "policy_decision_for policy scope True =
      (case scope of Some s \<Rightarrow> if ps_capability s = READ then policy_decision_for policy scope False else DENY | None \<Rightarrow> DENY)" for scope
    by (simp add: policy_decision_for_def split: option.split)
  then show ?thesis using assms
    by (simp add: policy_decision_for_def bash_decision_def list_ex_iff matches_covers covers_arguments)
qed

section \<open>Scopes\<close>

lemma command_scope:
  assumes "ap_kind r = COMMAND_EXECUTION" and "ap_cwd r = Some d" and "ap_command r = Some c" and "d \<noteq> []" and "collapse c \<noteq> []"
  shows "normalized_scope env r = Some (''command_execution|'' @ normpath d @ ''|'' @ collapse c)"
  using assms by (simp add: normalized_scope_def Let_def collapsed_def directory_def)

definition colliding :: "approval \<Rightarrow> approval \<Rightarrow> bool" where
  "colliding r s \<longleftrightarrow> ap_kind r = COMMAND_EXECUTION \<and> ap_cwd r = Some ''/a'' \<and> ap_command r = Some ''b|c''
     \<and> ap_kind s = COMMAND_EXECUTION \<and> ap_cwd s = Some ''/a|b'' \<and> ap_command s = Some ''c''"

lemma collapse_values: "collapse ''b|c'' = ''b|c''" "collapse ''c'' = ''c''" "normpath ''/a'' = ''/a''" "normpath ''/a|b'' = ''/a|b''"
  by code_simp+

text \<open>
  C34 Equal scopes. As long as no directory or tool name contains a bar and no path a comma, two requests have the same canonical
  line exactly when they are the same action part by part. Without that the line does not tell the parts apart: the grant given
  for the command \<open>b|c\<close> in \<open>/a\<close> answers the command \<open>c\<close> in \<open>/a|b\<close>.
\<close>

theorem scope_exact:
  "(\<forall>r s. separable env r \<and> separable env s \<longrightarrow>
      (normalized_scope env r \<noteq> None \<and> normalized_scope env r = normalized_scope env s \<longleftrightarrow> same_action env r s))
   \<and> (\<forall>r s g. colliding r s \<and> session_grant_from env u n r = Some g \<and> ACCEPT_FOR_SESSION \<in> set (ap_allowed_decisions s)
        \<and> ap_instance_id s = ap_instance_id r \<and> ap_runner s = ap_runner r \<and> ap_workspace_id s = ap_workspace_id r \<longrightarrow>
        \<not> same_action env r s \<and> matching_grant env s [g] = Some g)"
proof (intro conjI allI impI; elim conjE)
  fix r s assume "separable env r" "separable env s"
  then show "normalized_scope env r \<noteq> None \<and> normalized_scope env r = normalized_scope env s \<longleftrightarrow> same_action env r s" by (rule scope_equal)
next
  fix r s g assume c: "colliding r s" and g: "session_grant_from env u n r = Some g" "ACCEPT_FOR_SESSION \<in> set (ap_allowed_decisions s)"
    "ap_instance_id s = ap_instance_id r" "ap_runner s = ap_runner r" "ap_workspace_id s = ap_workspace_id r"
  show "\<not> same_action env r s" using c by (simp add: colliding_def same_action_def collapsed_def collapse_values)
  have "normalized_scope env r = normalized_scope env s" using c by (simp add: colliding_def command_scope collapse_values)
  then show "matching_grant env s [g] = Some g" using c g
    by (auto simp: session_grant_from_def matching_grant_def is_active_def colliding_def split: option.split_asm if_split_asm)
qed

section \<open>Answers\<close>


text \<open>
  C14 Consent is reused only where it was given. A stored request that was answered from a session grant was offered an
  acceptance for the session, and there is a stored request of the same conversation, runner, workspace, kind and canonical line that
  a person accepted for the session; when neither request's parts contain a separator it asked for the same action. A
  request that requires a person is stored as pending whatever the policy and the grants say.
\<close>

theorem grant_has_consent:
  assumes "broker_run env policy ls b"
  shows "(\<forall>aid a. load_approval aid b = Some a \<and> ap_decision_source a = Some FROM_SESSION_GRANT \<longrightarrow>
      ap_decision a = Some ACCEPT_FOR_SESSION \<and> ACCEPT_FOR_SESSION \<in> set (ap_allowed_decisions a)
      \<and> (\<exists>aid0 a0. load_approval aid0 b = Some a0 \<and> same_terms env a0 a \<and> (separable env a0 \<and> separable env a \<longrightarrow> same_action env a0 a)))
    \<and> (\<forall>tn u n rq b'. aq_requires_human rq \<and> request_approval env policy tn u n rq b = Inr b' \<longrightarrow>
      load_approval (ap_approval_id (new_record tn u n rq)) b' = Some (new_record tn u n rq))"
proof (intro conjI allI impI, goal_cases)
  case (1 aid a)
  then show ?case using run_broker_inv[OF assms] by (auto simp: broker_inv_def consent_inv_def load_approval_def)
next
  case (2 aid a)
  then show ?case using run_broker_inv[OF assms] by (auto simp: broker_inv_def consent_inv_def load_approval_def)
next
  case (3 aid a)
  then have "consented env b a" using run_broker_inv[OF assms] by (auto simp: broker_inv_def consent_inv_def load_approval_def)
  then obtain aid0 a0 where a0: "load_approval aid0 b = Some a0" "same_terms env a0 a" by (auto simp: consented_def load_approval_def)
  have "same_action env a0 a" if "separable env a0" "separable env a"
    using scope_equal[OF that] a0(2) by (auto simp: same_terms_def)
  with a0 show ?case by blast
next
  case (4 tn u n rq b')
  then have "request_approval env policy tn u n rq b = Inr b'" "configured_decision policy tn rq = None" by (auto simp: configured_decision_def)
  then show ?case using 4 by (cases rule: request_approvalE) (auto simp: load_approval_def)
qed

section \<open>Closing\<close>


text \<open>
  When the observer of a decision raises, the request is put back as if nothing had happened; but the decision is stored, so no
  decision is accepted any more and stopping the run passes the turn by.
\<close>

lemma observer_failure_strands:
  assumes "broker_run env policy ls b" and "tget (br_writing b) aid = Some r" and "tget (br_futures b) aid = Some Parked"
  shows "is_waiting aid (put_back aid b) \<and> (\<exists>a. load_approval aid (put_back aid b) = Some a \<and> answered a r)
    \<and> isl (broker_decide env u n aid d iid run src (put_back aid b))
    \<and> (\<forall>xs b'. cancel_run env u clock run' (put_back aid b) = Inr (xs, b') \<longrightarrow> is_waiting aid b')"
proof -
  let ?b = "put_back aid b"
  have b: "broker_run env policy (ls @ [Quiet]) ?b" by (rule run_more[OF assms(1) observer_failed[OF assms(2)]])
  then have inv: "base_inv ?b" using run_broker_inv by (auto simp: broker_inv_def)
  have waits: "is_waiting aid ?b" using assms(3) by (simp add: is_waiting_def put_back_def)
  obtain a where a: "tget (br_approvals ?b) aid = Some a" "answered a r"
    using run_broker_inv[OF assms(1)] assms(2) unfolding broker_inv_def told_inv_def on_record_def put_back_def by fastforce
  have refused: "isl (broker_decide env u n aid d iid run src ?b)"
    using a by (auto simp: broker_decide_def open_record_def load_approval_def answered_def)
  have "is_waiting aid b'" if c: "cancel_run env u clock run' ?b = Inr (xs, b')" for xs b'
  proof -
    have all: "all_settled (cancelled_row clock) cancelled_fate (list_approvals None (Some run') (Some PENDING) ?b) ?b b'"
      using cancel_run_settles[OF inv, of env u clock run'] c by auto
    have "x \<notin> set (list_approvals None (Some run') (Some PENDING) ?b)" if "ap_approval_id x = aid" for x
      using a that by (auto simp: list_approvals_rows[OF inv] answered_def)
    then have "aid \<notin> ap_approval_id ` set (list_approvals None (Some run') (Some PENDING) ?b)" by blast
    then show ?thesis using all waits unfolding all_settled_def is_waiting_def by presburger
  qed
  then show ?thesis using waits refused a by (auto simp: load_approval_def)
qed

end
