(* ===== verification/Approval_Witnesses.thy ===== *)
theory Approval_Witnesses
  imports Approval_Properties
begin

text \<open>
  A run of the broker: a command is put to a person, who accepts it for the session; the same command, written
  with other spaces, is then answered from the grant; a third request is still open.
\<close>

definition wenv :: grant_env where
  "wenv = \<lparr>ge_loads = (\<lambda>s. None), ge_dumps = (\<lambda>v. [])\<rparr>"

definition wpolicy :: approval_config where
  "wpolicy = \<lparr>ac_auto_approve = False, ac_allow = [READ], ac_bash = \<lparr>bc_allow = [''ls **''], bc_ask = [], bc_deny = [''rm **'']\<rparr>\<rparr>"

definition wturn :: turn where
  "wturn = \<lparr>tn_agent_run_id = ''r'', tn_instance_id = ''i'', tn_runner = ''c'', tn_workspace_id = None, tn_translator = None, tn_read_only = False\<rparr>"

definition wrequest :: "string \<Rightarrow> bool \<Rightarrow> approval_request" where
  "wrequest c human = \<lparr>aq_approval_id = ''p'', aq_kind = COMMAND_EXECUTION, aq_reason = None, aq_command = Some c, aq_cwd = Some ''/w'',
     aq_tool_name = None, aq_tool_call_id = None, aq_arguments = None,
     aq_allowed_decisions = [ACCEPT, ACCEPT_FOR_SESSION, CANCEL], aq_questions = [], aq_requires_human = human\<rparr>"

definition ws1 :: broker where "ws1 = create_instance ''i'' empty_broker"
definition ws2 :: broker where "ws2 = projr (request_approval wenv wpolicy wturn ''1'' ''t'' (wrequest ''go on'' False) ws1)"
definition ws3 :: broker where "ws3 = park ''apv-1'' (wrequest ''go on'' False) ws2"
definition ws4 :: broker where "ws4 = snd (projr (broker_decide wenv ''2'' ''t'' ''apv-1'' ACCEPT_FOR_SESSION ''i'' (Some ''r'') FROM_USER ws3))"
definition ws5 :: broker where "ws5 = hand_over ''apv-1'' (Decision ACCEPT_FOR_SESSION) ws4"
definition ws6 :: broker where "ws6 = forget ''apv-1'' ws5"
definition ws7 :: broker where "ws7 = projr (request_approval wenv wpolicy wturn ''3'' ''t'' (wrequest '' go  on'' False) ws6)"
definition ws8 :: broker where "ws8 = ws7\<lparr>br_returning := tdel ''apv-3'' (br_returning ws7)\<rparr>"
definition ws9 :: broker where "ws9 = projr (request_approval wenv wpolicy wturn ''4'' ''t'' (wrequest ''go on'' True) ws8)"
definition ws10 :: broker where "ws10 = park ''apv-4'' (wrequest ''go on'' True) ws9"

lemma ws2_ok: "fresh_for ''1'' ws1 \<and> \<not> isl (request_approval wenv wpolicy wturn ''1'' ''t'' (wrequest ''go on'' False) ws1)"
  by code_simp

lemma ws3_ok: "tget (br_opening ws2) ''apv-1'' = Some (wrequest ''go on'' False)"
  by code_simp

lemma ws4_ok: "fresh_for ''2'' ws3 \<and> \<not> isl (broker_decide wenv ''2'' ''t'' ''apv-1'' ACCEPT_FOR_SESSION ''i'' (Some ''r'') FROM_USER ws3)"
  by code_simp

lemma ws5_ok: "tget (br_writing ws4) ''apv-1'' = Some (Decision ACCEPT_FOR_SESSION)"
  by code_simp

lemma ws6_ok: "tget (br_futures ws5) ''apv-1'' = Some (Told (Decision ACCEPT_FOR_SESSION))"
  by code_simp

lemma ws7_ok: "fresh_for ''3'' ws6 \<and> \<not> isl (request_approval wenv wpolicy wturn ''3'' ''t'' (wrequest '' go  on'' False) ws6)"
  by code_simp

lemma ws8_ok: "tget (br_returning ws7) ''apv-3'' = Some ACCEPT_FOR_SESSION"
  by code_simp

lemma ws9_ok: "fresh_for ''4'' ws8 \<and> \<not> isl (request_approval wenv wpolicy wturn ''4'' ''t'' (wrequest ''go on'' True) ws8)"
  by code_simp

lemma ws10_ok: "tget (br_opening ws9) ''apv-4'' = Some (wrequest ''go on'' True)"
  by code_simp

lemma projr_request: "\<not> isl x \<Longrightarrow> x = Inr (projr x)"
  by (cases x) auto

lemma projr_pair: "\<not> isl x \<Longrightarrow> x = Inr (fst (projr x), snd (projr x))"
  by (cases x) auto

lemma ws1_run: "broker_run wenv wpolicy [Quiet] ws1"
  using run_more[OF run_empty instance_created, of wenv wpolicy "''i''"] by (simp add: ws1_def)

lemma ws3_run: "broker_run wenv wpolicy [Quiet, Quiet, Quiet] ws3"
proof -
  have "broker_step wenv wpolicy ws1 Quiet ws2"
    unfolding ws2_def by (rule requested[OF conjunct1[OF ws2_ok] projr_request[OF conjunct2[OF ws2_ok]]])
  moreover have "broker_step wenv wpolicy ws2 Quiet ws3" unfolding ws3_def by (rule parked[OF ws3_ok])
  ultimately show ?thesis using run_more[OF run_more[OF ws1_run]] by fastforce
qed

lemma ws6_run: "broker_run wenv wpolicy [Quiet, Quiet, Quiet, Quiet, Quiet, Told_turn ''apv-1'' (Decision ACCEPT_FOR_SESSION)] ws6"
proof -
  have "broker_step wenv wpolicy ws3 Quiet ws4"
    unfolding ws4_def by (rule decided[OF conjunct1[OF ws4_ok] projr_pair[OF conjunct2[OF ws4_ok]]])
  moreover have "broker_step wenv wpolicy ws4 Quiet ws5" unfolding ws5_def by (rule handed_over[OF ws5_ok])
  moreover have "broker_step wenv wpolicy ws5 (Told_turn ''apv-1'' (Decision ACCEPT_FOR_SESSION)) ws6"
    unfolding ws6_def by (rule resumed[OF ws6_ok])
  ultimately show ?thesis using run_more[OF run_more[OF run_more[OF ws3_run]]] by fastforce
qed

definition wlabels :: "broker_label list" where
  "wlabels = [Quiet, Quiet, Quiet, Quiet, Quiet, Told_turn ''apv-1'' (Decision ACCEPT_FOR_SESSION), Quiet,
     Told_turn ''apv-3'' (Decision ACCEPT_FOR_SESSION), Quiet, Quiet]"

lemma ws10_run: "broker_run wenv wpolicy wlabels ws10"
proof -
  have "broker_step wenv wpolicy ws6 Quiet ws7"
    unfolding ws7_def by (rule requested[OF conjunct1[OF ws7_ok] projr_request[OF conjunct2[OF ws7_ok]]])
  moreover have "broker_step wenv wpolicy ws7 (Told_turn ''apv-3'' (Decision ACCEPT_FOR_SESSION)) ws8"
    unfolding ws8_def by (rule told_unasked[OF ws8_ok])
  moreover have "broker_step wenv wpolicy ws8 Quiet ws9"
    unfolding ws9_def by (rule requested[OF conjunct1[OF ws9_ok] projr_request[OF conjunct2[OF ws9_ok]]])
  moreover have "broker_step wenv wpolicy ws9 Quiet ws10" unfolding ws10_def by (rule parked[OF ws10_ok])
  ultimately show ?thesis using run_more[OF run_more[OF run_more[OF run_more[OF ws6_run]]]] by (fastforce simp: wlabels_def)
qed

section \<open>The properties at this run\<close>


lemma ws10_granted:
  "(case load_approval ''apv-3'' ws10 of None \<Rightarrow> False | Some a \<Rightarrow> ap_decision_source a = Some FROM_SESSION_GRANT)"
  by code_simp

theorem grant_has_consent_witness:
  "\<exists>a aid0 a0. load_approval ''apv-3'' ws10 = Some a \<and> load_approval aid0 ws10 = Some a0 \<and> same_terms wenv a0 a"
proof -
  obtain a where "load_approval ''apv-3'' ws10 = Some a" "ap_decision_source a = Some FROM_SESSION_GRANT"
    using ws10_granted by (auto split: option.split_asm)
  then show ?thesis using grant_has_consent[OF ws10_run] by blast
qed

lemma ws10_open: "is_waiting ''apv-4'' ws10 \<and> map ap_approval_id (list_approvals None (Some ''r'') (Some PENDING) ws10) = [''apv-4'']"
  by code_simp


definition wapproval :: "string \<Rightarrow> string \<Rightarrow> approval" where
  "wapproval d c = \<lparr>ap_approval_id = ''apv-'' @ c, ap_agent_run_id = ''r'', ap_instance_id = ''i'', ap_runner = ''c'', ap_kind = COMMAND_EXECUTION,
     ap_requested_at = ''t'', ap_reason = None, ap_command = Some c, ap_cwd = Some d, ap_tool_name = None, ap_tool_call_id = None,
     ap_workspace_id = None, ap_arguments = None, ap_allowed_decisions = [ACCEPT_FOR_SESSION], ap_status = PENDING, ap_decision = None,
     ap_decision_source = None, ap_decided_at = None, ap_questions = None, ap_answers = None\<rparr>"

theorem scope_exact_witness:
  "\<exists>g. session_grant_from wenv ''1'' ''t'' (wapproval ''/a'' ''b|c'') = Some g
     \<and> matching_grant wenv (wapproval ''/a|b'' ''c'') [g] = Some g \<and> \<not> same_action wenv (wapproval ''/a'' ''b|c'') (wapproval ''/a|b'' ''c'')"
proof -
  have scope: "normalized_scope wenv (wapproval ''/a'' ''b|c'') = Some (''command_execution|'' @ ''/a'' @ ''|'' @ ''b|c'')"
    by (subst command_scope[of _ "''/a''" "''b|c''"]) (simp_all add: wapproval_def collapse_values)
  then obtain g where "session_grant_from wenv ''1'' ''t'' (wapproval ''/a'' ''b|c'') = Some g"
    by (simp add: session_grant_from_def wapproval_def)
  moreover have "colliding (wapproval ''/a'' ''b|c'') (wapproval ''/a|b'' ''c'')" by (simp add: colliding_def wapproval_def)
  moreover have "ACCEPT_FOR_SESSION \<in> set (ap_allowed_decisions (wapproval ''/a|b'' ''c''))"
    "ap_instance_id (wapproval ''/a|b'' ''c'') = ap_instance_id (wapproval ''/a'' ''b|c'')"
    "ap_runner (wapproval ''/a|b'' ''c'') = ap_runner (wapproval ''/a'' ''b|c'')"
    "ap_workspace_id (wapproval ''/a|b'' ''c'') = ap_workspace_id (wapproval ''/a'' ''b|c'')" by (simp_all add: wapproval_def)
  ultimately show ?thesis using scope_exact[of wenv "''1''" "''t''"] by blast
qed

lemma wcommands: "covers ''rm **'' (collapse ''rm  -r x'') \<and> literal ''rm''"
  by (simp add: matches_covers[symmetric]) code_simp

theorem policy_rules_witness:
  "policy_decision_for wpolicy (Some \<lparr>ps_capability = BASH, ps_value = Some ''rm  -r x''\<rparr>) False = DENY
   \<and> (covers (''rm'' @ '' **'') ''rm'' \<and> \<not> covers (''rm'' @ '' **'') ''rmdir'')"
proof -
  note rules = policy_rules[of "''rm  -r x''" wpolicy, simplified]
  have "\<exists>p \<in> set (bc_deny (ac_bash wpolicy)). covers p (collapse ''rm  -r x'')" using wcommands by (simp add: wpolicy_def)
  then have "policy_decision_for wpolicy (Some \<lparr>ps_capability = BASH, ps_value = Some ''rm  -r x''\<rparr>) False = DENY"
    using conjunct1[OF rules] by presburger
  moreover have "covers (''rm'' @ '' **'') s \<longleftrightarrow> s = ''rm'' \<or> (\<exists>t. s = ''rm'' @ '' '' @ t)" for s
    using policy_rules[of "''rm  -r x''" wpolicy] wcommands by blast
  ultimately show ?thesis by simp
qed

end
