(* ===== verification/Spec2Isabelle.thy ===== *)
theory Spec2Isabelle
  imports Daemon_Witnesses Wire_Properties Vcp_Witnesses Graph_Witnesses Registry_Witnesses Tool_Properties
    Approval_Witnesses
begin

text \<open>
  OpenEngine runs agents on graphs of steps inside isolated workspaces. This development models the
  core of its second generation, the Python services under \<open>src/v2\<close>, and the approval broker of the
  first generation's runtime, and proves what makes each of them correct. Definitions keep the names of the code where HOL allows it.

  \<^bold>\<open>The parts and how they interact.\<close> A client sends a command or a query as a NATS request. The
  messaging server (\<open>packages/messaging\<close>) finds the tenant, checks and authorizes the request, and calls
  the route's handler. The graph engine (\<open>services/graph_engine\<close>) keeps graphs that pass the checks
  of the graph language (\<open>packages/contracts\<close>). The virtual control plane, VCP
  (\<open>services/virtual_control_plane\<close>), owns workspaces: it accepts commands, calls providers,
  sends commands to the daemon that runs in each workspace, and projects the updates it gets back.
  The workspace daemon (\<open>services/workspace_daemon\<close>) journals what it accepts, runs executors
  and sends its updates in order. The tool service (\<open>services/tool_service\<close>) decides whether a tool
  call is allowed.

  \<^bold>\<open>Shared theories.\<close> \<open>Prelude\<close>: the error monad \<open>sbind\<close> on sums, tables as association lists
  (\<open>tget\<close>, \<open>tput\<close>, \<open>tinsert\<close>), JSON values, decimal text, and the lemmas all components use.
  \<open>Service_Errors\<close>: \<open>messaging/errors.py\<close>. \<open>Idempotent\<close>: the contract of a handler that stores its
  reply with its effects, a locale interpreted on the daemon's execute, cancel and steer, on VCP's
  public commands and on the registry's apply.

  \<^bold>\<open>Runtime contract.\<close> \<open>Runtime_Wire\<close> has the messages between VCP and daemon, the checks of
  \<open>contracts/runtime.py\<close> that span fields, its depth guard and its time stamp order.
  \<open>Wire_Properties\<close> proves the guard exact (C13) and the order that of instants.

  \<^bold>\<open>Workspace daemon.\<close> \<open>Daemon_Store\<close> is \<open>store.py\<close>: five tables with their keys and foreign keys,
  every method of \<open>Transaction\<close>, and transactions that roll back. \<open>Daemon_Journal\<close> is \<open>journal.py\<close>:
  execute, cancel, steer, inspect, progress, finish and recover. \<open>Daemon_Worker\<close> has the
  transactions of \<open>executor.py\<close> and \<open>outbox.py\<close> and the step relation \<open>daemon_step\<close> over all their
  interleavings with crashes and restarts. \<open>Daemon_Invariants\<close>, \<open>Daemon_Safety\<close> and
  \<open>Daemon_Reachable\<close> carry the invariant through every step, \<open>Daemon_Receipts\<close> the receipts.
  \<open>Daemon_Properties\<close> (C1 to C7 and C9): at most one launch, attempts only move forward,
  capacity and sessions, contiguous updates with one terminal update each, cancels decide, redelivery,
  recovery, and the order of the outbox. \<open>Daemon_Outbox\<close> (C12) is a whole pass of the outbox with
  its retry timers, which are \<open>Retry\<close> (\<open>messaging/retry.py\<close>).

  \<^bold>\<open>VCP.\<close> \<open>Vcp_Store\<close> is \<open>persistence/durable.py\<close> and \<open>schema.py\<close>; \<open>Vcp_Lifecycle\<close>, \<open>Vcp_Execution\<close>,
  \<open>Vcp_Projection\<close> and \<open>Vcp_Delivery\<close> are \<open>application/lifecycle.py\<close>, \<open>execution.py\<close>, \<open>steering.py\<close> with
  \<open>Execution.transition\<close>, and \<open>runtime_delivery.py\<close> with \<open>outbox.py\<close>; \<open>Vcp_Commands\<close> dispatches
  the public commands and \<open>Vcp_Machine\<close> is the step relation: commands, provider calls in flight,
  updates, deliveries and restarts in any order. \<open>Vcp_Frames\<close>, the theories \<open>Vcp_*_Inv\<close>, \<open>Vcp_Invariant\<close>,
  \<open>Vcp_Reachable\<close> and \<open>Vcp_Updates\<close> prove the invariants. \<open>Vcp_Properties\<close> (C15 to C25): redelivery and
  atomic rejection, one provider call per workspace, the workspace life cycle, exact active attempts,
  settled cancels and steering, ordered updates, and that provider calls settle.
  \<open>Vcp_History\<close> has the session queries with their stored cursors and proves that paging through a
  session's history never skips or repeats an entry (C26), over \<open>Vcp_Pages\<close>, where the merged page is
  shown to equal one bounded read; \<open>Vcp_Publication\<close> (C27) is the event outbox.

  \<^bold>\<open>Graph language.\<close> \<open>Graph_Expressions\<close> is \<open>contracts/expressions.py\<close> over Python's syntax trees;
  \<open>Graph_Check\<close> is \<open>contracts/graphs.py\<close>; \<open>Graph_Search\<close> has its two graph searches with their
  correctness. \<open>Graph_Properties\<close> (C28, C30 and C31): which expressions parse, that references are complete, that the
  structural check is exact, and what an accepted graph has. \<open>Resources\<close> is the validation part
  of \<open>contracts/resources.py\<close>.

  \<^bold>\<open>Messaging.\<close> \<open>Messaging\<close> is \<open>envelopes.py\<close>, \<open>tenancy.py\<close> and \<open>server.py\<close>. \<open>Messaging_Properties\<close> (C32,
  C33 and C35): whose tenant a request gets, subjects, route keys and causal paths. Its locale \<open>authorizer\<close>
  states what a server relies on and is interpreted on the local operator.

  \<^bold>\<open>Graph engine.\<close> \<open>Graph_Store\<close> is \<open>persistence/sqlite\<close> with its tables, \<open>Graph_Registry\<close> is \<open>registry.py\<close>.
  \<open>Graph_Store_Inv\<close> has the invariant and the abstract store, a history of sources per name;
  \<open>Registry_Commands\<close>, \<open>Registry_Properties\<close> and \<open>Registry_Tenants\<close> (C37 to C40): redelivery, refinement
  of the abstract store, what is kept, isolation of tenants, and complete pages.

  \<^bold>\<open>Tool service.\<close> \<open>Tool_Authorization\<close> is \<open>authorization.py\<close>; \<open>Tool_Properties\<close> (C8 and C10) has the
  decision about a call, and what the check of a condition finds and misses.

  \<^bold>\<open>Approvals.\<close> The first generation's runtime pauses a turn for consent (\<open>packages/runtime\<close>). \<open>Approval_Policy\<close> is
  \<open>approval_policy.py\<close> with the pattern language of \<open>fnmatch\<close>; \<open>Session_Grants\<close> is \<open>session_grants.py\<close> over the records
  of \<open>domain/approvals.py\<close>; \<open>Approval_Broker\<close> is \<open>approvals.py\<close> over the approvals of the state store, cut at its
  awaits into a step relation of requests, decisions, answers, interruptions, failing observers and restarts.
  \<open>Approval_Inv\<close> has its invariants, \<open>Approval_Closing\<close> the loops that close a run's requests, with the locale
  \<open>settling\<close> for what they share. \<open>Approval_Properties\<close> (C11, C14, C29, C34, C36): turns are told once and only
  what is on record, grants go back to consent, closed runs leave nothing pending, when two requests count as one
  action, and what the policy's rules cover.

  The theories \<open>*_Witnesses\<close> run the definitions on concrete states and apply each theorem there.

  \<^bold>\<open>Conventions.\<close> A transaction is a function of the database into an error or a result with the new
  database; \<open>run_tx\<close> keeps the old one on an error. Errors are values: \<open>journal_exn\<close>, \<open>vcp_exn\<close>,
  \<open>svc_error\<close>, \<open>store_exn\<close>, \<open>fault\<close>, \<open>approval_error\<close>. The clock and new UUIDs are arguments, and what the code assumes
  of a UUID, that it is new, is a premise of the step that draws it. Time stamps are text where the code
  compares text and integers where it compares instants.

  \<^bold>\<open>Parameters.\<close> Code outside the repository is an argument: SHA-256 and canonical JSON, JSON Schema
  and YAML, Python's parser, the file system below a workspace's root, executors, providers and the
  transport (their answers), the resolver of accounts, Cedar, and URL and address parsing, the runners' readings of a request, and \<open>json\<close> of tool arguments.

  \<^bold>\<open>Bounds.\<close> No definition runs out of fuel on the inputs the theorems are about. The cycle search
  recurses at most as deep as there are names; the publication pass gets more fuel than there are
  workspaces with events, which C27 proves enough; C25 follows at most the eight failures the code
  allows; following cursors in C40 takes at most one page per graph and one more.

  \<^bold>\<open>Not modelled.\<close> Network and process code (NATS connections, agent subprocesses, virtual machines,
  worktrees, broker provisioning), the pauses of the VCP workers, telemetry, migrations, generators
  of documentation, command lines, the web application, and the rest of the first generation (\<open>packages\<close>, \<open>cli\<close>,
  \<open>apps\<close>), which runs on third-party graph and agent libraries.
\<close>

end
